(* ===== verification/Prelude.thy ===== *)
theory Prelude
  imports Main "HOL-Library.AList"
begin

section \<open>Shared vocabulary of the development\<close>

text \<open>
  What every component of the model uses: result values for code that throws, JavaScript
  numbers and the falsy string test, insertion-ordered maps (association lists updated with
  \<^const>\<open>AList.update\<close>, which is what a JavaScript \<open>Map\<close> does), the few list facts the
  components share, and the collections their proofs add to.

  Strings are HOL strings, read as UTF-8 byte sequences: concatenation, equality, prefix and
  substring tests mean the same on a JavaScript string and on its encoding.
\<close>

named_theorems row_simps \<open>how one table update acts on the lookups of the other tables\<close>
named_theorems inv_intros \<open>preservation of the components of a state invariant\<close>

subsection \<open>Results\<close>

text \<open>A call either throws (\<open>Inl\<close>, the state is untouched) or returns (\<open>Inr\<close>).\<close>

type_synonym ('e, 'a) result = "'e + 'a"

primrec is_ok :: "('e, 'a) result \<Rightarrow> bool" where
  "is_ok (Inl _) = False"
| "is_ok (Inr _) = True"

lemma is_ok_iff: "is_ok r \<longleftrightarrow> (\<exists>x. r = Inr x)"
  by (cases r) auto

text \<open>Sequencing: the first throw ends the computation.\<close>

definition and_then :: "('e, 'a) result \<Rightarrow> ('a \<Rightarrow> ('e, 'b) result) \<Rightarrow> ('e, 'b) result" where
  "and_then r k = (case r of Inl e \<Rightarrow> Inl e | Inr x \<Rightarrow> k x)"

lemma and_then_simps [simp]:
  "and_then (Inl e) k = Inl e"
  "and_then (Inr x) k = k x"
  by (simp_all add: and_then_def)

lemma and_then_ok: "and_then r k = Inr y \<longleftrightarrow> (\<exists>x. r = Inr x \<and> k x = Inr y)"
  by (cases r) auto

subsection \<open>JavaScript values\<close>

text \<open>
  A \<open>number\<close> is an integer or something \<open>Number.isInteger\<close> refuses (a fraction, NaN, an
  infinity). The model keeps integers unbounded: no operation modelled here computes with
  values near \<open>2 ^ 53\<close>.
\<close>

datatype js_number = JsInt int | JsNonInt

fun positive_int :: "js_number \<Rightarrow> bool" where
  "positive_int (JsInt i) = (1 \<le> i)"
| "positive_int JsNonInt = False"

primrec int_of_number :: "js_number \<Rightarrow> int" where
  "int_of_number (JsInt i) = i"
| "int_of_number JsNonInt = 0"

text \<open>\<open>!s\<close> for an optional string: absent and empty are both falsy.\<close>

fun truthy :: "string option \<Rightarrow> bool" where
  "truthy None = False"
| "truthy (Some s) = (s \<noteq> [])"

lemma truthy_iff: "truthy v \<longleftrightarrow> (\<exists>s. v = Some s \<and> s \<noteq> [])"
  by (cases v) auto

text \<open>\<open>a ?? b\<close> and SQL \<open>COALESCE(a, b)\<close>.\<close>

definition coalesce :: "'a option \<Rightarrow> 'a option \<Rightarrow> 'a option" where
  "coalesce a b = (case a of None \<Rightarrow> b | Some x \<Rightarrow> Some x)"

lemma coalesce_simps [simp]:
  "coalesce None b = b"
  "coalesce (Some x) b = Some x"
  "coalesce a None = a"
  by (simp_all add: coalesce_def split: option.split)

definition or_else :: "'a option \<Rightarrow> 'a \<Rightarrow> 'a" where
  "or_else a d = (case a of None \<Rightarrow> d | Some x \<Rightarrow> x)"

lemma or_else_simps [simp]:
  "or_else None d = d"
  "or_else (Some x) d = x"
  by (simp_all add: or_else_def)

text \<open>\<open>String(n)\<close> for an integer.\<close>

fun digits_of :: "nat \<Rightarrow> string" where
  "digits_of n = (if n < 10 then [char_of (48 + n)]
     else digits_of (n div 10) @ [char_of (48 + n mod 10)])"

declare digits_of.simps [simp del]

definition string_of_int :: "int \<Rightarrow> string" where
  "string_of_int i = (if i < 0 then CHR ''-'' # digits_of (nat (- i)) else digits_of (nat i))"

lemma digits_of_range: "c \<in> set (digits_of n) \<Longrightarrow> \<exists>d < 10. c = char_of (48 + d :: nat)"
proof (induction n rule: digits_of.induct)
  case (1 n)
  show ?case
  proof (cases "n < 10")
    case True
    with "1.prems" show ?thesis by (subst (asm) digits_of.simps) auto
  next
    case False
    with "1.prems" have "c \<in> set (digits_of (n div 10)) \<or> c = char_of (48 + n mod 10)"
      by (subst (asm) digits_of.simps) auto
    then show ?thesis
    proof
      assume "c \<in> set (digits_of (n div 10))"
      then show ?thesis by (rule "1.IH" [OF False])
    next
      assume "c = char_of (48 + n mod 10)"
      then show ?thesis by (intro exI [of _ "n mod 10"]) simp
    qed
  qed
qed

lemma digits_of_nonempty [simp]: "digits_of n \<noteq> []"
  by (subst digits_of.simps) simp

lemma char_of_digit_inj: "d < 10 \<Longrightarrow> e < 10 \<Longrightarrow> char_of (48 + d :: nat) = char_of (48 + e) \<Longrightarrow> d = e"
proof -
  assume "d < 10" "e < 10" "char_of (48 + d :: nat) = char_of (48 + e)"
  then have "of_char (char_of (48 + d :: nat) :: char) = (of_char (char_of (48 + e :: nat) :: char) :: nat)"
    by simp
  with \<open>d < 10\<close> \<open>e < 10\<close> show "d = e" by simp
qed

lemma digits_of_inj: "digits_of m = digits_of n \<Longrightarrow> m = n"
proof (induction m arbitrary: n rule: digits_of.induct)
  case (1 m)
  have unf: "digits_of k = (if k < 10 then [char_of (48 + k)]
      else digits_of (k div 10) @ [char_of (48 + k mod 10)])" for k
    by (rule digits_of.simps)
  show ?case
  proof (cases "m < 10")
    case True
    with "1.prems" have *: "digits_of n = [char_of (48 + m)]" by (simp add: unf [of m])
    have "n < 10"
    proof (rule ccontr)
      assume "\<not> n < 10"
      with * show False by (simp add: unf [of n])
    qed
    with * True have "char_of (48 + n) = (char_of (48 + m) :: char)" by (simp add: unf [of n])
    with True \<open>n < 10\<close> show ?thesis using char_of_digit_inj by metis
  next
    case False
    have n: "\<not> n < 10"
    proof
      assume "n < 10"
      with "1.prems" False show False by (simp add: unf [of m] unf [of n])
    qed
    with "1.prems" False have "digits_of (m div 10) = digits_of (n div 10)"
      and c: "char_of (48 + m mod 10) = (char_of (48 + n mod 10) :: char)"
      by (simp_all add: unf [of m] unf [of n])
    then have "m div 10 = n div 10" using "1.IH" [OF False] by blast
    moreover have "m mod 10 = n mod 10" using c by (intro char_of_digit_inj) auto
    ultimately show ?thesis by (metis div_mult_mod_eq)
  qed
qed

subsection \<open>Insertion-ordered maps\<close>

lemma map_of_update [simp]: "map_of (AList.update k v m) = (map_of m)(k \<mapsto> v)"
  by (simp add: update_conv')

lemma keys_update: "map fst (AList.update k v m) =
    (if k \<in> set (map fst m) then map fst m else map fst m @ [k])"
  by (induction m) auto

lemma update_new_key: "k \<notin> fst ` set m \<Longrightarrow> AList.update k v m = m @ [(k, v)]"
  by (induction m) auto

lemma not_image: "f x \<notin> f ` S \<Longrightarrow> y \<in> S \<Longrightarrow> f y \<noteq> f x"
  by (metis imageI)

lemma set_keys_map_of: "k \<in> fst ` set m \<longleftrightarrow> map_of m k \<noteq> None"
  by (metis map_of_eq_None_iff)

lemma filter_keys_update:
  assumes "map_of m k = Some v"
  shows "length (filter (\<lambda>(_, x). P x) (AList.update k w m)) + (if P v then 1 else 0) =
    length (filter (\<lambda>(_, x). P x) m) + (if P w then 1 else 0)"
  using assms by (induction m) auto

subsection \<open>Lists\<close>

lemma find_Some_iff': "List.find P xs = Some x \<Longrightarrow> x \<in> set xs \<and> P x"
  by (auto simp: find_Some_iff in_set_conv_nth)

lemma find_None_iff': "List.find P xs = None \<longleftrightarrow> (\<forall>x \<in> set xs. \<not> P x)"
  by (auto simp: find_None_iff)

lemma find_append: "List.find P (xs @ ys) =
    (case List.find P xs of None \<Rightarrow> List.find P ys | Some x \<Rightarrow> Some x)"
  by (induction xs) auto

lemma find_unique:
  assumes "distinct (map key xs)" and "x \<in> set xs"
  shows "List.find (\<lambda>y. key y = key x) xs = Some x"
  using assms by (induction xs) (auto simp: image_iff)

lemma filter_length_card: "distinct xs \<Longrightarrow> length (filter P xs) = card {x \<in> set xs. P x}"
  by (metis distinct_card distinct_filter set_filter)

end
