(* ===== verification/Runtime.thy ===== *)
theory Runtime
  imports Prelude "HOL-Library.Char_ord" "HOL-Library.List_Lexorder" "HOL-Library.Multiset"
begin

section \<open>Time, JSON and SQL values\<close>

text \<open>
  What the ledger code takes from its runtime: the clock and random tokens (one reading per call,
  in \<open>run_env\<close>), \<open>Date.parse\<close>, JSON values with \<open>JSON.stringify\<close> and the canonical encoding of
  config/src/canonical-json.ts, and the SQL aggregate \<open>MAX\<close>.
\<close>

subsection \<open>Dates\<close>

text \<open>
  \<open>iso_utc\<close> reads the format \<open>toISOString\<close> writes, \<open>YYYY-MM-DDTHH:mm:ss.sssZ\<close>, into milliseconds.
  ECMAScript fixes \<open>Date.parse\<close> on that format; on any other text the engine decides, so the
  environment supplies it (\<open>other_date\<close>, \<open>None\<close> for NaN).
\<close>

definition digit_value :: "char \<Rightarrow> int option" where
  "digit_value c = map_of [(CHR ''0'', 0), (CHR ''1'', 1), (CHR ''2'', 2), (CHR ''3'', 3), (CHR ''4'', 4),
     (CHR ''5'', 5), (CHR ''6'', 6), (CHR ''7'', 7), (CHR ''8'', 8), (CHR ''9'', 9)] c"

fun digits_value :: "int \<Rightarrow> string \<Rightarrow> int option" where
  "digits_value acc [] = Some acc"
| "digits_value acc (c # cs) =
     (case digit_value c of None \<Rightarrow> None | Some d \<Rightarrow> digits_value (10 * acc + d) cs)"

definition leap_year :: "int \<Rightarrow> bool" where
  "leap_year y = (4 dvd y \<and> (\<not> 100 dvd y \<or> 400 dvd y))"

definition days_in_month :: "int \<Rightarrow> int \<Rightarrow> int" where
  "days_in_month y m =
     (if m = 2 then (if leap_year y then 29 else 28) else if m \<in> {4, 6, 9, 11} then 30 else 31)"

text \<open>Days from 1970-01-01, counting years from March.\<close>

definition days_from_civil :: "int \<Rightarrow> int \<Rightarrow> int \<Rightarrow> int" where
  "days_from_civil y m d =
     (let y' = (if m \<le> 2 then y - 1 else y);
          yoe = y' mod 400;
          doy = (153 * (if 2 < m then m - 3 else m + 9) + 2) div 5 + d - 1;
          doe = yoe * 365 + yoe div 4 - yoe div 100 + doy
      in (y' div 400) * 146097 + doe - 719468)"

definition field :: "nat \<Rightarrow> nat \<Rightarrow> string \<Rightarrow> int option" where
  "field i n s = digits_value 0 (take n (drop i s))"

definition iso_utc :: "string \<Rightarrow> int option" where
  "iso_utc s =
     (if length s = 24 \<and> s ! 4 = CHR ''-'' \<and> s ! 7 = CHR ''-'' \<and> s ! 10 = CHR ''T''
         \<and> s ! 13 = CHR '':'' \<and> s ! 16 = CHR '':'' \<and> s ! 19 = CHR ''.'' \<and> s ! 23 = CHR ''Z''
      then (case (field 0 4 s, field 5 2 s, field 8 2 s, field 11 2 s, field 14 2 s, field 17 2 s, field 20 3 s) of
              (Some y, Some mo, Some d, Some h, Some mi, Some sec, Some ms) \<Rightarrow>
                if 1 \<le> mo \<and> mo \<le> 12 \<and> 1 \<le> d \<and> d \<le> days_in_month y mo \<and> h \<le> 23 \<and> mi \<le> 59 \<and> sec \<le> 59
                then Some ((((days_from_civil y mo d * 24 + h) * 60 + mi) * 60 + sec) * 1000 + ms)
                else None
            | _ \<Rightarrow> None)
      else None)"

subsection \<open>The environment of a call\<close>

record run_env =
  now_iso :: string
  sql_now :: string
  fresh_token :: string
  sha256 :: "string \<Rightarrow> string"
  other_date :: "string \<Rightarrow> int option"

definition date_parse :: "run_env \<Rightarrow> string \<Rightarrow> int option" where
  "date_parse env s = (case iso_utc s of None \<Rightarrow> other_date env s | Some t \<Rightarrow> Some t)"

subsection \<open>JSON\<close>

text \<open>
  \<open>JFloat\<close> carries the text JavaScript prints for a number that is not an integer; \<open>JUndef\<close> is
  \<open>undefined\<close>, which may stand in an array or as a property value. The properties of an object
  are in the order \<open>Object.entries\<close> gives them. Keys are compared bytewise, which is the code's
  comparison unless a key has characters beyond the BMP.
\<close>

datatype json = JNull | JUndef | JBool bool | JInt int | JFloat string | JStr string
  | JArr "json list" | JObj "(string \<times> json) list"

definition hex_digit :: "nat \<Rightarrow> char" where
  "hex_digit n = (if n < 10 then char_of (48 + n) else char_of (87 + n))"

definition control_char :: "char \<Rightarrow> bool" where
  "control_char c = (of_char c < (32 :: nat))"

definition escape_char :: "char \<Rightarrow> string" where
  "escape_char c =
     (if c = CHR 0x22 \<or> c = CHR 0x5C then [CHR 0x5C, c]
      else if \<not> control_char c then [c]
      else if c = CHR 0x08 then [CHR 0x5C, CHR ''b'']
      else if c = CHR 0x0C then [CHR 0x5C, CHR ''f'']
      else if c = CHR 0x0A then [CHR 0x5C, CHR ''n'']
      else if c = CHR 0x0D then [CHR 0x5C, CHR ''r'']
      else if c = CHR 0x09 then [CHR 0x5C, CHR ''t'']
      else (let n = of_char c :: nat in
        [CHR 0x5C, CHR ''u'', CHR ''0'', CHR ''0'', hex_digit (n div 16), hex_digit (n mod 16)]))"

lemma control_char_code [code]:
  "control_char (Char b0 b1 b2 b3 b4 b5 b6 b7) = (\<not> b5 \<and> \<not> b6 \<and> \<not> b7)"
  by (simp add: control_char_def of_char_def)

definition quote_json :: "string \<Rightarrow> string" where
  "quote_json s = [CHR 0x22] @ concat (map escape_char s) @ [CHR 0x22]"

fun join :: "string \<Rightarrow> string list \<Rightarrow> string" where
  "join sep [] = []"
| "join sep [x] = x"
| "join sep (x # y # ys) = x @ sep @ join sep (y # ys)"

fun json_stringify :: "json \<Rightarrow> string" where
  "json_stringify JNull = ''null''"
| "json_stringify JUndef = ''null''"
| "json_stringify (JBool b) = (if b then ''true'' else ''false'')"
| "json_stringify (JInt i) = string_of_int i"
| "json_stringify (JFloat t) = t"
| "json_stringify (JStr s) = quote_json s"
| "json_stringify (JArr vs) = ''['' @ join '','' (map json_stringify vs) @ '']''"
| "json_stringify (JObj kvs) =
     ''{'' @ join '','' (concat (map (\<lambda>(k, v). if v = JUndef then []
                                     else [quote_json k @ '':'' @ json_stringify v]) kvs)) @ ''}''"

text \<open>\<open>canonicalJsonString\<close>: object keys sorted, undefined properties dropped.\<close>

fun canonicalJsonString :: "json \<Rightarrow> string" where
  "canonicalJsonString (JArr vs) = ''['' @ join '','' (map canonicalJsonString vs) @ '']''"
| "canonicalJsonString (JObj kvs) =
     ''{'' @ join '','' (map (\<lambda>(k, t). quote_json k @ '':'' @ t)
       (sort_key fst (map (\<lambda>(k, v). (k, canonicalJsonString v)) (filter (\<lambda>(_, v). v \<noteq> JUndef) kvs)))) @ ''}''"
| "canonicalJsonString v = json_stringify v"

definition canonicalSubmissionDigest :: "run_env \<Rightarrow> json \<Rightarrow> string" where
  "canonicalSubmissionDigest env payload = sha256 env (canonicalJsonString payload)"

definition jstr_or_null :: "string option \<Rightarrow> json" where
  "jstr_or_null v = (case v of None \<Rightarrow> JNull | Some s \<Rightarrow> JStr s)"

subsection \<open>SQL aggregates\<close>

text \<open>\<open>COALESCE(MAX(c), 0)\<close>, and the next key of an AUTOINCREMENT table no row is deleted from.\<close>

definition sql_max :: "int list \<Rightarrow> int" where
  "sql_max xs = (case xs of [] \<Rightarrow> 0 | x # ys \<Rightarrow> fold max ys x)"

lemma fold_max_ge: "x \<le> fold max ys x \<and> (\<forall>y \<in> set ys. y \<le> fold max ys (x :: int))"
proof (induction ys arbitrary: x)
  case Nil
  then show ?case by simp
next
  case (Cons y ys)
  from Cons.IH [of "max y x"] show ?case by auto
qed

lemma sql_max_ge: "x \<in> set xs \<Longrightarrow> x \<le> sql_max xs"
  using fold_max_ge by (cases xs) (auto simp: sql_max_def)

lemma fold_max_in: "fold max ys x \<in> insert (x :: int) (set ys)"
proof (induction ys arbitrary: x)
  case Nil
  then show ?case by simp
next
  case (Cons y ys)
  from Cons.IH [of "max y x"] show ?case by (auto simp: max_def split: if_splits)
qed

lemma sql_max_in: "xs \<noteq> [] \<Longrightarrow> sql_max xs \<in> set xs"
  using fold_max_in by (cases xs) (fastforce simp: sql_max_def)+

lemma sql_max_fresh: "sql_max xs + 1 \<notin> set xs"
  using sql_max_ge by fastforce

lemma sql_max_append1 [simp]: "sql_max (xs @ [x]) = (if xs = [] then x else max x (sql_max xs))"
  by (cases xs) (simp_all add: sql_max_def)

end
