(* ===== verification/Fsm.thy ===== *)
theory Fsm
  imports Runtime
begin

section \<open>The session state machine (core/src/workflow-fsm.ts)\<close>

text \<open>
  \<open>WorkflowFSM\<close> over a map of allowed transitions with optional guards and entry hooks, the map
  Flywheel runs on, and the table of the actions a founder may take. Statuses are strings, as in the
  code; a lookup of a status in the map is by key, so the keys an object inherits from
  \<open>Object.prototype\<close> are left out.
\<close>

record transition_ctx =
  executionId :: string
  issueId :: string
  projectName :: string
  trigger :: string
  ctx_payload :: "json option"

record audit_directive =
  ad_executionId :: string
  ad_issueId :: string
  ad_projectName :: string
  fromState :: string
  toState :: string
  ad_trigger :: string

datatype directive = Audit audit_directive

record transition_result =
  tr_ok :: bool
  newState :: string
  directives :: "directive list"
  tr_error :: "string option"

record workflow_fsm =
  transitions :: "(string \<times> string list) list"
  guards :: "(string \<times> (transition_ctx \<Rightarrow> bool)) list"
  onEnter :: "(string \<times> (transition_ctx \<Rightarrow> directive list)) list"

text \<open>The arrow of the error texts and of the guard keys.\<close>

definition arrow_between :: "string \<Rightarrow> string \<Rightarrow> string" where
  "arrow_between a b = a @ [CHR '' '', CHR 0xE2, CHR 0x86, CHR 0x92, CHR '' ''] @ b"

definition refused_transition :: "string \<Rightarrow> string \<Rightarrow> transition_result" where
  "refused_transition current msg = \<lparr>tr_ok = False, newState = current, directives = [], tr_error = Some msg\<rparr>"

definition audit_of :: "string \<Rightarrow> string \<Rightarrow> transition_ctx \<Rightarrow> audit_directive" where
  "audit_of current target ctx = \<lparr>ad_executionId = executionId ctx, ad_issueId = issueId ctx,
     ad_projectName = projectName ctx, fromState = current, toState = target, ad_trigger = trigger ctx\<rparr>"

definition canTransition :: "workflow_fsm \<Rightarrow> string \<Rightarrow> string \<Rightarrow> bool" where
  "canTransition f a b = (case map_of (transitions f) a of None \<Rightarrow> False | Some allowed \<Rightarrow> b \<in> set allowed)"

definition guard_passes :: "workflow_fsm \<Rightarrow> string \<Rightarrow> string \<Rightarrow> transition_ctx option \<Rightarrow> bool" where
  "guard_passes f current target ctx = (case ctx of None \<Rightarrow> True | Some c \<Rightarrow>
     (case map_of (guards f) (arrow_between current target) of None \<Rightarrow> True | Some g \<Rightarrow> g c))"

definition enter_directives :: "workflow_fsm \<Rightarrow> string \<Rightarrow> string \<Rightarrow> transition_ctx option \<Rightarrow> directive list" where
  "enter_directives f current target ctx = (case ctx of None \<Rightarrow> [] | Some c \<Rightarrow>
     Audit (audit_of current target c) #
       (case map_of (onEnter f) target of None \<Rightarrow> [] | Some hook \<Rightarrow> hook c))"

definition transition :: "workflow_fsm \<Rightarrow> string \<Rightarrow> string \<Rightarrow> transition_ctx option \<Rightarrow> transition_result" where
  "transition f current target ctx =
     (if \<not> (case map_of (transitions f) current of None \<Rightarrow> False | Some allowed \<Rightarrow> target \<in> set allowed)
      then refused_transition current (''Transition '' @ arrow_between current target @ '' is not allowed'')
      else if \<not> guard_passes f current target ctx
      then refused_transition current (''Guard rejected transition '' @ arrow_between current target)
      else \<lparr>tr_ok = True, newState = target, directives = enter_directives f current target ctx, tr_error = None\<rparr>)"

definition allowedTransitions :: "workflow_fsm \<Rightarrow> string \<Rightarrow> string list" where
  "allowedTransitions f current = or_else (map_of (transitions f) current) []"

definition isTerminal :: "workflow_fsm \<Rightarrow> string \<Rightarrow> bool" where
  "isTerminal f st = (map_of (transitions f) st = Some [])"

definition WORKFLOW_TRANSITIONS :: "(string \<times> string list) list" where
  "WORKFLOW_TRANSITIONS = [
     (''pending'', [''running'', ''terminated'']),
     (''running'', [''awaiting_review'', ''completed'', ''blocked'', ''failed'', ''terminated'', ''design_done'']),
     (''design_done'', [''completed'', ''blocked'', ''failed'', ''terminated'']),
     (''awaiting_review'', [''approved_to_ship'', ''completed'', ''rejected'', ''deferred'', ''shelved'', ''terminated'']),
     (''approved_to_ship'', [''awaiting_review'', ''completed'', ''blocked'', ''failed'', ''terminated'']),
     (''blocked'', [''deferred'', ''shelved'', ''terminated'']),
     (''failed'', [''shelved'', ''terminated'']),
     (''rejected'', [''shelved'', ''terminated'']),
     (''deferred'', [''shelved'', ''terminated'']),
     (''approved'', []),
     (''completed'', []),
     (''shelved'', []),
     (''terminated'', [])]"

text \<open>The machine the bridge builds: no guards, no hooks.\<close>

definition flywheel_fsm :: workflow_fsm where
  "flywheel_fsm = \<lparr>transitions = WORKFLOW_TRANSITIONS, guards = [], onEnter = []\<rparr>"

subsection \<open>Actions\<close>

record action_definition =
  act_name :: string
  fromStates :: "string list"
  targetState :: string
  composite :: bool

definition ACTION_DEFINITIONS :: "action_definition list" where
  "ACTION_DEFINITIONS = [
     \<lparr>act_name = ''approve'', fromStates = [''awaiting_review''], targetState = ''approved_to_ship'', composite = False\<rparr>,
     \<lparr>act_name = ''reject'', fromStates = [''awaiting_review''], targetState = ''rejected'', composite = False\<rparr>,
     \<lparr>act_name = ''defer'', fromStates = [''awaiting_review'', ''blocked''], targetState = ''deferred'', composite = False\<rparr>,
     \<lparr>act_name = ''retry'', fromStates = [''failed'', ''blocked'', ''rejected''], targetState = ''running'', composite = True\<rparr>,
     \<lparr>act_name = ''shelve'', fromStates = [''awaiting_review'', ''blocked'', ''failed'', ''rejected'', ''deferred''],
       targetState = ''shelved'', composite = False\<rparr>,
     \<lparr>act_name = ''terminate'', fromStates = [''pending'', ''running'', ''awaiting_review'', ''approved_to_ship'',
         ''design_done'', ''blocked'', ''failed'', ''rejected'', ''deferred''],
       targetState = ''terminated'', composite = False\<rparr>]"

definition allowedActionsForState :: "string \<Rightarrow> string list" where
  "allowedActionsForState st = map act_name (filter (\<lambda>d. st \<in> set (fromStates d)) ACTION_DEFINITIONS)"

definition getActionTarget :: "string \<Rightarrow> string option" where
  "getActionTarget act = map_option targetState (find (\<lambda>d. act_name d = act) ACTION_DEFINITIONS)"

subsection \<open>What a transition does\<close>

lemma transition_ok: "tr_ok (transition f a b ctx) \<longleftrightarrow> canTransition f a b \<and> guard_passes f a b ctx"
  by (simp add: transition_def canTransition_def refused_transition_def)

lemma transition_new: "newState (transition f a b ctx) = (if tr_ok (transition f a b ctx) then b else a)"
  by (simp add: transition_def refused_transition_def)

lemma transition_directives:
  "tr_ok (transition f a b ctx) \<Longrightarrow> directives (transition f a b ctx) = enter_directives f a b ctx"
  by (simp add: transition_def refused_transition_def split: if_splits)

lemma transition_quiet: "\<not> tr_ok (transition f a b ctx) \<Longrightarrow> directives (transition f a b ctx) = []"
  by (simp add: transition_def refused_transition_def split: if_splits)

lemma terminal_stuck: "isTerminal f a \<Longrightarrow> \<not> canTransition f a b"
  by (simp add: isTerminal_def canTransition_def)

text \<open>the action table and the transition map agree: from each of its source states an action that
  is one step leads along an edge of the map, the one composite action (retry) nowhere does, and the
  states that offer no action are exactly those without an outgoing edge.\<close>

theorem actions_are_edges:
  "(\<forall>d \<in> set ACTION_DEFINITIONS. \<forall>a \<in> set (fromStates d).
      composite d \<longleftrightarrow> \<not> canTransition flywheel_fsm a (targetState d))
   \<and> (\<forall>a. allowedActionsForState a = [] \<longleftrightarrow> allowedTransitions flywheel_fsm a = [])
   \<and> (\<forall>d \<in> set ACTION_DEFINITIONS. getActionTarget (act_name d) = Some (targetState d))"
proof (intro conjI allI)
  show "\<forall>d \<in> set ACTION_DEFINITIONS. \<forall>a \<in> set (fromStates d).
      composite d \<longleftrightarrow> \<not> canTransition flywheel_fsm a (targetState d)" by code_simp
  show "\<forall>d \<in> set ACTION_DEFINITIONS. getActionTarget (act_name d) = Some (targetState d)" by code_simp
  fix a
  have offered: "allowedActionsForState a = [] \<longleftrightarrow> a \<notin> set (concat (map fromStates ACTION_DEFINITIONS))"
    by (auto simp: allowedActionsForState_def filter_empty_conv)
  have keys: "\<forall>a \<in> set (map fst WORKFLOW_TRANSITIONS). a \<notin> set (concat (map fromStates ACTION_DEFINITIONS))
      \<longleftrightarrow> or_else (map_of WORKFLOW_TRANSITIONS a) [] = []" by code_simp
  have sub: "\<forall>a \<in> set (concat (map fromStates ACTION_DEFINITIONS)). a \<in> set (map fst WORKFLOW_TRANSITIONS)"
    by code_simp
  show "allowedActionsForState a = [] \<longleftrightarrow> allowedTransitions flywheel_fsm a = []"
  proof (cases "a \<in> set (map fst WORKFLOW_TRANSITIONS)")
    case True
    then show ?thesis using bspec [OF keys] unfolding offered allowedTransitions_def flywheel_fsm_def by simp
  next
    case False
    then have "map_of WORKFLOW_TRANSITIONS a = None" by (simp add: map_of_eq_None_iff)
    moreover have "a \<notin> set (concat (map fromStates ACTION_DEFINITIONS))" using sub False by blast
    ultimately show ?thesis unfolding offered allowedTransitions_def flywheel_fsm_def by (simp add: or_else_def)
  qed
qed

definition defer_action :: action_definition where
  "defer_action = \<lparr>act_name = ''defer'', fromStates = [''awaiting_review'', ''blocked''], targetState = ''deferred'', composite = False\<rparr>"

lemma defer_defined: "defer_action \<in> set ACTION_DEFINITIONS" "\<not> composite defer_action"
  "''blocked'' \<in> set (fromStates defer_action)" "targetState defer_action = ''deferred''"
  "act_name defer_action = ''defer''"
  by code_simp+

theorem actions_are_edges_witness:
  "canTransition flywheel_fsm ''blocked'' ''deferred'' \<and> getActionTarget ''defer'' = Some ''deferred''
   \<and> (allowedActionsForState ''completed'' = [] \<longleftrightarrow> allowedTransitions flywheel_fsm ''completed'' = [])"
  using actions_are_edges defer_defined by metis

end
