(* ===== verification/Sessions.thy ===== *)
theory Sessions
  imports Fsm
begin

section \<open>Sessions in the state store (StateStore.ts, applyTransition.ts, DirectiveExecutor.ts)\<close>

text \<open>
  The \<open>sessions\<close>, \<open>session_events\<close> and \<open>retry_dispatch_intents\<close> tables and every operation of the
  store that writes them; \<open>applyTransition\<close> and the audit executor on top. A session is a row
  keyed by its execution id; the columns no operation treats specially are the cells of the row.
\<close>

subsection \<open>Rows\<close>

text \<open>A number is kept as the text it prints; columns go by their names.\<close>

datatype sql_value = Txt string | Num string

type_synonym session_column = string

text \<open>A property of a \<open>Partial<SessionUpsert>\<close>, and \<open>fields.x ?? null\<close>.\<close>

datatype js_field = Undefined | Null | Value sql_value

fun nullish :: "js_field \<Rightarrow> sql_value option" where
  "nullish (Value v) = Some v"
| "nullish _ = None"

type_synonym session_fields = "session_column \<Rightarrow> js_field"

record worktree_binding =
  wb_path :: string
  wb_branch :: string
  wb_generation :: string
  wb_locked_at :: string

record session_row =
  status :: string
  lifecycle_revision :: nat
  awaiting_review_entered_at :: "string option"
  gate_timeout_notified_at :: "string option"
  review_question_id :: "string option"
  binding :: "worktree_binding option"
  cells :: "session_column \<Rightarrow> sql_value option"

record session_event =
  event_id :: string
  ev_ts :: string
  ev_execution :: string
  ev_issue :: string
  ev_project :: string
  event_type :: string
  severity :: string
  ev_payload :: "string option"
  ev_source :: string

record retry_intent =
  request_id :: string
  successor_execution_id :: string
  predecessor_execution_id :: string
  intent_state :: string
  intent_updated_at :: string

record session_store =
  sessions :: "(string \<times> session_row) list"
  session_events :: "session_event list"
  retry_dispatch_intents :: "retry_intent list"

datatype session_error = Not_null | Unique

definition empty_session_store :: session_store where
  "empty_session_store = \<lparr>sessions = [], session_events = [], retry_dispatch_intents = []\<rparr>"

definition awaiting_review :: string where "awaiting_review = ''awaiting_review''"
definition running_status :: string where "running_status = ''running''"
definition pending_status :: string where "pending_status = ''pending''"
definition main_role :: string where "main_role = ''main''"

definition getSession :: "session_store \<Rightarrow> string \<Rightarrow> session_row option" where
  "getSession s e = map_of (sessions s) e"

text \<open>\<open>UPDATE sessions SET ... WHERE execution_id = ?\<close>.\<close>

definition update_session :: "string \<Rightarrow> (session_row \<Rightarrow> session_row) \<Rightarrow> session_store \<Rightarrow> session_store" where
  "update_session e f s = (case getSession s e of None \<Rightarrow> s
     | Some r \<Rightarrow> s\<lparr>sessions := AList.update e (f r) (sessions s)\<rparr>)"

definition set_cell :: "session_column \<Rightarrow> sql_value option \<Rightarrow> session_row \<Rightarrow> session_row" where
  "set_cell c v r = r\<lparr>cells := (cells r)(c := v)\<rparr>"

subsection \<open>Statuses\<close>

definition OUTCOME_STATUSES :: "string list" where
  "OUTCOME_STATUSES = [''completed'', ''approved'', ''approved_to_ship'', ''blocked'', ''failed'',
     ''rejected'', ''deferred'', ''shelved'', ''terminated'']"

definition TERMINAL_STATUSES :: "string set" where
  "TERMINAL_STATUSES = set (filter (\<lambda>x. x \<noteq> ''approved_to_ship'') (OUTCOME_STATUSES @ [''awaiting_review'']))"

subsection \<open>Lifecycle revision and review window\<close>

definition bumpLifecycleRevision :: "string \<Rightarrow> session_store \<Rightarrow> session_store" where
  "bumpLifecycleRevision e = update_session e (\<lambda>r. r\<lparr>lifecycle_revision := lifecycle_revision r + 1\<rparr>)"

definition getLifecycleRevision :: "session_store \<Rightarrow> string \<Rightarrow> nat" where
  "getLifecycleRevision s e = (case getSession s e of None \<Rightarrow> 0 | Some r \<Rightarrow> lifecycle_revision r)"

definition isEnteringAwaitingReview :: "session_store \<Rightarrow> string \<Rightarrow> string \<Rightarrow> bool" where
  "isEnteringAwaitingReview s e newStatus = (newStatus = awaiting_review
     \<and> map_option status (getSession s e) \<noteq> Some awaiting_review)"

definition stampAwaitingReviewEntry :: "string \<Rightarrow> string \<Rightarrow> session_store \<Rightarrow> session_store" where
  "stampAwaitingReviewEntry now e = update_session e
     (\<lambda>r. r\<lparr>awaiting_review_entered_at := Some now, gate_timeout_notified_at := None\<rparr>)"

definition resetAwaitingReviewWindow :: "string \<Rightarrow> string \<Rightarrow> session_store \<Rightarrow> session_store" where
  "resetAwaitingReviewWindow now e s = stampAwaitingReviewEntry now e s"

definition markGateTimeoutNotified :: "string \<Rightarrow> string \<Rightarrow> session_store \<Rightarrow> session_store" where
  "markGateTimeoutNotified now e = update_session e (\<lambda>r. r\<lparr>gate_timeout_notified_at := Some now\<rparr>)"

subsection \<open>Writing a status\<close>

text \<open>The columns of the upsert, all but \<open>status\<close> and \<open>chat_thread_role\<close>.\<close>

definition UPSERT_COLUMNS :: "session_column list" where
  "UPSERT_COLUMNS = [''issue_id'', ''project_name'', ''issue_identifier'', ''issue_title'', ''started_at'', ''last_activity_at'',
     ''tmux_session'', ''worktree_path'', ''branch'', ''last_error'', ''decision_route'', ''decision_reasoning'', ''cost_usd'',
     ''commit_count'', ''files_changed'', ''lines_added'', ''lines_removed'', ''summary'', ''diff_summary'', ''commit_messages'',
     ''changed_file_paths'', ''session_params'', ''heartbeat_at'', ''adapter_type'', ''runner_model'', ''dispatch_model'',
     ''ponytail_condition'', ''run_attempt'', ''retry_predecessor'', ''retry_successor'', ''issue_labels'', ''pr_number'',
     ''session_stage'', ''stage_updated_at'', ''session_role'', ''doc_tier'', ''issue_url'']"

text \<open>What a column holds in a new row whose \<open>INSERT\<close> does not name it.\<close>

definition column_default :: "session_column \<Rightarrow> sql_value option" where
  "column_default c =
     (if c \<in> set [''cost_usd'', ''commit_count'', ''files_changed'', ''lines_added'', ''lines_removed'', ''run_attempt'',
                  ''codex_skip'', ''founder_facing_ux''] then Some (Num ''0'')
      else if c \<in> set [''session_role'', ''chat_thread_role''] then Some (Txt main_role) else None)"

definition insert_cells :: "session_fields \<Rightarrow> session_column \<Rightarrow> sql_value option" where
  "insert_cells flds c =
     (if c \<in> set UPSERT_COLUMNS then nullish (flds c)
      else if c = ''chat_thread_role'' then Some (or_else (nullish (flds c)) (Txt main_role))
      else column_default c)"

definition conflict_cells :: "session_fields \<Rightarrow> (session_column \<Rightarrow> sql_value option)
    \<Rightarrow> session_column \<Rightarrow> sql_value option" where
  "conflict_cells flds old c =
     (if c \<in> set UPSERT_COLUMNS then coalesce (nullish (flds c)) (old c) else old c)"

definition new_session_row :: "string \<Rightarrow> (session_column \<Rightarrow> sql_value option) \<Rightarrow> session_row" where
  "new_session_row st cs = \<lparr>status = st, lifecycle_revision = 0, awaiting_review_entered_at = None,
     gate_timeout_notified_at = None, review_question_id = None, binding = None, cells = cs\<rparr>"

text \<open>
  \<open>INSERT INTO sessions ... ON CONFLICT(execution_id) DO UPDATE\<close>: the NOT NULL columns are checked
  before the key.
\<close>

definition insert_or_update :: "string \<Rightarrow> string \<Rightarrow> session_fields \<Rightarrow> session_store
    \<Rightarrow> (session_error, session_store) result" where
  "insert_or_update e st flds s =
     (if nullish (flds ''issue_id'') = None \<or> nullish (flds ''project_name'') = None then Inl Not_null
      else Inr (case getSession s e of
          None \<Rightarrow> s\<lparr>sessions := AList.update e (new_session_row st (insert_cells flds)) (sessions s)\<rparr>
        | Some r \<Rightarrow> update_session e
            (\<lambda>r. r\<lparr>status := st, cells := conflict_cells flds (cells r)\<rparr>) s))"

text \<open>The stamp and the bump that follow a status write in its transaction.\<close>

definition after_status_write :: "string \<Rightarrow> string \<Rightarrow> string \<Rightarrow> session_store \<Rightarrow> session_store \<Rightarrow> session_store" where
  "after_status_write now e st before s =
     (let s1 = (if isEnteringAwaitingReview before e st then stampAwaitingReviewEntry now e s else s)
      in (case getSession before e of
            None \<Rightarrow> s1
          | Some r \<Rightarrow> if status r \<noteq> st then bumpLifecycleRevision e s1 else s1))"

definition upsertSession :: "string \<Rightarrow> string \<Rightarrow> string \<Rightarrow> session_fields \<Rightarrow> session_store
    \<Rightarrow> (session_error, session_store) result" where
  "upsertSession now e st flds s =
     (if (case getSession s e of None \<Rightarrow> False | Some r \<Rightarrow> status r \<in> TERMINAL_STATUSES) \<and> st = running_status
      then Inr s
      else and_then (insert_or_update e st flds s) (\<lambda>s'. Inr (after_status_write now e st s s')))"

definition persistTransition :: "string \<Rightarrow> string \<Rightarrow> string \<Rightarrow> session_fields \<Rightarrow> session_store
    \<Rightarrow> (session_error, session_store) result" where
  "persistTransition now e st flds s =
     and_then (insert_or_update e st flds s) (\<lambda>s'. Inr (after_status_write now e st s s'))"

definition forceStatus :: "string \<Rightarrow> string \<Rightarrow> string \<Rightarrow> string \<Rightarrow> string option \<Rightarrow> session_store \<Rightarrow> session_store" where
  "forceStatus now e st lastActivityAt lastError s =
     after_status_write now e st s (update_session e (\<lambda>r. r\<lparr>status := st,
       cells := (cells r)(''last_activity_at'' := Some (Txt lastActivityAt), ''last_error'' := map_option Txt lastError)\<rparr>) s)"

subsection \<open>Metadata\<close>

definition PATCH_COLUMNS :: "session_column list" where
  "PATCH_COLUMNS = [''issue_id'', ''project_name'', ''issue_identifier'', ''issue_title'', ''started_at'', ''last_activity_at'',
     ''tmux_session'', ''worktree_path'', ''branch'', ''last_error'', ''decision_route'', ''decision_reasoning'', ''cost_usd'',
     ''commit_count'', ''files_changed'', ''lines_added'', ''lines_removed'', ''summary'', ''diff_summary'', ''commit_messages'',
     ''changed_file_paths'', ''session_params'', ''heartbeat_at'', ''adapter_type'', ''runner_model'', ''dispatch_model'',
     ''ponytail_condition'', ''run_attempt'', ''retry_predecessor'', ''retry_successor'', ''issue_labels'', ''pr_number'',
     ''session_stage'', ''stage_updated_at'', ''agent_name'', ''agent_match_method'', ''plan_path'', ''codex_skip'', ''pr_head_sha'',
     ''doc_tier'', ''issue_url'', ''chat_thread_role'', ''founder_facing_ux'', ''founder_ux_signoff_json'',
     ''founder_ux_gate_mode'', ''qa_required'', ''qa_required_reason'', ''merge_block_reason'', ''merge_block_head'',
     ''merge_block_at'']"

definition NOT_NULL_COLUMNS :: "session_column list" where
  "NOT_NULL_COLUMNS = [''issue_id'', ''project_name'', ''chat_thread_role'', ''codex_skip'', ''founder_facing_ux'']"

definition patchSessionMetadata :: "string \<Rightarrow> session_fields \<Rightarrow> session_store
    \<Rightarrow> (session_error, session_store) result" where
  "patchSessionMetadata e flds s =
     (let cols = filter (\<lambda>c. flds c \<noteq> Undefined) PATCH_COLUMNS in
      if cols = [] then Inr s
      else if getSession s e \<noteq> None \<and> list_ex (\<lambda>c. nullish (flds c) = None \<and> c \<in> set NOT_NULL_COLUMNS) cols
      then Inl Not_null
      else Inr (update_session e
        (\<lambda>r. r\<lparr>cells := (\<lambda>c. if c \<in> set cols then nullish (flds c) else cells r c)\<rparr>) s))"

definition setRetrySuccessor :: "string \<Rightarrow> string \<Rightarrow> session_store \<Rightarrow> session_store" where
  "setRetrySuccessor e succ = update_session e (set_cell ''retry_successor'' (Some (Txt succ)))"

definition updateHeartbeat :: "string \<Rightarrow> string \<Rightarrow> session_store \<Rightarrow> session_store" where
  "updateHeartbeat now e = update_session e (set_cell ''heartbeat_at'' (Some (Txt now)))"

definition setSessionParams :: "string \<Rightarrow> json \<Rightarrow> session_store \<Rightarrow> session_store" where
  "setSessionParams e params = update_session e (set_cell ''session_params'' (Some (Txt (json_stringify params))))"

subsection \<open>The review binding\<close>

definition REVIEW_BINDING_UNBOUND :: string where
  "REVIEW_BINDING_UNBOUND = ''unbound''"

definition setReviewBinding :: "string \<Rightarrow> string option \<Rightarrow> string option \<Rightarrow> session_store \<Rightarrow> session_store" where
  "setReviewBinding e questionId prHeadSha = update_session e
     (\<lambda>r. set_cell ''pr_head_sha'' (map_option Txt prHeadSha)
        (r\<lparr>review_question_id := Some (or_else questionId REVIEW_BINDING_UNBOUND)\<rparr>))"

definition setSessionPrHeadShaForRebind :: "string \<Rightarrow> string \<Rightarrow> session_store \<Rightarrow> bool \<times> session_store" where
  "setSessionPrHeadShaForRebind e sha s =
     (if map_option status (getSession s e) = Some awaiting_review
      then (True, update_session e (set_cell ''pr_head_sha'' (Some (Txt sha))) s) else (False, s))"

text \<open>The sessions whose review window expired before \<open>cutoff\<close>; the text order of SQLite is bytewise.\<close>

definition text_less :: "string \<Rightarrow> string \<Rightarrow> bool" where
  "text_less a b = ord_class.lexordp (map (of_char :: char \<Rightarrow> nat) a) (map of_char b)"

definition getAwaitingReviewTimedOut :: "string \<Rightarrow> session_store \<Rightarrow> string list" where
  "getAwaitingReviewTimedOut cutoff s = map fst (filter (\<lambda>(_, r). status r = awaiting_review
     \<and> (case awaiting_review_entered_at r of None \<Rightarrow> False | Some t \<Rightarrow> text_less t cutoff)
     \<and> gate_timeout_notified_at r = None) (sessions s))"

subsection \<open>Merge blocks, the QA snapshot and the worktree binding\<close>

definition lower_char :: "char \<Rightarrow> char" where
  "lower_char c = (if 65 \<le> (of_char c :: nat) \<and> (of_char c :: nat) \<le> 90 then char_of ((of_char c :: nat) + 32) else c)"

lemma lower_char_code [code]:
  "lower_char (Char b0 b1 b2 b3 b4 b5 b6 b7) = Char b0 b1 b2 b3 b4
     (b5 \<or> b6 \<and> \<not> b7 \<and> (b0 \<or> b1 \<or> b2 \<or> b3 \<or> b4) \<and> \<not> (b4 \<and> b3 \<and> (b2 \<or> b1 \<and> b0))) b6 b7"
  by (cases b0; cases b1; cases b2; cases b3; cases b4; cases b5; cases b6; cases b7) (simp_all add: lower_char_def char_of_def bit_iff_odd)

definition ascii_lower :: "string \<Rightarrow> string" where
  "ascii_lower = map lower_char"

fun value_text :: "sql_value \<Rightarrow> string" where
  "value_text (Txt t) = t"
| "value_text (Num t) = t"

definition setMergeBlock :: "string \<Rightarrow> string \<Rightarrow> string \<Rightarrow> string \<Rightarrow> session_store \<Rightarrow> bool \<times> session_store" where
  "setMergeBlock now e reason input_head s =
     (let head = ascii_lower input_head in
      if (case getSession s e of None \<Rightarrow> False | Some r \<Rightarrow>
            cells r ''merge_block_reason'' = None
            \<or> (case cells r ''merge_block_head'' of None \<Rightarrow> False | Some v \<Rightarrow> ascii_lower (value_text v) \<noteq> head))
      then (True, update_session e (\<lambda>r. r\<lparr>cells := (cells r)(''merge_block_reason'' := Some (Txt reason),
              ''merge_block_head'' := Some (Txt head), ''merge_block_at'' := Some (Txt now))\<rparr>) s)
      else (False, s))"

definition clearMergeBlock :: "string \<Rightarrow> session_store \<Rightarrow> session_store" where
  "clearMergeBlock e = update_session e (\<lambda>r. r\<lparr>cells := (cells r)(''merge_block_reason'' := None,
     ''merge_block_head'' := None, ''merge_block_at'' := None)\<rparr>)"

definition setQaRequiredSnapshot :: "string \<Rightarrow> bool \<Rightarrow> string \<Rightarrow> session_store \<Rightarrow> session_store" where
  "setQaRequiredSnapshot e required reason = update_session e
     (\<lambda>r. if cells r ''qa_required'' = None
          then r\<lparr>cells := (cells r)(''qa_required'' := Some (Num (if required then ''1'' else ''0'')),
                 ''qa_required_reason'' := Some (Txt reason))\<rparr>
          else r)"

record bind_result =
  bound :: bool
  bind_reason :: "string option"

definition bindWorktreeOnce :: "string \<Rightarrow> string \<Rightarrow> worktree_binding \<Rightarrow> string option \<Rightarrow> string option
    \<Rightarrow> session_store \<Rightarrow> bind_result \<times> session_store" where
  "bindWorktreeOnce now e b issue project s =
     (let b' = b\<lparr>wb_locked_at := now\<rparr> in
      case getSession s e of
        None \<Rightarrow> (\<lparr>bound = True, bind_reason = None\<rparr>,
          s\<lparr>sessions := AList.update e ((new_session_row pending_status
              ((column_default(''issue_id'' := Some (Txt (or_else issue []))))(''project_name'' := Some (Txt (or_else project [])))))
              \<lparr>binding := Some b'\<rparr>) (sessions s)\<rparr>)
      | Some r \<Rightarrow> (case binding r of
            None \<Rightarrow> (\<lparr>bound = True, bind_reason = None\<rparr>, update_session e (\<lambda>r. r\<lparr>binding := Some b'\<rparr>) s)
          | Some _ \<Rightarrow> (\<lparr>bound = False, bind_reason = Some ''already_bound''\<rparr>, s)))"

definition getWorktreeBinding :: "session_store \<Rightarrow> string \<Rightarrow> worktree_binding option" where
  "getWorktreeBinding s e = (case getSession s e of None \<Rightarrow> None | Some r \<Rightarrow>
     (case binding r of None \<Rightarrow> None | Some b \<Rightarrow> if wb_generation b = [] then None else Some b))"

subsection \<open>Retry intents and events\<close>

definition getRetryDispatchIntent :: "session_store \<Rightarrow> string \<Rightarrow> retry_intent option" where
  "getRetryDispatchIntent s rid = find (\<lambda>i. request_id i = rid) (retry_dispatch_intents s)"

definition recordRetryDispatchIntent :: "string \<Rightarrow> string \<Rightarrow> string \<Rightarrow> string \<Rightarrow> session_store
    \<Rightarrow> (session_error, session_store) result" where
  "recordRetryDispatchIntent now rid successor predecessor s =
     (if getRetryDispatchIntent s rid \<noteq> None then Inl Unique
      else Inr (s\<lparr>retry_dispatch_intents := retry_dispatch_intents s @ [\<lparr>request_id = rid,
        successor_execution_id = successor, predecessor_execution_id = predecessor,
        intent_state = ''intent'', intent_updated_at = now\<rparr>]\<rparr>))"

definition markRetryDispatchDispatched :: "string \<Rightarrow> string \<Rightarrow> session_store \<Rightarrow> session_store" where
  "markRetryDispatchDispatched now rid s = s\<lparr>retry_dispatch_intents := map (\<lambda>i.
     if request_id i = rid then i\<lparr>intent_state := ''dispatched'', intent_updated_at := now\<rparr> else i)
     (retry_dispatch_intents s)\<rparr>"

text \<open>False when the event id is already there; the caller's row has its default severity filled in.\<close>

definition insertEvent :: "session_event \<Rightarrow> session_store \<Rightarrow> bool \<times> session_store" where
  "insertEvent ev s = (if event_id ev \<in> event_id ` set (session_events s) then (False, s)
     else (True, s\<lparr>session_events := session_events s @ [ev]\<rparr>))"

definition getEventsByExecution :: "session_store \<Rightarrow> string \<Rightarrow> session_event list" where
  "getEventsByExecution s e = filter (\<lambda>ev. ev_execution ev = e) (session_events s)"

subsection \<open>The audit executor and \<open>applyTransition\<close>\<close>

definition audit_payload :: "audit_directive \<Rightarrow> json" where
  "audit_payload d = JObj [(''from'', JStr (fromState d)), (''to'', JStr (toState d)), (''trigger'', JStr (ad_trigger d))]"

definition audit_event :: "string \<Rightarrow> string \<Rightarrow> audit_directive \<Rightarrow> session_event" where
  "audit_event now uuid d = \<lparr>event_id = uuid, ev_ts = now, ev_execution = ad_executionId d, ev_issue = ad_issueId d,
     ev_project = ad_projectName d, event_type = ''state_transition'', severity = ''info'',
     ev_payload = Some (json_stringify (audit_payload d)), ev_source = ''fsm''\<rparr>"

fun execute :: "string \<Rightarrow> string \<Rightarrow> directive \<Rightarrow> session_store \<Rightarrow> session_store" where
  "execute now uuid (Audit d) s = snd (insertEvent (audit_event now uuid d) s)"

text \<open>\<open>uuid k\<close> is the k-th draw of \<open>randomUUID\<close>.\<close>

definition drain :: "string \<Rightarrow> (nat \<Rightarrow> string) \<Rightarrow> directive list \<Rightarrow> session_store \<Rightarrow> session_store" where
  "drain now uuid ds s = fold (\<lambda>(k, d). execute now (uuid k) d) (enumerate 0 ds) s"

record transition_opts =
  opts_fsm :: workflow_fsm
  opts_executor :: bool

definition state_of :: "session_store \<Rightarrow> string \<Rightarrow> string" where
  "state_of s e = (case getSession s e of None \<Rightarrow> pending_status | Some r \<Rightarrow> status r)"

text \<open>\<open>{issue_id: ctx.issueId, project_name: ctx.projectName, ...sessionFields}\<close>; a property that
  \<open>sessionFields\<close> has overrides, even with \<open>undefined\<close> (\<open>None\<close> is a property it does not have).\<close>

definition transition_fields :: "transition_ctx \<Rightarrow> (session_column \<Rightarrow> js_field option) \<Rightarrow> session_fields" where
  "transition_fields ctx extra c = (case extra c of Some v \<Rightarrow> v
     | None \<Rightarrow> if c = ''issue_id'' then Value (Txt (issueId ctx))
               else if c = ''project_name'' then Value (Txt (projectName ctx)) else Undefined)"

definition applyTransition :: "transition_opts \<Rightarrow> string \<Rightarrow> (nat \<Rightarrow> string) \<Rightarrow> string \<Rightarrow> string \<Rightarrow> transition_ctx
    \<Rightarrow> (session_column \<Rightarrow> js_field option) \<Rightarrow> session_store \<Rightarrow> (session_error, transition_result \<times> session_store) result" where
  "applyTransition opts now uuid e target ctx extra s =
     (let res = transition (opts_fsm opts) (state_of s e) target (Some ctx) in
      if \<not> tr_ok res then Inr (res, s)
      else and_then (persistTransition now e target (transition_fields ctx extra) s)
        (\<lambda>s'. Inr (res, if opts_executor opts \<and> directives res \<noteq> [] then drain now uuid (directives res) s' else s')))"

end
