(* ===== verification/SessionRun.thy ===== *)
theory SessionRun
  imports Sessions
begin

section \<open>Runs of the session store\<close>

text \<open>
  The callers of the store as a sequence of operations, each with the clock reading it sees. An
  operation that throws leaves the store as it was: its statements are one transaction.
\<close>

datatype session_op =
    Upsert string string session_fields
  | Transition string string "nat \<Rightarrow> string" transition_ctx "session_column \<Rightarrow> js_field option"
  | Force string string string "string option"
  | Patch string session_fields
  | Reset_review string
  | Timeout_notified string
  | Bind_review string "string option" "string option"
  | Rebind_head string string
  | Heartbeat string
  | Params string json
  | Merge_block string string string
  | Clear_block string
  | Qa_snapshot string bool string
  | Bind_worktree string worktree_binding "string option" "string option"
  | Retry_successor string string
  | Record_intent string string string
  | Intent_dispatched string
  | Log_event session_event

definition or_same :: "('e, 'a) result \<Rightarrow> ('a \<Rightarrow> 'b) \<Rightarrow> 'b \<Rightarrow> 'b" where
  "or_same r f s = (case r of Inl _ \<Rightarrow> s | Inr x \<Rightarrow> f x)"

fun session_do :: "transition_opts \<Rightarrow> string \<Rightarrow> session_op \<Rightarrow> session_store \<Rightarrow> session_store" where
  "session_do o' now (Upsert e st flds) s = or_same (upsertSession now e st flds s) id s"
| "session_do o' now (Transition e st uuid ctx extra) s = or_same (applyTransition o' now uuid e st ctx extra s) snd s"
| "session_do o' now (Force e st at err) s = forceStatus now e st at err s"
| "session_do o' now (Patch e flds) s = or_same (patchSessionMetadata e flds s) id s"
| "session_do o' now (Reset_review e) s = resetAwaitingReviewWindow now e s"
| "session_do o' now (Timeout_notified e) s = markGateTimeoutNotified now e s"
| "session_do o' now (Bind_review e q sha) s = setReviewBinding e q sha s"
| "session_do o' now (Rebind_head e sha) s = snd (setSessionPrHeadShaForRebind e sha s)"
| "session_do o' now (Heartbeat e) s = updateHeartbeat now e s"
| "session_do o' now (Params e p) s = setSessionParams e p s"
| "session_do o' now (Merge_block e reason head) s = snd (setMergeBlock now e reason head s)"
| "session_do o' now (Clear_block e) s = clearMergeBlock e s"
| "session_do o' now (Qa_snapshot e req reason) s = setQaRequiredSnapshot e req reason s"
| "session_do o' now (Bind_worktree e b issue project) s = snd (bindWorktreeOnce now e b issue project s)"
| "session_do o' now (Retry_successor e succ) s = setRetrySuccessor e succ s"
| "session_do o' now (Record_intent rid succ pred) s = or_same (recordRetryDispatchIntent now rid succ pred s) id s"
| "session_do o' now (Intent_dispatched rid) s = markRetryDispatchDispatched now rid s"
| "session_do o' now (Log_event ev) s = snd (insertEvent ev s)"

primrec session_run :: "transition_opts \<Rightarrow> (string \<times> session_op) list \<Rightarrow> session_store \<Rightarrow> session_store" where
  "session_run o' [] s = s"
| "session_run o' (x # xs) s = session_run o' xs (session_do o' (fst x) (snd x) s)"

lemma session_run_append: "session_run o' (xs @ ys) s = session_run o' ys (session_run o' xs s)"
  by (induction xs arbitrary: s) simp_all

subsection \<open>One row at a time\<close>

lemma get_update_session [simp]:
  "getSession (update_session e f s) x = (if x = e then map_option f (getSession s x) else getSession s x)"
  by (auto simp: update_session_def getSession_def split: option.split)

lemma get_update_sessions [simp]:
  "getSession (s\<lparr>sessions := AList.update e r (sessions s)\<rparr>) x = (if x = e then Some r else getSession s x)"
  by (simp add: getSession_def)

lemma get_other_tables [simp]:
  "getSession (s\<lparr>session_events := es\<rparr>) = getSession s"
  "getSession (s\<lparr>retry_dispatch_intents := is\<rparr>) = getSession s"
  by (simp_all add: getSession_def fun_eq_iff)

lemma get_insertEvent [simp]: "getSession (snd (insertEvent ev s)) = getSession s"
  by (simp add: insertEvent_def)

lemma get_execute [simp]: "getSession (execute now u d s) = getSession s"
  by (cases d) simp

lemma get_drain [simp]: "getSession (drain now uuid ds s) = getSession s"
proof -
  have "getSession (fold (\<lambda>(k, d). execute now (uuid k) d) kds s) = getSession s" for kds
    by (induction kds arbitrary: s) auto
  then show ?thesis by (simp add: drain_def)
qed

text \<open>The row after the stamp and the bump, from the row \<open>before\<close> the write.\<close>

definition entering :: "session_row option \<Rightarrow> string \<Rightarrow> bool" where
  "entering before st = (st = awaiting_review \<and> map_option status before \<noteq> Some awaiting_review)"

definition moved :: "session_row option \<Rightarrow> string \<Rightarrow> bool" where
  "moved before st = (case before of None \<Rightarrow> False | Some r \<Rightarrow> status r \<noteq> st)"

definition written_row :: "string \<Rightarrow> session_row option \<Rightarrow> string \<Rightarrow> session_row \<Rightarrow> session_row" where
  "written_row now before st r = r\<lparr>
     awaiting_review_entered_at := (if entering before st then Some now else awaiting_review_entered_at r),
     gate_timeout_notified_at := (if entering before st then None else gate_timeout_notified_at r),
     lifecycle_revision := lifecycle_revision r + (if moved before st then 1 else 0)\<rparr>"

lemma get_after_status_write:
  "getSession (after_status_write now e st b s) x = (if x = e
     then map_option (written_row now (getSession b e) st) (getSession s e) else getSession s x)"
proof -
  have "after_status_write now e st b s =
     (let s1 = (if entering (getSession b e) st then stampAwaitingReviewEntry now e s else s)
      in if moved (getSession b e) st then bumpLifecycleRevision e s1 else s1)"
    by (simp add: after_status_write_def entering_def isEnteringAwaitingReview_def moved_def Let_def split: option.split)
  then show ?thesis
    by (cases "getSession s e") (simp_all add: stampAwaitingReviewEntry_def bumpLifecycleRevision_def written_row_def)
qed

lemma insert_or_update_row:
  assumes "insert_or_update e st flds s = Inr s'"
  shows "getSession s' x = (if x = e
     then Some (case getSession s e of None \<Rightarrow> new_session_row st (insert_cells flds)
       | Some r \<Rightarrow> r\<lparr>status := st, cells := conflict_cells flds (cells r)\<rparr>)
     else getSession s x)"
  using assms by (auto simp: insert_or_update_def split: if_splits option.splits)

text \<open>What every operation does to a row that is there.\<close>

definition row_step :: "bool \<Rightarrow> session_row \<Rightarrow> session_row \<Rightarrow> bool" where
  "row_step reset r r' =
     (lifecycle_revision r' = lifecycle_revision r + (if status r' = status r then 0 else 1)
      \<and> (binding r \<noteq> None \<longrightarrow> binding r' = binding r)
      \<and> (status r' = awaiting_review \<and> status r = awaiting_review \<and> \<not> reset \<longrightarrow>
           awaiting_review_entered_at r' = awaiting_review_entered_at r
           \<and> (gate_timeout_notified_at r \<noteq> None \<longrightarrow> gate_timeout_notified_at r' \<noteq> None)))"

lemma row_step_refl [simp]: "row_step reset r r"
  by (simp add: row_step_def)

text \<open>A status written over a row that is there.\<close>

lemma written_row_step:
  assumes "status r1 = st" and "lifecycle_revision r1 = lifecycle_revision r" and "binding r1 = binding r"
    and "awaiting_review_entered_at r1 = awaiting_review_entered_at r"
    and "gate_timeout_notified_at r1 = gate_timeout_notified_at r"
  shows "row_step reset r (written_row now (Some r) st r1)"
  using assms by (auto simp: row_step_def written_row_def entering_def moved_def)

lemma written_row_status [simp]: "status (written_row now b st r) = status r"
  by (simp add: written_row_def)

lemma persist_row:
  assumes "persistTransition now e st flds s = Inr s'"
  shows "getSession s e = Some r \<Longrightarrow> \<exists>r'. getSession s' e = Some r' \<and> row_step reset r r'"
    and "x \<noteq> e \<Longrightarrow> getSession s' x = getSession s x"
    and "state_of s' e = st"
  using assms
  by (auto simp: persistTransition_def and_then_ok insert_or_update_row get_after_status_write state_of_def
      new_session_row_def intro!: written_row_step split: option.split)

lemma apply_transition_cases:
  assumes "applyTransition o' now uuid e st ctx extra s = Inr (res, s')"
  obtains (refused) "\<not> tr_ok res" "s' = s"
  | (stored) s1 where "tr_ok res" "canTransition (opts_fsm o') (state_of s e) st" "res = transition (opts_fsm o') (state_of s e) st (Some ctx)"
      "persistTransition now e st (transition_fields ctx extra) s = Inr s1"
      "s' = (if opts_executor o' \<and> directives res \<noteq> [] then drain now uuid (directives res) s1 else s1)"
proof (cases "tr_ok (transition (opts_fsm o') (state_of s e) st (Some ctx))")
  case False
  then show ?thesis using assms by (intro refused) (auto simp: applyTransition_def Let_def)
next
  case True
  then have "canTransition (opts_fsm o') (state_of s e) st" by (simp add: transition_ok)
  moreover obtain s1 where "persistTransition now e st (transition_fields ctx extra) s = Inr s1"
    "res = transition (opts_fsm o') (state_of s e) st (Some ctx)"
    "s' = (if opts_executor o' \<and> directives res \<noteq> [] then drain now uuid (directives res) s1 else s1)"
    using assms True by (auto simp: applyTransition_def Let_def and_then_ok)
  ultimately show ?thesis using stored True by blast
qed

lemma apply_transition_get:
  assumes "applyTransition o' now uuid e st ctx extra s = Inr (res, s')"
  shows "getSession s e = Some r \<Longrightarrow> \<exists>r'. getSession s' e = Some r' \<and> row_step reset r r'"
    and "x \<noteq> e \<Longrightarrow> getSession s' x = getSession s x"
    and "state_of s' e = state_of s e \<or> canTransition (opts_fsm o') (state_of s e) (state_of s' e)"
  using assms by (cases rule: apply_transition_cases; auto dest: persist_row simp: state_of_def)+

lemma upsert_get:
  assumes "upsertSession now e st flds s = Inr s'"
  shows "getSession s e = Some r \<Longrightarrow> \<exists>r'. getSession s' e = Some r' \<and> row_step reset r r'"
    and "x \<noteq> e \<Longrightarrow> getSession s' x = getSession s x"
  using assms persist_row [of now e st flds s s']
  by (auto simp: upsertSession_def persistTransition_def split: if_splits)

lemma force_get:
  "getSession s e = Some r \<Longrightarrow> \<exists>r'. getSession (forceStatus now e st at err s) e = Some r' \<and> row_step reset r r'"
  "x \<noteq> e \<Longrightarrow> getSession (forceStatus now e st at err s) x = getSession s x"
  by (auto simp: forceStatus_def get_after_status_write intro!: written_row_step)

lemmas metadata_defs = patchSessionMetadata_def resetAwaitingReviewWindow_def stampAwaitingReviewEntry_def
  markGateTimeoutNotified_def setReviewBinding_def setSessionPrHeadShaForRebind_def updateHeartbeat_def
  setSessionParams_def setMergeBlock_def clearMergeBlock_def setQaRequiredSnapshot_def bindWorktreeOnce_def
  setRetrySuccessor_def recordRetryDispatchIntent_def markRetryDispatchDispatched_def set_cell_def or_same_def

fun writes_status :: "session_op \<Rightarrow> bool" where
  "writes_status (Upsert _ _ _) = True"
| "writes_status (Transition _ _ _ _ _) = True"
| "writes_status (Force _ _ _ _) = True"
| "writes_status _ = False"

lemma metadata_row:
  assumes "\<not> writes_status op" and "getSession s e = Some r"
  shows "\<exists>r'. getSession (session_do o' now op s) e = Some r' \<and> row_step (op = Reset_review e) r r' \<and> status r' = status r"
proof -
  have "getSession (session_do o' now op s) e \<noteq> None"
    using assms by (cases op) (auto simp: metadata_defs Let_def split: sum.split option.split)
  moreover have "row_step (op = Reset_review e) r r' \<and> status r' = status r"
    if "getSession (session_do o' now op s) e = Some r'" for r'
    using assms that by (cases op) (auto simp: metadata_defs Let_def row_step_def split: sum.splits option.splits if_splits)
  ultimately show ?thesis by blast
qed

lemma metadata_state:
  assumes "\<not> writes_status op"
  shows "state_of (session_do o' now op s) e = state_of s e"
proof (cases "getSession s e")
  case None
  then show ?thesis
    using assms by (cases op) (auto simp: metadata_defs Let_def state_of_def new_session_row_def split: sum.split option.split)
next
  case (Some r)
  then show ?thesis using metadata_row [OF assms Some, of o' now] by (auto simp: state_of_def)
qed

lemma session_do_row:
  assumes r: "getSession s e = Some r"
  shows "\<exists>r'. getSession (session_do o' now op s) e = Some r' \<and> row_step (op = Reset_review e) r r'"
proof (cases "writes_status op")
  case False
  then show ?thesis using metadata_row [OF False r] by blast
next
  case True
  have same: "\<exists>r'. getSession s e = Some r' \<and> row_step reset r r'" for reset using r by simp
  show ?thesis
  proof (cases op)
    case (Upsert x st flds)
    show ?thesis
    proof (cases "upsertSession now x st flds s")
      case (Inr s')
      then show ?thesis using upsert_get [OF Inr] r Upsert same by (cases "e = x") (simp_all add: or_same_def)
    qed (use Upsert same in \<open>simp add: or_same_def\<close>)
  next
    case (Transition x st u ctx ex)
    show ?thesis
    proof (cases "applyTransition o' now u x st ctx ex s")
      case (Inr p)
      then have "applyTransition o' now u x st ctx ex s = Inr (fst p, snd p)" by simp
      note get = apply_transition_get(1,2) [OF this]
      show ?thesis using get r Transition same Inr by (cases "e = x") (simp_all add: or_same_def)
    qed (use Transition same in \<open>simp add: or_same_def\<close>)
  next
    case (Force x st at err)
    then show ?thesis using force_get(1) [OF r] force_get(2) r same by (cases "e = x") simp_all
  qed (use True in simp_all)
qed

text \<open>Along a run the revision counts the status changes, and bindings stay.\<close>

lemma session_run_row:
  assumes "getSession s e = Some r"
  shows "\<exists>r'. getSession (session_run o' ops s) e = Some r' \<and> lifecycle_revision r \<le> lifecycle_revision r'
    \<and> (binding r \<noteq> None \<longrightarrow> binding r' = binding r)
    \<and> (lifecycle_revision r' = lifecycle_revision r \<longrightarrow>
        (\<forall>k \<le> length ops. map_option status (getSession (session_run o' (take k ops) s) e) = Some (status r)))"
  using assms
proof (induction ops arbitrary: s r)
  case (Cons x ops)
  obtain now op where x: "x = (now, op)" by fastforce
  obtain r1 where r1: "getSession (session_do o' now op s) e = Some r1" "row_step (op = Reset_review e) r r1"
    using session_do_row [OF Cons.prems] by blast
  obtain r' where r': "getSession (session_run o' ops (session_do o' now op s)) e = Some r'"
    "lifecycle_revision r1 \<le> lifecycle_revision r'" "binding r1 \<noteq> None \<longrightarrow> binding r' = binding r1"
    "lifecycle_revision r' = lifecycle_revision r1 \<longrightarrow> (\<forall>k \<le> length ops.
        map_option status (getSession (session_run o' (take k ops) (session_do o' now op s)) e) = Some (status r1))"
    using Cons.IH [OF r1(1)] by blast
  have rev: "lifecycle_revision r1 = lifecycle_revision r + (if status r1 = status r then 0 else 1)"
    and bind: "binding r \<noteq> None \<longrightarrow> binding r1 = binding r"
    using r1(2) by (simp_all add: row_step_def)
  have "map_option status (getSession (session_run o' (take k (x # ops)) s) e) = Some (status r)"
    if "lifecycle_revision r' = lifecycle_revision r" "k \<le> length (x # ops)" for k
  proof (cases k)
    case 0
    then show ?thesis using Cons.prems by simp
  next
    case (Suc j)
    have "status r1 = status r" "lifecycle_revision r' = lifecycle_revision r1"
      using that rev r'(2) by (simp_all split: if_splits)
    then show ?thesis using Suc r'(4) that(2) x by simp
  qed
  moreover have "lifecycle_revision r \<le> lifecycle_revision r'" using rev r'(2) by linarith
  moreover have "binding r \<noteq> None \<longrightarrow> binding r' = binding r" using bind r'(3) by metis
  moreover have "getSession (session_run o' (x # ops) s) e = Some r'" using r'(1) x by simp
  ultimately show ?case by blast
qed simp

end
