(* ===== verification/SessionProps.thy ===== *)
theory SessionProps
  imports SessionRun
begin

section \<open>What the session store guarantees\<close>

text \<open>
  The freshness counter, the transition map, the review deadline, the worktree binding and the audit
  trail, over every sequence of operations.
\<close>

subsection \<open>Statuses move along the map\<close>

definition edges :: "workflow_fsm \<Rightarrow> (string \<times> string) set" where
  "edges f = {(a, b). canTransition f a b}"

fun legacy :: "session_op \<Rightarrow> bool" where
  "legacy (Upsert _ _ _) = True"
| "legacy (Force _ _ _ _) = True"
| "legacy _ = False"

lemma session_do_edge:
  assumes "\<not> legacy op"
  shows "(state_of s e, state_of (session_do o' now op s) e) \<in> (edges (opts_fsm o'))\<^sup>*"
proof (cases "writes_status op")
  case False
  then show ?thesis by (simp add: metadata_state)
next
  case True
  then obtain x st u ctx ex where op: "op = Transition x st u ctx ex" using assms by (cases op) auto
  show ?thesis
  proof (cases "applyTransition o' now u x st ctx ex s")
    case (Inr p)
    then have "applyTransition o' now u x st ctx ex s = Inr (fst p, snd p)" by simp
    note get = apply_transition_get(2,3) [OF this]
    show ?thesis
    proof (cases "e = x")
      case True
      have "session_do o' now op s = snd p" using Inr op by (simp add: or_same_def)
      then show ?thesis using get(2) True by (auto simp: edges_def)
    next
      case False
      then have "state_of (session_do o' now op s) e = state_of s e"
        using get(1) Inr op by (simp add: or_same_def state_of_def)
      then show ?thesis by simp
    qed
  qed (use op in \<open>simp add: or_same_def\<close>)
qed

lemma session_run_edges:
  "list_all (\<lambda>x. \<not> legacy (snd x)) ops \<Longrightarrow>
    (state_of s e, state_of (session_run o' ops s) e) \<in> (edges (opts_fsm o'))\<^sup>*"
  by (induction ops arbitrary: s) (auto intro: rtrancl_trans session_do_edge)

lemma terminal_no_path: "isTerminal f a \<Longrightarrow> (a, b) \<in> (edges f)\<^sup>* \<Longrightarrow> b = a"
  by (erule converse_rtranclE) (auto simp: edges_def terminal_stuck)

subsection \<open>The review window\<close>

lemma keys_update_session: "distinct (map fst (sessions s)) \<Longrightarrow> distinct (map fst (sessions (update_session e f s)))"
  by (simp add: update_session_def distinct_update split: option.split)

lemma keys_events: "sessions (snd (insertEvent ev s)) = sessions s" "sessions (drain now uuid ds s) = sessions s"
proof -
  show ev: "sessions (snd (insertEvent ev s)) = sessions s" for ev s by (simp add: insertEvent_def)
  have "sessions (execute now u d s) = sessions s" for u d s by (cases d) (simp add: ev)
  then have "sessions (fold (\<lambda>(k, d). execute now (uuid k) d) kds s) = sessions s" for kds
    by (induction kds arbitrary: s) auto
  then show "sessions (drain now uuid ds s) = sessions s" by (simp add: drain_def)
qed

lemma keys_status_write:
  "distinct (map fst (sessions s)) \<Longrightarrow> distinct (map fst (sessions (after_status_write now e st b s)))"
  by (simp add: after_status_write_def stampAwaitingReviewEntry_def bumpLifecycleRevision_def Let_def
      keys_update_session split: option.split)

lemma keys_persist:
  "persistTransition now e st flds s = Inr s' \<Longrightarrow> distinct (map fst (sessions s)) \<Longrightarrow> distinct (map fst (sessions s'))"
  by (auto simp: persistTransition_def and_then_ok insert_or_update_def keys_status_write keys_update_session
      distinct_update split: if_splits option.splits)

lemma session_do_keys:
  assumes "distinct (map fst (sessions s))"
  shows "distinct (map fst (sessions (session_do o' now op s)))"
proof (cases "writes_status op")
  case False
  then show ?thesis
    using assms by (cases op) (auto simp: metadata_defs Let_def keys_update_session keys_events distinct_update
        split: sum.split option.split)
next
  case True
  show ?thesis
  proof (cases op)
    case (Upsert x st flds)
    then show ?thesis
      using assms keys_persist [of now x st flds s]
      by (simp add: or_same_def upsertSession_def persistTransition_def [symmetric] split: sum.split)
  next
    case (Transition x st u ctx ex)
    then show ?thesis
      using assms keys_persist [of now x st "transition_fields ctx ex" s]
      by (auto simp: or_same_def applyTransition_def Let_def keys_events and_then_def split: sum.split)
  next
    case (Force x st at err)
    then show ?thesis using assms by (simp add: forceStatus_def keys_status_write keys_update_session)
  qed (use True in simp_all)
qed

lemma session_run_keys:
  "distinct (map fst (sessions s)) \<Longrightarrow> distinct (map fst (sessions (session_run o' ops s)))"
  by (induction ops arbitrary: s) (simp_all add: session_do_keys)

lemma same_revision_step:
  assumes "row_step reset r r1" and "lifecycle_revision r1 = lifecycle_revision r"
  shows "status r1 = status r"
  using assms by (auto simp: row_step_def split: if_splits)

lemma session_run_window:
  assumes "getSession s e = Some r" and "status r = awaiting_review"
    and "list_all (\<lambda>x. snd x \<noteq> Reset_review e) ops"
    and "getSession (session_run o' ops s) e = Some r'" and "lifecycle_revision r' = lifecycle_revision r"
  shows "status r' = awaiting_review \<and> awaiting_review_entered_at r' = awaiting_review_entered_at r
    \<and> (gate_timeout_notified_at r \<noteq> None \<longrightarrow> gate_timeout_notified_at r' \<noteq> None)"
  using assms
proof (induction ops arbitrary: s r)
  case (Cons x ops)
  obtain now op where x: "x = (now, op)" by fastforce
  obtain r1 where r1: "getSession (session_do o' now op s) e = Some r1" "row_step (op = Reset_review e) r r1"
    using session_do_row [OF Cons.prems(1)] by blast
  have later: "getSession (session_run o' ops (session_do o' now op s)) e = Some r'" using Cons.prems(4) x by simp
  obtain r2 where "getSession (session_run o' ops (session_do o' now op s)) e = Some r2"
    "lifecycle_revision r1 \<le> lifecycle_revision r2" using session_run_row [OF r1(1)] by blast
  with later have "lifecycle_revision r1 \<le> lifecycle_revision r'" by simp
  moreover have "lifecycle_revision r \<le> lifecycle_revision r1" using r1(2) by (auto simp: row_step_def)
  ultimately have same: "lifecycle_revision r1 = lifecycle_revision r" using Cons.prems(5) by simp
  have st: "status r1 = status r" using same_revision_step [OF r1(2) same] .
  have kept: "awaiting_review_entered_at r1 = awaiting_review_entered_at r"
    "gate_timeout_notified_at r \<noteq> None \<longrightarrow> gate_timeout_notified_at r1 \<noteq> None"
    using r1(2) Cons.prems(2,3) st x by (auto simp: row_step_def)
  have "list_all (\<lambda>x. snd x \<noteq> Reset_review e) ops" using Cons.prems(3) by simp
  with Cons.IH [OF r1(1) _ _ later] st Cons.prems(2,5) same kept show ?case by metis
qed simp

subsection \<open>The audit trail\<close>

text \<open>A path through the map, each edge with the trigger of its transition.\<close>

fun walk :: "workflow_fsm \<Rightarrow> string \<Rightarrow> (string \<times> string \<times> string) list \<Rightarrow> string \<Rightarrow> bool" where
  "walk f a [] z = (a = z)"
| "walk f a ((b, c, _) # es) z = (a = b \<and> canTransition f b c \<and> walk f c es z)"

lemma walk_append: "walk f a (es @ [(b, c, t)]) z \<longleftrightarrow> walk f a es b \<and> canTransition f b c \<and> c = z"
  by (induction es arbitrary: a) auto

definition edge_payload :: "string \<times> string \<times> string \<Rightarrow> string option" where
  "edge_payload = (\<lambda>(a, b, t). Some (json_stringify (JObj [(''from'', JStr a), (''to'', JStr b), (''trigger'', JStr t)])))"

definition trail :: "session_store \<Rightarrow> string \<Rightarrow> string option list" where
  "trail s e = map ev_payload (getEventsByExecution s e)"

text \<open>The callers pass the execution they transition in the context.\<close>

fun audited :: "session_op \<Rightarrow> bool" where
  "audited (Transition e _ _ ctx _) = (executionId ctx = e)"
| "audited _ = False"

fun op_uuid :: "session_op \<Rightarrow> string" where
  "op_uuid (Transition _ _ uuid _ _) = uuid 0"
| "op_uuid _ = []"

definition trail_inv :: "workflow_fsm \<Rightarrow> session_store \<Rightarrow> bool" where
  "trail_inv f s = (\<forall>e. \<exists>es. trail s e = map edge_payload es \<and> walk f pending_status es (state_of s e))"

lemma persist_events: "persistTransition now e st flds s = Inr s' \<Longrightarrow> session_events s' = session_events s"
  by (auto simp: persistTransition_def and_then_ok insert_or_update_def after_status_write_def update_session_def
      stampAwaitingReviewEntry_def bumpLifecycleRevision_def Let_def split: if_splits option.splits)

lemma audited_step:
  assumes f: "onEnter (opts_fsm o') = []" and x: "opts_executor o'" and op: "audited op"
    and new: "op_uuid op \<notin> event_id ` set (session_events s)" and inv: "trail_inv (opts_fsm o') s"
  shows "trail_inv (opts_fsm o') (session_do o' now op s)
    \<and> event_id ` set (session_events (session_do o' now op s)) \<subseteq> insert (op_uuid op) (event_id ` set (session_events s))"
proof -
  obtain e st uuid ctx extra where op: "op = Transition e st uuid ctx extra" "executionId ctx = e"
    using op by (cases op) auto
  show ?thesis
  proof (cases "applyTransition o' now uuid e st ctx extra s")
    case (Inl err)
    then show ?thesis using op inv by (auto simp: or_same_def)
  next
    case (Inr p)
    then have app: "applyTransition o' now uuid e st ctx extra s = Inr (fst p, snd p)" by simp
    then show ?thesis
    proof (cases rule: apply_transition_cases)
      case refused
      then show ?thesis using op inv Inr by (auto simp: or_same_def)
    next
      case (stored s1)
      let ?a = "state_of s e"
      let ?ev = "audit_event now (uuid 0) (audit_of ?a st ctx)"
      have ds: "directives (fst p) = [Audit (audit_of ?a st ctx)]"
        using stored(1) unfolding stored(3) by (simp add: transition_directives enter_directives_def f)
      have "session_do o' now op s = drain now uuid (directives (fst p)) s1"
        using op Inr stored(5) x ds by (simp add: or_same_def)
      also have "\<dots> = snd (insertEvent ?ev s1)" by (simp add: ds drain_def enumerate_eq_zip)
      also have "\<dots> = s1\<lparr>session_events := session_events s1 @ [?ev]\<rparr>"
        using new op by (simp add: insertEvent_def persist_events [OF stored(4)] audit_event_def)
      finally have "session_do o' now op s = s1\<lparr>session_events := session_events s @ [?ev]\<rparr>"
        by (simp add: persist_events [OF stored(4)])
      note res = this
      have st: "state_of (session_do o' now op s) z = (if z = e then st else state_of s z)" for z
        using persist_row(2,3) [OF stored(4)] unfolding res by (auto simp: state_of_def getSession_def)
      have tr: "trail (session_do o' now op s) z
          = trail s z @ (if z = e then [edge_payload (?a, st, trigger ctx)] else [])" for z
        using op(2) unfolding res
        by (simp add: trail_def getEventsByExecution_def audit_event_def audit_of_def edge_payload_def audit_payload_def)
      have "\<exists>es. trail (session_do o' now op s) z = map edge_payload es
          \<and> walk (opts_fsm o') pending_status es (state_of (session_do o' now op s) z)" for z
      proof -
        obtain es where es: "trail s z = map edge_payload es" "walk (opts_fsm o') pending_status es (state_of s z)"
          using inv by (auto simp: trail_inv_def)
        show ?thesis
          using es stored(2) unfolding st tr
          by (intro exI [of _ "es @ (if z = e then [(?a, st, trigger ctx)] else [])"]) (auto simp: walk_append)
      qed
      then show ?thesis using op unfolding trail_inv_def res by (auto simp: audit_event_def)
    qed
  qed
qed

lemma disjoint_insert_sub: "B \<subseteq> insert u A \<Longrightarrow> u \<notin> U \<Longrightarrow> U \<inter> A = {} \<Longrightarrow> U \<inter> B = {}"
  by blast

lemma audited_run:
  assumes "onEnter (opts_fsm o') = []" and "opts_executor o'"
    and "list_all (\<lambda>x. audited (snd x)) ops" and "distinct (map (op_uuid \<circ> snd) ops)"
    and "set (map (op_uuid \<circ> snd) ops) \<inter> event_id ` set (session_events s) = {}"
    and "trail_inv (opts_fsm o') s"
  shows "trail_inv (opts_fsm o') (session_run o' ops s)"
  using assms(3-6)
proof (induction ops arbitrary: s)
  case (Cons x ops)
  let ?s = "session_do o' (fst x) (snd x) s"
  have x: "audited (snd x)" "op_uuid (snd x) \<notin> event_id ` set (session_events s)"
    and rest: "list_all (\<lambda>x. audited (snd x)) ops" "distinct (map (op_uuid \<circ> snd) ops)"
    and new: "op_uuid (snd x) \<notin> set (map (op_uuid \<circ> snd) ops)"
    and apart: "set (map (op_uuid \<circ> snd) ops) \<inter> event_id ` set (session_events s) = {}"
    using Cons.prems(1-3) by (simp_all add: comp_def del: set_map)
  note step = audited_step [OF assms(1,2) x Cons.prems(4), of "fst x"]
  have "set (map (op_uuid \<circ> snd) ops) \<inter> event_id ` set (session_events ?s) = {}"
    by (rule disjoint_insert_sub [OF conjunct2 [OF step] new apart])
  from Cons.IH [OF rest this conjunct1 [OF step]]
  show ?case by simp
qed simp

subsection \<open>The chat-thread role\<close>

definition chat_role :: session_column where
  "chat_role = ''chat_thread_role''"

text \<open>The only operation whose columns include the role of a row that is there.\<close>

fun patches_role :: "string \<Rightarrow> session_op \<Rightarrow> bool" where
  "patches_role e (Patch x flds) = (x = e \<and> flds chat_role \<noteq> Undefined)"
| "patches_role e _ = False"

lemma chat_role_column: "chat_role \<notin> set UPSERT_COLUMNS"
  by code_simp

lemma chat_role_other: "''last_activity_at'' \<noteq> chat_role" "''last_error'' \<noteq> chat_role" "''pr_head_sha'' \<noteq> chat_role"
  "''retry_successor'' \<noteq> chat_role" "''heartbeat_at'' \<noteq> chat_role" "''session_params'' \<noteq> chat_role"
  "''merge_block_reason'' \<noteq> chat_role" "''merge_block_head'' \<noteq> chat_role" "''merge_block_at'' \<noteq> chat_role"
  "''qa_required'' \<noteq> chat_role" "''qa_required_reason'' \<noteq> chat_role"
  by (simp_all add: chat_role_def)

lemma written_row_cells [simp]: "cells (written_row now b st r) = cells r"
  by (simp add: written_row_def)

definition role_of :: "session_store \<Rightarrow> string \<Rightarrow> sql_value option option" where
  "role_of s e = map_option (\<lambda>r. cells r chat_role) (getSession s e)"

lemma persist_role:
  assumes "persistTransition now x st flds s = Inr s'" and "getSession s e = Some r"
  shows "role_of s' e = role_of s e"
  using assms
  by (auto simp: persistTransition_def and_then_ok insert_or_update_row get_after_status_write role_of_def
      conflict_cells_def chat_role_column)

lemma qa_role: "role_of (setQaRequiredSnapshot x req reason s) e = role_of s e"
  by (cases "e = x"; cases "getSession s e") (simp_all add: setQaRequiredSnapshot_def role_of_def chat_role_other chat_role_other(10,11) [symmetric])

lemma role_step:
  assumes r: "getSession s e = Some r" and op: "\<not> patches_role e op"
  shows "role_of (session_do o' now op s) e = role_of s e"
proof (cases "writes_status op")
  case False
  show ?thesis
  proof (cases op)
    case (Qa_snapshot x req reason)
    then show ?thesis by (simp add: qa_role)
  qed (use False r op chat_role_other in \<open>auto simp: metadata_defs role_of_def Let_def split: sum.split option.split\<close>)
next
  case True
  show ?thesis
  proof (cases op)
    case (Upsert x st flds)
    then show ?thesis
      using persist_role [OF _ r, of now x st flds]
      by (simp add: or_same_def upsertSession_def persistTransition_def [symmetric] split: sum.split)
  next
    case (Transition x st u ctx ex)
    have "role_of (snd p) e = role_of s e" if "applyTransition o' now u x st ctx ex s = Inr p" for p
    proof -
      have "applyTransition o' now u x st ctx ex s = Inr (fst p, snd p)" using that by simp
      then show ?thesis
        by (cases rule: apply_transition_cases) (auto dest!: persist_role [OF _ r] simp: role_of_def)
    qed
    then show ?thesis using Transition by (simp add: or_same_def split: sum.split)
  next
    case (Force x st at err)
    then show ?thesis
      using r chat_role_other by (cases "e = x") (simp_all add: forceStatus_def get_after_status_write role_of_def)
  qed (use True in simp_all)
qed

lemma role_run:
  "getSession s e = Some r \<Longrightarrow> list_all (\<lambda>x. \<not> patches_role e (snd x)) ops \<Longrightarrow>
    role_of (session_run o' ops s) e = role_of s e"
proof (induction ops arbitrary: s r)
  case (Cons x ops)
  then obtain r' where "getSession (session_do o' (fst x) (snd x) s) e = Some r'" using session_do_row by blast
  from Cons.IH [OF this] Cons.prems role_step [OF Cons.prems(1)] show ?case by simp
qed simp

subsection \<open>Properties\<close>

definition demo_ctx :: transition_ctx where
  "demo_ctx = \<lparr>executionId = ''e'', issueId = ''i'', projectName = ''p'', trigger = ''t'', ctx_payload = None\<rparr>"

definition demo_opts :: transition_opts where
  "demo_opts = \<lparr>opts_fsm = flywheel_fsm, opts_executor = True\<rparr>"

definition demo_move :: "string \<Rightarrow> string \<Rightarrow> session_op" where
  "demo_move uuid st = Transition ''e'' st (\<lambda>_. uuid) demo_ctx (\<lambda>_. None)"

text \<open>A session started, sent to review and notified of its timeout; then the writes of its callers.\<close>

definition demo_start :: "(string \<times> session_op) list" where
  "demo_start = [(''1'', demo_move ''u1'' running_status), (''2'', demo_move ''u2'' awaiting_review),
     (''3'', Timeout_notified ''e'')]"

definition demo_writes :: "(string \<times> session_op) list" where
  "demo_writes = [(''4'', Heartbeat ''e''), (''5'', Bind_review ''e'' (Some ''q'') None),
     (''6'', Rebind_head ''e'' ''h'')]"

definition demo_review :: session_store where
  "demo_review = session_run demo_opts demo_start empty_session_store"

definition demo_row :: session_row where
  "demo_row = (case getSession demo_review ''e'' of None \<Rightarrow> new_session_row [] (\<lambda>_. None) | Some r \<Rightarrow> r)"

definition demo_end :: session_store where
  "demo_end = session_run demo_opts demo_writes demo_review"

lemma demo_row_there: "getSession demo_review ''e'' = Some demo_row"
proof -
  have "map_option status (getSession demo_review ''e'') = Some awaiting_review" by code_simp
  then show ?thesis by (auto simp: demo_row_def)
qed

text \<open>C6: the lifecycle revision that a founder's confirmation snapshots never goes back, and if it reads
  the same before and after any sequence of store operations, legacy status writes included, then the
  session's status was the same at every point between.\<close>

theorem revision_tracks_status:
  assumes "getSession s e = Some r"
  shows "getLifecycleRevision s e \<le> getLifecycleRevision (session_run o' ops s) e
    \<and> (getLifecycleRevision (session_run o' ops s) e = getLifecycleRevision s e \<longrightarrow>
        (\<forall>k \<le> length ops. map_option status (getSession (session_run o' (take k ops) s) e) = Some (status r)))"
  using session_run_row [OF assms, of o' ops] assms by (auto simp: getLifecycleRevision_def)

theorem revision_tracks_status_witness:
  "getLifecycleRevision demo_end ''e'' = 1
   \<and> map_option status (getSession (session_run demo_opts (take 2 demo_writes) demo_review) ''e'') = Some (status demo_row)"
proof
  show "getLifecycleRevision demo_end ''e'' = 1" by code_simp
  have "getLifecycleRevision demo_end ''e'' = getLifecycleRevision demo_review ''e''" by code_simp
  moreover have "2 \<le> length demo_writes" by (simp add: demo_writes_def)
  ultimately show "map_option status (getSession (session_run demo_opts (take 2 demo_writes) demo_review) ''e'')
      = Some (status demo_row)"
    using revision_tracks_status [OF demo_row_there, of demo_opts demo_writes] by (simp add: demo_end_def)
qed

text \<open>C30: as long as no caller uses the two legacy writes (\<open>upsertSession\<close>, \<open>forceStatus\<close>), every
  status change of a session follows the transition map, whatever metadata, review, worktree and event
  writes come between, and a session in a terminal status keeps it for ever.\<close>

theorem status_follows_edges:
  assumes "list_all (\<lambda>x. \<not> legacy (snd x)) ops"
  shows "(state_of s e, state_of (session_run o' ops s) e) \<in> (edges (opts_fsm o'))\<^sup>*
    \<and> (isTerminal (opts_fsm o') (state_of s e) \<longrightarrow> state_of (session_run o' ops s) e = state_of s e)"
  using session_run_edges [OF assms] terminal_no_path by blast

definition demo_kill :: "(string \<times> session_op) list" where
  "demo_kill = [(''7'', demo_move ''u7'' ''terminated''), (''8'', demo_move ''u8'' running_status),
     (''9'', Patch ''e'' (\<lambda>_. Undefined))]"

theorem status_follows_edges_witness:
  "(awaiting_review, ''terminated'') \<in> (edges flywheel_fsm)\<^sup>*
   \<and> state_of (session_run demo_opts demo_kill (session_run demo_opts demo_kill demo_review)) ''e'' = ''terminated''"
proof
  have ops: "list_all (\<lambda>x. \<not> legacy (snd x)) demo_kill" by (simp add: demo_kill_def demo_move_def)
  have st: "state_of demo_review ''e'' = awaiting_review" by code_simp
  have killed: "state_of (session_run demo_opts demo_kill demo_review) ''e'' = ''terminated''" by code_simp
  show "(awaiting_review, ''terminated'') \<in> (edges flywheel_fsm)\<^sup>*"
    using status_follows_edges [OF ops, of demo_review "''e''" demo_opts] st killed by (simp add: demo_opts_def)
  have "isTerminal (opts_fsm demo_opts) ''terminated''" by code_simp
  then show "state_of (session_run demo_opts demo_kill (session_run demo_opts demo_kill demo_review)) ''e'' = ''terminated''"
    using status_follows_edges [OF ops, of "session_run demo_opts demo_kill demo_review" "''e''" demo_opts] killed by simp
qed

text \<open>Nothing extends a review window: while a session stays in \<open>awaiting_review\<close> (its revision
  unchanged) and the window is not explicitly reset, no operation moves the entry time that anchors the
  deadline, and once its timeout has been notified the session is never listed as timed out again.\<close>

theorem review_deadline_fixed:
  assumes "getSession s e = Some r" and "status r = awaiting_review"
    and "list_all (\<lambda>x. snd x \<noteq> Reset_review e) ops"
    and "getSession (session_run o' ops s) e = Some r'" and "lifecycle_revision r' = lifecycle_revision r"
    and "distinct (map fst (sessions s))"
  shows "awaiting_review_entered_at r' = awaiting_review_entered_at r
    \<and> (gate_timeout_notified_at r \<noteq> None
       \<longrightarrow> e \<notin> set (getAwaitingReviewTimedOut cutoff (session_run o' ops s)))"
proof -
  note window = session_run_window [OF assms(1-5)]
  have keys: "distinct (map fst (sessions (session_run o' ops s)))" by (rule session_run_keys [OF assms(6)])
  have "(e, x) \<in> set (sessions (session_run o' ops s)) \<Longrightarrow> x = r'" for x
    using assms(4) keys by (simp add: getSession_def)
  then have "e \<notin> set (getAwaitingReviewTimedOut cutoff (session_run o' ops s))"
    if "gate_timeout_notified_at r \<noteq> None"
    using that window by (auto simp: getAwaitingReviewTimedOut_def)
  then show ?thesis using window by blast
qed

lemma demo_writes_keep: "list_all (\<lambda>x. snd x \<noteq> Reset_review ''e'') demo_writes"
  by (simp add: demo_writes_def)

theorem review_deadline_fixed_witness:
  "map_option awaiting_review_entered_at (getSession demo_end ''e'') = Some (Some ''2'')
   \<and> ''e'' \<notin> set (getAwaitingReviewTimedOut ''9'' demo_end)"
proof -
  have "map_option lifecycle_revision (getSession demo_end ''e'') = Some (lifecycle_revision demo_row)" by code_simp
  then obtain r' where r': "getSession (session_run demo_opts demo_writes demo_review) ''e'' = Some r'"
    "lifecycle_revision r' = lifecycle_revision demo_row" by (auto simp: demo_end_def)
  have "status demo_row = awaiting_review" by code_simp
  moreover have "distinct (map fst (sessions demo_review))" by code_simp
  ultimately have fixed: "awaiting_review_entered_at r' = awaiting_review_entered_at demo_row
    \<and> (gate_timeout_notified_at demo_row \<noteq> None
       \<longrightarrow> ''e'' \<notin> set (getAwaitingReviewTimedOut ''9'' (session_run demo_opts demo_writes demo_review)))"
    using review_deadline_fixed [OF demo_row_there _ demo_writes_keep r', of "''9''"] by blast
  have "awaiting_review_entered_at demo_row = Some ''2''" "gate_timeout_notified_at demo_row \<noteq> None" by code_simp+
  with fixed r'(1) show ?thesis by (simp add: demo_end_def)
qed

text \<open>The worktree binding of a session is set once: no operation of the store changes it, and a
  second \<open>bindWorktreeOnce\<close> is refused and leaves the store as it is.\<close>

theorem binding_set_once:
  assumes "getSession s e = Some r" and "binding r = Some b"
  shows "getWorktreeBinding (session_run o' ops s) e = getWorktreeBinding s e
    \<and> bindWorktreeOnce now e b' issue project (session_run o' ops s)
      = (\<lparr>bound = False, bind_reason = Some ''already_bound''\<rparr>, session_run o' ops s)"
  using session_run_row [OF assms(1), of o' ops] assms
  by (auto simp: getWorktreeBinding_def bindWorktreeOnce_def)

definition demo_binding :: worktree_binding where
  "demo_binding = \<lparr>wb_path = ''w'', wb_branch = ''b'', wb_generation = ''g'', wb_locked_at = ''1''\<rparr>"

definition demo_bound :: session_store where
  "demo_bound = session_do demo_opts ''1'' (Bind_worktree ''e'' demo_binding None None) empty_session_store"

theorem binding_set_once_witness:
  "getWorktreeBinding (session_run demo_opts demo_kill demo_bound) ''e'' = Some demo_binding"
proof -
  have "map_option binding (getSession demo_bound ''e'') = Some (Some demo_binding)" by code_simp
  then obtain r where "getSession demo_bound ''e'' = Some r" "binding r = Some demo_binding" by auto
  from binding_set_once [OF this, of demo_opts demo_kill] have
    "getWorktreeBinding (session_run demo_opts demo_kill demo_bound) ''e'' = getWorktreeBinding demo_bound ''e''" by blast
  also have "\<dots> = Some demo_binding" by code_simp
  finally show ?thesis .
qed


definition demo_moves :: "(string \<times> session_op) list" where
  "demo_moves = [(''1'', demo_move ''u1'' running_status), (''2'', demo_move ''u2'' awaiting_review),
     (''3'', demo_move ''u3'' running_status), (''4'', demo_move ''u4'' ''completed'')]"


text \<open>The chat-thread role of a session is fixed by whatever creates its row: no later status write
  (a \<open>session_started\<close> upsert or transition included) and no metadata write other than a patch that
  names the column changes it. So when \<open>worktree_ready\<close> creates the row before \<open>session_started\<close>
  arrives, the phase role the latter carries is lost and the session stays in the main thread.\<close>

theorem thread_role_set_once:
  assumes "getSession s e = Some r" and "list_all (\<lambda>x. \<not> patches_role e (snd x)) ops"
  shows "role_of (session_run o' ops s) e = role_of s e"
  using role_run [OF assms] .

text \<open>\<open>worktree_ready\<close> first: the minimal row, as the handlers create it; then \<open>session_started\<close>.\<close>

definition minimal_fields :: session_fields where
  "minimal_fields c = (if c = ''issue_id'' then Value (Txt ''i'') else if c = ''project_name'' then Value (Txt ''p'')
     else if c = ''worktree_path'' then Value (Txt ''w'') else Undefined)"

definition early_worktree :: session_store where
  "early_worktree = session_do demo_opts ''1'' (Upsert ''e'' pending_status minimal_fields) empty_session_store"

definition late_start :: "(string \<times> session_op) list" where
  "late_start = [(''2'', Transition ''e'' running_status (\<lambda>_. ''u'') demo_ctx
     (\<lambda>c. if c = ''chat_thread_role'' then Some (Value (Txt ''design'')) else None))]"

theorem thread_role_set_once_witness:
  "state_of (session_run demo_opts late_start early_worktree) ''e'' = running_status
   \<and> role_of (session_run demo_opts late_start early_worktree) ''e'' = Some (Some (Txt main_role))"
proof
  show "state_of (session_run demo_opts late_start early_worktree) ''e'' = running_status" by code_simp
  have "map_option status (getSession early_worktree ''e'') = Some pending_status" by code_simp
  then obtain r where r: "getSession early_worktree ''e'' = Some r" by auto
  have "list_all (\<lambda>x. \<not> patches_role ''e'' (snd x)) late_start" by (simp add: late_start_def)
  from thread_role_set_once [OF r this, of demo_opts]
  have "role_of (session_run demo_opts late_start early_worktree) ''e'' = role_of early_worktree ''e''" .
  also have "\<dots> = Some (Some (Txt main_role))" by code_simp
  finally show "role_of (session_run demo_opts late_start early_worktree) ''e'' = Some (Some (Txt main_role))" .
qed

text \<open>The monotonic guard of \<open>upsertSession\<close> stops only the direct way back: a terminal session written
  to \<open>pending\<close> first can then be written to \<open>running\<close>.\<close>

definition reopen :: "(string \<times> session_op) list" where
  "reopen = [(''1'', Upsert ''e'' ''completed'' minimal_fields), (''2'', Upsert ''e'' running_status minimal_fields),
     (''3'', Upsert ''e'' pending_status minimal_fields), (''4'', Upsert ''e'' running_status minimal_fields)]"

lemma terminal_reopened:
  "state_of (session_run demo_opts (take 2 reopen) empty_session_store) ''e'' = ''completed''
   \<and> state_of (session_run demo_opts reopen empty_session_store) ''e'' = running_status"
  by code_simp

end
