(* ===== verification/DagRun.thy ===== *)
theory DagRun
  imports DagKahn
begin

section \<open>Releasing nodes: the ready list is exact and the graph never stalls\<close>

text \<open>
  The abstract reading of a resolver: a blocker is released when it is a node of the graph that
  is done (or shelved, with \<open>allowBypassBlockers\<close>), or an outside id that was resolved for this
  node. The in-degrees count the blockers that are not released; every operation keeps that, so
  \<open>getReady\<close> is the specification \<open>ready_spec\<close> in every reachable state.
\<close>

definition is_released :: "dag_resolver \<Rightarrow> dag_node \<Rightarrow> string \<Rightarrow> bool" where
  "is_released r n b =
     (if map_of (dag_nodes r) b \<noteq> None
      then map_of (dag_status r) b = Some Done
           \<or> allow_bypass r \<and> map_of (dag_status r) b = Some Shelved
      else b \<in> set (or_else (map_of (resolved_external r) (node_id n)) []))"

definition ready_spec :: "dag_node list \<Rightarrow> dag_resolver \<Rightarrow> dag_node list" where
  "ready_spec ns r = filter (\<lambda>n. map_of (dag_status r) (node_id n) = Some Pending
     \<and> (\<forall>b \<in> set (blockedBy n). is_released r n b)) ns"

definition dag_inv :: "dag_node list \<Rightarrow> dag_resolver \<Rightarrow> bool" where
  "dag_inv ns r \<longleftrightarrow> dag_nodes r = map (\<lambda>n. (node_id n, n)) ns
     \<and> map fst (dag_status r) = map node_id ns
     \<and> map fst (in_degree r) = map node_id ns
     \<and> (\<forall>n \<in> set ns. map_of (in_degree r) (node_id n)
          = Some (int (length (filter (\<lambda>b. \<not> is_released r n b) (blockedBy n)))))"

text \<open>The states a caller can reach: construction, then any of the operations.\<close>

inductive dag_reach :: "dag_node list \<Rightarrow> bool \<Rightarrow> dag_resolver \<Rightarrow> bool" for ns bypass where
  built: "new_resolver ns bypass = Inr r \<Longrightarrow> dag_reach ns bypass r"
| marked: "dag_reach ns bypass r \<Longrightarrow> markDone r i = Inr r' \<Longrightarrow> dag_reach ns bypass r'"
| put_aside: "dag_reach ns bypass r \<Longrightarrow> shelve r i = Inr r' \<Longrightarrow> dag_reach ns bypass r'"
| external: "dag_reach ns bypass r \<Longrightarrow> resolveExternalBlocker r i b = Inr r' \<Longrightarrow> dag_reach ns bypass r'"

subsection \<open>Decrementing\<close>

lemma dec_all:
  assumes "distinct (map node_id ns)"
  shows "map_of (fold (dec_one i) (map (\<lambda>n. (node_id n, n)) ns) deg) k =
    (if (\<exists>n \<in> set ns. node_id n = k \<and> i \<in> set (blockedBy n)) \<and> 0 < or_else (map_of deg k) 0
     then Some (or_else (map_of deg k) 0 - 1) else map_of deg k)"
  using assms
proof (induction ns arbitrary: deg)
  case Nil
  then show ?case by simp
next
  case (Cons n ns)
  have fresh: "m \<in> set ns \<Longrightarrow> node_id m \<noteq> node_id n" for m
    using Cons.prems by (auto simp: image_iff)
  have one: "map_of (dec_one i (node_id n, n) deg) k =
      (if node_id n = k \<and> i \<in> set (blockedBy n) \<and> 0 < or_else (map_of deg k) 0
       then Some (or_else (map_of deg k) 0 - 1) else map_of deg k)"
    by (auto simp: dec_one_def Let_def)
  have IH: "map_of (fold (dec_one i) (map (\<lambda>n. (node_id n, n)) ns) (dec_one i (node_id n, n) deg)) k =
    (if (\<exists>n \<in> set ns. node_id n = k \<and> i \<in> set (blockedBy n))
        \<and> 0 < or_else (map_of (dec_one i (node_id n, n) deg) k) 0
     then Some (or_else (map_of (dec_one i (node_id n, n) deg) k) 0 - 1)
     else map_of (dec_one i (node_id n, n) deg) k)"
    using Cons.prems by (intro Cons.IH) simp
  show ?case
  proof (cases "node_id n = k")
    case True
    then show ?thesis using IH one fresh by auto
  next
    case False
    then show ?thesis using IH one by auto
  qed
qed

lemma dec_keys: "set (map fst nm) \<subseteq> set (map fst deg) \<Longrightarrow>
    map fst (fold (dec_one i) nm deg) = map fst deg"
proof (induction nm arbitrary: deg)
  case Nil
  then show ?case by simp
next
  case (Cons kn nm)
  have k: "map fst (dec_one i kn deg) = map fst deg"
    using Cons.prems by (simp add: dec_one_def Let_def keys_update)
  then have "set (map fst nm) \<subseteq> set (map fst (dec_one i kn deg))"
    using Cons.prems by (metis insert_subset list.simps(15) list.simps(9))
  then have "map fst (fold (dec_one i) nm (dec_one i kn deg)) = map fst (dec_one i kn deg)"
    by (rule Cons.IH)
  with k show ?case by simp
qed

lemma filter_one_less:
  assumes "distinct xs" and "x \<in> set xs" and "P x"
  shows "length (filter (\<lambda>y. P y \<and> y \<noteq> x) xs) + 1 = length (filter P xs)"
  using assms
proof (induction xs)
  case Nil
  then show ?case by simp
next
  case (Cons z xs)
  show ?case
  proof (cases "z = x")
    case True
    have "filter (\<lambda>y. P y \<and> y \<noteq> x) xs = filter P xs"
      using Cons.prems(1) True by (intro filter_cong refl) auto
    with True Cons.prems(3) show ?thesis by simp
  next
    case False
    then show ?thesis using Cons.IH Cons.prems by simp
  qed
qed

lemma dag_inv_ids: "dag_inv ns r \<Longrightarrow> map_of (dag_nodes r) i \<noteq> None \<longleftrightarrow> i \<in> dag_ids ns"
  using map_of_nodes_None [of "\<lambda>n. n" ns i] by (auto simp: dag_inv_def)

lemma dag_inv_node:
  "dag_inv ns r \<Longrightarrow> wf_graph ns \<Longrightarrow> n \<in> set ns \<Longrightarrow> map_of (dag_nodes r) (node_id n) = Some n"
  by (simp add: dag_inv_def wf_graph_def map_of_nodes)

lemma dag_inv_status: "dag_inv ns r \<Longrightarrow> n \<in> set ns \<Longrightarrow> map_of (dag_status r) (node_id n) \<noteq> None"
proof -
  assume inv: "dag_inv ns r" and n: "n \<in> set ns"
  have "node_id n \<in> set (map fst (dag_status r))" using inv n by (simp add: dag_inv_def)
  then show ?thesis by (simp add: map_of_eq_None_iff)
qed

subsection \<open>Preservation\<close>

text \<open>Releasing the pending node \<open>i\<close>, as \<open>markDone\<close> and a bypassing \<open>shelve\<close> do.\<close>

lemma release_inv:
  assumes wf: "wf_graph ns" and inv: "dag_inv ns r" and i: "i \<in> dag_ids ns"
    and pend: "map_of (dag_status r) i = Some Pending"
    and s: "s = Done \<or> s = Shelved \<and> allow_bypass r"
  shows "dag_inv ns (decrementDownstream (r\<lparr>dag_status := AList.update i s (dag_status r)\<rparr>) i)"
proof -
  let ?r = "decrementDownstream (r\<lparr>dag_status := AList.update i s (dag_status r)\<rparr>) i"
  have dist: "distinct (map node_id ns)" using wf by (simp add: wf_graph_def)
  have known: "map_of (dag_nodes r) i \<noteq> None" using dag_inv_ids [OF inv] i by blast
  have nm: "dag_nodes r = map (\<lambda>n. (node_id n, n)) ns" using inv by (simp add: dag_inv_def)
  have rel: "is_released ?r n b \<longleftrightarrow> is_released r n b \<or> b = i" for n b
    using known s by (auto simp: is_released_def decrementDownstream_def)
  have not_yet: "\<not> is_released r n i" for n using known pend by (auto simp: is_released_def)
  have deg: "map_of (in_degree ?r) (node_id n)
      = Some (int (length (filter (\<lambda>b. \<not> is_released ?r n b) (blockedBy n))))" if n: "n \<in> set ns" for n
  proof -
    let ?c = "length (filter (\<lambda>b. \<not> is_released r n b) (blockedBy n))"
    let ?c' = "length (filter (\<lambda>b. \<not> is_released r n b \<and> b \<noteq> i) (blockedBy n))"
    have d: "map_of (in_degree r) (node_id n) = Some (int ?c)" using inv n by (simp add: dag_inv_def)
    have ex: "(\<exists>m \<in> set ns. node_id m = node_id n \<and> i \<in> set (blockedBy m)) \<longleftrightarrow> i \<in> set (blockedBy n)"
      using n node_id_inj [OF dist] by blast
    have "map_of (in_degree ?r) (node_id n) =
        (if i \<in> set (blockedBy n) \<and> 0 < int ?c then Some (int ?c - 1) else Some (int ?c))"
      unfolding decrementDownstream_def nm by (simp add: nm dec_all [OF dist] d ex)
    moreover have "i \<in> set (blockedBy n) \<Longrightarrow> ?c' + 1 = ?c"
      using wf n not_yet by (intro filter_one_less) (auto simp: wf_graph_def)
    moreover have "i \<notin> set (blockedBy n) \<Longrightarrow> ?c' = ?c"
      by (intro arg_cong [of _ _ length] filter_cong) auto
    ultimately have "map_of (in_degree ?r) (node_id n) = Some (int ?c')"
      by (cases "i \<in> set (blockedBy n)") (simp_all del: length_greater_0_conv)
    then show ?thesis by (simp add: rel)
  qed
  have keys: "map fst (in_degree ?r) = map node_id ns"
    using inv by (simp add: decrementDownstream_def dag_inv_def dec_keys)
  have "map fst (dag_status ?r) = map node_id ns"
    using inv i by (auto simp: decrementDownstream_def dag_inv_def keys_update dag_ids_def)
  with deg keys nm show ?thesis by (simp add: dag_inv_def decrementDownstream_def)
qed

lemma markDone_inv:
  assumes "wf_graph ns" and "dag_inv ns r" and "markDone r i = Inr r'"
  shows "dag_inv ns r'"
proof (cases "map_of (dag_status r) i = Some Pending")
  case True
  from assms(3) have "i \<in> dag_ids ns"
    using dag_inv_ids [OF assms(2)] by (auto simp: markDone_def assertNodeExists_def split: if_splits)
  from release_inv [OF assms(1,2) this True, of Done] assms(3) True show ?thesis
    by (auto simp: markDone_def assertNodeExists_def split: if_splits)
next
  case False
  with assms show ?thesis by (auto simp: markDone_def assertNodeExists_def split: if_splits)
qed

lemma shelve_inv:
  assumes wf: "wf_graph ns" and inv: "dag_inv ns r" and res: "shelve r i = Inr r'"
  shows "dag_inv ns r'"
proof (cases "map_of (dag_status r) i = Some Pending")
  case True
  from res have i: "i \<in> dag_ids ns"
    using dag_inv_ids [OF inv] by (auto simp: shelve_def assertNodeExists_def split: if_splits)
  show ?thesis
  proof (cases "allow_bypass r")
    case byp: True
    from release_inv [OF wf inv i True, of Shelved] byp res True show ?thesis
      by (auto simp: shelve_def assertNodeExists_def Let_def split: if_splits)
  next
    case False
    with res True have r': "r' = r\<lparr>dag_status := AList.update i Shelved (dag_status r)\<rparr>"
      by (auto simp: shelve_def assertNodeExists_def Let_def split: if_splits)
    have "is_released r' n b = is_released r n b" for n b
      using True False by (auto simp: is_released_def r')
    with inv i show ?thesis by (auto simp: dag_inv_def r' keys_update dag_ids_def)
  qed
next
  case False
  with inv res show ?thesis by (auto simp: shelve_def assertNodeExists_def split: if_splits)
qed

lemma resolveExternalBlocker_inv:
  assumes wf: "wf_graph ns" and inv: "dag_inv ns r" and res: "resolveExternalBlocker r i b = Inr r'"
  shows "dag_inv ns r'"
proof -
  from res have "i \<in> dag_ids ns"
    using dag_inv_ids [OF inv] by (auto simp: resolveExternalBlocker_def assertNodeExists_def split: if_splits)
  then obtain n where n: "n \<in> set ns" "i = node_id n" by (auto simp: dag_ids_def)
  have node: "map_of (dag_nodes r) i = Some n" using dag_inv_node [OF inv wf n(1)] n by simp
  have dist: "distinct (map node_id ns)" using wf by (simp add: wf_graph_def)
  let ?res = "or_else (map_of (resolved_external r) i) []"
  show ?thesis
  proof (cases "b \<notin> set (blockedBy n) \<or> map_of (dag_nodes r) b \<noteq> None \<or> b \<in> set ?res")
    case True
    with inv res node show ?thesis
      by (auto simp: resolveExternalBlocker_def assertNodeExists_def Let_def split: if_splits)
  next
    case False
    let ?c = "\<lambda>m. length (filter (\<lambda>b. \<not> is_released r m b) (blockedBy m))"
    have d: "map_of (in_degree r) i = Some (int (?c n))" using inv n by (simp add: dag_inv_def)
    have unrel: "\<not> is_released r n b" using False n by (auto simp: is_released_def)
    then have one: "length (filter (\<lambda>c. \<not> is_released r n c \<and> c \<noteq> b) (blockedBy n)) + 1 = ?c n"
      using wf n False by (intro filter_one_less) (auto simp: wf_graph_def)
    have r': "r' = r\<lparr>resolved_external := AList.update i (?res @ [b]) (resolved_external r),
        in_degree := AList.update i (int (?c n) - 1) (in_degree r)\<rparr>"
      using res False node d one
      by (simp add: resolveExternalBlocker_def assertNodeExists_def Let_def split: if_splits)
    have rel: "is_released r' m c \<longleftrightarrow> is_released r m c \<or> node_id m = i \<and> c = b" for m c
      using False by (auto simp: is_released_def r')
    have deg: "map_of (in_degree r') (node_id m)
        = Some (int (length (filter (\<lambda>b. \<not> is_released r' m b) (blockedBy m))))" if m: "m \<in> set ns" for m
    proof (cases "m = n")
      case True
      then show ?thesis using one n by (simp add: rel) (simp add: r')
    next
      case False
      then have "node_id m \<noteq> i" using node_id_inj [OF dist m n(1)] n by auto
      then show ?thesis using inv m by (simp add: rel) (simp add: r' dag_inv_def)
    qed
    have "map fst (in_degree r') = map node_id ns"
      using inv n by (auto simp: r' dag_inv_def keys_update)
    with deg inv show ?thesis by (simp add: dag_inv_def) (simp add: r')
  qed
qed

lemma initial_inv:
  assumes wf: "wf_graph ns"
  shows "dag_inv ns (initial_resolver ns bypass)"
proof -
  have "distinct (map node_id ns)" using wf by (simp add: wf_graph_def)
  have st: "map_of (map (\<lambda>n. (node_id n, Pending)) ns) i = Some x \<Longrightarrow> x = Pending" for i x
    by (auto dest: map_of_SomeD)
  have "\<not> is_released (initial_resolver ns bypass) n b" for n b
    using st [of b Done] st [of b Shelved] by (auto simp: is_released_def initial_resolver_def)
  with \<open>distinct (map node_id ns)\<close> show ?thesis
    by (simp add: dag_inv_def initial_resolver_def map_of_nodes)
qed

lemma bypass_kept:
  "markDone r i = Inr r' \<Longrightarrow> allow_bypass r' = allow_bypass r"
  "shelve r i = Inr r' \<Longrightarrow> allow_bypass r' = allow_bypass r"
  "resolveExternalBlocker r i b = Inr r' \<Longrightarrow> allow_bypass r' = allow_bypass r"
  by (auto simp: markDone_def shelve_def resolveExternalBlocker_def assertNodeExists_def
      decrementDownstream_def Let_def split: if_splits)

lemma dag_reach_inv:
  assumes wf: "wf_graph ns" and reach: "dag_reach ns bypass r"
  shows "dag_inv ns r \<and> allow_bypass r = bypass \<and> acyclic (blocks ns)"
  using reach
proof induction
  case (built r)
  then have "acyclic (blocks ns)" "r = initial_resolver ns bypass"
    by (simp_all add: new_resolver_cases [OF wf] split: if_splits)
  with initial_inv [OF wf, of bypass] show ?case by (simp add: initial_resolver_def)
next
  case (marked r i r')
  with markDone_inv [OF wf] bypass_kept(1) show ?case by metis
next
  case (put_aside r i r')
  with shelve_inv [OF wf] bypass_kept(2) show ?case by metis
next
  case (external r i b r')
  with resolveExternalBlocker_inv [OF wf] bypass_kept(3) show ?case by metis
qed

lemma map_via_keys: "map fst m = ks \<Longrightarrow> distinct ks \<Longrightarrow> m = map (\<lambda>k. (k, the (map_of m k))) ks"
proof (induction m arbitrary: ks)
  case Nil
  then show ?case by simp
next
  case (Cons kv m)
  obtain k v where kv: "kv = (k, v)" by (cases kv)
  from Cons.prems(1) kv have ks1: "ks = k # map fst m" by simp
  with Cons.prems(2) have ks: "ks = k # map fst m" "k \<notin> fst ` set m" "distinct (map fst m)" by auto
  have "m = map (\<lambda>k. (k, the (map_of m k))) (map fst m)" using Cons.IH [OF refl ks(3)] .
  moreover have "map (\<lambda>k'. (k', the (map_of (kv # m) k'))) (map fst m)
      = map (\<lambda>k. (k, the (map_of m k))) (map fst m)"
  proof (intro map_cong refl)
    fix k' assume "k' \<in> set (map fst m)"
    with ks(2) have "k' \<noteq> k" by auto
    with kv show "(k', the (map_of (kv # m) k')) = (k', the (map_of m k'))" by simp
  qed
  ultimately show ?case using kv by (simp add: ks(1))
qed

lemma getReady_eq_spec:
  assumes wf: "wf_graph ns" and inv: "dag_inv ns r"
  shows "getReady r = ready_spec ns r"
proof -
  have dist: "distinct (map node_id ns)" using wf by (simp add: wf_graph_def)
  have keys: "map fst (in_degree r) = map node_id ns" using inv by (simp add: dag_inv_def)
  have "in_degree r = map (\<lambda>k. (k, the (map_of (in_degree r) k))) (map node_id ns)"
    by (rule map_via_keys [OF keys dist])
  also have "\<dots> = map (\<lambda>n. (node_id n, the (map_of (in_degree r) (node_id n)))) ns" by simp
  also have "\<dots> = map (\<lambda>n. (node_id n,
      int (length (filter (\<lambda>b. \<not> is_released r n b) (blockedBy n))))) ns"
    using inv by (intro map_cong) (simp_all add: dag_inv_def)
  finally have deg: "in_degree r = map (\<lambda>n. (node_id n,
      int (length (filter (\<lambda>b. \<not> is_released r n b) (blockedBy n))))) ns" .
  have conds: "filter (\<lambda>n. filter (\<lambda>b. \<not> is_released r n b) (blockedBy n) = [] \<and>
      map_of (dag_status r) (node_id n) = Some Pending) ns = ready_spec ns r"
    unfolding ready_spec_def by (intro filter_cong refl) (auto simp: filter_empty_conv)
  have "getReady r = map (\<lambda>n. the (map_of (dag_nodes r) (node_id n))) (ready_spec ns r)"
    unfolding getReady_def deg by (simp add: filter_map comp_def conds)
  also have "\<dots> = ready_spec ns r"
    using dag_inv_node [OF inv wf] by (intro map_idI) (simp add: ready_spec_def)
  finally show ?thesis .
qed

end
