(* ===== verification/DagProps.thy ===== *)
theory DagProps
  imports DagRun
begin

section \<open>What the resolver promises its dispatcher\<close>

text \<open>
  The contract of \<open>DagResolver\<close> as the dispatcher uses it, stated as a locale over the
  operations it calls and interpreted on the model, and the properties of the resolver.
\<close>

subsection \<open>The interface\<close>

text \<open>
  A source of work: \<open>settle\<close> stands for \<open>markDone\<close> or \<open>shelve\<close> of a node that exists. A ready
  node is pending, settling a node removes it from the pending ones and nothing else.
\<close>

locale work_source =
  fixes ok :: "'r \<Rightarrow> bool"
    and pending :: "'r \<Rightarrow> string set"
    and ready_ids :: "'r \<Rightarrow> string list"
    and left :: "'r \<Rightarrow> nat"
    and settle :: "bool \<Rightarrow> 'r \<Rightarrow> string \<Rightarrow> 'r"
  assumes ready_pending: "ok r \<Longrightarrow> set (ready_ids r) \<subseteq> pending r"
    and left_card: "ok r \<Longrightarrow> left r = card (pending r)"
    and pending_finite: "ok r \<Longrightarrow> finite (pending r)"
    and settle_ok: "ok r \<Longrightarrow> i \<in> pending r \<Longrightarrow> ok (settle b r i)"
    and settle_pending: "ok r \<Longrightarrow> i \<in> pending r \<Longrightarrow> pending (settle b r i) = pending r - {i}"
begin

primrec run_ok :: "'r \<Rightarrow> (bool \<times> string) list \<Rightarrow> bool" where
  "run_ok r [] = True"
| "run_ok r (x # xs) = (snd x \<in> pending r \<and> run_ok (settle (fst x) r (snd x)) xs)"

primrec after :: "'r \<Rightarrow> (bool \<times> string) list \<Rightarrow> 'r" where
  "after r [] = r"
| "after r (x # xs) = after (settle (fst x) r (snd x)) xs"

text \<open>Settling pending nodes one after the other: each is settled once.\<close>

lemma run_once:
  assumes "ok r" and "run_ok r xs"
  shows "ok (after r xs) \<and> distinct (map snd xs) \<and> set (map snd xs) \<subseteq> pending r
    \<and> pending (after r xs) = pending r - set (map snd xs)"
  using assms
proof (induction xs arbitrary: r)
  case Nil
  then show ?case by simp
next
  case (Cons x xs)
  have i: "snd x \<in> pending r" and run: "run_ok (settle (fst x) r (snd x)) xs"
    using Cons.prems(2) by simp_all
  note IH = Cons.IH [OF settle_ok [OF Cons.prems(1) i] run]
  show ?case using IH settle_pending [OF Cons.prems(1) i] i by auto
qed

lemma run_left:
  assumes "ok r" and "run_ok r xs"
  shows "left (after r xs) + length xs = left r"
proof -
  note run = run_once [OF assms]
  have "card (pending (after r xs)) = card (pending r) - card (set (map snd xs))"
    using run by (simp add: card_Diff_subset)
  moreover have "card (set (map snd xs)) = length xs"
    using run distinct_card by fastforce
  moreover have "card (set (map snd xs)) \<le> card (pending r)"
    using run pending_finite [OF assms(1)] by (intro card_mono) auto
  ultimately show ?thesis using left_card assms(1) run by simp
qed

lemma ready_settled: "ok r \<Longrightarrow> i \<in> set (ready_ids r) \<Longrightarrow> left (settle b r i) < left r"
  using run_left [of r "[(b, i)]"] ready_pending by fastforce

end

subsection \<open>The resolver provides it\<close>

definition pending_ids :: "dag_resolver \<Rightarrow> string set" where
  "pending_ids r = {i. map_of (dag_status r) i = Some Pending}"

text \<open>What the dispatcher does with a finished node; the other branch of the sum is a throw.\<close>

definition settle_node :: "bool \<Rightarrow> dag_resolver \<Rightarrow> string \<Rightarrow> dag_resolver" where
  "settle_node ok r i = (case (if ok then markDone r i else shelve r i) of Inl _ \<Rightarrow> r | Inr r' \<Rightarrow> r')"

definition dag_ok :: "dag_resolver \<Rightarrow> bool" where
  "dag_ok r \<longleftrightarrow> (\<exists>ns. wf_graph ns \<and> dag_inv ns r)"

lemma settle_node_step:
  assumes "dag_inv ns r" and "i \<in> pending_ids r"
  shows "(if b then markDone r i else shelve r i) = Inr (settle_node b r i)"
    and "dag_status (settle_node b r i) = AList.update i (if b then Done else Shelved) (dag_status r)"
proof -
  from assms(2) have "i \<in> set (map fst (dag_status r))"
    by (simp add: pending_ids_def) (metis map_of_SomeD fst_conv imageI)
  then have "i \<in> set (map node_id ns)" using assms(1) unfolding dag_inv_def by metis
  then have "i \<in> dag_ids ns" by (simp add: dag_ids_def)
  then have known: "map_of (dag_nodes r) i \<noteq> None" using dag_inv_ids [OF assms(1)] by blast
  with assms(2) show "(if b then markDone r i else shelve r i) = Inr (settle_node b r i)"
    by (auto simp: settle_node_def markDone_def shelve_def assertNodeExists_def Let_def)
  from known assms(2)
  show "dag_status (settle_node b r i) = AList.update i (if b then Done else Shelved) (dag_status r)"
    by (auto simp: settle_node_def markDone_def shelve_def assertNodeExists_def Let_def
        pending_ids_def decrementDownstream_def)
qed

lemma status_distinct: "wf_graph ns \<Longrightarrow> dag_inv ns r \<Longrightarrow> distinct (map fst (dag_status r))"
  by (simp add: dag_inv_def wf_graph_def)

lemma remaining_card:
  assumes "distinct (map fst (dag_status r))"
  shows "remaining r = card (pending_ids r)"
proof -
  let ?xs = "filter (\<lambda>(_, s). s = Pending) (dag_status r)"
  have "distinct (map fst ?xs)" using assms by (rule distinct_map_filter)
  then have "length ?xs = card (set (map fst ?xs))" by (metis distinct_card length_map)
  also have "set (map fst ?xs) = pending_ids r"
    using assms by (auto simp: pending_ids_def image_iff intro: map_of_is_SomeI dest: map_of_SomeD)
  finally show ?thesis by (simp add: remaining_def)
qed

lemma settle_node_inv:
  assumes "wf_graph ns" and "dag_inv ns r" and "i \<in> pending_ids r"
  shows "dag_inv ns (settle_node b r i)"
  using settle_node_step(1) [OF assms(2,3), of b] markDone_inv [OF assms(1,2)]
    shelve_inv [OF assms(1,2)] by (cases b) auto

interpretation dag: work_source dag_ok pending_ids "\<lambda>r. map node_id (getReady r)" remaining settle_node
proof unfold_locales
  fix r assume "dag_ok r"
  then obtain ns where ns: "wf_graph ns" "dag_inv ns r" by (auto simp: dag_ok_def)
  show "set (map node_id (getReady r)) \<subseteq> pending_ids r"
    by (auto simp: getReady_eq_spec [OF ns] ready_spec_def pending_ids_def)
  show "remaining r = card (pending_ids r)" by (rule remaining_card [OF status_distinct [OF ns]])
  have "pending_ids r \<subseteq> set (map fst (dag_status r))"
    by (auto simp: pending_ids_def dest!: map_of_SomeD) (metis fst_conv imageI)
  then show "finite (pending_ids r)" by (rule finite_subset) simp
  fix i b assume i: "i \<in> pending_ids r"
  show "dag_ok (settle_node b r i)" using settle_node_inv [OF ns i] ns(1) by (auto simp: dag_ok_def)
  show "pending_ids (settle_node b r i) = pending_ids r - {i}"
    using settle_node_step(2) [OF ns(2) i] by (auto simp: pending_ids_def)
qed

subsection \<open>Properties\<close>

text \<open>C26: for nodes with distinct ids and distinct blockers, the constructor of \<open>DagResolver\<close>
  succeeds exactly when the blocking relation of the graph has no cycle.\<close>

theorem constructor_accepts_acyclic:
  assumes "wf_graph ns"
  shows "is_ok (new_resolver ns bypass) \<longleftrightarrow> acyclic (blocks ns)"
  by (simp add: new_resolver_cases [OF assms])

definition diamond :: "dag_node list" where
  "diamond = [\<lparr>node_id = ''a'', blockedBy = []\<rparr>, \<lparr>node_id = ''b'', blockedBy = [''a'', ''x'']\<rparr>,
     \<lparr>node_id = ''c'', blockedBy = [''a'']\<rparr>, \<lparr>node_id = ''d'', blockedBy = [''b'', ''c'']\<rparr>]"

lemma diamond_wf: "wf_graph diamond"
  by (simp add: diamond_def wf_graph_def)

lemma diamond_built: "is_ok (new_resolver diamond False)" by code_simp

lemma diamond_acyclic: "acyclic (blocks diamond)"
  using diamond_built by (simp add: new_resolver_cases [OF diamond_wf] split: if_splits)

theorem constructor_accepts_acyclic_witness:
  "is_ok (new_resolver diamond False) \<longleftrightarrow> acyclic (blocks diamond)"
  using constructor_accepts_acyclic [OF diamond_wf] .


definition diamond_run :: "dag_resolver" where
  "diamond_run = (case new_resolver diamond False of Inl _ \<Rightarrow> undefined | Inr r \<Rightarrow>
     settle_node True r ''a'')"

lemma diamond_reach: "dag_reach diamond False diamond_run"
proof -
  obtain r where r: "new_resolver diamond False = Inr r"
    using diamond_built by (auto simp: is_ok_iff)
  have run: "diamond_run = settle_node True r ''a''" by (simp add: diamond_run_def r)
  have inv: "dag_inv diamond r" using dag_reach_inv [OF diamond_wf built [OF r]] by blast
  have "r = initial_resolver diamond False"
    using r by (simp add: new_resolver_cases [OF diamond_wf] diamond_acyclic)
  then have "''a'' \<in> pending_ids r" by (simp add: pending_ids_def initial_resolver_def diamond_def)
  from settle_node_step(1) [OF inv this, of True] show ?thesis
    unfolding run by (intro marked [OF built [OF r]]) simp
qed


lemma blocks_image:
  "blocks ns = (\<Union>n \<in> set ns. (\<lambda>b. (b, node_id n)) ` (set (blockedBy n) \<inter> dag_ids ns))"
  by (auto simp: blocks_def)

lemma finite_blocks: "finite (blocks ns)"
  by (simp add: blocks_image)

lemma minimal_pending_ready:
  assumes wf: "wf_graph ns" and inv: "dag_inv ns r" and n: "n \<in> set ns" "node_id n \<in> pending_ids r"
    and least: "\<And>b. (b, node_id n) \<in> blocks ns \<Longrightarrow> b \<notin> pending_ids r"
    and ext: "\<forall>b \<in> set (blockedBy n). b \<notin> dag_ids ns \<longrightarrow> is_released r n b"
    and shelved: "allow_bypass r \<or> (\<forall>i. map_of (dag_status r) i \<noteq> Some Shelved)"
  shows "n \<in> set (getReady r)"
proof -
  have "is_released r n b" if b: "b \<in> set (blockedBy n)" for b
  proof (cases "b \<in> dag_ids ns")
    case False
    then show ?thesis using ext b by blast
  next
    case True
    then obtain m where m: "m \<in> set ns" "b = node_id m" by (auto simp: dag_ids_def)
    have "(b, node_id n) \<in> blocks ns" using True b n(1) by (auto simp: blocks_def)
    then have not_pending: "map_of (dag_status r) b \<noteq> Some Pending"
      using least by (simp add: pending_ids_def)
    have "map_of (dag_status r) b \<noteq> None" using dag_inv_status [OF inv m(1)] m(2) by simp
    then obtain s where s: "map_of (dag_status r) b = Some s" by blast
    with not_pending have "map_of (dag_status r) b = Some Done \<or> map_of (dag_status r) b = Some Shelved"
      by (cases s) simp_all
    moreover have "map_of (dag_nodes r) b \<noteq> None" using dag_inv_ids [OF inv] True by blast
    ultimately show ?thesis using shelved by (auto simp: is_released_def)
  qed
  then show ?thesis using n by (simp add: getReady_eq_spec [OF wf inv] ready_spec_def pending_ids_def)
qed

lemma some_ready:
  assumes wf: "wf_graph ns" and inv: "dag_inv ns r" and ac: "acyclic (blocks ns)" and pend: "pending_ids r \<noteq> {}"
    and shelved: "allow_bypass r \<or> (\<forall>i. map_of (dag_status r) i \<noteq> Some Shelved)"
    and ext: "\<forall>n \<in> set ns. \<forall>b \<in> set (blockedBy n). b \<notin> dag_ids ns \<longrightarrow> is_released r n b"
  shows "getReady r \<noteq> []"
proof -
  have "wf (blocks ns)" using finite_blocks ac by (rule finite_acyclic_wf)
  with pend obtain i where i: "i \<in> pending_ids r" "\<And>b. (b, i) \<in> blocks ns \<Longrightarrow> b \<notin> pending_ids r"
    by (metis wfE_min equals0I)
  have "i \<in> dag_ids ns"
  proof -
    have "i \<in> set (map fst (dag_status r))"
      using i(1) by (simp add: pending_ids_def) (metis map_of_SomeD fst_conv imageI)
    then have "i \<in> set (map node_id ns)" using inv unfolding dag_inv_def by metis
    then show ?thesis by (simp add: dag_ids_def)
  qed
  then obtain n where n: "n \<in> set ns" "i = node_id n" by (auto simp: dag_ids_def)
  have "n \<in> set (getReady r)"
    using minimal_pending_ready [OF wf inv n(1)] i n shelved ext by blast
  then show ?thesis by (metis empty_iff list.set(1))
qed


definition chain :: "dag_node list" where
  "chain = [\<lparr>node_id = ''a'', blockedBy = []\<rparr>, \<lparr>node_id = ''b'', blockedBy = [''a'']\<rparr>]"

definition chain_start :: "dag_resolver" where
  "chain_start = (case new_resolver chain False of Inl _ \<Rightarrow> undefined | Inr r \<Rightarrow> r)"

lemma chain_start_built: "new_resolver chain False = Inr chain_start"
  by (cases "new_resolver chain False") (simp_all add: chain_start_def, code_simp)


definition repeated_blocker :: "dag_node list" where
  "repeated_blocker = [\<lparr>node_id = ''a'', blockedBy = []\<rparr>, \<lparr>node_id = ''b'', blockedBy = [''a'', ''a'']\<rparr>]"

text \<open>the cycle check counts a blocker that is named twice twice but releases it once, so an
  acyclic graph with a repeated blocker is refused as cyclic.\<close>

theorem repeated_blocker_refused:
  "acyclic (blocks repeated_blocker) \<and> new_resolver repeated_blocker False = Inl (CycleDetected 1)"
proof
  have "blocks repeated_blocker = {(''a'', ''b'')}"
    by (simp add: blocks_image repeated_blocker_def dag_ids_def)
  then show "acyclic (blocks repeated_blocker)" 
    by (intro acyclicI_order [of _ "\<lambda>i. if i = ''a'' then 1 else 0 :: nat"]) simp
  show "new_resolver repeated_blocker False = Inl (CycleDetected 1)" by code_simp
qed

text \<open>a graph built from Linear issues names only its own nodes: the resolver built on it has
  no warnings, and its nodes are the issues that are not terminal, in their order.\<close>

theorem linear_graph_closed:
  assumes "new_resolver (build terminal issues) bypass = Inr r"
  shows "getWarnings r = [] \<and>
    map node_id (build terminal issues) = map issue_id (filter (active terminal) issues)"
proof
  let ?ns = "build terminal issues"
  have ids: "map node_id ?ns = map issue_id (filter (active terminal) issues)"
    by (simp add: build_def Let_def comp_def)
  then show "map node_id ?ns = map issue_id (filter (active terminal) issues)" .
  have known: "b \<in> set (map node_id ?ns)" if "n \<in> set ?ns" "b \<in> set (blockedBy n)" for n b
    using that unfolding ids by (auto simp: build_def Let_def)
  have "map_of (map_from (map (\<lambda>n. (node_id n, n)) ?ns)) b \<noteq> None"
    if "n \<in> set ?ns" "b \<in> set (blockedBy n)" for n b
  proof -
    have "set (map fst (map (\<lambda>n. (node_id n, n)) ?ns)) = set (map node_id ?ns)" by simp
    with known [OF that] show ?thesis
      unfolding map_from_def map_of_fold_update
      by (simp add: map_add_None map_of_eq_None_iff del: set_map) (auto simp: image_iff)
  qed
  then have "node_warnings (map_from (map (\<lambda>n. (node_id n, n)) ?ns)) n = []" if "n \<in> set ?ns" for n
    using that by (auto simp: node_warnings_def unknown_blockers_def filter_empty_conv)
  then have "concat (map (node_warnings (map_from (map (\<lambda>n. (node_id n, n)) ?ns))) ?ns) = []"
    by (simp add: concat_eq_Nil_conv)
  with assms show "getWarnings r = []"
    by (auto simp: new_resolver_def getWarnings_def Let_def split: sum.splits)
qed

definition two_issues :: "linear_issue list" where
  "two_issues = [\<lparr>issue_id = ''a'', state_type = Some ''started'', relations = None\<rparr>,
     \<lparr>issue_id = ''b'', state_type = None,
      relations = Some [\<lparr>rel_type = ''blocks'', relatedIssue = ''a''\<rparr>,
        \<lparr>rel_type = ''blocks'', relatedIssue = ''z''\<rparr>]\<rparr>]"

theorem linear_graph_closed_witness:
  "\<exists>r. new_resolver (build TERMINAL_TYPES two_issues) False = Inr r \<and> getWarnings r = []
    \<and> map node_id (build TERMINAL_TYPES two_issues) = [''a'', ''b'']"
proof -
  have "is_ok (new_resolver (build TERMINAL_TYPES two_issues) False)" by code_simp
  then obtain r where r: "new_resolver (build TERMINAL_TYPES two_issues) False = Inr r"
    by (auto simp: is_ok_iff)
  have "map issue_id (filter (active TERMINAL_TYPES) two_issues) = [''a'', ''b'']" by code_simp
  with linear_graph_closed [OF r] r show ?thesis by auto
qed

end
