(* ===== verification/Dispatcher.thy ===== *)
theory Dispatcher
  imports DagProps
begin

section \<open>The DAG dispatcher (core/src/Semaphore.ts, edge-worker/src/DagDispatcher.ts)\<close>

text \<open>
  \<open>Semaphore\<close> hands its slots out in FIFO order; \<open>DagDispatcher.dispatch\<close> runs every ready node of
  the resolver under it. The asynchronous dispatcher is a state machine whose steps are the stretches
  of code between two awaits: a pass of the main loop, the end of a node's run with the outcome of
  its blueprint, and the removal of the node's settled promise. The blueprint, the context builder,
  worktree pruning and the marker directory are outside; the dispatcher owns its semaphore and its
  resolver.
\<close>

subsection \<open>The semaphore\<close>

text \<open>A waiter is named by the node whose \<open>dispatchOne\<close> waits.\<close>

record semaphore =
  sem_count :: nat
  sem_max :: nat
  sem_queue :: "string list"

definition new_semaphore :: "js_number \<Rightarrow> (string, semaphore) result" where
  "new_semaphore n = (if \<not> positive_int n then Inl ''maxConcurrent must be a positive integer''
     else Inr \<lparr>sem_count = 0, sem_max = nat (int_of_number n), sem_queue = []\<rparr>)"

text \<open>Whether the slot is granted at once; otherwise the waiter joins the queue.\<close>

definition acquire :: "string \<Rightarrow> semaphore \<Rightarrow> bool \<times> semaphore" where
  "acquire w s = (if sem_count s < sem_max s then (True, s\<lparr>sem_count := sem_count s + 1\<rparr>)
     else (False, s\<lparr>sem_queue := sem_queue s @ [w]\<rparr>))"

text \<open>The waiter that gets the slot, if one waits.\<close>

definition release :: "semaphore \<Rightarrow> string option \<times> semaphore" where
  "release s = (case sem_queue s of
       w # ws \<Rightarrow> (Some w, s\<lparr>sem_queue := ws\<rparr>)
     | [] \<Rightarrow> (None, if 0 < sem_count s then s\<lparr>sem_count := sem_count s - 1\<rparr> else s))"

definition used :: "semaphore \<Rightarrow> nat" where
  "used s = sem_count s"

definition queueLength :: "semaphore \<Rightarrow> nat" where
  "queueLength s = length (sem_queue s)"

subsection \<open>The dispatcher's state\<close>

text \<open>A node's \<open>dispatchOne\<close> waits for the semaphore, runs its blueprint, or has released the slot
  and its promise is about to leave \<open>inflight\<close>.\<close>

datatype node_phase = Waiting | Running | Ending

text \<open>The main loop is at its head, in \<open>Promise.race\<close>, in \<open>Promise.allSettled\<close>, or has returned.\<close>

datatype loop_state = Loop | Race | Settling | Returned

record dispatcher =
  dp_resolver :: dag_resolver
  dp_semaphore :: semaphore
  dp_scheduled :: "string list"
  dp_inflight :: "(string \<times> node_phase) list"
  dp_completed :: "string list"
  dp_shelved :: "string list"
  dp_results :: "(string \<times> bool) list"
  dp_loop :: loop_state
  dp_woken :: bool       \<comment> \<open>a raced promise has settled\<close>
  dp_rejected :: bool    \<comment> \<open>a \<open>dispatchOne\<close> rejected\<close>

record dispatch_result =
  dr_completed :: "string list"
  dr_shelved :: "string list"
  dr_halted :: bool

datatype run_outcome = Succeeded | Failed | Threw_error

definition new_dispatch :: "dag_resolver \<Rightarrow> semaphore \<Rightarrow> dispatcher" where
  "new_dispatch r s = \<lparr>dp_resolver = r, dp_semaphore = s, dp_scheduled = [], dp_inflight = [],
     dp_completed = [], dp_shelved = [], dp_results = [], dp_loop = Loop, dp_woken = False,
     dp_rejected = False\<rparr>"

definition dispatch_return :: "dispatcher \<Rightarrow> dispatch_result" where
  "dispatch_return d = \<lparr>dr_completed = dp_completed d, dr_shelved = dp_shelved d,
     dr_halted = (dp_shelved d \<noteq> [])\<rparr>"

subsection \<open>The main loop\<close>

text \<open>The body of \<open>for (const node of ready)\<close>: \<open>dispatchOne\<close> runs up to its first await.\<close>

definition schedule :: "dag_node \<Rightarrow> dispatcher \<Rightarrow> dispatcher" where
  "schedule n d = (let (got, s) = acquire (node_id n) (dp_semaphore d) in
     d\<lparr>dp_scheduled := dp_scheduled d @ [node_id n], dp_semaphore := s,
       dp_inflight := AList.update (node_id n) (if got then Running else Waiting) (dp_inflight d)\<rparr>)"

definition unscheduled_ready :: "dispatcher \<Rightarrow> dag_node list" where
  "unscheduled_ready d = filter (\<lambda>n. node_id n \<notin> set (dp_scheduled d)) (getReady (dp_resolver d))"

definition leave_loop :: "dispatcher \<Rightarrow> dispatcher" where
  "leave_loop d = d\<lparr>dp_loop := (if dp_inflight d \<noteq> [] then Settling else Returned)\<rparr>"

definition loop_pass :: "dispatcher \<Rightarrow> dispatcher" where
  "loop_pass d =
     (if remaining (dp_resolver d) = 0 then leave_loop d
      else (let ready = unscheduled_ready d in
        if ready = [] then (if dp_inflight d \<noteq> [] then d\<lparr>dp_loop := Race\<rparr> else leave_loop d)
        else (let d' = fold schedule ready d
              in d'\<lparr>dp_loop := (if dp_inflight d' \<noteq> [] then Race else Loop)\<rparr>)))"

definition main_step :: "dispatcher \<Rightarrow> dispatcher option" where
  "main_step d = (case dp_loop d of
       Loop \<Rightarrow> Some (loop_pass d)
     | Race \<Rightarrow> if dp_woken d then Some (loop_pass (d\<lparr>dp_woken := False\<rparr>)) else None
     | Settling \<Rightarrow> if dp_inflight d = [] then Some (d\<lparr>dp_loop := Returned\<rparr>) else None
     | Returned \<Rightarrow> None)"

subsection \<open>A node's run\<close>

definition shelve_node :: "string \<Rightarrow> dispatcher \<Rightarrow> dispatcher" where
  "shelve_node i d = (case shelve (dp_resolver d) i of
       Inl _ \<Rightarrow> d\<lparr>dp_rejected := True\<rparr>
     | Inr r \<Rightarrow> d\<lparr>dp_resolver := r, dp_shelved := dp_shelved d @ [i],
                  dp_results := AList.update i False (dp_results d)\<rparr>)"

definition record_outcome :: "string \<Rightarrow> run_outcome \<Rightarrow> dispatcher \<Rightarrow> dispatcher" where
  "record_outcome i res d =
     (if res = Succeeded then
        (case markDone (dp_resolver d) i of
           Inl _ \<Rightarrow> shelve_node i d
         | Inr r \<Rightarrow> d\<lparr>dp_resolver := r, dp_completed := dp_completed d @ [i],
                      dp_results := AList.update i True (dp_results d)\<rparr>)
      else shelve_node i d)"

text \<open>\<open>finally { this.semaphore.release() }\<close>.\<close>

definition release_slot :: "string \<Rightarrow> dispatcher \<Rightarrow> dispatcher" where
  "release_slot i d = (let (next, s) = release (dp_semaphore d);
        fl = AList.update i Ending (dp_inflight d)
     in d\<lparr>dp_semaphore := s, dp_inflight := (case next of None \<Rightarrow> fl | Some w \<Rightarrow> AList.update w Running fl)\<rparr>)"

datatype dispatch_event = Main | Finish string run_outcome | Promise_settled string

fun dispatch_step :: "dispatch_event \<Rightarrow> dispatcher \<Rightarrow> dispatcher option" where
  "dispatch_step Main d = main_step d"
| "dispatch_step (Finish i res) d =
     (if map_of (dp_inflight d) i = Some Running then Some (release_slot i (record_outcome i res d)) else None)"
| "dispatch_step (Promise_settled i) d =
     (if map_of (dp_inflight d) i = Some Ending
      then Some (d\<lparr>dp_inflight := AList.delete i (dp_inflight d), dp_woken := True\<rparr>) else None)"

fun dispatch_run :: "dispatch_event list \<Rightarrow> dispatcher \<Rightarrow> dispatcher option" where
  "dispatch_run [] d = Some d"
| "dispatch_run (ev # evs) d = (case dispatch_step ev d of None \<Rightarrow> None | Some d' \<Rightarrow> dispatch_run evs d')"

end
