(* ===== verification/DispatcherInv.thy ===== *)
theory DispatcherInv
  imports Dispatcher
begin

section \<open>The invariant of the dispatcher\<close>

text \<open>
  Who is pending, waiting, running or settled agrees between the resolver, the in-flight map and the
  semaphore; scheduled nodes have released blockers; the completed list is in dependency order. Each
  step preserves it.
\<close>

definition phase_of :: "dispatcher \<Rightarrow> string \<Rightarrow> node_phase option" where
  "phase_of d i = map_of (dp_inflight d) i"

definition running :: "dispatcher \<Rightarrow> nat" where
  "running d = length (filter (\<lambda>(_, p). p = Running) (dp_inflight d))"

definition status_of :: "dispatcher \<Rightarrow> string \<Rightarrow> node_status option" where
  "status_of d i = map_of (dag_status (dp_resolver d)) i"

definition sem_ok :: "dispatcher \<Rightarrow> bool" where
  "sem_ok d = (sem_count (dp_semaphore d) = running d \<and> running d \<le> sem_max (dp_semaphore d)
     \<and> 1 \<le> sem_max (dp_semaphore d) \<and> distinct (sem_queue (dp_semaphore d))
     \<and> (\<forall>i. i \<in> set (sem_queue (dp_semaphore d)) \<longleftrightarrow> phase_of d i = Some Waiting)
     \<and> (sem_queue (dp_semaphore d) \<noteq> [] \<longrightarrow> running d = sem_max (dp_semaphore d)))"

definition lists_ok :: "dag_node list \<Rightarrow> dispatcher \<Rightarrow> bool" where
  "lists_ok ns d = (distinct (dp_scheduled d) \<and> set (dp_scheduled d) \<subseteq> dag_ids ns
     \<and> distinct (map fst (dp_inflight d)) \<and> fst ` set (dp_inflight d) \<subseteq> set (dp_scheduled d)
     \<and> (\<forall>i. i \<in> set (dp_completed d) \<longleftrightarrow> status_of d i = Some Done) \<and> distinct (dp_completed d)
     \<and> (\<forall>i. i \<in> set (dp_shelved d) \<longleftrightarrow> status_of d i = Some Shelved) \<and> distinct (dp_shelved d))"

definition pending_ok :: "dag_node list \<Rightarrow> dispatcher \<Rightarrow> bool" where
  "pending_ok ns d = (\<forall>i \<in> dag_ids ns. status_of d i = Some Pending \<longleftrightarrow>
     i \<notin> set (dp_scheduled d) \<or> phase_of d i = Some Waiting \<or> phase_of d i = Some Running)"

definition released_ok :: "dag_node list \<Rightarrow> dispatcher \<Rightarrow> bool" where
  "released_ok ns d = (\<forall>n \<in> set ns. node_id n \<in> set (dp_scheduled d) \<longrightarrow>
     (\<forall>b \<in> set (blockedBy n). is_released (dp_resolver d) n b))"

text \<open>Every blocker in the graph of a completed node stands before it.\<close>

definition ordered :: "dag_node list \<Rightarrow> string list \<Rightarrow> bool" where
  "ordered ns done = (\<forall>k < length done. \<forall>n \<in> set ns. node_id n = done ! k \<longrightarrow>
     set (blockedBy n) \<inter> dag_ids ns \<subseteq> set (take k done))"

definition core_inv :: "dag_node list \<Rightarrow> bool \<Rightarrow> dispatcher \<Rightarrow> bool" where
  "core_inv ns bypass d = (dag_inv ns (dp_resolver d) \<and> allow_bypass (dp_resolver d) = bypass
     \<and> lists_ok ns d \<and> pending_ok ns d \<and> released_ok ns d \<and> sem_ok d
     \<and> (\<not> bypass \<longrightarrow> ordered ns (dp_completed d)) \<and> \<not> dp_rejected d)"

definition loop_inv :: "dispatcher \<Rightarrow> bool" where
  "loop_inv d = (case dp_loop d of
       Loop \<Rightarrow> dp_inflight d = []
     | Race \<Rightarrow> dp_inflight d \<noteq> [] \<or> dp_woken d
     | Settling \<Rightarrow> remaining (dp_resolver d) = 0
     | Returned \<Rightarrow> dp_inflight d = [] \<and> unscheduled_ready d = [])"

subsection \<open>Scheduling\<close>

lemma sem_waiting: "sem_ok d \<Longrightarrow> phase_of d i = Some Waiting \<longleftrightarrow> i \<in> set (sem_queue (dp_semaphore d))"
  by (simp add: sem_ok_def)

lemma running_append: "running (d\<lparr>dp_inflight := dp_inflight d @ [(i, p)]\<rparr>)
    = running d + (if p = Running then 1 else 0)"
  by (simp add: running_def)

lemma ordered_append:
  assumes "ordered ns done" and "\<And>n. n \<in> set ns \<Longrightarrow> node_id n = i \<Longrightarrow> set (blockedBy n) \<inter> dag_ids ns \<subseteq> set done"
  shows "ordered ns (done @ [i])"
  using assms by (auto simp: ordered_def nth_append less_Suc_eq)

lemma core_schedule:
  assumes inv: "core_inv ns bypass d" and n: "n \<in> set ns" and new: "node_id n \<notin> set (dp_scheduled d)"
    and pend: "status_of d (node_id n) = Some Pending"
    and rel: "\<And>b. b \<in> set (blockedBy n) \<Longrightarrow> is_released (dp_resolver d) n b"
    and dist: "distinct (map node_id ns)"
  shows "core_inv ns bypass (schedule n d) \<and> dp_resolver (schedule n d) = dp_resolver d
    \<and> dp_scheduled (schedule n d) = dp_scheduled d @ [node_id n]
    \<and> dp_inflight (schedule n d) \<noteq> []"
proof -
  let ?i = "node_id n"
  have notin: "?i \<notin> fst ` set (dp_inflight d)" using inv new by (auto simp: core_inv_def lists_ok_def)
  then have none: "phase_of d ?i = None" by (simp add: phase_of_def map_of_eq_None_iff)
  obtain got s where acq: "acquire ?i (dp_semaphore d) = (got, s)" by fastforce
  let ?p = "if got then Running else Waiting"
  let ?d = "d\<lparr>dp_scheduled := dp_scheduled d @ [?i], dp_semaphore := s, dp_inflight := dp_inflight d @ [(?i, ?p)]\<rparr>"
  have sch: "schedule n d = ?d" by (simp add: schedule_def acq update_new_key [OF notin])
  have phase: "phase_of ?d j = (if j = ?i then Some ?p else phase_of d j)" for j
    using none by (auto simp: phase_of_def map_add_def split: option.split)
  have st: "status_of ?d = status_of d" by (simp add: status_of_def fun_eq_iff)
  have "lists_ok ns ?d"
    using inv n new notin unfolding core_inv_def lists_ok_def st by (auto simp: dag_ids_def)
  moreover have "pending_ok ns ?d"
    using inv pend unfolding core_inv_def pending_ok_def st phase by auto
  moreover have "released_ok ns ?d"
    using inv rel n node_id_inj [OF dist] by (auto simp: core_inv_def released_ok_def)
  moreover have "sem_ok ?d"
  proof -
    have run: "running ?d = running d + (if got then 1 else 0)" by (simp add: running_def)
    have sem: "sem_ok d" using inv by (simp add: core_inv_def)
    have q: "?i \<notin> set (sem_queue (dp_semaphore d))" using sem_waiting [OF sem, of ?i] none by simp
    show ?thesis
    proof (cases got)
      case True
      then have s: "s = dp_semaphore d\<lparr>sem_count := sem_count (dp_semaphore d) + 1\<rparr>"
        and less: "sem_count (dp_semaphore d) < sem_max (dp_semaphore d)"
        using acq by (simp_all add: acquire_def split: if_splits)
      have "sem_queue (dp_semaphore d) = []" using sem less unfolding sem_ok_def by linarith
      then show ?thesis
        using sem_waiting [OF sem] sem less True unfolding sem_ok_def run phase by (simp add: s)
    next
      case False
      then have s: "s = dp_semaphore d\<lparr>sem_queue := sem_queue (dp_semaphore d) @ [?i]\<rparr>"
        and "sem_max (dp_semaphore d) \<le> sem_count (dp_semaphore d)"
        using acq by (simp_all add: acquire_def split: if_splits)
      then have "running d = sem_max (dp_semaphore d)" using sem unfolding sem_ok_def by linarith
      then show ?thesis
        using sem q False unfolding sem_ok_def run phase by (auto simp: s)
    qed
  qed
  ultimately have "core_inv ns bypass ?d" using inv by (simp add: core_inv_def)
  then show ?thesis unfolding sch by simp
qed

lemma core_schedule_all:
  assumes "core_inv ns bypass d" and "distinct (map node_id ns)" and "distinct (map node_id ready)"
    and "\<And>n. n \<in> set ready \<Longrightarrow> n \<in> set ns \<and> node_id n \<notin> set (dp_scheduled d)
      \<and> status_of d (node_id n) = Some Pending \<and> (\<forall>b \<in> set (blockedBy n). is_released (dp_resolver d) n b)"
  shows "core_inv ns bypass (fold schedule ready d) \<and> dp_resolver (fold schedule ready d) = dp_resolver d
    \<and> dp_scheduled (fold schedule ready d) = dp_scheduled d @ map node_id ready
    \<and> (ready \<noteq> [] \<longrightarrow> dp_inflight (fold schedule ready d) \<noteq> [])"
  using assms(1,3,4)
proof (induction ready arbitrary: d)
  case (Cons n ready)
  have step: "core_inv ns bypass (schedule n d) \<and> dp_resolver (schedule n d) = dp_resolver d
    \<and> dp_scheduled (schedule n d) = dp_scheduled d @ [node_id n] \<and> dp_inflight (schedule n d) \<noteq> []"
    using Cons.prems assms(2) by (intro core_schedule) auto
  have "core_inv ns bypass (fold schedule ready (schedule n d))
    \<and> dp_resolver (fold schedule ready (schedule n d)) = dp_resolver (schedule n d)
    \<and> dp_scheduled (fold schedule ready (schedule n d)) = dp_scheduled (schedule n d) @ map node_id ready
    \<and> (ready \<noteq> [] \<longrightarrow> dp_inflight (fold schedule ready (schedule n d)) \<noteq> [])"
    using step Cons.prems not_image [of node_id n "set ready"]
    by (intro Cons.IH) (simp_all add: status_of_def)
  then show ?case using step by (cases ready) auto
qed simp

lemma unscheduled_ready_spec:
  assumes "wf_graph ns" and "core_inv ns bypass d" and "n \<in> set (unscheduled_ready d)"
  shows "n \<in> set ns \<and> node_id n \<notin> set (dp_scheduled d) \<and> status_of d (node_id n) = Some Pending
    \<and> (\<forall>b \<in> set (blockedBy n). is_released (dp_resolver d) n b)"
  using assms getReady_eq_spec [OF assms(1), of "dp_resolver d"]
  by (auto simp: unscheduled_ready_def core_inv_def ready_spec_def status_of_def)

lemma unscheduled_ready_distinct:
  assumes "wf_graph ns" and "core_inv ns bypass d"
  shows "distinct (map node_id (unscheduled_ready d))"
proof -
  have "distinct (map node_id ns)" using assms(1) by (simp add: wf_graph_def)
  then have "distinct (map node_id (filter P ns))" for P by (rule distinct_map_filter)
  then show ?thesis
    using assms(2) getReady_eq_spec [OF assms(1), of "dp_resolver d"]
    by (simp add: unscheduled_ready_def core_inv_def ready_spec_def)
qed

lemma core_loop_field [simp]: "core_inv ns bypass (d\<lparr>dp_loop := l\<rparr>) = core_inv ns bypass d"
  "core_inv ns bypass (d\<lparr>dp_woken := w\<rparr>) = core_inv ns bypass d"
  by (simp_all add: core_inv_def lists_ok_def pending_ok_def released_ok_def sem_ok_def running_def
      phase_of_def status_of_def)

lemma remaining_0_ready: "remaining r = 0 \<Longrightarrow> getReady r = []"
proof -
  assume "remaining r = 0"
  then have "\<forall>(k, s) \<in> set (dag_status r). s \<noteq> Pending" by (auto simp: remaining_def filter_empty_conv)
  then have "map_of (dag_status r) k \<noteq> Some Pending" for k by (auto dest: map_of_SomeD)
  then show ?thesis by (simp add: getReady_def filter_empty_conv)
qed

text \<open>A pass of the main loop.\<close>

lemma loop_pass_inv:
  assumes wf: "wf_graph ns" and inv: "core_inv ns bypass d"
  shows "core_inv ns bypass (loop_pass d) \<and> loop_inv (loop_pass d)"
proof -
  have dist: "distinct (map node_id ns)" using wf by (simp add: wf_graph_def)
  have leave: "core_inv ns bypass (leave_loop d) \<and> loop_inv (leave_loop d)"
    if "remaining (dp_resolver d) = 0 \<or> unscheduled_ready d = [] \<and> dp_inflight d = []"
    using inv that remaining_0_ready [of "dp_resolver d"]
    by (auto simp: leave_loop_def loop_inv_def unscheduled_ready_def)
  note all = core_schedule_all [OF inv dist unscheduled_ready_distinct [OF wf inv]
    unscheduled_ready_spec [OF wf inv], simplified]
  consider "remaining (dp_resolver d) = 0 \<or> unscheduled_ready d = [] \<and> dp_inflight d = []"
    | "remaining (dp_resolver d) \<noteq> 0" "unscheduled_ready d = []" "dp_inflight d \<noteq> []"
    | "remaining (dp_resolver d) \<noteq> 0" "unscheduled_ready d \<noteq> []" by blast
  then show ?thesis
  proof cases
    case 1
    then have "loop_pass d = leave_loop d" by (auto simp: loop_pass_def Let_def)
    then show ?thesis using leave 1 by simp
  next
    case 2
    then show ?thesis using inv by (simp add: loop_pass_def Let_def loop_inv_def)
  next
    case 3
    then show ?thesis using all by (simp add: loop_pass_def Let_def loop_inv_def)
  qed
qed

subsection \<open>The end of a run\<close>

lemma settle_node_keeps: "dag_nodes (settle_node b r i) = dag_nodes r"
  "resolved_external (settle_node b r i) = resolved_external r" "allow_bypass (settle_node b r i) = allow_bypass r"
  by (auto simp: settle_node_def markDone_def shelve_def assertNodeExists_def decrementDownstream_def Let_def
      split: option.split sum.split)

lemma settled_released:
  assumes "dag_inv ns r" and "i \<in> pending_ids r" and "is_released r n b"
  shows "is_released (settle_node ok r i) n b"
  using assms(2,3) settle_node_step(2) [OF assms(1,2), of ok]
  by (auto simp: is_released_def settle_node_keeps pending_ids_def split: if_splits)

lemma core_outcome:
  assumes wf: "wf_graph ns" and inv: "core_inv ns bypass d" and run: "phase_of d i = Some Running"
  shows "\<exists>ok. record_outcome i res d = d\<lparr>dp_resolver := settle_node ok (dp_resolver d) i,
      dp_completed := dp_completed d @ (if ok then [i] else []),
      dp_shelved := dp_shelved d @ (if ok then [] else [i]),
      dp_results := AList.update i ok (dp_results d)\<rparr>
    \<and> i \<in> pending_ids (dp_resolver d) \<and> i \<in> dag_ids ns"
proof -
  have "i \<in> fst ` set (dp_inflight d)" using run by (metis phase_of_def map_of_eq_None_iff option.distinct(1))
  then have i: "i \<in> set (dp_scheduled d)" "i \<in> dag_ids ns" using inv by (auto simp: core_inv_def lists_ok_def)
  then have "status_of d i = Some Pending" using inv run by (simp add: core_inv_def pending_ok_def)
  then have pend: "i \<in> pending_ids (dp_resolver d)" by (simp add: pending_ids_def status_of_def)
  have "dag_inv ns (dp_resolver d)" using inv by (simp add: core_inv_def)
  note step = settle_node_step(1) [OF this pend]
  show ?thesis
  proof (cases "res = Succeeded")
    case True
    then show ?thesis using step [of True] pend i by (intro exI [of _ True]) (simp add: record_outcome_def)
  next
    case False
    then show ?thesis
      using step [of False] pend i by (intro exI [of _ False]) (simp add: record_outcome_def shelve_node_def)
  qed
qed

lemma running_update:
  "map_of (dp_inflight d) i = Some p \<Longrightarrow>
    length (filter (\<lambda>(_, p). p = Running) (AList.update i q (dp_inflight d))) + (if p = Running then 1 else 0)
      = running d + (if q = Running then 1 else 0)"
  using filter_keys_update [of "dp_inflight d" i p "\<lambda>p. p = Running" q] by (simp add: running_def)

text \<open>The slot goes to the first waiter, or back.\<close>

lemma release_slot_sem:
  assumes sem: "sem_ok d" and run: "phase_of d i = Some Running"
    and keys: "distinct (map fst (dp_inflight d))"
  shows "sem_ok (release_slot i d)
    \<and> (\<forall>j. phase_of (release_slot i d) j = (if j = i then Some Ending
        else if sem_queue (dp_semaphore d) \<noteq> [] \<and> j = hd (sem_queue (dp_semaphore d)) then Some Running
        else phase_of d j))
    \<and> map fst (dp_inflight (release_slot i d)) = map fst (dp_inflight d)"
proof -
  have ri: "map_of (dp_inflight d) i = Some Running" using run by (simp add: phase_of_def)
  then have key: "i \<in> fst ` set (dp_inflight d)" by (metis map_of_eq_None_iff option.distinct(1))
  let ?fl = "AList.update i Ending (dp_inflight d)"
  have pos: "length (filter (\<lambda>(_, p). p = Running) ?fl) + 1 = running d" using running_update [OF ri, of Ending] by simp
  show ?thesis
  proof (cases "sem_queue (dp_semaphore d)")
    case Nil
    let ?d = "d\<lparr>dp_semaphore := dp_semaphore d\<lparr>sem_count := sem_count (dp_semaphore d) - 1\<rparr>, dp_inflight := ?fl\<rparr>"
    have "release_slot i d = ?d"
      using Nil sem pos by (auto simp: release_slot_def release_def sem_ok_def Let_def)
    moreover have "phase_of ?d j = (if j = i then Some Ending else phase_of d j)" for j by (simp add: phase_of_def)
    moreover have "running ?d + 1 = running d" using pos by (simp add: running_def)
    ultimately show ?thesis using sem Nil key run by (auto simp: sem_ok_def keys_update image_iff split: if_splits)
  next
    case (Cons w ws)
    let ?fl2 = "AList.update w Running ?fl"
    let ?d = "d\<lparr>dp_semaphore := dp_semaphore d\<lparr>sem_queue := ws\<rparr>, dp_inflight := ?fl2\<rparr>"
    have w: "phase_of d w = Some Waiting" using Cons by (simp add: sem_waiting [OF sem])
    then have wi: "w \<noteq> i" using run by auto
    have wfl: "map_of ?fl w = Some Waiting" using w wi by (simp add: phase_of_def)
    then have wkey: "w \<in> fst ` set (dp_inflight d)" using wi by (simp add: map_of_eq_None_iff [symmetric] set_keys_map_of)
    have eq: "release_slot i d = ?d" using Cons by (simp add: release_slot_def release_def Let_def)
    have phase: "phase_of ?d j = (if j = i then Some Ending else if j = w then Some Running else phase_of d j)" for j
      using wi by (simp add: phase_of_def)
    have "running ?d = length (filter (\<lambda>(_, p). p = Running) ?fl) + 1"
      using filter_keys_update [OF wfl, of "\<lambda>p. p = Running" Running] by (simp add: running_def)
    then have rd: "running ?d = running d" using pos by simp
    have "sem_ok ?d"
      using sem Cons w wi run unfolding sem_ok_def rd phase by auto
    moreover have "map fst ?fl2 = map fst (dp_inflight d)"
      using key wkey by (auto simp: keys_update)
    ultimately show ?thesis unfolding eq using phase Cons by auto
  qed
qed

lemma release_slot_fields [simp]: "dp_resolver (release_slot i d) = dp_resolver d"
  "dp_scheduled (release_slot i d) = dp_scheduled d" "dp_completed (release_slot i d) = dp_completed d"
  "dp_shelved (release_slot i d) = dp_shelved d" "dp_loop (release_slot i d) = dp_loop d"
  "dp_woken (release_slot i d) = dp_woken d" "dp_rejected (release_slot i d) = dp_rejected d"
  by (simp_all add: release_slot_def Let_def split: prod.split)

lemma core_finish:
  assumes wf: "wf_graph ns" and inv: "core_inv ns bypass d" and run: "phase_of d i = Some Running"
  shows "core_inv ns bypass (release_slot i (record_outcome i res d))"
proof -
  obtain ok where rec: "record_outcome i res d = d\<lparr>dp_resolver := settle_node ok (dp_resolver d) i,
      dp_completed := dp_completed d @ (if ok then [i] else []),
      dp_shelved := dp_shelved d @ (if ok then [] else [i]),
      dp_results := AList.update i ok (dp_results d)\<rparr>" (is "_ = ?d")
    and pend: "i \<in> pending_ids (dp_resolver d)" and i: "i \<in> dag_ids ns"
    using core_outcome [OF wf inv run] by blast
  let ?r = "dp_resolver d" and ?e = "release_slot i ?d"
  have dinv: "dag_inv ns ?r" using inv by (simp add: core_inv_def)
  have keys: "distinct (map fst (dp_inflight ?d))" using inv by (simp add: core_inv_def lists_ok_def)
  have "sem_ok ?d" using inv by (simp add: core_inv_def sem_ok_def running_def phase_of_def)
  moreover have "phase_of ?d i = Some Running" using run by (simp add: phase_of_def)
  ultimately have sem: "sem_ok ?e" and ph: "\<And>j. phase_of ?e j = (if j = i then Some Ending
        else if sem_queue (dp_semaphore d) \<noteq> [] \<and> j = hd (sem_queue (dp_semaphore d)) then Some Running
        else phase_of d j)" and fl: "map fst (dp_inflight ?e) = map fst (dp_inflight d)"
    using release_slot_sem [of ?d i] keys by (auto simp: phase_of_def)
  have q: "phase_of d (hd (sem_queue (dp_semaphore d))) = Some Waiting" if "sem_queue (dp_semaphore d) \<noteq> []"
    using inv that by (simp add: sem_waiting core_inv_def)
  have st: "status_of ?e j = (if j = i then Some (if ok then Done else Shelved) else status_of d j)" for j
    using settle_node_step(2) [OF dinv pend, of ok] by (simp add: status_of_def)
  have p: "status_of d i = Some Pending" using pend by (simp add: pending_ids_def status_of_def)
  then have new: "i \<notin> set (dp_completed d)" "i \<notin> set (dp_shelved d)"
    using inv by (auto simp: core_inv_def lists_ok_def)
  have sch: "i \<in> set (dp_scheduled d)"
  proof -
    have "i \<in> fst ` set (dp_inflight d)" using run by (metis phase_of_def map_of_eq_None_iff option.distinct(1))
    then show ?thesis using inv by (auto simp: core_inv_def lists_ok_def)
  qed
  have fls: "fst ` set (dp_inflight ?e) = fst ` set (dp_inflight d)" using fl by (metis set_map)
  have "lists_ok ns ?e"
    using inv new unfolding core_inv_def lists_ok_def st fl fls by auto
  moreover have "pending_ok ns ?e"
    using inv q sch unfolding core_inv_def pending_ok_def st ph by auto
  moreover have "released_ok ns ?e"
    using inv settled_released [OF dinv pend] by (simp add: core_inv_def released_ok_def)
  moreover have "dag_inv ns (dp_resolver ?e)" using settle_node_inv [OF wf dinv pend] by simp
  moreover have "allow_bypass (dp_resolver ?e) = bypass" using inv by (simp add: core_inv_def settle_node_keeps)
  moreover have "ordered ns (dp_completed ?e)" if "\<not> bypass"
  proof (cases ok)
    case True
    have "set (blockedBy n) \<inter> dag_ids ns \<subseteq> set (dp_completed d)" if n: "n \<in> set ns" "node_id n = i" for n
    proof
      fix b assume b: "b \<in> set (blockedBy n) \<inter> dag_ids ns"
      then have "is_released ?r n b" using inv n sch by (auto simp: core_inv_def released_ok_def)
      moreover have "map_of (dag_nodes ?r) b \<noteq> None" using dag_inv_ids [OF dinv] b by blast
      ultimately have "status_of d b = Some Done"
        using inv \<open>\<not> bypass\<close> by (auto simp: is_released_def core_inv_def status_of_def split: if_splits)
      then show "b \<in> set (dp_completed d)" using inv by (simp add: core_inv_def lists_ok_def)
    qed
    then show ?thesis using inv that True by (auto simp: core_inv_def intro: ordered_append)
  qed (use inv that in \<open>simp add: core_inv_def\<close>)
  moreover have "\<not> dp_rejected ?e" using inv by (simp add: core_inv_def)
  ultimately show ?thesis using sem unfolding rec core_inv_def by blast
qed

end
