(* ===== verification/DispatcherProps.thy ===== *)
theory DispatcherProps
  imports DispatcherInv
begin

section \<open>What the dispatcher guarantees\<close>

text \<open>
  Over every sequence of dispatcher steps: the concurrency bound with the semaphore's books kept,
  dependency order, and termination with nothing left undone.
\<close>

definition disp_inv :: "dag_node list \<Rightarrow> bool \<Rightarrow> dispatcher \<Rightarrow> bool" where
  "disp_inv ns bypass d = (core_inv ns bypass d \<and> loop_inv d)"

subsection \<open>Every step keeps the invariant\<close>

lemma delete_ending:
  assumes "map_of m i = Some Ending" and "distinct (map fst m)"
  shows "length (filter (\<lambda>(_, p). p = Running) (AList.delete i m)) = length (filter (\<lambda>(_, p). p = Running) m)"
  using assms by (induction m) (auto simp: AList.delete_id)

lemma promise_settled_inv:
  assumes inv: "disp_inv ns bypass d" and e: "phase_of d i = Some Ending"
  shows "disp_inv ns bypass (d\<lparr>dp_inflight := AList.delete i (dp_inflight d), dp_woken := True\<rparr>)"
proof -
  let ?d = "d\<lparr>dp_inflight := AList.delete i (dp_inflight d), dp_woken := True\<rparr>"
  have core: "core_inv ns bypass d" and keys: "distinct (map fst (dp_inflight d))"
    using inv by (simp_all add: disp_inv_def core_inv_def lists_ok_def)
  have run: "running ?d = running d" using delete_ending [OF _ keys] e by (simp add: running_def phase_of_def)
  have ph: "phase_of ?d j = (if j = i then None else phase_of d j)" for j
    by (simp add: phase_of_def AList.delete_conv)
  have st: "status_of ?d = status_of d" by (simp add: status_of_def fun_eq_iff)
  have "i \<in> fst ` set (dp_inflight d)" using e by (metis phase_of_def map_of_eq_None_iff option.distinct(1))
  then have sch: "i \<in> set (dp_scheduled d)" using core by (auto simp: core_inv_def lists_ok_def)
  have "lists_ok ns ?d"
    using core AList.distinct_delete [OF keys, of i] AList.dom_delete_subset [of i "dp_inflight d"]
    unfolding core_inv_def lists_ok_def st by auto
  moreover have "pending_ok ns ?d"
    using core e sch unfolding core_inv_def pending_ok_def st ph by auto
  moreover have "sem_ok ?d"
    using core e unfolding core_inv_def sem_ok_def run ph by auto
  moreover have "released_ok ns ?d" using core by (simp add: core_inv_def released_ok_def)
  ultimately have "core_inv ns bypass ?d" using core by (simp add: core_inv_def)
  moreover have "loop_inv ?d"
  proof -
    have "dp_inflight d \<noteq> []" using e by (auto simp: phase_of_def)
    then show ?thesis using inv by (auto simp: disp_inv_def loop_inv_def split: loop_state.splits)
  qed
  ultimately show ?thesis by (simp add: disp_inv_def)
qed

lemma record_outcome_fields [simp]: "dp_inflight (record_outcome i res d) = dp_inflight d"
  "dp_loop (record_outcome i res d) = dp_loop d" "dp_woken (record_outcome i res d) = dp_woken d"
  "dp_scheduled (record_outcome i res d) = dp_scheduled d"
  by (auto simp: record_outcome_def shelve_node_def split: sum.split)

lemma release_slot_nonempty: "dp_inflight (release_slot i d) \<noteq> []"
  by (auto simp: release_slot_def Let_def split: prod.split option.split)

lemma running_pending: "core_inv ns bypass d \<Longrightarrow> phase_of d i = Some Running \<Longrightarrow> 0 < remaining (dp_resolver d)"
proof -
  assume core: "core_inv ns bypass d" and run: "phase_of d i = Some Running"
  then have "i \<in> fst ` set (dp_inflight d)" by (metis phase_of_def map_of_eq_None_iff option.distinct(1))
  with core have "i \<in> dag_ids ns" by (auto simp: core_inv_def lists_ok_def)
  with core run have "status_of d i = Some Pending" by (simp add: core_inv_def pending_ok_def)
  then have "(i, Pending) \<in> set (dag_status (dp_resolver d))" by (simp add: status_of_def map_of_SomeD)
  then show "0 < remaining (dp_resolver d)" by (force simp: remaining_def filter_empty_conv)
qed

lemma dispatch_step_inv:
  assumes wf: "wf_graph ns" and inv: "disp_inv ns bypass d" and step: "dispatch_step ev d = Some d'"
  shows "disp_inv ns bypass d'"
proof (cases ev)
  case Main
  have core: "core_inv ns bypass d" using inv by (simp add: disp_inv_def)
  have pass: "disp_inv ns bypass (loop_pass (d\<lparr>dp_woken := w\<rparr>))" for w
    using loop_pass_inv [OF wf, of bypass "d\<lparr>dp_woken := w\<rparr>"] core by (simp add: disp_inv_def)
  have "disp_inv ns bypass (d\<lparr>dp_loop := Returned\<rparr>)" if "dp_loop d = Settling" "dp_inflight d = []"
    using inv that remaining_0_ready [of "dp_resolver d"]
    by (auto simp: disp_inv_def loop_inv_def unscheduled_ready_def)
  moreover have "disp_inv ns bypass (loop_pass d)" using pass [of "dp_woken d"] by simp
  ultimately show ?thesis
    using step Main pass [of False] by (auto simp: main_step_def split: loop_state.splits if_splits)
next
  case (Finish i res)
  then have run: "phase_of d i = Some Running" and d': "d' = release_slot i (record_outcome i res d)"
    using step by (auto simp: phase_of_def split: if_splits)
  have core: "core_inv ns bypass d" using inv by (simp add: disp_inv_def)
  have "loop_inv d'"
    using inv release_slot_nonempty [of i "record_outcome i res d"] running_pending [OF core run] run d'
    by (auto simp: disp_inv_def loop_inv_def phase_of_def split: loop_state.splits)
  then show ?thesis using core_finish [OF wf core run] d' by (simp add: disp_inv_def)
next
  case (Promise_settled i)
  then show ?thesis
    using step promise_settled_inv [OF inv, of i] by (auto simp: phase_of_def split: if_splits)
qed

lemma initial_disp_inv:
  assumes wf: "wf_graph ns" and res: "new_resolver ns bypass = Inr r" and sem: "new_semaphore n = Inr s"
  shows "disp_inv ns bypass (new_dispatch r s)" and "acyclic (blocks ns)"
proof -
  have ac: "acyclic (blocks ns)" and r: "r = initial_resolver ns bypass"
    using res by (simp_all add: new_resolver_cases [OF wf] split: if_splits)
  have st: "map_of (map (\<lambda>n. (node_id n, Pending)) ns) i = Some x \<Longrightarrow> x = Pending" for i x
    by (auto dest: map_of_SomeD)
  have s: "s = \<lparr>sem_count = 0, sem_max = nat (int_of_number n), sem_queue = []\<rparr>" "1 \<le> sem_max s"
    using sem by (auto simp: new_semaphore_def split: if_splits) (cases n; auto)
  have "status_of (new_dispatch r s) i = Some x \<Longrightarrow> x = Pending" for i x
    using st by (auto simp: status_of_def new_dispatch_def r initial_resolver_def)
  then have no: "status_of (new_dispatch r s) i \<noteq> Some Done" "status_of (new_dispatch r s) i \<noteq> Some Shelved" for i
    by blast+
  have some: "status_of (new_dispatch r s) i = Some Pending" if "i \<in> dag_ids ns" for i
  proof -
    from that obtain m where "m \<in> set ns" "i = node_id m" by (auto simp: dag_ids_def)
    with dag_inv_status [OF initial_inv [OF wf]] no show ?thesis
      using st by (fastforce simp: status_of_def new_dispatch_def r initial_resolver_def)
  qed
  have "core_inv ns bypass (new_dispatch r s)"
    using initial_inv [OF wf, of bypass] no some s
    by (auto simp: core_inv_def lists_ok_def pending_ok_def released_ok_def sem_ok_def ordered_def running_def
        phase_of_def new_dispatch_def r initial_resolver_def)
  then show "disp_inv ns bypass (new_dispatch r s)" by (simp add: disp_inv_def loop_inv_def new_dispatch_def)
  show "acyclic (blocks ns)" by (rule ac)
qed

lemma dispatch_run_inv:
  assumes "wf_graph ns" and "disp_inv ns bypass d" and "dispatch_run evs d = Some d'"
  shows "disp_inv ns bypass d'"
  using assms(2,3)
proof (induction evs arbitrary: d)
  case (Cons ev evs)
  then obtain e where "dispatch_step ev d = Some e" "dispatch_run evs e = Some d'" by (auto split: option.splits)
  then show ?case using dispatch_step_inv [OF assms(1) Cons.prems(1)] Cons.IH by blast
qed simp

subsection \<open>The number of slots never changes\<close>

lemma sem_max_schedule [simp]: "sem_max (dp_semaphore (schedule n d)) = sem_max (dp_semaphore d)"
  by (simp add: schedule_def acquire_def)

lemma sem_max_fold: "sem_max (dp_semaphore (fold schedule ready d)) = sem_max (dp_semaphore d)"
  by (induction ready arbitrary: d) simp_all

lemma sem_max_pass [simp]: "sem_max (dp_semaphore (loop_pass d)) = sem_max (dp_semaphore d)"
  by (simp add: loop_pass_def leave_loop_def Let_def sem_max_fold)

lemma sem_max_outcome: "dp_semaphore (record_outcome i res d) = dp_semaphore d"
  by (simp add: record_outcome_def shelve_node_def Let_def split: sum.split)

lemma sem_max_release: "sem_max (dp_semaphore (release_slot i d)) = sem_max (dp_semaphore d)"
  by (simp add: release_slot_def release_def Let_def split: prod.split list.split)

lemma sem_max_main: "main_step d = Some d' \<Longrightarrow> sem_max (dp_semaphore d') = sem_max (dp_semaphore d)"
  by (auto simp: main_step_def Let_def split: loop_state.splits if_splits)

lemma sem_max_step: "dispatch_step ev d = Some d' \<Longrightarrow> sem_max (dp_semaphore d') = sem_max (dp_semaphore d)"
  by (cases ev) (auto simp: sem_max_outcome sem_max_release sem_max_main split: if_splits)

lemma sem_max_run: "dispatch_run evs d = Some d' \<Longrightarrow> sem_max (dp_semaphore d') = sem_max (dp_semaphore d)"
  by (induction evs arbitrary: d) (auto split: option.splits dest!: sem_max_step)

subsection \<open>A measure every step lowers\<close>

fun phase_weight :: "node_phase \<Rightarrow> nat" where
  "phase_weight Ending = 2"
| "phase_weight _ = 3"

fun loop_weight :: "loop_state \<Rightarrow> nat" where
  "loop_weight Loop = 2"
| "loop_weight Returned = 0"
| "loop_weight _ = 1"

definition weight :: "(string \<times> node_phase) list \<Rightarrow> nat" where
  "weight m = sum_list (map (\<lambda>(_, p). phase_weight p) m)"

definition dispatch_measure :: "dag_node list \<Rightarrow> dispatcher \<Rightarrow> nat" where
  "dispatch_measure ns d = 4 * (length ns - length (dp_scheduled d)) + weight (dp_inflight d)
     + (if dp_woken d then 1 else 0) + loop_weight (dp_loop d)"

lemma weight_update: "map_of m i = Some p \<Longrightarrow> weight (AList.update i q m) + phase_weight p = weight m + phase_weight q"
  by (induction m) (auto simp: weight_def)

lemma weight_update_le: "weight (AList.update i q m) \<le> weight m + 3"
  by (induction m) (auto simp: weight_def, (cases q; simp)+)

lemma weight_delete:
  "distinct (map fst m) \<Longrightarrow> map_of m i = Some p \<Longrightarrow> weight (AList.delete i m) + phase_weight p = weight m"
  by (induction m) (auto simp: weight_def AList.delete_id)

lemma weight_schedule: "weight (dp_inflight (fold schedule ready d)) \<le> weight (dp_inflight d) + 3 * length ready"
proof (induction ready arbitrary: d)
  case (Cons n ready)
  have "weight (dp_inflight (schedule n d)) \<le> weight (dp_inflight d) + 3"
    by (simp add: schedule_def Let_def weight_update_le split: prod.split)
  then show ?case using Cons.IH [of "schedule n d"] by simp
qed simp

lemma scheduled_bound:
  assumes "core_inv ns bypass d"
  shows "length (dp_scheduled d) \<le> length ns"
proof -
  have "set (dp_scheduled d) \<subseteq> set (map node_id ns)" "distinct (dp_scheduled d)"
    using assms by (auto simp: core_inv_def lists_ok_def dag_ids_def)
  then show ?thesis by (metis List.finite_set card_length card_mono distinct_card le_trans length_map)
qed

lemma schedule_flags [simp]: "dp_woken (fold schedule ready d) = dp_woken d"
  by (induction ready arbitrary: d) (simp_all add: schedule_def Let_def split: prod.split)

lemma pass_measure:
  assumes wf: "wf_graph ns" and inv: "core_inv ns bypass d"
    and l: "dp_loop d = Loop \<and> dp_inflight d = [] \<or> dp_loop d = Race"
  shows "dispatch_measure ns (loop_pass d) < dispatch_measure ns d + (if dp_loop d = Race then 1 else 0)"
proof (cases "remaining (dp_resolver d) = 0 \<or> unscheduled_ready d = []")
  case True
  then show ?thesis using l by (auto simp: loop_pass_def leave_loop_def dispatch_measure_def Let_def)
next
  case False
  let ?ready = "unscheduled_ready d"
  let ?d = "fold schedule ?ready d"
  have dist: "distinct (map node_id ns)" using wf by (simp add: wf_graph_def)
  note all = core_schedule_all [OF inv dist unscheduled_ready_distinct [OF wf inv]
    unscheduled_ready_spec [OF wf inv], simplified]
  have pass: "loop_pass d = ?d\<lparr>dp_loop := Race\<rparr>" using False all by (simp add: loop_pass_def Let_def)
  have "length (dp_scheduled ?d) \<le> length ns" using scheduled_bound all by blast
  moreover have "length (dp_scheduled ?d) = length (dp_scheduled d) + length ?ready" using all by simp
  moreover have "?ready \<noteq> []" using False by blast
  then have "0 < length ?ready" by simp
  ultimately show ?thesis
    using weight_schedule [of ?ready d] l unfolding pass dispatch_measure_def by auto
qed

lemma release_weight:
  assumes sem: "sem_ok d" and run: "phase_of d i = Some Running"
  shows "weight (dp_inflight (release_slot i d)) < weight (dp_inflight d)"
proof -
  let ?fl = "AList.update i Ending (dp_inflight d)"
  have fl: "weight ?fl + 3 = weight (dp_inflight d) + 2"
    using weight_update [of "dp_inflight d" i Running Ending] run by (simp add: phase_of_def)
  show ?thesis
  proof (cases "sem_queue (dp_semaphore d)")
    case Nil
    then show ?thesis using fl by (simp add: release_slot_def release_def)
  next
    case (Cons w ws)
    then have w: "phase_of d w = Some Waiting" by (simp add: sem_waiting [OF sem])
    then have "w \<noteq> i" using run by auto
    then have "map_of ?fl w = Some Waiting" using w by (simp add: phase_of_def)
    then show ?thesis using fl weight_update [of ?fl w Waiting Running] Cons
      by (simp add: release_slot_def release_def)
  qed
qed

lemma step_measure:
  assumes wf: "wf_graph ns" and inv: "disp_inv ns bypass d" and step: "dispatch_step ev d = Some d'"
  shows "dispatch_measure ns d' < dispatch_measure ns d"
proof -
  have core: "core_inv ns bypass d" and loop: "loop_inv d" using inv by (simp_all add: disp_inv_def)
  show ?thesis
  proof (cases ev)
    case Main
    then consider "dp_loop d = Loop" "d' = loop_pass d" | "dp_loop d = Race" "dp_woken d" "d' = loop_pass (d\<lparr>dp_woken := False\<rparr>)"
      | "dp_loop d = Settling" "d' = d\<lparr>dp_loop := Returned\<rparr>"
      using step by (auto simp: main_step_def split: loop_state.splits if_splits)
    then show ?thesis
    proof cases
      case 1
      then show ?thesis using pass_measure [OF wf core] loop by (simp add: loop_inv_def)
    next
      case 2
      then show ?thesis using pass_measure [OF wf, of bypass "d\<lparr>dp_woken := False\<rparr>"] core
        by (simp add: dispatch_measure_def)
    next
      case 3
      then show ?thesis by (simp add: dispatch_measure_def)
    qed
  next
    case (Finish i res)
    let ?d = "record_outcome i res d"
    have run: "phase_of d i = Some Running" and d': "d' = release_slot i ?d"
      using step Finish by (auto simp: phase_of_def split: if_splits)
    obtain ok where "?d = d\<lparr>dp_resolver := settle_node ok (dp_resolver d) i,
      dp_completed := dp_completed d @ (if ok then [i] else []), dp_shelved := dp_shelved d @ (if ok then [] else [i]),
      dp_results := AList.update i ok (dp_results d)\<rparr>" using core_outcome [OF wf core run] by blast
    then have "sem_ok ?d" "phase_of ?d i = Some Running"
      using core run by (simp_all add: core_inv_def sem_ok_def running_def phase_of_def)
    from release_weight [OF this] show ?thesis by (simp add: d' dispatch_measure_def)
  next
    case (Promise_settled i)
    then show ?thesis
      using step core weight_delete [of "dp_inflight d" i Ending]
      by (auto simp: dispatch_measure_def core_inv_def lists_ok_def split: if_splits)
  qed
qed

lemma run_measure:
  assumes "wf_graph ns" and "disp_inv ns bypass d" and "dispatch_run evs d = Some d'"
  shows "dispatch_measure ns d' + length evs \<le> dispatch_measure ns d"
  using assms(2,3)
proof (induction evs arbitrary: d)
  case (Cons ev evs)
  then obtain e where e: "dispatch_step ev d = Some e" "dispatch_run evs e = Some d'" by (auto split: option.splits)
  show ?case
    using Cons.IH [OF dispatch_step_inv [OF assms(1) Cons.prems(1) e(1)] e(2)] step_measure [OF assms(1) Cons.prems(1) e(1)]
    by simp
qed simp

subsection \<open>Some step can be taken until the main loop returns\<close>

lemma inflight_step:
  assumes inv: "disp_inv ns bypass d" and busy: "dp_inflight d \<noteq> []"
  shows "\<exists>ev. dispatch_step ev d \<noteq> None"
proof -
  have core: "core_inv ns bypass d" using inv by (simp add: disp_inv_def)
  then have sem: "sem_ok d" and keys: "distinct (map fst (dp_inflight d))" by (simp_all add: core_inv_def lists_ok_def)
  have run: ?thesis if "phase_of d i = Some Running" for i
    using that by (intro exI [of _ "Finish i Failed"]) (simp add: phase_of_def)
  obtain i p where "(i, p) \<in> set (dp_inflight d)" using busy by (cases "dp_inflight d") auto
  then have ph: "phase_of d i = Some p" using keys by (simp add: phase_of_def)
  show ?thesis
  proof (cases p)
    case Running
    then show ?thesis using run ph by blast
  next
    case Ending
    then show ?thesis using ph by (intro exI [of _ "Promise_settled i"]) (simp add: phase_of_def)
  next
    case Waiting
    then have "sem_queue (dp_semaphore d) \<noteq> []" using sem_waiting [OF sem, of i] ph by auto
    then have "0 < running d" using sem by (auto simp: sem_ok_def)
    then obtain j where "(j, Running) \<in> set (dp_inflight d)" by (force simp: running_def filter_empty_conv)
    then show ?thesis using run [of j] keys by (simp add: phase_of_def)
  qed
qed

lemma not_returned_step:
  assumes inv: "disp_inv ns bypass d" and busy: "dp_loop d \<noteq> Returned"
  shows "\<exists>ev. dispatch_step ev d \<noteq> None"
proof (cases "dp_inflight d = []")
  case True
  then have "dispatch_step Main d \<noteq> None"
    using inv busy by (auto simp: disp_inv_def loop_inv_def main_step_def split: loop_state.splits)
  then show ?thesis by blast
next
  case False
  then show ?thesis by (rule inflight_step [OF inv])
qed

lemma returned_settled:
  assumes wf: "wf_graph ns" and ac: "acyclic (blocks ns)" and inv: "disp_inv ns bypass d" and ret: "dp_loop d = Returned"
    and closed: "\<forall>n \<in> set ns. set (blockedBy n) \<subseteq> dag_ids ns" and shelved: "bypass \<or> dp_shelved d = []"
  shows "set (dp_completed d) \<union> set (dp_shelved d) = dag_ids ns"
proof -
  have core: "core_inv ns bypass d" and idle: "dp_inflight d = []" "unscheduled_ready d = []"
    using inv ret by (simp_all add: disp_inv_def loop_inv_def)
  then have dinv: "dag_inv ns (dp_resolver d)" and lists: "lists_ok ns d" by (simp_all add: core_inv_def)
  have "pending_ids (dp_resolver d) = {}"
  proof (rule ccontr)
    assume "pending_ids (dp_resolver d) \<noteq> {}"
    moreover have "allow_bypass (dp_resolver d) \<or> (\<forall>i. map_of (dag_status (dp_resolver d)) i \<noteq> Some Shelved)"
      using shelved core by (auto simp: core_inv_def lists_ok_def status_of_def)
    ultimately have "getReady (dp_resolver d) \<noteq> []"
      using some_ready [OF wf dinv ac] closed by blast
    then obtain n where n: "n \<in> set (getReady (dp_resolver d))" by (cases "getReady (dp_resolver d)") auto
    then have "node_id n \<in> set (dp_scheduled d)" using idle(2) by (auto simp: unscheduled_ready_def filter_empty_conv)
    moreover have "n \<in> set ns" "status_of d (node_id n) = Some Pending"
      using n by (auto simp: getReady_eq_spec [OF wf dinv] ready_spec_def status_of_def)
    ultimately show False
      using core idle(1) by (auto simp: core_inv_def pending_ok_def phase_of_def dag_ids_def)
  qed
  then have none: "status_of d i \<noteq> Some Pending" for i by (auto simp: pending_ids_def status_of_def)
  show ?thesis
  proof (intro equalityI subsetI)
    fix i assume "i \<in> dag_ids ns"
    then obtain n where "n \<in> set ns" "i = node_id n" by (auto simp: dag_ids_def)
    then have "status_of d i \<noteq> None" using dag_inv_status [OF dinv] by (simp add: status_of_def)
    then obtain s where "status_of d i = Some s" by blast
    then show "i \<in> set (dp_completed d) \<union> set (dp_shelved d)" using lists none by (cases s) (auto simp: lists_ok_def)
  next
    fix i assume "i \<in> set (dp_completed d) \<union> set (dp_shelved d)"
    then have "status_of d i \<noteq> None" using lists by (auto simp: lists_ok_def)
    then have "i \<in> set (map fst (dag_status (dp_resolver d)))"
      by (metis status_of_def map_of_eq_None_iff list.set_map)
    then show "i \<in> dag_ids ns" using dinv unfolding dag_inv_def dag_ids_def by (metis list.set_map)
  qed
qed

subsection \<open>Properties\<close>

definition chain_slots :: semaphore where
  "chain_slots = \<lparr>sem_count = 0, sem_max = 1, sem_queue = []\<rparr>"

definition chain_events :: "dispatch_event list" where
  "chain_events = [Main, Finish ''a'' Succeeded, Promise_settled ''a'', Main, Finish ''b'' Succeeded,
     Promise_settled ''b'', Main]"

definition chain_end :: dispatcher where
  "chain_end = (case dispatch_run chain_events (new_dispatch chain_start chain_slots) of
     None \<Rightarrow> new_dispatch chain_start chain_slots | Some d \<Rightarrow> d)"

lemma chain_wf: "wf_graph chain" by (simp add: chain_def wf_graph_def)

lemma chain_slots_built: "new_semaphore (JsInt 1) = Inr chain_slots" by code_simp

lemma chain_finished: "dispatch_run chain_events (new_dispatch chain_start chain_slots) \<noteq> None" by code_simp

lemma chain_ran: "dispatch_run chain_events (new_dispatch chain_start chain_slots) = Some chain_end"
  using chain_finished by (auto simp: chain_end_def split: option.splits)

text \<open>C27: at every point of a dispatch, the number of nodes whose blueprint runs is the semaphore's
  count of used slots and never exceeds \<open>maxConcurrent\<close>; exactly the nodes that wait are in its queue,
  once each, and they wait only while every slot is used.\<close>

theorem dispatch_bounded:
  assumes "wf_graph ns" and "new_resolver ns bypass = Inr r" and "new_semaphore limit = Inr s"
    and "dispatch_run evs (new_dispatch r s) = Some d"
  shows "running d = used (dp_semaphore d) \<and> running d \<le> nat (int_of_number limit)
    \<and> distinct (sem_queue (dp_semaphore d))
    \<and> set (sem_queue (dp_semaphore d)) = {i. phase_of d i = Some Waiting}
    \<and> (0 < queueLength (dp_semaphore d) \<longrightarrow> running d = nat (int_of_number limit))"
proof -
  have "sem_ok d"
    using dispatch_run_inv [OF assms(1) initial_disp_inv(1) [OF assms(1-3)] assms(4)]
    by (simp add: disp_inv_def core_inv_def)
  moreover have "sem_max s = nat (int_of_number limit)"
    using assms(3) by (auto simp: new_semaphore_def split: if_splits)
  then have "sem_max (dp_semaphore d) = nat (int_of_number limit)"
    using sem_max_run [OF assms(4)] by (simp add: new_dispatch_def)
  ultimately show ?thesis by (auto simp: sem_ok_def used_def queueLength_def)
qed

theorem dispatch_bounded_witness:
  "running chain_end = used (dp_semaphore chain_end) \<and> running chain_end \<le> 1"
  using dispatch_bounded [OF chain_wf chain_start_built chain_slots_built chain_ran] by simp

text \<open>Nodes complete in dependency order: whatever the order in which blueprints end, each node
  completes at most once and, unless shelving releases dependants, every blocker that is in the graph
  completed before the node it blocks; \<open>markDone\<close> and \<open>shelve\<close> never throw inside the dispatcher.\<close>

theorem dispatch_order:
  assumes "wf_graph ns" and "new_resolver ns bypass = Inr r" and "new_semaphore limit = Inr s"
    and "dispatch_run evs (new_dispatch r s) = Some d"
  shows "distinct (dp_completed d) \<and> distinct (dp_shelved d) \<and> set (dp_completed d) \<inter> set (dp_shelved d) = {}
    \<and> (\<not> bypass \<longrightarrow> ordered ns (dp_completed d)) \<and> \<not> dp_rejected d"
proof -
  have "core_inv ns bypass d"
    using dispatch_run_inv [OF assms(1) initial_disp_inv(1) [OF assms(1-3)] assms(4)] by (simp add: disp_inv_def)
  then show ?thesis by (auto simp: core_inv_def lists_ok_def)
qed

theorem dispatch_order_witness: "ordered chain (dp_completed chain_end) \<and> dp_completed chain_end = [''a'', ''b'']"
proof
  show "ordered chain (dp_completed chain_end)"
    using dispatch_order [OF chain_wf chain_start_built chain_slots_built chain_ran] by simp
  show "dp_completed chain_end = [''a'', ''b'']" by code_simp
qed

text \<open>C25: a dispatch ends: a run of the dispatcher over \<open>n\<close> nodes has at most \<open>4 n + 2\<close> steps, in
  whatever order they are taken, and a dispatcher that can take no step has left its main loop.\<close>

theorem dispatch_finishes:
  assumes "wf_graph ns" and "new_resolver ns bypass = Inr r" and "new_semaphore limit = Inr s"
    and "dispatch_run evs (new_dispatch r s) = Some d"
  shows "length evs \<le> 4 * length ns + 2 \<and> ((\<forall>ev. dispatch_step ev d = None) \<longrightarrow> dp_loop d = Returned)"
proof
  note init = initial_disp_inv(1) [OF assms(1-3)]
  have "dispatch_measure ns (new_dispatch r s) = 4 * length ns + 2"
    by (simp add: dispatch_measure_def new_dispatch_def weight_def)
  then show "length evs \<le> 4 * length ns + 2" using run_measure [OF assms(1) init assms(4)] by simp
  show "(\<forall>ev. dispatch_step ev d = None) \<longrightarrow> dp_loop d = Returned"
    using not_returned_step [OF dispatch_run_inv [OF assms(1) init assms(4)]] by metis
qed

theorem dispatch_finishes_witness: "length chain_events \<le> 10 \<and> dp_loop chain_end = Returned"
proof
  show "length chain_events \<le> 10"
    using dispatch_finishes [OF chain_wf chain_start_built chain_slots_built chain_ran] by (simp add: chain_def)
  show "dp_loop chain_end = Returned" by code_simp
qed

text \<open>When the main loop returns, nothing is left undone: if every blocker is in the graph (as in a
  graph built from Linear issues) and no node was shelved, or shelving releases dependants, then every
  node is in the result, completed or shelved.\<close>

theorem dispatch_complete:
  assumes "wf_graph ns" and "new_resolver ns bypass = Inr r" and "new_semaphore limit = Inr s"
    and "dispatch_run evs (new_dispatch r s) = Some d" and "dp_loop d = Returned"
    and "\<forall>n \<in> set ns. set (blockedBy n) \<subseteq> dag_ids ns"
    and "bypass \<or> \<not> dr_halted (dispatch_return d)"
  shows "set (dr_completed (dispatch_return d)) \<union> set (dr_shelved (dispatch_return d)) = dag_ids ns"
proof -
  note init = initial_disp_inv [OF assms(1-3)]
  have "bypass \<or> dp_shelved d = []" using assms(7) by (simp add: dispatch_return_def)
  from returned_settled [OF assms(1) init(2) dispatch_run_inv [OF assms(1) init(1) assms(4)] assms(5,6) this]
  show ?thesis by (simp add: dispatch_return_def)
qed

theorem dispatch_complete_witness:
  "set (dr_completed (dispatch_return chain_end)) \<union> set (dr_shelved (dispatch_return chain_end)) = dag_ids chain"
proof (rule dispatch_complete [OF chain_wf chain_start_built chain_slots_built chain_ran])
  show "dp_loop chain_end = Returned" by code_simp
  show "\<forall>n \<in> set chain. set (blockedBy n) \<subseteq> dag_ids chain" by (simp add: chain_def dag_ids_def)
  show "False \<or> \<not> dr_halted (dispatch_return chain_end)" by code_simp
qed

end
