(* ===== verification/LedgerData.thy ===== *)
theory LedgerData
  imports Runtime
begin

section \<open>The workflow ledger: vocabulary, rows and tables\<close>

text \<open>
  The closed vocabularies of teamlead/src/workflow-claims.ts, one record per table of
  \<open>migrateWorkflowClaimsLedger\<close> and \<open>migrateWorkflowShadowLedger\<close>, and the inserts with the
  constraints the schema declares: an insert that breaks one throws, and the transaction it is in
  leaves the tables as they were. A table is the list of its rows in rowid order.
\<close>

subsection \<open>Vocabulary\<close>

definition WORKFLOW_CLAIM_PREDICATES :: "string list" where
  "WORKFLOW_CLAIM_PREDICATES = [''qa_passed'', ''qa_failed'', ''codex_approved'',
     ''design_review_approved'', ''founder_approved'', ''qa_exempt'']"

definition WORKFLOW_CLAIM_ISSUER_KINDS :: "string list" where
  "WORKFLOW_CLAIM_ISSUER_KINDS = [''runner_node'', ''bridge_policy'', ''founder_challenge'']"

definition WORKFLOW_CLAIM_SUBJECT_KINDS :: "string list" where
  "WORKFLOW_CLAIM_SUBJECT_KINDS = [''git_head'', ''snapshot_digest'']"

definition WORKFLOW_DECISION_FAMILIES :: "(string \<times> string list) list" where
  "WORKFLOW_DECISION_FAMILIES =
     [(''qa_verdict'', [''qa_passed'', ''qa_failed'']),
      (''review_verdict'', [''codex_approved'', ''design_review_approved'']),
      (''founder_decision'', [''founder_approved'']),
      (''qa_policy'', [''qa_exempt''])]"

definition RUNNER_CAPABILITY_FAMILIES :: "string list" where
  "RUNNER_CAPABILITY_FAMILIES = [''qa_verdict'', ''review_verdict'']"

definition SYSTEM_CLAIM_ALLOWLIST :: "(string \<times> string list) list" where
  "SYSTEM_CLAIM_ALLOWLIST =
     [(''bridge_policy'', [''qa_exempt'']), (''founder_challenge'', [''founder_approved''])]"

definition REVIEW_CLASS_PREDICATES :: "string list" where
  "REVIEW_CLASS_PREDICATES = [''qa_passed'', ''qa_failed'', ''codex_approved'', ''design_review_approved'']"

definition PASSING_PREDICATES :: "string list" where
  "PASSING_PREDICATES =
     [''qa_passed'', ''codex_approved'', ''design_review_approved'', ''founder_approved'', ''qa_exempt'']"

text \<open>\<open>allowed?.includes(p)\<close> for an entry of a table of lists.\<close>

definition listed :: "(string \<times> string list) list \<Rightarrow> string \<Rightarrow> string \<Rightarrow> bool" where
  "listed table k p = (case map_of table k of None \<Rightarrow> False | Some ps \<Rightarrow> p \<in> set ps)"

definition generateCapabilityToken :: "run_env \<Rightarrow> string" where
  "generateCapabilityToken env = fresh_token env"

definition hashCapabilityToken :: "run_env \<Rightarrow> string \<Rightarrow> string" where
  "hashCapabilityToken env token = sha256 env token"

type_synonym env_like = "string \<Rightarrow> string option"

definition isWorkflowClaimsWriteEnabled :: "env_like \<Rightarrow> bool" where
  "isWorkflowClaimsWriteEnabled env = (env ''FLYWHEEL_WORKFLOW_CLAIMS_WRITE'' = Some ''1'')"

definition isWorkflowClaimsReadEnabled :: "env_like \<Rightarrow> bool" where
  "isWorkflowClaimsReadEnabled env = (env ''FLYWHEEL_WORKFLOW_CLAIMS_READ'' = Some ''1'')"

definition isWorkflowLegacyForced :: "env_like \<Rightarrow> bool" where
  "isWorkflowLegacyForced env = (env ''FLYWHEEL_WORKFLOW_FORCE_LEGACY'' = Some ''1'')"

subsection \<open>Rows\<close>

record run_row =
  run_id :: string
  run_issue_id :: string
  run_project_name :: string
  run_template_id :: "string option"
  run_template_revision :: "int option"
  run_snapshot :: "string option"
  run_current_node_id :: "string option"
  run_current_qa_attempt :: "int option"
  run_status :: string
  run_claims_read_enrolled :: bool
  run_created_at :: string

record node_row =
  rn_run_id :: string
  rn_node_id :: string
  rn_attempt :: int
  rn_state :: string
  rn_execution_id :: "string option"
  rn_started_at :: string
  rn_ended_at :: "string option"

record event_row =
  ev_id :: int
  ev_run_id :: string
  ev_seq :: int
  ev_uid :: string
  ev_kind :: string
  ev_node_id :: "string option"
  ev_edge_id :: "string option"
  ev_execution_id :: "string option"
  ev_payload :: "string option"
  ev_at :: string

record capability_row =
  cap_id :: int
  cap_token_hash :: string
  cap_run_id :: string
  cap_node_id :: string
  cap_execution_id :: string
  cap_attempt :: int
  cap_family :: string
  cap_manifest_revision :: "int option"
  cap_evidence_schema_version :: int
  cap_expected_subject_digest :: "string option"
  cap_issued_at :: string
  cap_expires_at :: string
  cap_absolute_deadline_at :: string
  cap_consumed_at :: "string option"
  cap_consumed_claim_id :: "int option"
  cap_revoked :: bool
  cap_revoked_reason :: "string option"

record claim_row =
  cl_id :: int
  cl_server_seq :: int
  cl_issued_at :: string
  cl_issue_id :: string
  cl_run_id :: string
  cl_node_id :: "string option"
  cl_decision_kind :: string
  cl_attempt :: "int option"
  cl_predicate :: string
  cl_issuer_kind :: string
  cl_issuer_execution_id :: "string option"
  cl_issuer_node_id :: "string option"
  cl_issuer_vendor :: "string option"
  cl_issuer_model :: "string option"
  cl_subject_producer_execution_id :: "string option"
  cl_subject_kind :: string
  cl_subject_digest :: string
  cl_expires_at :: "string option"
  cl_permanent :: bool
  cl_submission_digest :: "string option"
  cl_client_request_id :: "string option"
  cl_evidence :: "string option"
  cl_authority_id :: string

record revocation_row =
  rev_id :: int
  rev_claim_id :: int
  rev_revoked_at :: string
  rev_reason :: string
  rev_actor :: string

record binding_row =
  bind_execution_id :: string
  bind_run_id :: string
  bind_node_id :: string
  bind_attempt :: int
  bind_bound_at :: string

record credential_row =
  cred_id :: int
  cred_hash :: string
  cred_run_id :: string
  cred_node_id :: string
  cred_execution_id :: string
  cred_attempt :: int
  cred_family :: string
  cred_decision_capability_id :: "int option"
  cred_issued_at :: string
  cred_expires_at :: string
  cred_absolute_deadline_at :: string
  cred_consumed_at :: "string option"
  cred_consumed_client_request_id :: "string option"
  cred_consumed_submission_digest :: "string option"
  cred_claim_id :: "int option"
  cred_revoked :: bool
  cred_revoked_reason :: "string option"

record receipt_row =
  rc_project :: string
  rc_source_event_id :: string
  rc_payload_digest :: string
  rc_claim_id :: "int option"
  rc_applied_at :: string

record deadletter_row =
  dl_project :: string
  dl_source_event_id :: string
  dl_reason :: string
  dl_at :: string

record cursor_row =
  cur_project :: string
  cur_last_row_id :: int
  cur_updated_at :: string

datatype side_effect_state = Intent_recorded | Launch_committed | Started | Abandoned

record side_effect_row =
  se_id :: int
  se_run_id :: string
  se_node_id :: string
  se_attempt :: int
  se_kind :: string
  se_launch_ordinal :: int
  se_execution_id :: string
  se_state :: side_effect_state
  se_reason :: "string option"
  se_created_at :: string
  se_updated_at :: string
  se_committed_at :: "string option"
  se_started_at :: "string option"
  se_abandoned_at :: "string option"

record ledger =
  runs :: "run_row list"
  run_nodes :: "node_row list"
  run_events :: "event_row list"
  capabilities :: "capability_row list"
  claims :: "claim_row list"
  revocations :: "revocation_row list"
  bindings :: "binding_row list"
  credentials :: "credential_row list"
  receipts :: "receipt_row list"
  deadletters :: "deadletter_row list"
  cursors :: "cursor_row list"
  side_effects :: "side_effect_row list"

definition empty_ledger :: ledger where
  "empty_ledger = \<lparr>runs = [], run_nodes = [], run_events = [], capabilities = [], claims = [],
     revocations = [], bindings = [], credentials = [], receipts = [], deadletters = [],
     cursors = [], side_effects = []\<rparr>"

end
