(* ===== verification/LedgerBase.thy ===== *)
theory LedgerBase
  imports LedgerData
begin

section \<open>Reading and writing the ledger tables\<close>

text \<open>
  Outcomes of the ledger calls, the inserts with the constraints of the schema, and the statements
  several operations share: event append, node upsert, claim sequence numbers.
\<close>

subsection \<open>Outcomes\<close>

text \<open>The reasons of the \<open>ok: false\<close> and \<open>valid: false\<close> results.\<close>

datatype refusal =
    Invalid_binding | Invalid_family | Invalid_timestamp | Invalid_expiry
  | Run_not_found | Stale_attempt | Attempt_execution_conflict | Execution_already_bound
  | Credential_already_issued | Credential_not_found | Credential_revoked | Credential_expired
  | Credential_receipt_corrupt | Replay_payload_mismatch | Predicate_not_allowed
  | Binding_not_current | Missing_subject_producer | Same_vendor_review
  | Expiry_beyond_deadline | Capability_not_found | Capability_consumed | Capability_revoked
  | Capability_expired | Subject_kind_invalid | Subject_mismatch | Missing_expiry
  | Predicate_not_allowed_for_issuer | Expiry_or_permanent_required | Issue_mismatch
  | No_claim | Conflict | Revoked | Expired | Not_pass

text \<open>What a call throws; the transaction is rolled back.\<close>

datatype ledger_throw =
    Constraint_failed string
  | Workflow_run_not_found string
  | Workflow_claim_not_found int
  | Source_rejected string
  | Cursor_invalid
  | Shadow_rejected string

type_synonym 'a call = "(ledger_throw, (refusal, 'a) result \<times> ledger) result"

subsection \<open>Timestamps\<close>

definition workflowExpired :: "run_env \<Rightarrow> string \<Rightarrow> string \<Rightarrow> bool" where
  "workflowExpired env expiresAt nowIso =
     (case (date_parse env nowIso, date_parse env expiresAt) of
        (Some n, Some e) \<Rightarrow> e \<le> n
      | _ \<Rightarrow> False)"

definition workflowFiniteTimestamp :: "run_env \<Rightarrow> string \<Rightarrow> bool" where
  "workflowFiniteTimestamp env v = (date_parse env v \<noteq> None)"

text \<open>\<open>Date.parse(a) > Date.parse(b)\<close>: false when either is NaN.\<close>

definition date_gt :: "run_env \<Rightarrow> string \<Rightarrow> string \<Rightarrow> bool" where
  "date_gt env a b = (case (date_parse env a, date_parse env b) of
     (Some x, Some y) \<Rightarrow> y < x | _ \<Rightarrow> False)"

subsection \<open>Inserts with their constraints\<close>

definition insert_run :: "run_row \<Rightarrow> ledger \<Rightarrow> (ledger_throw, ledger) result" where
  "insert_run r db =
     (if run_id r \<in> set (map run_id (runs db)) then Inl (Constraint_failed ''workflow_run.run_id'')
      else if run_status r = ''active'' \<and> list_ex (\<lambda>q. run_status q = ''active''
                \<and> run_project_name q = run_project_name r \<and> run_issue_id q = run_issue_id r) (runs db)
        then Inl (Constraint_failed ''idx_workflow_run_active'')
      else Inr (db\<lparr>runs := runs db @ [r]\<rparr>))"

definition insert_event :: "event_row \<Rightarrow> ledger \<Rightarrow> (ledger_throw, ledger) result" where
  "insert_event e db =
     (if ev_uid e \<in> set (map ev_uid (run_events db)) then Inl (Constraint_failed ''workflow_run_event.event_uid'')
      else if list_ex (\<lambda>x. ev_run_id x = ev_run_id e \<and> ev_seq x = ev_seq e) (run_events db)
        then Inl (Constraint_failed ''workflow_run_event.run_id, seq'')
      else Inr (db\<lparr>run_events := run_events db @ [e\<lparr>ev_id := sql_max (map ev_id (run_events db)) + 1\<rparr>]\<rparr>))"

definition insert_capability :: "capability_row \<Rightarrow> ledger \<Rightarrow> (ledger_throw, ledger) result" where
  "insert_capability c db =
     (if cap_token_hash c \<in> set (map cap_token_hash (capabilities db))
      then Inl (Constraint_failed ''workflow_decision_capability.token_hash'')
      else Inr (db\<lparr>capabilities :=
        capabilities db @ [c\<lparr>cap_id := sql_max (map cap_id (capabilities db)) + 1\<rparr>]\<rparr>))"

definition runner_claim_complete :: "claim_row \<Rightarrow> bool" where
  "runner_claim_complete c = (cl_issuer_kind c \<noteq> ''runner_node'' \<or>
     cl_node_id c \<noteq> None \<and> cl_attempt c \<noteq> None \<and> cl_issuer_execution_id c \<noteq> None
     \<and> cl_issuer_node_id c \<noteq> None \<and> cl_issuer_vendor c \<noteq> None \<and> cl_issuer_model c \<noteq> None
     \<and> cl_submission_digest c \<noteq> None \<and> cl_client_request_id c \<noteq> None)"

definition claim_checks :: "claim_row \<Rightarrow> bool" where
  "claim_checks c = (cl_predicate c \<in> set WORKFLOW_CLAIM_PREDICATES
     \<and> cl_issuer_kind c \<in> set WORKFLOW_CLAIM_ISSUER_KINDS
     \<and> cl_subject_kind c \<in> set WORKFLOW_CLAIM_SUBJECT_KINDS
     \<and> runner_claim_complete c \<and> (cl_expires_at c \<noteq> None \<or> cl_permanent c))"

definition insert_claim :: "claim_row \<Rightarrow> ledger \<Rightarrow> (ledger_throw, ledger) result" where
  "insert_claim c db =
     (if \<not> claim_checks c then Inl (Constraint_failed ''workflow_claims CHECK'')
      else if cl_server_seq c \<in> set (map cl_server_seq (claims db))
        then Inl (Constraint_failed ''workflow_claims.server_seq'')
      else Inr (db\<lparr>claims := claims db @ [c\<lparr>cl_id := sql_max (map cl_id (claims db)) + 1\<rparr>]\<rparr>))"

definition insert_revocation :: "revocation_row \<Rightarrow> ledger \<Rightarrow> ledger" where
  "insert_revocation r db = db\<lparr>revocations :=
     revocations db @ [r\<lparr>rev_id := sql_max (map rev_id (revocations db)) + 1\<rparr>]\<rparr>"

definition insert_binding :: "binding_row \<Rightarrow> ledger \<Rightarrow> (ledger_throw, ledger) result" where
  "insert_binding b db =
     (if bind_execution_id b \<in> set (map bind_execution_id (bindings db))
      then Inl (Constraint_failed ''workflow_execution_binding.execution_id'')
      else if bind_attempt b \<le> 0 then Inl (Constraint_failed ''workflow_execution_binding CHECK'')
      else Inr (db\<lparr>bindings := bindings db @ [b]\<rparr>))"

text \<open>The rows of the partial index \<open>ux_workflow_submission_live\<close>.\<close>

definition live_credential :: "string \<Rightarrow> string \<Rightarrow> int \<Rightarrow> credential_row \<Rightarrow> bool" where
  "live_credential r n a c = (cred_run_id c = r \<and> cred_node_id c = n \<and> cred_attempt c = a
     \<and> cred_consumed_at c = None \<and> \<not> cred_revoked c)"

definition bound_to :: "credential_row \<Rightarrow> binding_row \<Rightarrow> bool" where
  "bound_to c b = (bind_execution_id b = cred_execution_id c \<and> bind_run_id b = cred_run_id c
     \<and> bind_node_id b = cred_node_id c \<and> bind_attempt b = cred_attempt c)"

definition insert_credential :: "credential_row \<Rightarrow> ledger \<Rightarrow> (ledger_throw, ledger) result" where
  "insert_credential c db =
     (if cred_hash c \<in> set (map cred_hash (credentials db))
      then Inl (Constraint_failed ''workflow_submission_credential.credential_hash'')
      else if cred_attempt c \<le> 0 \<or> cred_family c \<notin> set RUNNER_CAPABILITY_FAMILIES
        then Inl (Constraint_failed ''workflow_submission_credential CHECK'')
      else if list_ex (live_credential (cred_run_id c) (cred_node_id c) (cred_attempt c)) (credentials db)
        then Inl (Constraint_failed ''ux_workflow_submission_live'')
      else if \<not> list_ex (bound_to c) (bindings db)
        then Inl (Constraint_failed ''workflow_submission_credential FOREIGN KEY'')
      else Inr (db\<lparr>credentials :=
        credentials db @ [c\<lparr>cred_id := sql_max (map cred_id (credentials db)) + 1\<rparr>]\<rparr>))"

definition insert_receipt :: "receipt_row \<Rightarrow> ledger \<Rightarrow> (ledger_throw, ledger) result" where
  "insert_receipt r db =
     (if list_ex (\<lambda>x. rc_project x = rc_project r \<and> rc_source_event_id x = rc_source_event_id r) (receipts db)
      then Inl (Constraint_failed ''workflow_source_receipt.project, source_event_id'')
      else if rc_claim_id r \<noteq> None \<and> the (rc_claim_id r) \<notin> set (map cl_id (claims db))
        then Inl (Constraint_failed ''workflow_source_receipt FOREIGN KEY'')
      else Inr (db\<lparr>receipts := receipts db @ [r]\<rparr>))"

subsection \<open>Selects\<close>

definition find_run :: "ledger \<Rightarrow> string \<Rightarrow> run_row option" where
  "find_run db r = List.find (\<lambda>x. run_id x = r) (runs db)"

definition getWorkflowRun :: "ledger \<Rightarrow> string \<Rightarrow> run_row option" where
  "getWorkflowRun db r = find_run db r"

definition is_node :: "string \<Rightarrow> string \<Rightarrow> int \<Rightarrow> node_row \<Rightarrow> bool" where
  "is_node r n a x = (rn_run_id x = r \<and> rn_node_id x = n \<and> rn_attempt x = a)"

definition getWorkflowRunNode :: "ledger \<Rightarrow> string \<Rightarrow> string \<Rightarrow> int \<Rightarrow> node_row option" where
  "getWorkflowRunNode db r n a = List.find (is_node r n a) (run_nodes db)"

definition listWorkflowRunNodes :: "ledger \<Rightarrow> string \<Rightarrow> string \<Rightarrow> node_row list" where
  "listWorkflowRunNodes db r n =
     sort_key rn_attempt (filter (\<lambda>x. rn_run_id x = r \<and> rn_node_id x = n) (run_nodes db))"

text \<open>\<open>ORDER BY attempt DESC LIMIT 1\<close>.\<close>

definition getWorkflowRunNodeForExecution :: "ledger \<Rightarrow> string \<Rightarrow> node_row option" where
  "getWorkflowRunNodeForExecution db e =
     (case sort_key (\<lambda>x. - rn_attempt x) (filter (\<lambda>x. rn_execution_id x = Some e) (run_nodes db)) of
        [] \<Rightarrow> None | x # _ \<Rightarrow> Some x)"

definition getWorkflowExecutionBinding :: "ledger \<Rightarrow> string \<Rightarrow> binding_row option" where
  "getWorkflowExecutionBinding db e = List.find (\<lambda>b. bind_execution_id b = e) (bindings db)"

definition getWorkflowSubmissionCredential :: "ledger \<Rightarrow> int \<Rightarrow> credential_row option" where
  "getWorkflowSubmissionCredential db i = List.find (\<lambda>c. cred_id c = i) (credentials db)"

definition find_credential :: "ledger \<Rightarrow> string \<Rightarrow> credential_row option" where
  "find_credential db h = List.find (\<lambda>c. cred_hash c = h) (credentials db)"

definition getWorkflowSubmissionCredentialByToken :: "run_env \<Rightarrow> ledger \<Rightarrow> string \<Rightarrow> credential_row option" where
  "getWorkflowSubmissionCredentialByToken env db t =
     (case find_credential db (hashCapabilityToken env t) of
        None \<Rightarrow> None
      | Some c \<Rightarrow> getWorkflowSubmissionCredential db (cred_id c))"

definition getWorkflowDecisionCapability :: "ledger \<Rightarrow> int \<Rightarrow> capability_row option" where
  "getWorkflowDecisionCapability db i = List.find (\<lambda>c. cap_id c = i) (capabilities db)"

definition find_capability :: "ledger \<Rightarrow> string \<Rightarrow> capability_row option" where
  "find_capability db h = List.find (\<lambda>c. cap_token_hash c = h) (capabilities db)"

definition getWorkflowClaim :: "ledger \<Rightarrow> int \<Rightarrow> claim_row option" where
  "getWorkflowClaim db i = List.find (\<lambda>c. cl_id c = i) (claims db)"

definition countWorkflowClaims :: "ledger \<Rightarrow> string \<Rightarrow> nat" where
  "countWorkflowClaims db r = length (filter (\<lambda>c. cl_run_id c = r) (claims db))"

definition listWorkflowRunEvents :: "ledger \<Rightarrow> string \<Rightarrow> event_row list" where
  "listWorkflowRunEvents db r = sort_key ev_seq (filter (\<lambda>e. ev_run_id e = r) (run_events db))"

definition nextWorkflowClaimSeq :: "ledger \<Rightarrow> int" where
  "nextWorkflowClaimSeq db = sql_max (map cl_server_seq (claims db)) + 1"

text \<open>\<open>Number(rows[0]?.id)\<close>; the row is there whenever this is called.\<close>

definition workflowClaimIdBySeq :: "ledger \<Rightarrow> int \<Rightarrow> int" where
  "workflowClaimIdBySeq db s =
     or_else (map_option cl_id (List.find (\<lambda>c. cl_server_seq c = s) (claims db))) 0"

subsection \<open>Runs, nodes and events\<close>

definition createWorkflowRun ::
    "run_env \<Rightarrow> string \<Rightarrow> string \<Rightarrow> string \<Rightarrow> string option \<Rightarrow> int option \<Rightarrow> string option \<Rightarrow> bool
     \<Rightarrow> ledger \<Rightarrow> (ledger_throw, ledger) result" where
  "createWorkflowRun env runId issueId projectName templateId templateRevision snapshotJson enrolled db =
     insert_run \<lparr>run_id = runId, run_issue_id = issueId, run_project_name = projectName,
       run_template_id = templateId, run_template_revision = templateRevision,
       run_snapshot = snapshotJson, run_current_node_id = None, run_current_qa_attempt = None,
       run_status = ''active'', run_claims_read_enrolled = enrolled, run_created_at = sql_now env\<rparr> db"

text \<open>\<open>INSERT ... ON CONFLICT(run_id, node_id, attempt) DO UPDATE\<close>.\<close>

definition upsertWorkflowRunNodeTx ::
    "run_env \<Rightarrow> string \<Rightarrow> string \<Rightarrow> int \<Rightarrow> string \<Rightarrow> string option \<Rightarrow> string option \<Rightarrow> ledger \<Rightarrow> ledger" where
  "upsertWorkflowRunNodeTx env r n a st ex ended db =
     (if list_ex (is_node r n a) (run_nodes db)
      then db\<lparr>run_nodes := map (\<lambda>x. if is_node r n a x
             then x\<lparr>rn_state := st, rn_execution_id := coalesce ex (rn_execution_id x),
                    rn_ended_at := coalesce ended (rn_ended_at x)\<rparr>
             else x) (run_nodes db)\<rparr>
      else db\<lparr>run_nodes := run_nodes db @ [\<lparr>rn_run_id = r, rn_node_id = n, rn_attempt = a, rn_state = st,
             rn_execution_id = ex, rn_started_at = sql_now env, rn_ended_at = ended\<rparr>]\<rparr>)"

definition upsertWorkflowRunNode ::
    "run_env \<Rightarrow> string \<Rightarrow> string \<Rightarrow> int \<Rightarrow> string \<Rightarrow> string option \<Rightarrow> string option \<Rightarrow> ledger \<Rightarrow> ledger" where
  "upsertWorkflowRunNode env r n a st ex ended db = upsertWorkflowRunNodeTx env r n a st ex ended db"

record event_input =
  ei_run_id :: string
  ei_uid :: string
  ei_kind :: string
  ei_node_id :: "string option"
  ei_edge_id :: "string option"
  ei_execution_id :: "string option"
  ei_payload :: "json option"

text \<open>The result is the event's sequence number and whether it was already there.\<close>

definition appendWorkflowRunEventTx ::
    "run_env \<Rightarrow> event_input \<Rightarrow> ledger \<Rightarrow> (ledger_throw, (int \<times> bool) \<times> ledger) result" where
  "appendWorkflowRunEventTx env i db =
     (if find_run db (ei_run_id i) = None then Inl (Workflow_run_not_found (ei_run_id i))
      else (case List.find (\<lambda>e. ev_uid e = ei_uid i) (run_events db) of
         Some e \<Rightarrow> Inr ((ev_seq e, True), db)
       | None \<Rightarrow>
           (let seq = sql_max (map ev_seq (filter (\<lambda>e. ev_run_id e = ei_run_id i) (run_events db))) + 1
            in and_then (insert_event \<lparr>ev_id = 0, ev_run_id = ei_run_id i, ev_seq = seq, ev_uid = ei_uid i,
                    ev_kind = ei_kind i, ev_node_id = ei_node_id i, ev_edge_id = ei_edge_id i,
                    ev_execution_id = ei_execution_id i,
                    ev_payload = map_option json_stringify (ei_payload i), ev_at = sql_now env\<rparr> db)
                 (\<lambda>db'. Inr ((seq, False), db')))))"

definition appendWorkflowRunEvent ::
    "run_env \<Rightarrow> event_input \<Rightarrow> ledger \<Rightarrow> (ledger_throw, (int \<times> bool) \<times> ledger) result" where
  "appendWorkflowRunEvent env i db = appendWorkflowRunEventTx env i db"

end
