(* ===== verification/LedgerClaims.thy ===== *)
theory LedgerClaims
  imports LedgerBase
begin

section \<open>Decision capabilities and claims\<close>

text \<open>
  The operations of \<open>StateStore\<close> on decision capabilities and claims: issue, renew, submit,
  system claims, revocation, use-time resolution, and the source-event projector with its
  dead letters and cursor. Each is one SQLite transaction.
\<close>

subsection \<open>Capabilities\<close>

record issue_input =
  is_run_id :: string
  is_node_id :: string
  is_execution_id :: string
  is_attempt :: int
  is_family :: string
  is_manifest_revision :: "int option"
  is_evidence_schema_version :: "int option"
  is_expected_subject_digest :: "string option"
  is_expires_at :: string
  is_absolute_deadline_at :: string

definition of_node :: "string \<Rightarrow> string \<Rightarrow> capability_row \<Rightarrow> bool" where
  "of_node r n c = (cap_run_id c = r \<and> cap_node_id c = n)"

definition stale_sibling :: "int \<Rightarrow> capability_row \<Rightarrow> bool" where
  "stale_sibling a s = (cap_consumed_at s \<noteq> None \<and> a \<le> cap_attempt s
     \<or> cap_consumed_at s = None \<and> \<not> cap_revoked s \<and> a < cap_attempt s)"

text \<open>\<open>SET revoked = 1 WHERE ... consumed_at IS NULL AND revoked = 0 AND attempt <= ?\<close>.\<close>

definition supersede_capability :: "string \<Rightarrow> string \<Rightarrow> int \<Rightarrow> capability_row \<Rightarrow> capability_row" where
  "supersede_capability r n a c =
     (if of_node r n c \<and> cap_consumed_at c = None \<and> \<not> cap_revoked c \<and> cap_attempt c \<le> a
      then c\<lparr>cap_revoked := True, cap_revoked_reason := Some (''superseded_by_attempt_'' @ string_of_int a)\<rparr>
      else c)"

definition issued_capability :: "run_env \<Rightarrow> issue_input \<Rightarrow> string \<Rightarrow> capability_row" where
  "issued_capability env i h =
     \<lparr>cap_id = 0, cap_token_hash = h, cap_run_id = is_run_id i, cap_node_id = is_node_id i,
      cap_execution_id = is_execution_id i, cap_attempt = is_attempt i, cap_family = is_family i,
      cap_manifest_revision = is_manifest_revision i,
      cap_evidence_schema_version = or_else (is_evidence_schema_version i) 1,
      cap_expected_subject_digest = is_expected_subject_digest i, cap_issued_at = sql_now env,
      cap_expires_at = is_expires_at i, cap_absolute_deadline_at = is_absolute_deadline_at i,
      cap_consumed_at = None, cap_consumed_claim_id = None, cap_revoked = False,
      cap_revoked_reason = None\<rparr>"

definition supersede_capabilities :: "issue_input \<Rightarrow> ledger \<Rightarrow> ledger" where
  "supersede_capabilities i db = db\<lparr>capabilities :=
     map (supersede_capability (is_run_id i) (is_node_id i) (is_attempt i)) (capabilities db)\<rparr>"

definition issueWorkflowDecisionCapability ::
    "run_env \<Rightarrow> issue_input \<Rightarrow> ledger \<Rightarrow> (int \<times> string) call" where
  "issueWorkflowDecisionCapability env i db =
     (if is_family i \<notin> set RUNNER_CAPABILITY_FAMILIES then Inr (Inl Invalid_family, db)
      else if \<not> workflowFiniteTimestamp env (is_expires_at i)
              \<or> \<not> workflowFiniteTimestamp env (is_absolute_deadline_at i) then Inr (Inl Invalid_timestamp, db)
      else if date_gt env (is_expires_at i) (is_absolute_deadline_at i)
        then Inr (Inl Expiry_beyond_deadline, db)
      else if find_run db (is_run_id i) = None then Inr (Inl Run_not_found, db)
      else if list_ex (stale_sibling (is_attempt i))
                (filter (of_node (is_run_id i) (is_node_id i)) (capabilities db))
        then Inr (Inl Stale_attempt, db)
      else
        (let db1 = supersede_capabilities i db;
             token = generateCapabilityToken env;
             h = hashCapabilityToken env token
         in and_then (insert_capability (issued_capability env i h) db1)
            (\<lambda>db2. Inr (Inr (or_else (map_option cap_id (find_capability db2 h)) 0, token), db2))))"

definition renewWorkflowDecisionCapability ::
    "run_env \<Rightarrow> int \<Rightarrow> string \<Rightarrow> string option \<Rightarrow> ledger \<Rightarrow> string call" where
  "renewWorkflowDecisionCapability env capabilityId requested now db =
     (let nowIso = or_else now (now_iso env)
      in if \<not> workflowFiniteTimestamp env requested \<or> \<not> workflowFiniteTimestamp env nowIso
         then Inr (Inl Invalid_timestamp, db)
         else (case getWorkflowDecisionCapability db capabilityId of
             None \<Rightarrow> Inr (Inl Capability_not_found, db)
           | Some cap \<Rightarrow>
               if cap_consumed_at cap \<noteq> None then Inr (Inl Capability_consumed, db)
               else if cap_revoked cap then Inr (Inl Capability_revoked, db)
               else if workflowExpired env (cap_expires_at cap) nowIso then Inr (Inl Capability_expired, db)
               else (let deadline = cap_absolute_deadline_at cap;
                         chosen = (if date_gt env requested deadline then deadline else requested)
                     in Inr (Inr chosen, db\<lparr>capabilities :=
                          map (\<lambda>c. if cap_id c = capabilityId then c\<lparr>cap_expires_at := chosen\<rparr> else c)
                            (capabilities db)\<rparr>))))"

subsection \<open>Submitting a claim\<close>

record submit_input =
  si_client_request_id :: string
  si_predicate :: string
  si_subject_kind :: string
  si_subject_digest :: string
  si_issuer_vendor :: string
  si_issuer_model :: string
  si_subject_producer_execution_id :: "string option"
  si_subject_producer_vendor :: "string option"
  si_claim_expires_at :: "string option"
  si_evidence :: "json option"

definition submission_payload :: "submit_input \<Rightarrow> json" where
  "submission_payload i = JObj
     [(''clientRequestId'', JStr (si_client_request_id i)),
      (''predicate'', JStr (si_predicate i)),
      (''subjectKind'', JStr (si_subject_kind i)),
      (''subjectDigest'', JStr (si_subject_digest i)),
      (''issuerVendor'', JStr (si_issuer_vendor i)),
      (''issuerModel'', JStr (si_issuer_model i)),
      (''subjectProducerExecutionId'', jstr_or_null (si_subject_producer_execution_id i)),
      (''subjectProducerVendor'', jstr_or_null (si_subject_producer_vendor i)),
      (''claimExpiresAt'', jstr_or_null (si_claim_expires_at i)),
      (''evidence'', or_else (si_evidence i) JNull)]"

text \<open>The review checks of both submission paths.\<close>

definition review_refusal :: "submit_input \<Rightarrow> refusal option" where
  "review_refusal i =
     (if si_predicate i \<in> set REVIEW_CLASS_PREDICATES then
        (if \<not> truthy (si_subject_producer_execution_id i) \<or> \<not> truthy (si_subject_producer_vendor i)
         then Some Missing_subject_producer
         else if si_subject_producer_vendor i = Some (si_issuer_vendor i) then Some Same_vendor_review
         else None)
      else None)"

text \<open>\<open>UPDATE workflow_decision_capability SET consumed_at = ?, consumed_claim_id = ? WHERE id = ?\<close>.\<close>

definition consume_capability :: "string \<Rightarrow> int \<Rightarrow> int \<Rightarrow> ledger \<Rightarrow> ledger" where
  "consume_capability nowIso claimId i db = db\<lparr>capabilities :=
     map (\<lambda>c. if cap_id c = i then c\<lparr>cap_consumed_at := Some nowIso, cap_consumed_claim_id := Some claimId\<rparr> else c)
       (capabilities db)\<rparr>"

definition capability_refusal :: "run_env \<Rightarrow> submit_input \<Rightarrow> string \<Rightarrow> capability_row \<Rightarrow> refusal option" where
  "capability_refusal env i nowIso cap =
     (if cap_revoked cap then Some Capability_revoked
      else if workflowExpired env (cap_expires_at cap) nowIso then Some Capability_expired
      else if \<not> listed WORKFLOW_DECISION_FAMILIES (cap_family cap) (si_predicate i) then Some Predicate_not_allowed
      else if si_subject_kind i \<notin> set WORKFLOW_CLAIM_SUBJECT_KINDS then Some Subject_kind_invalid
      else if cap_expected_subject_digest cap \<noteq> None
              \<and> cap_expected_subject_digest cap \<noteq> Some (si_subject_digest i) then Some Subject_mismatch
      else (case review_refusal i of
          Some e \<Rightarrow> Some e
        | None \<Rightarrow> if \<not> truthy (si_claim_expires_at i) then Some Missing_expiry else None))"

definition runner_claim ::
    "run_env \<Rightarrow> submit_input \<Rightarrow> string \<Rightarrow> string \<Rightarrow> string \<Rightarrow> int \<Rightarrow> string \<Rightarrow> string \<Rightarrow> int \<Rightarrow> int \<Rightarrow> claim_row" where
  "runner_claim env i issueId runId nodeId att family execId serverSeq capabilityId =
     \<lparr>cl_id = 0, cl_server_seq = serverSeq, cl_issued_at = sql_now env, cl_issue_id = issueId,
      cl_run_id = runId, cl_node_id = Some nodeId, cl_decision_kind = family, cl_attempt = Some att,
      cl_predicate = si_predicate i, cl_issuer_kind = ''runner_node'', cl_issuer_execution_id = Some execId,
      cl_issuer_node_id = Some nodeId, cl_issuer_vendor = Some (si_issuer_vendor i),
      cl_issuer_model = Some (si_issuer_model i),
      cl_subject_producer_execution_id = si_subject_producer_execution_id i,
      cl_subject_kind = si_subject_kind i, cl_subject_digest = si_subject_digest i,
      cl_expires_at = si_claim_expires_at i, cl_permanent = False,
      cl_submission_digest = Some (canonicalSubmissionDigest env (submission_payload i)),
      cl_client_request_id = Some (si_client_request_id i),
      cl_evidence = map_option json_stringify (si_evidence i), cl_authority_id = string_of_int capabilityId\<rparr>"

text \<open>The writes of an accepted submission: claim, consumed capability, run event.\<close>

definition write_runner_claim ::
    "run_env \<Rightarrow> submit_input \<Rightarrow> string \<Rightarrow> run_row \<Rightarrow> capability_row \<Rightarrow> ledger \<Rightarrow> (int \<times> int \<times> bool) call" where
  "write_runner_claim env i nowIso run cap db =
     (let serverSeq = nextWorkflowClaimSeq db in
      and_then (insert_claim (runner_claim env i (run_issue_id run) (run_id run) (cap_node_id cap)
          (cap_attempt cap) (cap_family cap) (cap_execution_id cap) serverSeq (cap_id cap)) db) (\<lambda>db1.
        let claimId = workflowClaimIdBySeq db1 serverSeq;
            db2 = consume_capability nowIso claimId (cap_id cap) db1
        in and_then (appendWorkflowRunEventTx env
             \<lparr>ei_run_id = run_id run,
              ei_uid = ''claim_written:'' @ string_of_int (cap_id cap) @ '':'' @ si_client_request_id i,
              ei_kind = ''claim_written'', ei_node_id = Some (cap_node_id cap), ei_edge_id = None,
              ei_execution_id = Some (cap_execution_id cap),
              ei_payload = Some (JObj [(''claimId'', JInt claimId), (''predicate'', JStr (si_predicate i)),
                (''subjectDigest'', JStr (si_subject_digest i))])\<rparr> db2)
            (\<lambda>(_, db3). Inr (Inr (claimId, serverSeq, False), db3))))"

definition submitWorkflowDecisionClaim ::
    "run_env \<Rightarrow> string \<Rightarrow> submit_input \<Rightarrow> string option \<Rightarrow> ledger \<Rightarrow> (int \<times> int \<times> bool) call" where
  "submitWorkflowDecisionClaim env token i now db =
     (let nowIso = or_else now (now_iso env);
          digest = canonicalSubmissionDigest env (submission_payload i)
      in if \<not> workflowFiniteTimestamp env nowIso
            \<or> (case si_claim_expires_at i of None \<Rightarrow> False | Some e \<Rightarrow> \<not> workflowFiniteTimestamp env e)
         then Inr (Inl Invalid_timestamp, db)
         else (case find_capability db (hashCapabilityToken env token) of
             None \<Rightarrow> Inr (Inl Capability_not_found, db)
           | Some cap \<Rightarrow>
               if cap_consumed_at cap \<noteq> None then
                 (case (case cap_consumed_claim_id cap of None \<Rightarrow> None | Some c \<Rightarrow> getWorkflowClaim db c) of
                    Some prior \<Rightarrow>
                      if cl_submission_digest prior = Some digest
                         \<and> cl_client_request_id prior = Some (si_client_request_id i)
                      then Inr (Inr (cl_id prior, cl_server_seq prior, True), db)
                      else Inr (Inl Replay_payload_mismatch, db)
                  | None \<Rightarrow> Inr (Inl Replay_payload_mismatch, db))
               else (case capability_refusal env i nowIso cap of
                   Some e \<Rightarrow> Inr (Inl e, db)
                 | None \<Rightarrow>
                     (case getWorkflowRun db (cap_run_id cap) of
                        None \<Rightarrow> Inr (Inl Run_not_found, db)
                      | Some run \<Rightarrow> write_runner_claim env i nowIso run cap db))))"

subsection \<open>System claims and revocation\<close>

record system_input =
  sy_issuer_kind :: string
  sy_run_id :: string
  sy_issue_id :: string
  sy_decision_kind :: string
  sy_predicate :: string
  sy_subject_kind :: string
  sy_subject_digest :: string
  sy_node_id :: "string option"
  sy_attempt :: "int option"
  sy_expires_at :: "string option"
  sy_permanent :: "bool option"
  sy_evidence :: "json option"
  sy_authority_id :: string

definition system_claim :: "run_env \<Rightarrow> system_input \<Rightarrow> string \<Rightarrow> int \<Rightarrow> claim_row" where
  "system_claim env i issueId serverSeq =
     \<lparr>cl_id = 0, cl_server_seq = serverSeq, cl_issued_at = sql_now env, cl_issue_id = issueId,
      cl_run_id = sy_run_id i, cl_node_id = sy_node_id i, cl_decision_kind = sy_decision_kind i,
      cl_attempt = sy_attempt i, cl_predicate = sy_predicate i, cl_issuer_kind = sy_issuer_kind i,
      cl_issuer_execution_id = None, cl_issuer_node_id = None, cl_issuer_vendor = None,
      cl_issuer_model = None, cl_subject_producer_execution_id = None,
      cl_subject_kind = sy_subject_kind i, cl_subject_digest = sy_subject_digest i,
      cl_expires_at = sy_expires_at i, cl_permanent = (sy_permanent i = Some True),
      cl_submission_digest = None, cl_client_request_id = None,
      cl_evidence = map_option json_stringify (sy_evidence i), cl_authority_id = sy_authority_id i\<rparr>"

definition appendWorkflowSystemClaim :: "run_env \<Rightarrow> system_input \<Rightarrow> ledger \<Rightarrow> (int \<times> int) call" where
  "appendWorkflowSystemClaim env i db =
     (if \<not> listed SYSTEM_CLAIM_ALLOWLIST (sy_issuer_kind i) (sy_predicate i)
        then Inr (Inl Predicate_not_allowed_for_issuer, db)
      else if sy_subject_kind i \<notin> set WORKFLOW_CLAIM_SUBJECT_KINDS
          \<or> sy_predicate i = ''founder_approved'' \<and> sy_subject_kind i \<noteq> ''git_head''
          \<or> sy_predicate i = ''qa_exempt'' \<and> sy_subject_kind i \<noteq> ''snapshot_digest''
        then Inr (Inl Subject_kind_invalid, db)
      else if (sy_permanent i = Some True) = truthy (sy_expires_at i)
        then Inr (Inl Expiry_or_permanent_required, db)
      else if (case sy_expires_at i of None \<Rightarrow> False | Some e \<Rightarrow> \<not> workflowFiniteTimestamp env e)
        then Inr (Inl Invalid_timestamp, db)
      else (case find_run db (sy_run_id i) of
          None \<Rightarrow> Inr (Inl Run_not_found, db)
        | Some run \<Rightarrow>
            if sy_issue_id i \<noteq> run_issue_id run then Inr (Inl Issue_mismatch, db)
            else (let serverSeq = nextWorkflowClaimSeq db in
              and_then (insert_claim (system_claim env i (run_issue_id run) serverSeq) db) (\<lambda>db1.
                let claimId = workflowClaimIdBySeq db1 serverSeq
                in and_then (appendWorkflowRunEventTx env
                     \<lparr>ei_run_id = sy_run_id i,
                      ei_uid = ''system_claim:'' @ sy_issuer_kind i @ '':'' @ sy_authority_id i @ '':''
                        @ string_of_int serverSeq,
                      ei_kind = ''claim_written'', ei_node_id = sy_node_id i, ei_edge_id = None,
                      ei_execution_id = None,
                      ei_payload = Some (JObj [(''claimId'', JInt claimId),
                        (''predicate'', JStr (sy_predicate i))])\<rparr> db1)
                    (\<lambda>(_, db2). Inr (Inr (claimId, serverSeq), db2))))))"

definition revokeWorkflowClaim ::
    "run_env \<Rightarrow> int \<Rightarrow> string \<Rightarrow> string \<Rightarrow> ledger \<Rightarrow> (ledger_throw, ledger) result" where
  "revokeWorkflowClaim env claimId reason actor db =
     (case getWorkflowClaim db claimId of
        None \<Rightarrow> Inl (Workflow_claim_not_found claimId)
      | Some claim \<Rightarrow>
          (let db1 = insert_revocation \<lparr>rev_id = 0, rev_claim_id = claimId, rev_revoked_at = sql_now env,
                 rev_reason = reason, rev_actor = actor\<rparr> db;
               revId = sql_max (map rev_id (filter (\<lambda>r. rev_claim_id r = claimId) (revocations db1)))
           in and_then (appendWorkflowRunEventTx env
                \<lparr>ei_run_id = cl_run_id claim,
                 ei_uid = ''claim_revoked:'' @ string_of_int claimId @ '':'' @ string_of_int revId,
                 ei_kind = ''claim_revoked'', ei_node_id = cl_node_id claim, ei_edge_id = None,
                 ei_execution_id = None,
                 ei_payload = Some (JObj [(''claimId'', JInt claimId), (''reason'', JStr reason),
                   (''actor'', JStr actor)])\<rparr> db1)
               (\<lambda>(_, db2). Inr db2)))"

subsection \<open>Use-time resolution\<close>

record resolve_input =
  rs_run_id :: string
  rs_node_id :: "string option"
  rs_decision_kind :: string
  rs_subject_kind :: string
  rs_subject_digest :: string

definition resolve_match :: "resolve_input \<Rightarrow> claim_row \<Rightarrow> bool" where
  "resolve_match i c = (cl_run_id c = rs_run_id i \<and> cl_decision_kind c = rs_decision_kind i
     \<and> cl_subject_kind c = rs_subject_kind i \<and> cl_subject_digest c = rs_subject_digest i
     \<and> cl_node_id c = rs_node_id i)"

definition attempt_of :: "claim_row \<Rightarrow> int" where
  "attempt_of c = or_else (cl_attempt c) 0"

definition later_claim :: "claim_row \<Rightarrow> claim_row \<Rightarrow> claim_row" where
  "later_claim b a = (if cl_server_seq b \<le> cl_server_seq a then a else b)"

text \<open>The claims of the highest attempt, and the candidate: the last one by sequence number.\<close>

definition top_claims :: "claim_row list \<Rightarrow> claim_row list" where
  "top_claims rows = filter (\<lambda>c. attempt_of c = sql_max (map attempt_of rows)) rows"

definition candidate_claim :: "claim_row list \<Rightarrow> claim_row" where
  "candidate_claim rows = (case rows of c # cs \<Rightarrow> fold later_claim cs c)"

definition resolveWorkflowDecisionClaim ::
    "run_env \<Rightarrow> resolve_input \<Rightarrow> string option \<Rightarrow> ledger \<Rightarrow> (refusal, claim_row) result" where
  "resolveWorkflowDecisionClaim env i now db =
     (let nowIso = or_else now (now_iso env)
      in if \<not> workflowFiniteTimestamp env nowIso then Inl Invalid_timestamp
         else (let rows = filter (resolve_match i) (claims db) in
           if rows = [] then Inl No_claim
           else (let top = top_claims rows; candidate = candidate_claim top in
             if list_ex (\<lambda>r. cl_predicate r \<noteq> cl_predicate candidate) top then Inl Conflict
             else if list_ex (\<lambda>r. rev_claim_id r = cl_id candidate) (revocations db) then Inl Revoked
             else if \<not> cl_permanent candidate
                \<and> workflowExpired env (or_else (cl_expires_at candidate) ''null'') nowIso then Inl Expired
             else if cl_predicate candidate \<notin> set PASSING_PREDICATES then Inl Not_pass
             else Inr candidate)))"

end
