(* ===== verification/LedgerSource.thy ===== *)
theory LedgerSource
  imports LedgerClaims
begin

section \<open>Source events, dead letters and the cursor\<close>

text \<open>
  \<open>applyWorkflowSourceEvent\<close> and its bookkeeping. The payload text is read once: the model takes
  what \<open>JSON.parse\<close> made of it, \<open>None\<close> when it threw.
\<close>

datatype source_kind = Founder_approval | Turn_grant

record source_input =
  so_project :: string
  so_source_event_id :: string
  so_kind :: source_kind
  so_payload :: "json option"
  so_payload_digest :: string
  so_schema_version :: int

datatype apply_status = Applied | Replayed

datatype source_result = Founder_claim apply_status int | Turn_project_history apply_status

text \<open>Reading a property of a parsed payload: \<open>payload.k\<close>, and \<open>typeof payload.k === "string"\<close>.\<close>

fun json_get :: "json \<Rightarrow> string \<Rightarrow> json" where
  "json_get (JObj kvs) k = or_else (map_of kvs k) JUndef"
| "json_get _ k = JUndef"

fun json_string :: "json \<Rightarrow> string" where
  "json_string (JStr s) = s"
| "json_string _ = []"

text \<open>The test \<open>/^[0-9a-f]{40}$/\<close>.\<close>

definition is_git_head :: "string \<Rightarrow> bool" where
  "is_git_head s = (length s = 40 \<and> list_all (\<lambda>c. let n = of_char c :: nat in
     48 \<le> n \<and> n \<le> 57 \<or> 97 \<le> n \<and> n \<le> 102) s)"

definition is_receipt :: "source_input \<Rightarrow> receipt_row \<Rightarrow> bool" where
  "is_receipt i x = (rc_project x = so_project i \<and> rc_source_event_id x = so_source_event_id i)"

definition new_receipt :: "run_env \<Rightarrow> source_input \<Rightarrow> int option \<Rightarrow> receipt_row" where
  "new_receipt env i claimId = \<lparr>rc_project = so_project i, rc_source_event_id = so_source_event_id i,
     rc_payload_digest = so_payload_digest i, rc_claim_id = claimId, rc_applied_at = now_iso env\<rparr>"

definition founder_claim :: "run_env \<Rightarrow> json \<Rightarrow> int \<Rightarrow> claim_row" where
  "founder_claim env p serverSeq =
     \<lparr>cl_id = 0, cl_server_seq = serverSeq, cl_issued_at = sql_now env,
      cl_issue_id = json_string (json_get p ''issue_id''), cl_run_id = json_string (json_get p ''run_id''),
      cl_node_id = None, cl_decision_kind = ''founder_decision'', cl_attempt = None,
      cl_predicate = ''founder_approved'', cl_issuer_kind = ''founder_challenge'',
      cl_issuer_execution_id = None, cl_issuer_node_id = None, cl_issuer_vendor = None,
      cl_issuer_model = None, cl_subject_producer_execution_id = None, cl_subject_kind = ''git_head'',
      cl_subject_digest = json_string (json_get p ''approved_head''), cl_expires_at = None,
      cl_permanent = True, cl_submission_digest = None, cl_client_request_id = None,
      cl_evidence = Some (json_stringify (JObj [(''questionId'', json_get p ''question_id''),
        (''actor'', json_get p ''actor''), (''classification'', json_get p ''classification'')])),
      cl_authority_id = json_string (json_get p ''authority_id'')\<rparr>"

definition founder_payload_ok :: "source_input \<Rightarrow> json \<Rightarrow> run_row \<Rightarrow> bool" where
  "founder_payload_ok i p run =
     (run_issue_id run = json_string (json_get p ''issue_id'')
      \<and> run_project_name run = so_project i
      \<and> json_get (json_get p ''response'') ''approved'' = JBool True
      \<and> is_git_head (json_string (json_get p ''approved_head''))
      \<and> json_string (json_get p ''authority_id'') \<noteq> [])"

definition apply_founder_approval ::
    "run_env \<Rightarrow> source_input \<Rightarrow> json \<Rightarrow> ledger \<Rightarrow> (ledger_throw, source_result \<times> ledger) result" where
  "apply_founder_approval env i p db =
     (let runId = json_string (json_get p ''run_id'') in
      case find_run db runId of
        None \<Rightarrow> Inl (Source_rejected ''workflow source run unavailable'')
      | Some run \<Rightarrow>
          if \<not> founder_payload_ok i p run
          then Inl (Source_rejected ''founder approval source payload invalid'')
          else (let serverSeq = nextWorkflowClaimSeq db in
            and_then (insert_claim (founder_claim env p serverSeq) db) (\<lambda>db1.
              let claimId = workflowClaimIdBySeq db1 serverSeq
              in and_then (appendWorkflowRunEventTx env
                   \<lparr>ei_run_id = runId, ei_uid = ''source_claim:'' @ so_project i @ '':'' @ so_source_event_id i,
                    ei_kind = ''claim_written'', ei_node_id = None, ei_edge_id = None,
                    ei_execution_id = None,
                    ei_payload = Some (JObj [(''claimId'', JInt claimId),
                      (''predicate'', JStr ''founder_approved'')])\<rparr> db1)
                 (\<lambda>(_, db2). and_then (insert_receipt (new_receipt env i (Some claimId)) db2)
                    (\<lambda>db3. Inr (Founder_claim Applied claimId, db3))))))"

definition apply_turn_grant ::
    "run_env \<Rightarrow> source_input \<Rightarrow> json \<Rightarrow> ledger \<Rightarrow> (ledger_throw, source_result \<times> ledger) result" where
  "apply_turn_grant env i p db =
     (if json_get p ''target_run_id'' \<noteq> JNull
      then Inl (Source_rejected ''commit-A TURN source must remain project/issue scoped'')
      else and_then (insert_receipt (new_receipt env i None) db)
             (\<lambda>db'. Inr (Turn_project_history Applied, db')))"

definition applyWorkflowSourceEvent ::
    "run_env \<Rightarrow> source_input \<Rightarrow> ledger \<Rightarrow> (ledger_throw, source_result \<times> ledger) result" where
  "applyWorkflowSourceEvent env i db =
     (case so_payload i of
        None \<Rightarrow> Inl (Source_rejected ''workflow source payload malformed'')
      | Some p \<Rightarrow>
          if so_schema_version i \<noteq> 1 \<or> json_get p ''schema_version'' \<noteq> JInt 1
             \<or> canonicalSubmissionDigest env p \<noteq> so_payload_digest i
          then Inl (Source_rejected ''workflow source payload digest mismatch (poison)'')
          else (case List.find (is_receipt i) (receipts db) of
             Some x \<Rightarrow>
               if rc_payload_digest x \<noteq> so_payload_digest i
               then Inl (Source_rejected ''workflow source receipt digest mismatch (poison)'')
               else Inr ((case so_kind i of
                      Founder_approval \<Rightarrow> Founder_claim Replayed (or_else (rc_claim_id x) 0)
                    | Turn_grant \<Rightarrow> Turn_project_history Replayed), db)
           | None \<Rightarrow>
               (case so_kind i of
                  Turn_grant \<Rightarrow> apply_turn_grant env i p db
                | Founder_approval \<Rightarrow> apply_founder_approval env i p db)))"

subsection \<open>Dead letters and the cursor\<close>

definition getWorkflowSourceDeadletter :: "ledger \<Rightarrow> string \<Rightarrow> string \<Rightarrow> deadletter_row option" where
  "getWorkflowSourceDeadletter db p s =
     List.find (\<lambda>d. dl_project d = p \<and> dl_source_event_id d = s) (deadletters db)"

text \<open>\<open>INSERT OR IGNORE\<close>: the first reason stays.\<close>

definition recordWorkflowSourceDeadletter :: "run_env \<Rightarrow> string \<Rightarrow> string \<Rightarrow> string \<Rightarrow> ledger \<Rightarrow> ledger" where
  "recordWorkflowSourceDeadletter env p s reason db =
     (if getWorkflowSourceDeadletter db p s \<noteq> None then db
      else db\<lparr>deadletters := deadletters db @
        [\<lparr>dl_project = p, dl_source_event_id = s, dl_reason = reason, dl_at = now_iso env\<rparr>]\<rparr>)"

definition getWorkflowSourceCursor :: "ledger \<Rightarrow> string \<Rightarrow> int" where
  "getWorkflowSourceCursor db p =
     or_else (map_option cur_last_row_id (List.find (\<lambda>c. cur_project c = p) (cursors db))) 0"

fun valid_row_id :: "js_number \<Rightarrow> bool" where
  "valid_row_id (JsInt i) = (0 \<le> i)"
| "valid_row_id JsNonInt = False"

definition advanceWorkflowSourceCursor ::
    "run_env \<Rightarrow> string \<Rightarrow> js_number \<Rightarrow> ledger \<Rightarrow> (ledger_throw, ledger) result" where
  "advanceWorkflowSourceCursor env p rowId db =
     (if \<not> valid_row_id rowId then Inl Cursor_invalid
      else (let n = int_of_number rowId in
        if list_ex (\<lambda>c. cur_project c = p) (cursors db)
        then Inr (db\<lparr>cursors := map (\<lambda>c. if cur_project c = p
               then c\<lparr>cur_last_row_id := (if cur_last_row_id c < n then n else cur_last_row_id c),
                      cur_updated_at := now_iso env\<rparr> else c) (cursors db)\<rparr>)
        else Inr (db\<lparr>cursors := cursors db @
               [\<lparr>cur_project = p, cur_last_row_id = n, cur_updated_at = now_iso env\<rparr>]\<rparr>)))"

end
