(* ===== verification/LedgerAdmission.thy ===== *)
theory LedgerAdmission
  imports LedgerClaims
begin

section \<open>Execution admission and credential submission\<close>

text \<open>
  \<open>admitWorkflowExecution\<close> commits enrolment, QA authority, node projection, immutable binding and
  one short-lived submission credential together; \<open>submitWorkflowDecisionByCredential\<close> turns that
  credential into one claim.
\<close>

subsection \<open>Admission\<close>

record admit_input =
  ad_run_id :: string
  ad_node_id :: string
  ad_execution_id :: string
  ad_attempt :: js_number
  ad_family :: string
  ad_expires_at :: string
  ad_absolute_deadline_at :: string

text \<open>\<open>Date.parse(a) <= Date.parse(b)\<close>: false when either is NaN.\<close>

definition date_le :: "run_env \<Rightarrow> string \<Rightarrow> string \<Rightarrow> bool" where
  "date_le env a b = (case (date_parse env a, date_parse env b) of
     (Some x, Some y) \<Rightarrow> x \<le> y | _ \<Rightarrow> False)"

text \<open>The checks before the transaction.\<close>

definition admit_input_refusal :: "run_env \<Rightarrow> admit_input \<Rightarrow> string \<Rightarrow> refusal option" where
  "admit_input_refusal env i nowIso =
     (if \<not> positive_int (ad_attempt i) \<or> ad_run_id i = [] \<or> ad_node_id i = [] \<or> ad_execution_id i = []
        then Some Invalid_binding
      else if ad_family i \<notin> set RUNNER_CAPABILITY_FAMILIES then Some Invalid_family
      else if \<not> workflowFiniteTimestamp env nowIso \<or> \<not> workflowFiniteTimestamp env (ad_expires_at i)
           \<or> \<not> workflowFiniteTimestamp env (ad_absolute_deadline_at i) then Some Invalid_timestamp
      else if date_le env (ad_expires_at i) nowIso \<or> date_gt env (ad_expires_at i) (ad_absolute_deadline_at i)
        then Some Invalid_expiry
      else None)"

definition bound_elsewhere :: "admit_input \<Rightarrow> binding_row \<Rightarrow> bool" where
  "bound_elsewhere i b = (bind_run_id b \<noteq> ad_run_id i \<or> bind_node_id b \<noteq> ad_node_id i
     \<or> bind_attempt b \<noteq> int_of_number (ad_attempt i))"

text \<open>The checks inside the transaction, in order.\<close>

definition admit_refusal :: "admit_input \<Rightarrow> ledger \<Rightarrow> refusal option" where
  "admit_refusal i db =
     (let a = int_of_number (ad_attempt i);
          node = getWorkflowRunNode db (ad_run_id i) (ad_node_id i) a;
          bound = getWorkflowExecutionBinding db (ad_execution_id i)
      in case find_run db (ad_run_id i) of
           None \<Rightarrow> Some Run_not_found
         | Some run \<Rightarrow>
             if run_status run \<noteq> ''active'' then Some Run_not_found
             else if ad_node_id i = ''qa'' \<and> (case run_current_qa_attempt run of None \<Rightarrow> False | Some q \<Rightarrow> a < q)
               then Some Stale_attempt
             else if (case node of None \<Rightarrow> False | Some n \<Rightarrow>
                 rn_execution_id n \<noteq> None \<and> rn_execution_id n \<noteq> Some (ad_execution_id i))
               then Some Attempt_execution_conflict
             else if (case bound of None \<Rightarrow> False | Some b \<Rightarrow> bound_elsewhere i b)
               then Some Execution_already_bound
             else if list_ex (live_credential (ad_run_id i) (ad_node_id i) a) (credentials db)
               then Some Credential_already_issued
             else None)"

text \<open>Insert the node, or claim the row that has no execution yet.\<close>

definition admit_node :: "run_env \<Rightarrow> admit_input \<Rightarrow> ledger \<Rightarrow> ledger" where
  "admit_node env i db =
     (let a = int_of_number (ad_attempt i) in
      case getWorkflowRunNode db (ad_run_id i) (ad_node_id i) a of
        None \<Rightarrow> db\<lparr>run_nodes := run_nodes db @
          [\<lparr>rn_run_id = ad_run_id i, rn_node_id = ad_node_id i, rn_attempt = a, rn_state = ''admitted'',
            rn_execution_id = Some (ad_execution_id i), rn_started_at = sql_now env, rn_ended_at = None\<rparr>]\<rparr>
      | Some n \<Rightarrow>
          if rn_execution_id n = None
          then db\<lparr>run_nodes := map (\<lambda>x. if is_node (ad_run_id i) (ad_node_id i) a x
                 then x\<lparr>rn_execution_id := Some (ad_execution_id i), rn_state := ''admitted''\<rparr> else x)
                 (run_nodes db)\<rparr>
          else db)"

definition admit_binding :: "admit_input \<Rightarrow> string \<Rightarrow> ledger \<Rightarrow> (ledger_throw, ledger) result" where
  "admit_binding i nowIso db =
     (case getWorkflowExecutionBinding db (ad_execution_id i) of
        Some _ \<Rightarrow> Inr db
      | None \<Rightarrow> insert_binding \<lparr>bind_execution_id = ad_execution_id i, bind_run_id = ad_run_id i,
          bind_node_id = ad_node_id i, bind_attempt = int_of_number (ad_attempt i), bind_bound_at = nowIso\<rparr> db)"

definition enroll_run :: "admit_input \<Rightarrow> ledger \<Rightarrow> ledger" where
  "enroll_run i db = db\<lparr>runs := map (\<lambda>r. if run_id r = ad_run_id i
     then r\<lparr>run_claims_read_enrolled := True,
            run_current_qa_attempt := (if ad_node_id i = ''qa'' then Some (int_of_number (ad_attempt i))
              else run_current_qa_attempt r)\<rparr>
     else r) (runs db)\<rparr>"

definition supersede_credential :: "string \<Rightarrow> string \<Rightarrow> int \<Rightarrow> credential_row \<Rightarrow> credential_row" where
  "supersede_credential r n a c =
     (if cred_run_id c = r \<and> cred_node_id c = n \<and> cred_attempt c < a \<and> cred_consumed_at c = None
         \<and> \<not> cred_revoked c
      then c\<lparr>cred_revoked := True, cred_revoked_reason := Some (''superseded_by_attempt_'' @ string_of_int a)\<rparr>
      else c)"

definition supersede_credentials :: "admit_input \<Rightarrow> ledger \<Rightarrow> ledger" where
  "supersede_credentials i db = db\<lparr>credentials := map (supersede_credential (ad_run_id i) (ad_node_id i)
     (int_of_number (ad_attempt i))) (credentials db)\<rparr>"

definition admitted_credential :: "admit_input \<Rightarrow> string \<Rightarrow> string \<Rightarrow> credential_row" where
  "admitted_credential i nowIso h =
     \<lparr>cred_id = 0, cred_hash = h, cred_run_id = ad_run_id i, cred_node_id = ad_node_id i,
      cred_execution_id = ad_execution_id i, cred_attempt = int_of_number (ad_attempt i),
      cred_family = ad_family i, cred_decision_capability_id = None, cred_issued_at = nowIso,
      cred_expires_at = ad_expires_at i, cred_absolute_deadline_at = ad_absolute_deadline_at i,
      cred_consumed_at = None, cred_consumed_client_request_id = None,
      cred_consumed_submission_digest = None, cred_claim_id = None, cred_revoked = False,
      cred_revoked_reason = None\<rparr>"

definition admitWorkflowExecution ::
    "run_env \<Rightarrow> admit_input \<Rightarrow> string option \<Rightarrow> ledger \<Rightarrow> (int \<times> string) call" where
  "admitWorkflowExecution env i now db =
     (let nowIso = or_else now (now_iso env) in
      case admit_input_refusal env i nowIso of
        Some e \<Rightarrow> Inr (Inl e, db)
      | None \<Rightarrow>
          (case admit_refusal i db of
             Some e \<Rightarrow> Inr (Inl e, db)
           | None \<Rightarrow>
               and_then (admit_binding i nowIso (admit_node env i db)) (\<lambda>db1.
                 let db2 = supersede_credentials i (enroll_run i db1);
                     credential = generateCapabilityToken env;
                     h = hashCapabilityToken env credential
                 in and_then (insert_credential (admitted_credential i nowIso h) db2) (\<lambda>db3.
                   and_then (appendWorkflowRunEventTx env
                     \<lparr>ei_run_id = ad_run_id i, ei_uid = ''execution_admitted:'' @ ad_execution_id i,
                      ei_kind = ''execution_admitted'', ei_node_id = Some (ad_node_id i), ei_edge_id = None,
                      ei_execution_id = Some (ad_execution_id i),
                      ei_payload = Some (JObj [(''attempt'', JInt (int_of_number (ad_attempt i))),
                        (''family'', JStr (ad_family i))])\<rparr> db3)
                     (\<lambda>(_, db4). Inr (Inr (or_else (map_option cred_id (find_credential db3 h)) 0,
                        credential), db4))))))"

subsection \<open>Submission by credential\<close>

text \<open>The submission fields are those of \<open>submit_input\<close> with the subject kind fixed to \<open>git_head\<close>.\<close>

definition git_head_input :: "submit_input \<Rightarrow> string \<Rightarrow> submit_input" where
  "git_head_input i claimExpiresAt =
     i\<lparr>si_subject_kind := ''git_head'', si_claim_expires_at := Some claimExpiresAt\<rparr>"

text \<open>The join of binding, node and run: the credential's execution still holds its node.\<close>

definition binding_current :: "ledger \<Rightarrow> credential_row \<Rightarrow> bool" where
  "binding_current db c =
     list_ex (\<lambda>b. bound_to c b
       \<and> list_ex (\<lambda>n. is_node (bind_run_id b) (bind_node_id b) (bind_attempt b) n
            \<and> rn_execution_id n = Some (bind_execution_id b)) (run_nodes db)
       \<and> list_ex (\<lambda>r. run_id r = bind_run_id b \<and> run_claims_read_enrolled r
            \<and> (cred_node_id c \<noteq> ''qa'' \<or> run_current_qa_attempt r = Some (bind_attempt b))) (runs db))
     (bindings db)"

definition credential_refusal :: "run_env \<Rightarrow> submit_input \<Rightarrow> string \<Rightarrow> ledger \<Rightarrow> credential_row \<Rightarrow> refusal option" where
  "credential_refusal env i nowIso db c =
     (if cred_revoked c then Some Credential_revoked
      else if \<not> workflowFiniteTimestamp env (cred_expires_at c) \<or> workflowExpired env (cred_expires_at c) nowIso
        then Some Credential_expired
      else if \<not> listed WORKFLOW_DECISION_FAMILIES (cred_family c) (si_predicate i) then Some Predicate_not_allowed
      else if \<not> binding_current db c then Some Binding_not_current
      else review_refusal i)"

definition minted_capability :: "submit_input \<Rightarrow> string \<Rightarrow> string \<Rightarrow> credential_row \<Rightarrow> capability_row" where
  "minted_capability i nowIso h c =
     \<lparr>cap_id = 0, cap_token_hash = h, cap_run_id = cred_run_id c, cap_node_id = cred_node_id c,
      cap_execution_id = cred_execution_id c, cap_attempt = cred_attempt c, cap_family = cred_family c,
      cap_manifest_revision = None, cap_evidence_schema_version = 1,
      cap_expected_subject_digest = Some (si_subject_digest i), cap_issued_at = nowIso,
      cap_expires_at = cred_expires_at c, cap_absolute_deadline_at = cred_absolute_deadline_at c,
      cap_consumed_at = None, cap_consumed_claim_id = None, cap_revoked = False, cap_revoked_reason = None\<rparr>"

definition consume_credential :: "submit_input \<Rightarrow> string \<Rightarrow> string \<Rightarrow> int \<Rightarrow> int \<Rightarrow> int \<Rightarrow> ledger \<Rightarrow> ledger" where
  "consume_credential i nowIso digest capabilityId claimId credId db = db\<lparr>credentials :=
     map (\<lambda>c. if cred_id c = credId
       then c\<lparr>cred_decision_capability_id := Some capabilityId, cred_consumed_at := Some nowIso,
              cred_consumed_client_request_id := Some (si_client_request_id i),
              cred_consumed_submission_digest := Some digest, cred_claim_id := Some claimId\<rparr>
       else c) (credentials db)\<rparr>"

text \<open>Mint and consume the internal capability, write the claim, spend the credential.\<close>

definition write_credential_claim ::
    "run_env \<Rightarrow> submit_input \<Rightarrow> string \<Rightarrow> run_row \<Rightarrow> credential_row \<Rightarrow> ledger \<Rightarrow> (int \<times> int \<times> bool) call" where
  "write_credential_claim env i nowIso run c db =
     (let h = hashCapabilityToken env (generateCapabilityToken env);
          digest = canonicalSubmissionDigest env (submission_payload i) in
      and_then (insert_capability (minted_capability i nowIso h c) db) (\<lambda>db1.
        let capabilityId = or_else (map_option cap_id (find_capability db1 h)) 0;
            serverSeq = nextWorkflowClaimSeq db1
        in and_then (insert_claim (runner_claim env i (run_issue_id run) (cred_run_id c) (cred_node_id c)
             (cred_attempt c) (cred_family c) (cred_execution_id c) serverSeq capabilityId) db1) (\<lambda>db2.
          let claimId = workflowClaimIdBySeq db2 serverSeq;
              db3 = consume_credential i nowIso digest capabilityId claimId (cred_id c)
                      (consume_capability nowIso claimId capabilityId db2)
          in and_then (appendWorkflowRunEventTx env
               \<lparr>ei_run_id = cred_run_id c,
                ei_uid = ''credential_claim_written:'' @ string_of_int (cred_id c),
                ei_kind = ''claim_written'', ei_node_id = Some (cred_node_id c), ei_edge_id = None,
                ei_execution_id = Some (cred_execution_id c),
                ei_payload = Some (JObj [(''claimId'', JInt claimId), (''serverSeq'', JInt serverSeq),
                  (''predicate'', JStr (si_predicate i))])\<rparr> db3)
              (\<lambda>(_, db4). Inr (Inr (claimId, serverSeq, False), db4)))))"

definition submitWorkflowDecisionByCredential ::
    "run_env \<Rightarrow> string \<Rightarrow> submit_input \<Rightarrow> string \<Rightarrow> string option \<Rightarrow> ledger \<Rightarrow> (int \<times> int \<times> bool) call" where
  "submitWorkflowDecisionByCredential env credential i0 claimExpiresAt now db =
     (let nowIso = or_else now (now_iso env);
          i = git_head_input i0 claimExpiresAt;
          digest = canonicalSubmissionDigest env (submission_payload i)
      in if \<not> workflowFiniteTimestamp env nowIso \<or> \<not> workflowFiniteTimestamp env claimExpiresAt
         then Inr (Inl Invalid_timestamp, db)
         else (case find_credential db (hashCapabilityToken env credential) of
             None \<Rightarrow> Inr (Inl Credential_not_found, db)
           | Some c \<Rightarrow>
               if cred_consumed_at c \<noteq> None then
                 (if cred_consumed_client_request_id c = Some (si_client_request_id i)
                     \<and> cred_consumed_submission_digest c = Some digest \<and> cred_claim_id c \<noteq> None
                  then (case getWorkflowClaim db (the (cred_claim_id c)) of
                      Some claim \<Rightarrow> Inr (Inr (cl_id claim, cl_server_seq claim, True), db)
                    | None \<Rightarrow> Inr (Inl Credential_receipt_corrupt, db))
                  else Inr (Inl Replay_payload_mismatch, db))
               else (case credential_refusal env i nowIso db c of
                   Some e \<Rightarrow> Inr (Inl e, db)
                 | None \<Rightarrow>
                     (case find_run db (cred_run_id c) of
                        None \<Rightarrow> Inr (Inl Run_not_found, db)
                      | Some run \<Rightarrow> write_credential_claim env i nowIso run c db))))"

end
