(* ===== verification/LedgerShadow.thy ===== *)
theory LedgerShadow
  imports LedgerBase
begin

section \<open>The shadow ledger and its dispatch outbox\<close>

text \<open>
  \<open>applyWorkflowShadowBatch\<close>: validation of every operation, then one transaction that finds or
  creates the run and applies the operations in order; a throw anywhere rolls the whole batch
  back. The side-effect rows are the history of physical launches, moved only by
  \<open>transitionWorkflowSideEffectTx\<close>.
\<close>

subsection \<open>Reads\<close>

definition active_run_of :: "string \<Rightarrow> string \<Rightarrow> run_row \<Rightarrow> bool" where
  "active_run_of p i r = (run_project_name r = p \<and> run_issue_id r = i \<and> run_status r = ''active'')"

definition getActiveWorkflowRun :: "ledger \<Rightarrow> string \<Rightarrow> string \<Rightarrow> run_row option" where
  "getActiveWorkflowRun db p i =
     (case List.find (active_run_of p i) (runs db) of
        None \<Rightarrow> None | Some r \<Rightarrow> getWorkflowRun db (run_id r))"

definition listActiveWorkflowRuns :: "ledger \<Rightarrow> run_row list" where
  "listActiveWorkflowRuns db =
     List.map_filter (\<lambda>r. getWorkflowRun db (run_id r)) (filter (\<lambda>r. run_status r = ''active'') (runs db))"

definition getActiveWorkflowRunForIssue :: "ledger \<Rightarrow> string \<Rightarrow> run_row option" where
  "getActiveWorkflowRunForIssue db i =
     (case List.find (\<lambda>r. run_issue_id r = i \<and> run_status r = ''active'') (rev (runs db)) of
        None \<Rightarrow> None | Some r \<Rightarrow> getWorkflowRun db (run_id r))"

definition countWorkflowRunLoopIterations :: "ledger \<Rightarrow> string \<Rightarrow> nat" where
  "countWorkflowRunLoopIterations db r =
     length (filter (\<lambda>e. ev_run_id e = r \<and> ev_kind e = ''loop_iteration'') (run_events db))"

text \<open>Rows of the outbox with their run's project and issue; rows are in id order.\<close>

definition listNonTerminalWorkflowSideEffects :: "ledger \<Rightarrow> (side_effect_row \<times> string \<times> string) list" where
  "listNonTerminalWorkflowSideEffects db =
     List.map_filter (\<lambda>l. map_option (\<lambda>r. (l, run_project_name r, run_issue_id r)) (find_run db (se_run_id l)))
       (filter (\<lambda>l. se_state l = Intent_recorded \<or> se_state l = Launch_committed)
         (sort_key se_id (side_effects db)))"

definition isExecutionAttributedToWorkflowRun :: "ledger \<Rightarrow> string \<Rightarrow> string \<Rightarrow> bool" where
  "isExecutionAttributedToWorkflowRun db r e =
     (list_ex (\<lambda>l. se_run_id l = r \<and> se_execution_id l = e) (side_effects db)
      \<or> list_ex (\<lambda>x. ev_run_id x = r \<and> ev_execution_id x = Some e) (run_events db))"

definition listWorkflowSideEffects :: "ledger \<Rightarrow> string \<Rightarrow> side_effect_row list" where
  "listWorkflowSideEffects db r = sort_key se_id (filter (\<lambda>l. se_run_id l = r) (side_effects db))"

subsection \<open>Operations of a batch\<close>

datatype side_effect_target = To_committed | To_started | To_abandoned

fun target_state :: "side_effect_target \<Rightarrow> side_effect_state" where
  "target_state To_committed = Launch_committed"
| "target_state To_started = Started"
| "target_state To_abandoned = Abandoned"

datatype shadow_op =
    Edge string string js_number "string option"
  | Dispatch string js_number string
  | Wake string js_number string
  | Complete string js_number string
  | Kickback js_number
  | Finalize
  | Side_effect string js_number string side_effect_target "string option"

definition bad_label :: "string \<Rightarrow> bool" where
  "bad_label v = (v = [] \<or> CHR '':'' \<in> set v)"

fun validateWorkflowShadowOp :: "shadow_op \<Rightarrow> (ledger_throw, unit) result" where
  "validateWorkflowShadowOp (Edge f t a _) =
     (if bad_label f then Inl (Shadow_rejected ''edge.from label invalid'')
      else if bad_label t then Inl (Shadow_rejected ''edge.to label invalid'')
      else if \<not> positive_int a then Inl (Shadow_rejected ''attempt must be a positive integer'') else Inr ())"
| "validateWorkflowShadowOp (Dispatch n a e) =
     (if bad_label n then Inl (Shadow_rejected ''node label invalid'')
      else if \<not> positive_int a then Inl (Shadow_rejected ''attempt must be a positive integer'')
      else if e = [] then Inl (Shadow_rejected ''op requires executionId'') else Inr ())"
| "validateWorkflowShadowOp (Wake n a e) =
     (if bad_label n then Inl (Shadow_rejected ''node label invalid'')
      else if \<not> positive_int a then Inl (Shadow_rejected ''attempt must be a positive integer'')
      else if e = [] then Inl (Shadow_rejected ''op requires executionId'') else Inr ())"
| "validateWorkflowShadowOp (Complete n a e) =
     (if bad_label n then Inl (Shadow_rejected ''node label invalid'')
      else if \<not> positive_int a then Inl (Shadow_rejected ''attempt must be a positive integer'')
      else if e = [] then Inl (Shadow_rejected ''op requires executionId'') else Inr ())"
| "validateWorkflowShadowOp (Kickback r) =
     (if \<not> positive_int r then Inl (Shadow_rejected ''round must be a positive integer'') else Inr ())"
| "validateWorkflowShadowOp Finalize = Inr ()"
| "validateWorkflowShadowOp (Side_effect n a e _ _) =
     (if bad_label n then Inl (Shadow_rejected ''node label invalid'')
      else if \<not> positive_int a then Inl (Shadow_rejected ''attempt must be a positive integer'')
      else if e = [] then Inl (Shadow_rejected ''op requires executionId'') else Inr ())"

fun validate_all :: "shadow_op list \<Rightarrow> (ledger_throw, unit) result" where
  "validate_all [] = Inr ()"
| "validate_all (x # xs) = and_then (validateWorkflowShadowOp x) (\<lambda>_. validate_all xs)"

subsection \<open>Launch ordinals and the side-effect state machine\<close>

definition launch_of :: "string \<Rightarrow> string \<Rightarrow> int \<Rightarrow> side_effect_row \<Rightarrow> bool" where
  "launch_of r n a l = (se_run_id l = r \<and> se_node_id l = n \<and> se_attempt l = a \<and> se_kind l = ''dispatch'')"

definition insert_side_effect :: "side_effect_row \<Rightarrow> ledger \<Rightarrow> (ledger_throw, ledger) result" where
  "insert_side_effect x db =
     (if se_kind x \<notin> {''dispatch'', ''materialize''} then Inl (Constraint_failed ''workflow_side_effect_ledger CHECK'')
      else if list_ex (\<lambda>y. se_run_id y = se_run_id x \<and> se_node_id y = se_node_id x
                \<and> se_attempt y = se_attempt x \<and> se_kind y = se_kind x
                \<and> se_launch_ordinal y = se_launch_ordinal x) (side_effects db)
        then Inl (Constraint_failed ''workflow_side_effect_ledger UNIQUE'')
      else Inr (db\<lparr>side_effects :=
        side_effects db @ [x\<lparr>se_id := sql_max (map se_id (side_effects db)) + 1\<rparr>]\<rparr>))"

text \<open>\<open>rows.reduce(max, 0) + 1\<close>.\<close>

definition next_ordinal :: "side_effect_row list \<Rightarrow> int" where
  "next_ordinal rows = fold (\<lambda>l m. max m (se_launch_ordinal l)) rows 0 + 1"

definition allocateWorkflowLaunchOrdinalTx ::
    "run_env \<Rightarrow> string \<Rightarrow> string \<Rightarrow> int \<Rightarrow> string \<Rightarrow> ledger \<Rightarrow> (ledger_throw, int \<times> ledger) result" where
  "allocateWorkflowLaunchOrdinalTx env r n a e db =
     (let rows = filter (launch_of r n a) (side_effects db) in
      case List.find (\<lambda>l. se_execution_id l = e) rows of
        Some mine \<Rightarrow> Inr (se_launch_ordinal mine, db)
      | None \<Rightarrow>
          (let nxt = next_ordinal rows in
           and_then (insert_side_effect
              \<lparr>se_id = 0, se_run_id = r, se_node_id = n, se_attempt = a, se_kind = ''dispatch'',
               se_launch_ordinal = nxt, se_execution_id = e, se_state = Intent_recorded,
               se_reason = None, se_created_at = sql_now env, se_updated_at = sql_now env,
               se_committed_at = None, se_started_at = None, se_abandoned_at = None\<rparr> db)
             (\<lambda>db'. Inr (nxt, db'))))"

text \<open>The \<open>ORDER\<close> table; \<open>abandoned\<close> is not in it.\<close>

fun state_order :: "side_effect_state \<Rightarrow> nat option" where
  "state_order Intent_recorded = Some 0"
| "state_order Launch_committed = Some 1"
| "state_order Started = Some 2"
| "state_order Abandoned = None"

definition abandon_row :: "string \<Rightarrow> string \<Rightarrow> side_effect_row \<Rightarrow> side_effect_row" where
  "abandon_row nowIso reason l = l\<lparr>se_state := Abandoned, se_reason := Some reason,
     se_abandoned_at := Some nowIso, se_updated_at := nowIso\<rparr>"

definition advance_row :: "string \<Rightarrow> side_effect_target \<Rightarrow> side_effect_row \<Rightarrow> side_effect_row" where
  "advance_row nowIso to l = l\<lparr>se_state := target_state to, se_updated_at := nowIso,
     se_committed_at := coalesce (se_committed_at l) (Some nowIso),
     se_started_at := (if to = To_started then coalesce (se_started_at l) (Some nowIso) else se_started_at l)\<rparr>"

text \<open>What a transition writes to the row, or the throw.\<close>

definition next_row :: "string \<Rightarrow> side_effect_target \<Rightarrow> string option \<Rightarrow> side_effect_row
    \<Rightarrow> (ledger_throw, side_effect_row) result" where
  "next_row nowIso to reason l =
     (if se_state l = target_state to then Inr l
      else if to = To_abandoned then
        (if \<not> truthy reason then Inl (Shadow_rejected ''abandon requires a reason'')
         else if se_state l \<noteq> Intent_recorded then Inl (Shadow_rejected ''illegal transition to abandoned'')
         else Inr (abandon_row nowIso (the reason) l))
      else (case (state_order (se_state l), state_order (target_state to)) of
          (Some f, Some t) \<Rightarrow> if t \<le> f then Inl (Shadow_rejected ''illegal transition'')
                             else Inr (advance_row nowIso to l)
        | _ \<Rightarrow> Inl (Shadow_rejected ''illegal transition'')))"

definition transitionWorkflowSideEffectTx ::
    "run_env \<Rightarrow> string \<Rightarrow> string \<Rightarrow> int \<Rightarrow> string \<Rightarrow> side_effect_target \<Rightarrow> string option \<Rightarrow> ledger
     \<Rightarrow> (ledger_throw, ledger) result" where
  "transitionWorkflowSideEffectTx env r n a e to reason db =
     (case List.find (\<lambda>l. launch_of r n a l \<and> se_execution_id l = e) (side_effects db) of
        None \<Rightarrow> Inl (Shadow_rejected ''side-effect row not found'')
      | Some row \<Rightarrow> and_then (next_row (now_iso env) to reason row) (\<lambda>row'.
          Inr (db\<lparr>side_effects := map (\<lambda>l. if se_id l = se_id row then row' else l) (side_effects db)\<rparr>)))"

subsection \<open>One operation\<close>

record batch_state =
  bs_ledger :: ledger
  bs_ordinals :: "int list"
  bs_events :: "(string \<times> int \<times> bool) list"

definition batch_event ::
    "run_env \<Rightarrow> event_input \<Rightarrow> batch_state \<Rightarrow> (ledger_throw, batch_state) result" where
  "batch_event env i s = and_then (appendWorkflowRunEventTx env i (bs_ledger s))
     (\<lambda>((seq, dup), db). Inr (s\<lparr>bs_ledger := db, bs_events := bs_events s @ [(ei_uid i, seq, dup)]\<rparr>))"

definition set_current_node :: "string \<Rightarrow> string \<Rightarrow> ledger \<Rightarrow> ledger" where
  "set_current_node r n db = db\<lparr>runs := map (\<lambda>x. if run_id x = r
     then x\<lparr>run_current_node_id := Some n\<rparr> else x) (runs db)\<rparr>"

definition complete_run :: "string \<Rightarrow> ledger \<Rightarrow> ledger" where
  "complete_run r db = db\<lparr>runs := map (\<lambda>x. if run_id x = r \<and> run_status x = ''active''
     then x\<lparr>run_status := ''completed''\<rparr> else x) (runs db)\<rparr>"

definition project_node ::
    "run_env \<Rightarrow> string \<Rightarrow> string \<Rightarrow> int \<Rightarrow> string \<Rightarrow> string \<Rightarrow> string option \<Rightarrow> batch_state \<Rightarrow> batch_state" where
  "project_node env r n a st e ended s = s\<lparr>bs_ledger := set_current_node r n
     (upsertWorkflowRunNodeTx env r n a st (Some e) ended (bs_ledger s))\<rparr>"

definition uid :: "string list \<Rightarrow> string" where
  "uid parts = join '':'' parts"

fun apply_shadow_op :: "run_env \<Rightarrow> string \<Rightarrow> shadow_op \<Rightarrow> batch_state \<Rightarrow> (ledger_throw, batch_state) result" where
  "apply_shadow_op env r (Edge f t a e) s =
     batch_event env \<lparr>ei_run_id = r, ei_uid = uid [''run'', r, ''edge'', f, t, string_of_int (int_of_number a)],
       ei_kind = ''edge_traversed'', ei_node_id = None, ei_edge_id = Some (f @ ''->'' @ t),
       ei_execution_id = e, ei_payload = Some (JObj [(''attempt'', JInt (int_of_number a))])\<rparr> s"
| "apply_shadow_op env r (Dispatch n a e) s =
     and_then (allocateWorkflowLaunchOrdinalTx env r n (int_of_number a) e (bs_ledger s)) (\<lambda>(k, db).
       and_then (batch_event env
         \<lparr>ei_run_id = r, ei_uid = uid [''run'', r, ''dispatch'', n, string_of_int (int_of_number a), string_of_int k],
          ei_kind = ''node_dispatched'', ei_node_id = Some n, ei_edge_id = None, ei_execution_id = Some e,
          ei_payload = Some (JObj [(''attempt'', JInt (int_of_number a)), (''via'', JStr ''spawn''),
            (''ordinal'', JInt k)])\<rparr> (s\<lparr>bs_ledger := db, bs_ordinals := bs_ordinals s @ [k]\<rparr>))
         (\<lambda>s'. Inr (project_node env r n (int_of_number a) ''running'' e None s')))"
| "apply_shadow_op env r (Wake n a e) s =
     and_then (batch_event env
       \<lparr>ei_run_id = r, ei_uid = uid [''run'', r, ''wake'', n, string_of_int (int_of_number a)],
        ei_kind = ''node_dispatched'', ei_node_id = Some n, ei_edge_id = None, ei_execution_id = Some e,
        ei_payload = Some (JObj [(''attempt'', JInt (int_of_number a)), (''via'', JStr ''wake'')])\<rparr> s)
       (\<lambda>s'. Inr (project_node env r n (int_of_number a) ''running'' e None s'))"
| "apply_shadow_op env r (Complete n a e) s =
     and_then (batch_event env
       \<lparr>ei_run_id = r, ei_uid = uid [''run'', r, ''complete'', n, string_of_int (int_of_number a), e],
        ei_kind = ''node_completed'', ei_node_id = Some n, ei_edge_id = None, ei_execution_id = Some e,
        ei_payload = Some (JObj [(''attempt'', JInt (int_of_number a))])\<rparr> s)
       (\<lambda>s'. Inr (project_node env r n (int_of_number a) ''done'' e (Some (now_iso env)) s'))"
| "apply_shadow_op env r (Kickback k) s =
     batch_event env \<lparr>ei_run_id = r, ei_uid = uid [''run'', r, ''kickback'', string_of_int (int_of_number k)],
       ei_kind = ''loop_iteration'', ei_node_id = None, ei_edge_id = None, ei_execution_id = None,
       ei_payload = Some (JObj [(''round'', JInt (int_of_number k))])\<rparr> s"
| "apply_shadow_op env r Finalize s = Inr (s\<lparr>bs_ledger := complete_run r (bs_ledger s)\<rparr>)"
| "apply_shadow_op env r (Side_effect n a e to reason) s =
     and_then (transitionWorkflowSideEffectTx env r n (int_of_number a) e to reason (bs_ledger s))
       (\<lambda>db. Inr (s\<lparr>bs_ledger := db\<rparr>))"

fun apply_shadow_ops :: "run_env \<Rightarrow> string \<Rightarrow> shadow_op list \<Rightarrow> batch_state \<Rightarrow> (ledger_throw, batch_state) result" where
  "apply_shadow_ops env r [] s = Inr s"
| "apply_shadow_ops env r (x # xs) s =
     and_then (apply_shadow_op env r x s) (apply_shadow_ops env r xs)"

subsection \<open>The batch\<close>

record batch_input =
  bi_project_name :: string
  bi_issue_id :: string
  bi_new_run_id :: "string option"
  bi_run_id :: "string option"
  bi_ops :: "shadow_op list"

fun is_side_effect :: "shadow_op \<Rightarrow> bool" where
  "is_side_effect (Side_effect _ _ _ _ _) = True"
| "is_side_effect _ = False"

text \<open>The run the batch writes to, whether it was created, and the ledger with it.\<close>

definition batch_run :: "run_env \<Rightarrow> batch_input \<Rightarrow> ledger \<Rightarrow> (ledger_throw, (string \<times> bool) \<times> ledger) result" where
  "batch_run env i db =
     (if truthy (bi_run_id i) then
        (if \<not> list_all is_side_effect (bi_ops i)
         then Inl (Shadow_rejected ''explicit-runId batch accepts only side_effect ops'')
         else (case find_run db (the (bi_run_id i)) of
             None \<Rightarrow> Inl (Shadow_rejected ''workflow shadow run not found'')
           | Some row \<Rightarrow>
               if run_project_name row \<noteq> bi_project_name i \<or> run_issue_id row \<noteq> bi_issue_id i
               then Inl (Shadow_rejected ''workflow shadow batch identity mismatch'')
               else Inr ((the (bi_run_id i), False), db)))
      else (case List.find (active_run_of (bi_project_name i) (bi_issue_id i)) (runs db) of
          Some existing \<Rightarrow> Inr ((run_id existing, False), db)
        | None \<Rightarrow>
            if \<not> truthy (bi_new_run_id i) then Inl (Shadow_rejected ''no active shadow run and no newRunId'')
            else and_then (createWorkflowRun env (the (bi_new_run_id i)) (bi_issue_id i) (bi_project_name i)
                   None None None False db)
                 (\<lambda>db'. Inr ((the (bi_new_run_id i), True), db'))))"

record batch_result =
  br_run_id :: string
  br_created :: bool
  br_ordinals :: "int list"
  br_events :: "(string \<times> int \<times> bool) list"

definition applyWorkflowShadowBatch ::
    "run_env \<Rightarrow> batch_input \<Rightarrow> ledger \<Rightarrow> (ledger_throw, batch_result \<times> ledger) result" where
  "applyWorkflowShadowBatch env i db =
     (if bi_project_name i = [] \<or> bi_issue_id i = []
      then Inl (Shadow_rejected ''batch requires projectName + issueId'')
      else and_then (validate_all (bi_ops i)) (\<lambda>_.
        and_then (batch_run env i db) (\<lambda>((r, created), db1).
          and_then (apply_shadow_ops env r (bi_ops i) \<lparr>bs_ledger = db1, bs_ordinals = [], bs_events = []\<rparr>)
            (\<lambda>s. Inr (\<lparr>br_run_id = r, br_created = created, br_ordinals = bs_ordinals s,
                       br_events = bs_events s\<rparr>, bs_ledger s)))))"

end
