(* ===== verification/LedgerEffects.thy ===== *)
theory LedgerEffects
  imports LedgerSource LedgerAdmission LedgerShadow "HOL-Library.Sublist"
begin

section \<open>What each ledger operation writes\<close>

text \<open>
  One lemma per operation: a call that returns leaves the ledger as it was, or changes exactly the
  tables the lemma names, in the way it names. The invariants and properties rest on these
  equations and never unfold an operation again.
\<close>

subsection \<open>Dense sequences\<close>

text \<open>\<open>1, 2, 3, ...\<close>: what \<open>MAX + 1\<close> produces on a table no row is deleted from.\<close>

definition dense :: "int list \<Rightarrow> bool" where
  "dense xs \<longleftrightarrow> xs = map int [1..<Suc (length xs)]"

lemma dense_Nil [simp]: "dense []"
  by (simp add: dense_def)

lemma sql_max_ints: "sql_max (map int [1..<Suc n]) = int n"
proof (induction n)
  case 0
  then show ?case by (simp add: sql_max_def)
next
  case (Suc n)
  have "map int [1..<Suc (Suc n)] = map int [1..<Suc n] @ [int (Suc n)]" by simp
  then show ?case using Suc.IH by (simp del: upt_Suc)
qed

lemma dense_max: "dense xs \<Longrightarrow> sql_max xs = int (length xs)"
  using sql_max_ints [of "length xs"] unfolding dense_def by metis

lemma dense_snoc: "dense xs \<Longrightarrow> dense (xs @ [sql_max xs + 1])"
proof -
  assume d: "dense xs"
  have "map int [1..<Suc (length xs)] @ [int (Suc (length xs))] = map int [1..<Suc (Suc (length xs))]"
    by simp
  then show ?thesis using d dense_max [OF d] unfolding dense_def by (simp del: upt_Suc add: add.commute)
qed

lemma dense_distinct: "dense xs \<Longrightarrow> distinct xs"
  unfolding dense_def by (metis distinct_map distinct_upt inj_on_of_nat)

lemma dense_pos: "dense xs \<Longrightarrow> x \<in> set xs \<Longrightarrow> 1 \<le> x \<and> x \<le> int (length xs)"
proof -
  assume d: "dense xs" and x: "x \<in> set xs"
  have "set xs = int ` {1..<Suc (length xs)}" using d unfolding dense_def by (metis set_map set_upt)
  with x show ?thesis by auto
qed

subsection \<open>Events\<close>

definition next_seq :: "event_row list \<Rightarrow> string \<Rightarrow> int" where
  "next_seq evs r = sql_max (map ev_seq (filter (\<lambda>e. ev_run_id e = r) evs)) + 1"

definition event_of :: "run_env \<Rightarrow> event_input \<Rightarrow> event_row list \<Rightarrow> event_row" where
  "event_of env i evs = \<lparr>ev_id = sql_max (map ev_id evs) + 1, ev_run_id = ei_run_id i,
     ev_seq = next_seq evs (ei_run_id i), ev_uid = ei_uid i, ev_kind = ei_kind i,
     ev_node_id = ei_node_id i, ev_edge_id = ei_edge_id i, ev_execution_id = ei_execution_id i,
     ev_payload = map_option json_stringify (ei_payload i), ev_at = sql_now env\<rparr>"

definition uid_known :: "event_row list \<Rightarrow> string \<Rightarrow> bool" where
  "uid_known evs u \<longleftrightarrow> u \<in> set (map ev_uid evs)"

text \<open>The event table after an append: unchanged when the uid is known.\<close>

definition add_event :: "run_env \<Rightarrow> event_input \<Rightarrow> event_row list \<Rightarrow> event_row list" where
  "add_event env i evs = (if uid_known evs (ei_uid i) then evs else evs @ [event_of env i evs])"

lemma find_uid: "List.find (\<lambda>e. ev_uid e = u) evs = None \<longleftrightarrow> \<not> uid_known evs u"
  by (auto simp: find_None_iff' uid_known_def image_iff)

lemma next_seq_new:
  "\<not> list_ex (\<lambda>x. ev_run_id x = r \<and> ev_seq x = next_seq evs r) evs"
proof
  assume "list_ex (\<lambda>x. ev_run_id x = r \<and> ev_seq x = next_seq evs r) evs"
  then have "next_seq evs r \<in> set (map ev_seq (filter (\<lambda>e. ev_run_id e = r) evs))"
    by (auto simp: list_ex_iff image_iff)
  then show False using sql_max_fresh unfolding next_seq_def by metis
qed

lemma append_event:
  "appendWorkflowRunEventTx env i db =
     (if find_run db (ei_run_id i) = None then Inl (Workflow_run_not_found (ei_run_id i))
      else Inr (case List.find (\<lambda>e. ev_uid e = ei_uid i) (run_events db) of
           Some e \<Rightarrow> (ev_seq e, True)
         | None \<Rightarrow> (next_seq (run_events db) (ei_run_id i), False),
         db\<lparr>run_events := add_event env i (run_events db)\<rparr>))"
proof (cases "List.find (\<lambda>e. ev_uid e = ei_uid i) (run_events db)")
  case None
  then have "\<not> uid_known (run_events db) (ei_uid i)" by (simp add: find_uid)
  then show ?thesis using None next_seq_new [of "ei_run_id i" "run_events db"]
    by (simp add: appendWorkflowRunEventTx_def Let_def insert_event_def uid_known_def add_event_def
        event_of_def next_seq_def)
next
  case (Some e)
  then have "uid_known (run_events db) (ei_uid i)" by (metis find_uid option.distinct(1))
  then show ?thesis using Some by (simp add: appendWorkflowRunEventTx_def add_event_def)
qed

lemma append_event_ok:
  "appendWorkflowRunEventTx env i db = Inr (r, db') \<Longrightarrow>
     db' = db\<lparr>run_events := add_event env i (run_events db)\<rparr> \<and> find_run db (ei_run_id i) \<noteq> None"
  by (auto simp: append_event split: if_splits)

lemma add_event_prefix: "prefix evs (add_event env i evs)"
  by (simp add: add_event_def)

subsection \<open>Claims and capabilities\<close>

definition with_claim :: "claim_row \<Rightarrow> ledger \<Rightarrow> ledger" where
  "with_claim c db = db\<lparr>claims := claims db @
     [c\<lparr>cl_id := sql_max (map cl_id (claims db)) + 1, cl_server_seq := sql_max (map cl_server_seq (claims db)) + 1\<rparr>]\<rparr>"

definition next_claim_id :: "ledger \<Rightarrow> int" where
  "next_claim_id db = sql_max (map cl_id (claims db)) + 1"

lemma claim_row_update_seq: "cl_server_seq c = s \<Longrightarrow> c\<lparr>cl_id := k, cl_server_seq := s\<rparr> = c\<lparr>cl_id := k\<rparr>"
  by (cases c) simp

lemma insert_claim_next:
  assumes "cl_server_seq c = nextWorkflowClaimSeq db"
  shows "insert_claim c db = (if claim_checks c then Inr (with_claim c db)
    else Inl (Constraint_failed ''workflow_claims CHECK''))"
  using assms sql_max_fresh [of "map cl_server_seq (claims db)"]
  by (auto simp: insert_claim_def with_claim_def nextWorkflowClaimSeq_def claim_row_update_seq)

lemma claim_id_by_next_seq:
  "workflowClaimIdBySeq (with_claim c db) (nextWorkflowClaimSeq db) = next_claim_id db"
proof -
  have "List.find (\<lambda>c. cl_server_seq c = nextWorkflowClaimSeq db) (claims db) = None"
    using sql_max_fresh [of "map cl_server_seq (claims db)"]
    by (auto simp: find_None_iff' nextWorkflowClaimSeq_def image_iff)
  then show ?thesis
    by (simp add: workflowClaimIdBySeq_def with_claim_def find_append nextWorkflowClaimSeq_def next_claim_id_def)
qed

definition with_capability :: "capability_row \<Rightarrow> ledger \<Rightarrow> ledger" where
  "with_capability c db = db\<lparr>capabilities :=
     capabilities db @ [c\<lparr>cap_id := sql_max (map cap_id (capabilities db)) + 1\<rparr>]\<rparr>"

lemma insert_capability_ok:
  "insert_capability c db = Inr db' \<longleftrightarrow>
     cap_token_hash c \<notin> set (map cap_token_hash (capabilities db)) \<and> db' = with_capability c db"
  by (auto simp: insert_capability_def with_capability_def)

lemma find_new_capability:
  assumes "cap_token_hash c \<notin> set (map cap_token_hash (capabilities db))"
  shows "find_capability (with_capability c db) (cap_token_hash c) =
    Some (c\<lparr>cap_id := sql_max (map cap_id (capabilities db)) + 1\<rparr>)"
proof -
  have "List.find (\<lambda>x. cap_token_hash x = cap_token_hash c) (capabilities db) = None"
    using assms by (auto simp: find_None_iff' image_iff)
  then show ?thesis by (simp add: find_capability_def with_capability_def find_append)
qed

lemma issue_ok:
  assumes "issueWorkflowDecisionCapability env i db = Inr (Inr (k, token), db')"
  shows "is_family i \<in> set RUNNER_CAPABILITY_FAMILIES"
    and "workflowFiniteTimestamp env (is_expires_at i)"
    and "workflowFiniteTimestamp env (is_absolute_deadline_at i)"
    and "\<not> date_gt env (is_expires_at i) (is_absolute_deadline_at i)"
    and "find_run db (is_run_id i) \<noteq> None"
    and "\<not> list_ex (stale_sibling (is_attempt i))
           (filter (of_node (is_run_id i) (is_node_id i)) (capabilities db))"
    and "sha256 env (fresh_token env) \<notin> set (map cap_token_hash (capabilities (supersede_capabilities i db)))"
    and "token = fresh_token env"
    and "db' = with_capability (issued_capability env i (sha256 env (fresh_token env))) (supersede_capabilities i db)"
  using assms unfolding issueWorkflowDecisionCapability_def
  by (auto simp: Let_def and_then_ok insert_capability_ok generateCapabilityToken_def hashCapabilityToken_def
      issued_capability_def split: if_splits)

lemma renew_ok:
  assumes "renewWorkflowDecisionCapability env k req now db = Inr (Inr e, db')"
  shows "\<exists>cap. getWorkflowDecisionCapability db k = Some cap \<and> cap_consumed_at cap = None \<and> \<not> cap_revoked cap
    \<and> workflowFiniteTimestamp env req
    \<and> e = (if date_gt env req (cap_absolute_deadline_at cap) then cap_absolute_deadline_at cap else req)
    \<and> db' = db\<lparr>capabilities := map (\<lambda>c. if cap_id c = k then c\<lparr>cap_expires_at := e\<rparr> else c) (capabilities db)\<rparr>"
  using assms unfolding renewWorkflowDecisionCapability_def
  by (auto simp: Let_def split: if_splits option.splits)

definition runner_claim_event :: "submit_input \<Rightarrow> run_row \<Rightarrow> capability_row \<Rightarrow> int \<Rightarrow> event_input" where
  "runner_claim_event i run cap claimId =
     \<lparr>ei_run_id = run_id run,
      ei_uid = ''claim_written:'' @ string_of_int (cap_id cap) @ '':'' @ si_client_request_id i,
      ei_kind = ''claim_written'', ei_node_id = Some (cap_node_id cap), ei_edge_id = None,
      ei_execution_id = Some (cap_execution_id cap),
      ei_payload = Some (JObj [(''claimId'', JInt claimId), (''predicate'', JStr (si_predicate i)),
        (''subjectDigest'', JStr (si_subject_digest i))])\<rparr>"

definition capability_claim :: "run_env \<Rightarrow> submit_input \<Rightarrow> run_row \<Rightarrow> capability_row \<Rightarrow> int \<Rightarrow> claim_row" where
  "capability_claim env i run cap seq = runner_claim env i (run_issue_id run) (run_id run) (cap_node_id cap)
     (cap_attempt cap) (cap_family cap) (cap_execution_id cap) seq (cap_id cap)"

lemma runner_claim_fields [simp]:
  "cl_server_seq (runner_claim env i iss r n a f e s k) = s"
  "cl_issuer_kind (runner_claim env i iss r n a f e s k) = ''runner_node''"
  "cl_authority_id (runner_claim env i iss r n a f e s k) = string_of_int k"
  "cl_run_id (runner_claim env i iss r n a f e s k) = r"
  "cl_predicate (runner_claim env i iss r n a f e s k) = si_predicate i"
  "cl_decision_kind (runner_claim env i iss r n a f e s k) = f"
  "cl_subject_kind (runner_claim env i iss r n a f e s k) = si_subject_kind i"
  "cl_expires_at (runner_claim env i iss r n a f e s k) = si_claim_expires_at i"
  "cl_permanent (runner_claim env i iss r n a f e s k) = False"
  "cl_submission_digest (runner_claim env i iss r n a f e s k)
     = Some (canonicalSubmissionDigest env (submission_payload i))"
  "cl_client_request_id (runner_claim env i iss r n a f e s k) = Some (si_client_request_id i)"
  "cl_node_id (runner_claim env i iss r n a f e s k) = Some n"
  "cl_attempt (runner_claim env i iss r n a f e s k) = Some a"
  "cl_issuer_vendor (runner_claim env i iss r n a f e s k) = Some (si_issuer_vendor i)"
  "cl_issuer_execution_id (runner_claim env i iss r n a f e s k) = Some e"
  "cl_subject_digest (runner_claim env i iss r n a f e s k) = si_subject_digest i"
  "cl_issue_id (runner_claim env i iss r n a f e s k) = iss"
  "cl_subject_producer_execution_id (runner_claim env i iss r n a f e s k)
     = si_subject_producer_execution_id i"
  by (simp_all add: runner_claim_def)

lemma with_claim_tables [row_simps]:
  "run_events (with_claim c db) = run_events db" "runs (with_claim c db) = runs db"
  "capabilities (with_claim c db) = capabilities db" "credentials (with_claim c db) = credentials db"
  "run_nodes (with_claim c db) = run_nodes db" "revocations (with_claim c db) = revocations db"
  "bindings (with_claim c db) = bindings db" "receipts (with_claim c db) = receipts db"
  "deadletters (with_claim c db) = deadletters db" "cursors (with_claim c db) = cursors db"
  "side_effects (with_claim c db) = side_effects db" "find_run (with_claim c db) r = find_run db r"
  by (simp_all add: with_claim_def find_run_def)

lemma consume_capability_tables [row_simps]:
  "run_events (consume_capability n c k db) = run_events db" "runs (consume_capability n c k db) = runs db"
  "claims (consume_capability n c k db) = claims db" "credentials (consume_capability n c k db) = credentials db"
  "run_nodes (consume_capability n c k db) = run_nodes db" "revocations (consume_capability n c k db) = revocations db"
  "bindings (consume_capability n c k db) = bindings db" "receipts (consume_capability n c k db) = receipts db"
  "deadletters (consume_capability n c k db) = deadletters db" "cursors (consume_capability n c k db) = cursors db"
  "side_effects (consume_capability n c k db) = side_effects db"
  "find_run (consume_capability n c k db) r = find_run db r"
  by (simp_all add: consume_capability_def find_run_def)

lemma write_runner_claim_ok:
  assumes "write_runner_claim env i nowIso run cap db = Inr (res, db')"
  shows "res = Inr (next_claim_id db, nextWorkflowClaimSeq db, False)"
    and "claim_checks (capability_claim env i run cap (nextWorkflowClaimSeq db))"
    and "find_run db (run_id run) \<noteq> None"
    and "db' = (consume_capability nowIso (next_claim_id db) (cap_id cap)
           (with_claim (capability_claim env i run cap (nextWorkflowClaimSeq db)) db))
         \<lparr>run_events := add_event env (runner_claim_event i run cap (next_claim_id db)) (run_events db)\<rparr>"
proof -
  let ?c = "capability_claim env i run cap (nextWorkflowClaimSeq db)"
  let ?db2 = "consume_capability nowIso (next_claim_id db) (cap_id cap) (with_claim ?c db)"
  have ins: "insert_claim ?c db = (if claim_checks ?c then Inr (with_claim ?c db)
      else Inl (Constraint_failed ''workflow_claims CHECK''))"
    by (rule insert_claim_next) (simp add: capability_claim_def)
  have ok: "claim_checks ?c" using assms unfolding write_runner_claim_def Let_def
    by (auto simp: and_then_ok ins [unfolded capability_claim_def] capability_claim_def split: if_splits)
  then have eq: "and_then (appendWorkflowRunEventTx env (runner_claim_event i run cap (next_claim_id db)) ?db2)
      (\<lambda>(_, db3). Inr (Inr (next_claim_id db, nextWorkflowClaimSeq db, False), db3)) = Inr (res, db')"
    using assms unfolding write_runner_claim_def Let_def
    by (simp add: ins [unfolded capability_claim_def] capability_claim_def claim_id_by_next_seq
        runner_claim_event_def)
  show "claim_checks ?c" by (rule ok)
  from eq show "res = Inr (next_claim_id db, nextWorkflowClaimSeq db, False)"
    and "find_run db (run_id run) \<noteq> None"
    and "db' = ?db2\<lparr>run_events := add_event env (runner_claim_event i run cap (next_claim_id db)) (run_events db)\<rparr>"
    by (auto simp: and_then_ok append_event row_simps runner_claim_event_def split: if_splits)
qed

text \<open>The replay answer of a consumed capability.\<close>

definition capability_replay :: "run_env \<Rightarrow> submit_input \<Rightarrow> capability_row \<Rightarrow> ledger \<Rightarrow> claim_row \<Rightarrow> bool" where
  "capability_replay env i cap db prior \<longleftrightarrow> cap_consumed_at cap \<noteq> None
     \<and> (\<exists>k. cap_consumed_claim_id cap = Some k \<and> getWorkflowClaim db k = Some prior)
     \<and> cl_submission_digest prior = Some (canonicalSubmissionDigest env (submission_payload i))
     \<and> cl_client_request_id prior = Some (si_client_request_id i)"

lemma submit_claim_ok:
  assumes "submitWorkflowDecisionClaim env token i now db = Inr (Inr (k, q, rep), db')"
  obtains (replay) cap prior where "rep" and "db' = db"
      and "find_capability db (sha256 env token) = Some cap"
      and "capability_replay env i cap db prior" and "k = cl_id prior" and "q = cl_server_seq prior"
  | (fresh) cap run where "\<not> rep"
      and "find_capability db (sha256 env token) = Some cap" and "cap_consumed_at cap = None"
      and "capability_refusal env i (or_else now (now_iso env)) cap = None"
      and "(\<forall>e. si_claim_expires_at i = Some e \<longrightarrow> workflowFiniteTimestamp env e)"
      and "getWorkflowRun db (cap_run_id cap) = Some run"
      and "write_runner_claim env i (or_else now (now_iso env)) run cap db = Inr (Inr (k, q, rep), db')"
proof -
  from assms obtain cap where cap: "find_capability db (sha256 env token) = Some cap"
    unfolding submitWorkflowDecisionClaim_def hashCapabilityToken_def
    by (auto simp: Let_def split: if_splits option.splits)
  show ?thesis
  proof (cases "cap_consumed_at cap")
    case (Some t)
    with assms cap show ?thesis
      unfolding submitWorkflowDecisionClaim_def hashCapabilityToken_def
      by (intro replay [of cap "the (getWorkflowClaim db (the (cap_consumed_claim_id cap)))"])
        (auto simp: Let_def capability_replay_def split: if_splits option.splits)
  next
    case None
    with assms cap obtain run where run: "getWorkflowRun db (cap_run_id cap) = Some run"
      "capability_refusal env i (or_else now (now_iso env)) cap = None"
      "(\<forall>e. si_claim_expires_at i = Some e \<longrightarrow> workflowFiniteTimestamp env e)"
      "write_runner_claim env i (or_else now (now_iso env)) run cap db = Inr (Inr (k, q, rep), db')"
      unfolding submitWorkflowDecisionClaim_def hashCapabilityToken_def
      by (auto simp: Let_def split: if_splits option.splits)
    from write_runner_claim_ok(1) [OF run(4)] have "\<not> rep" by simp
    with fresh cap None run show ?thesis by blast
  qed
qed

lemma system_claim_fields [simp]:
  "cl_server_seq (system_claim env i iss s) = s"
  "cl_issuer_kind (system_claim env i iss s) = sy_issuer_kind i"
  "cl_predicate (system_claim env i iss s) = sy_predicate i"
  "cl_subject_kind (system_claim env i iss s) = sy_subject_kind i"
  "cl_expires_at (system_claim env i iss s) = sy_expires_at i"
  "cl_permanent (system_claim env i iss s) = (sy_permanent i = Some True)"
  "cl_run_id (system_claim env i iss s) = sy_run_id i"
  "cl_issue_id (system_claim env i iss s) = iss"
  by (simp_all add: system_claim_def)

definition system_claim_event :: "system_input \<Rightarrow> int \<Rightarrow> int \<Rightarrow> event_input" where
  "system_claim_event i claimId serverSeq =
     \<lparr>ei_run_id = sy_run_id i,
      ei_uid = ''system_claim:'' @ sy_issuer_kind i @ '':'' @ sy_authority_id i @ '':'' @ string_of_int serverSeq,
      ei_kind = ''claim_written'', ei_node_id = sy_node_id i, ei_edge_id = None, ei_execution_id = None,
      ei_payload = Some (JObj [(''claimId'', JInt claimId), (''predicate'', JStr (sy_predicate i))])\<rparr>"

text \<open>Which system claims the checks of \<open>appendWorkflowSystemClaim\<close> let through.\<close>

definition system_input_ok :: "run_env \<Rightarrow> system_input \<Rightarrow> bool" where
  "system_input_ok env i \<longleftrightarrow> listed SYSTEM_CLAIM_ALLOWLIST (sy_issuer_kind i) (sy_predicate i)
     \<and> sy_subject_kind i \<in> set WORKFLOW_CLAIM_SUBJECT_KINDS
     \<and> (sy_predicate i = ''founder_approved'' \<longrightarrow> sy_subject_kind i = ''git_head'')
     \<and> (sy_predicate i = ''qa_exempt'' \<longrightarrow> sy_subject_kind i = ''snapshot_digest'')
     \<and> (sy_permanent i = Some True) \<noteq> truthy (sy_expires_at i)
     \<and> (\<forall>e. sy_expires_at i = Some e \<longrightarrow> workflowFiniteTimestamp env e)"

lemma system_claim_ok:
  assumes "appendWorkflowSystemClaim env i db = Inr (Inr (k, q), db')"
  shows "system_input_ok env i"
    and "k = next_claim_id db" and "q = nextWorkflowClaimSeq db"
    and "\<exists>run. find_run db (sy_run_id i) = Some run \<and> sy_issue_id i = run_issue_id run
      \<and> claim_checks (system_claim env i (run_issue_id run) (nextWorkflowClaimSeq db))
      \<and> db' = (with_claim (system_claim env i (run_issue_id run) (nextWorkflowClaimSeq db)) db)
         \<lparr>run_events := add_event env (system_claim_event i (next_claim_id db) (nextWorkflowClaimSeq db)) (run_events db)\<rparr>"
proof -
  let ?c = "\<lambda>run. system_claim env i (run_issue_id run) (nextWorkflowClaimSeq db)"
  have ins: "insert_claim (?c run) db = (if claim_checks (?c run) then Inr (with_claim (?c run) db)
      else Inl (Constraint_failed ''workflow_claims CHECK''))" for run
    by (rule insert_claim_next) simp
  from assms show "system_input_ok env i"
    unfolding appendWorkflowSystemClaim_def system_input_ok_def by (auto split: if_splits option.splits)
  from assms obtain run where run: "find_run db (sy_run_id i) = Some run" "sy_issue_id i = run_issue_id run"
    unfolding appendWorkflowSystemClaim_def by (auto split: if_splits option.splits)
  with assms have eq: "and_then (insert_claim (?c run) db) (\<lambda>db1.
       and_then (appendWorkflowRunEventTx env (system_claim_event i
          (workflowClaimIdBySeq db1 (nextWorkflowClaimSeq db)) (nextWorkflowClaimSeq db)) db1)
        (\<lambda>(_, db2). Inr (Inr (workflowClaimIdBySeq db1 (nextWorkflowClaimSeq db), nextWorkflowClaimSeq db), db2)))
      = (Inr (Inr (k, q), db') :: (int \<times> int) call)"
    unfolding appendWorkflowSystemClaim_def
    by (simp add: Let_def system_claim_event_def split: if_splits option.splits)
  then show "k = next_claim_id db" "q = nextWorkflowClaimSeq db"
    and "\<exists>run. find_run db (sy_run_id i) = Some run \<and> sy_issue_id i = run_issue_id run
      \<and> claim_checks (system_claim env i (run_issue_id run) (nextWorkflowClaimSeq db))
      \<and> db' = (with_claim (system_claim env i (run_issue_id run) (nextWorkflowClaimSeq db)) db)
         \<lparr>run_events := add_event env (system_claim_event i (next_claim_id db) (nextWorkflowClaimSeq db)) (run_events db)\<rparr>"
    using run by (auto simp: ins and_then_ok append_event claim_id_by_next_seq row_simps split: if_splits)
qed

definition with_revocation :: "run_env \<Rightarrow> int \<Rightarrow> string \<Rightarrow> string \<Rightarrow> ledger \<Rightarrow> ledger" where
  "with_revocation env k reason actor db = insert_revocation \<lparr>rev_id = 0, rev_claim_id = k,
     rev_revoked_at = sql_now env, rev_reason = reason, rev_actor = actor\<rparr> db"

lemma revoke_ok:
  assumes "revokeWorkflowClaim env k reason actor db = Inr db'"
  shows "\<exists>claim i. getWorkflowClaim db k = Some claim \<and> ei_run_id i = cl_run_id claim
    \<and> find_run db (cl_run_id claim) \<noteq> None
    \<and> db' = (with_revocation env k reason actor db)\<lparr>run_events := add_event env i (run_events db)\<rparr>"
proof -
  from assms obtain claim where c: "getWorkflowClaim db k = Some claim"
    unfolding revokeWorkflowClaim_def by (auto split: option.splits)
  obtain u where u: "revokeWorkflowClaim env k reason actor db =
      and_then (appendWorkflowRunEventTx env u (with_revocation env k reason actor db)) (\<lambda>(_, db2). Inr db2)"
      "ei_run_id u = cl_run_id claim"
    unfolding revokeWorkflowClaim_def with_revocation_def c Let_def by simp
  with assms obtain r where "appendWorkflowRunEventTx env u (with_revocation env k reason actor db) = Inr (r, db')"
    by (auto simp: and_then_ok)
  from append_event_ok [OF this] c u(2) show ?thesis
    by (auto simp: with_revocation_def insert_revocation_def find_run_def)
qed

subsection \<open>Source events\<close>

lemma founder_claim_fields [simp]:
  "cl_server_seq (founder_claim env p s) = s"
  "cl_issuer_kind (founder_claim env p s) = ''founder_challenge''"
  "cl_predicate (founder_claim env p s) = ''founder_approved''"
  "cl_subject_kind (founder_claim env p s) = ''git_head''"
  "cl_permanent (founder_claim env p s)"
  "cl_decision_kind (founder_claim env p s) = ''founder_decision''"
  "cl_run_id (founder_claim env p s) = json_string (json_get p ''run_id'')"
  "cl_subject_digest (founder_claim env p s) = json_string (json_get p ''approved_head'')"
  by (simp_all add: founder_claim_def)

lemma founder_claim_checks: "claim_checks (founder_claim env p s)"
  by (simp add: claim_checks_def runner_claim_complete_def WORKFLOW_CLAIM_PREDICATES_def
      WORKFLOW_CLAIM_ISSUER_KINDS_def WORKFLOW_CLAIM_SUBJECT_KINDS_def)

definition with_receipt :: "receipt_row \<Rightarrow> ledger \<Rightarrow> ledger" where
  "with_receipt r db = db\<lparr>receipts := receipts db @ [r]\<rparr>"

lemma insert_receipt_ok:
  "insert_receipt r db = Inr db' \<Longrightarrow>
     \<not> list_ex (\<lambda>x. rc_project x = rc_project r \<and> rc_source_event_id x = rc_source_event_id r) (receipts db)
     \<and> db' = with_receipt r db"
  by (auto simp: insert_receipt_def with_receipt_def split: if_splits)

definition source_event :: "source_input \<Rightarrow> json \<Rightarrow> int \<Rightarrow> event_input" where
  "source_event i p claimId =
     \<lparr>ei_run_id = json_string (json_get p ''run_id''),
      ei_uid = ''source_claim:'' @ so_project i @ '':'' @ so_source_event_id i,
      ei_kind = ''claim_written'', ei_node_id = None, ei_edge_id = None, ei_execution_id = None,
      ei_payload = Some (JObj [(''claimId'', JInt claimId), (''predicate'', JStr ''founder_approved'')])\<rparr>"

lemma apply_founder_approval_ok:
  assumes "apply_founder_approval env i p db = Inr (res, db')"
  shows "res = Founder_claim Applied (next_claim_id db)"
    and "\<exists>run. find_run db (json_string (json_get p ''run_id'')) = Some run \<and> founder_payload_ok i p run"
    and "db' = with_receipt (new_receipt env i (Some (next_claim_id db)))
      ((with_claim (founder_claim env p (nextWorkflowClaimSeq db)) db)
        \<lparr>run_events := add_event env (source_event i p (next_claim_id db)) (run_events db)\<rparr>)"
proof -
  let ?c = "founder_claim env p (nextWorkflowClaimSeq db)"
  have ins: "insert_claim ?c db = Inr (with_claim ?c db)"
    by (subst insert_claim_next) (simp_all add: founder_claim_checks)
  from assms obtain run where run: "find_run db (json_string (json_get p ''run_id'')) = Some run"
      "founder_payload_ok i p run"
    unfolding apply_founder_approval_def by (auto simp: Let_def split: option.splits if_splits)
  then show "\<exists>run. find_run db (json_string (json_get p ''run_id'')) = Some run \<and> founder_payload_ok i p run"
    by blast
  from assms run have eq: "and_then (appendWorkflowRunEventTx env (source_event i p (next_claim_id db)) (with_claim ?c db))
      (\<lambda>(_, db2). and_then (insert_receipt (new_receipt env i (Some (next_claim_id db))) db2)
        (\<lambda>db3. Inr (Founder_claim Applied (next_claim_id db), db3))) = Inr (res, db')"
    unfolding apply_founder_approval_def
    by (simp add: Let_def ins claim_id_by_next_seq source_event_def)
  from eq show "res = Founder_claim Applied (next_claim_id db)"
    and "db' = with_receipt (new_receipt env i (Some (next_claim_id db)))
      ((with_claim (founder_claim env p (nextWorkflowClaimSeq db)) db)
        \<lparr>run_events := add_event env (source_event i p (next_claim_id db)) (run_events db)\<rparr>)"
    by (auto simp: and_then_ok append_event row_simps dest!: insert_receipt_ok split: if_splits)
qed

lemma apply_turn_grant_ok:
  "apply_turn_grant env i p db = Inr (res, db') \<Longrightarrow>
     res = Turn_project_history Applied \<and> db' = with_receipt (new_receipt env i None) db"
  unfolding apply_turn_grant_def by (auto simp: and_then_ok dest!: insert_receipt_ok split: if_splits)

lemma source_event_ok:
  assumes "applyWorkflowSourceEvent env i db = Inr (res, db')"
  obtains (replay) x where "List.find (is_receipt i) (receipts db) = Some x"
      and "rc_payload_digest x = so_payload_digest i" and "db' = db"
      and "res = (case so_kind i of Founder_approval \<Rightarrow> Founder_claim Replayed (or_else (rc_claim_id x) 0)
             | Turn_grant \<Rightarrow> Turn_project_history Replayed)"
  | (turn) p where "List.find (is_receipt i) (receipts db) = None" and "so_payload i = Some p"
      and "so_kind i = Turn_grant" and "apply_turn_grant env i p db = Inr (res, db')"
  | (founder) p where "List.find (is_receipt i) (receipts db) = None" and "so_payload i = Some p"
      and "so_kind i = Founder_approval" and "apply_founder_approval env i p db = Inr (res, db')"
  using assms unfolding applyWorkflowSourceEvent_def
  by (auto split: if_splits option.splits source_kind.splits)

subsection \<open>Credentials\<close>

definition with_credential :: "credential_row \<Rightarrow> ledger \<Rightarrow> ledger" where
  "with_credential c db = db\<lparr>credentials :=
     credentials db @ [c\<lparr>cred_id := sql_max (map cred_id (credentials db)) + 1\<rparr>]\<rparr>"

lemma insert_credential_ok:
  "insert_credential c db = Inr db' \<longleftrightarrow>
     cred_hash c \<notin> set (map cred_hash (credentials db)) \<and> 0 < cred_attempt c
     \<and> cred_family c \<in> set RUNNER_CAPABILITY_FAMILIES
     \<and> \<not> list_ex (live_credential (cred_run_id c) (cred_node_id c) (cred_attempt c)) (credentials db)
     \<and> list_ex (bound_to c) (bindings db) \<and> db' = with_credential c db"
  by (auto simp: insert_credential_def with_credential_def)

lemma with_credential_tables [row_simps]:
  "run_events (with_credential c db) = run_events db" "runs (with_credential c db) = runs db"
  "capabilities (with_credential c db) = capabilities db" "claims (with_credential c db) = claims db"
  "run_nodes (with_credential c db) = run_nodes db" "revocations (with_credential c db) = revocations db"
  "bindings (with_credential c db) = bindings db" "receipts (with_credential c db) = receipts db"
  "deadletters (with_credential c db) = deadletters db" "cursors (with_credential c db) = cursors db"
  "side_effects (with_credential c db) = side_effects db" "find_run (with_credential c db) r = find_run db r"
  by (simp_all add: with_credential_def find_run_def)

lemma with_capability_tables [row_simps]:
  "run_events (with_capability c db) = run_events db" "runs (with_capability c db) = runs db"
  "credentials (with_capability c db) = credentials db" "claims (with_capability c db) = claims db"
  "run_nodes (with_capability c db) = run_nodes db" "revocations (with_capability c db) = revocations db"
  "bindings (with_capability c db) = bindings db" "receipts (with_capability c db) = receipts db"
  "deadletters (with_capability c db) = deadletters db" "cursors (with_capability c db) = cursors db"
  "side_effects (with_capability c db) = side_effects db" "find_run (with_capability c db) r = find_run db r"
  by (simp_all add: with_capability_def find_run_def)

definition credential_claim :: "run_env \<Rightarrow> submit_input \<Rightarrow> run_row \<Rightarrow> credential_row \<Rightarrow> int \<Rightarrow> int \<Rightarrow> claim_row" where
  "credential_claim env i run c seq k = runner_claim env i (run_issue_id run) (cred_run_id c) (cred_node_id c)
     (cred_attempt c) (cred_family c) (cred_execution_id c) seq k"

definition credential_event :: "submit_input \<Rightarrow> credential_row \<Rightarrow> int \<Rightarrow> int \<Rightarrow> event_input" where
  "credential_event i c claimId serverSeq =
     \<lparr>ei_run_id = cred_run_id c, ei_uid = ''credential_claim_written:'' @ string_of_int (cred_id c),
      ei_kind = ''claim_written'', ei_node_id = Some (cred_node_id c), ei_edge_id = None,
      ei_execution_id = Some (cred_execution_id c),
      ei_payload = Some (JObj [(''claimId'', JInt claimId), (''serverSeq'', JInt serverSeq),
        (''predicate'', JStr (si_predicate i))])\<rparr>"

definition next_capability_id :: "ledger \<Rightarrow> int" where
  "next_capability_id db = sql_max (map cap_id (capabilities db)) + 1"

lemma write_credential_claim_ok:
  assumes "write_credential_claim env i nowIso run c db = Inr (res, db')"
  defines "h \<equiv> sha256 env (fresh_token env)"
  defines "k \<equiv> next_capability_id db"
  defines "cl \<equiv> credential_claim env i run c (nextWorkflowClaimSeq db) k"
  shows "res = Inr (next_claim_id db, nextWorkflowClaimSeq db, False)"
    and "claim_checks cl" and "find_run db (cred_run_id c) \<noteq> None"
    and "h \<notin> set (map cap_token_hash (capabilities db))"
    and "db' = (consume_credential i nowIso (canonicalSubmissionDigest env (submission_payload i)) k
          (next_claim_id db) (cred_id c) (consume_capability nowIso (next_claim_id db) k
            (with_claim cl (with_capability (minted_capability i nowIso h c) db))))
        \<lparr>run_events := add_event env (credential_event i c (next_claim_id db) (nextWorkflowClaimSeq db)) (run_events db)\<rparr>"
proof -
  let ?m = "minted_capability i nowIso h c"
  let ?db1 = "with_capability ?m db"
  have seq: "nextWorkflowClaimSeq ?db1 = nextWorkflowClaimSeq db" "next_claim_id ?db1 = next_claim_id db"
    by (simp_all add: nextWorkflowClaimSeq_def next_claim_id_def row_simps)
  have h: "cap_token_hash ?m = h" by (simp add: minted_capability_def)
  have ins: "insert_claim cl ?db1 = (if claim_checks cl then Inr (with_claim cl ?db1)
      else Inl (Constraint_failed ''workflow_claims CHECK''))"
    by (rule insert_claim_next) (simp add: seq cl_def credential_claim_def)
  obtain db1 where db1: "insert_capability ?m db = Inr db1"
    using assms(1) unfolding write_credential_claim_def h_def hashCapabilityToken_def
      generateCapabilityToken_def by (auto simp: Let_def and_then_ok)
  then have fresh: "h \<notin> set (map cap_token_hash (capabilities db))" and db1': "insert_capability ?m db = Inr ?db1"
    by (simp_all add: insert_capability_ok h)
  have id: "or_else (map_option cap_id (find_capability ?db1 h)) 0 = k"
    using find_new_capability [of ?m db] fresh by (simp add: h k_def next_capability_id_def)
  have idseq: "workflowClaimIdBySeq (with_claim cl ?db1) (nextWorkflowClaimSeq db) = next_claim_id db"
    using claim_id_by_next_seq [of cl ?db1] seq by simp
  have eq1: "and_then (insert_claim cl ?db1) (\<lambda>db2.
      let claimId = workflowClaimIdBySeq db2 (nextWorkflowClaimSeq db);
          db3 = consume_credential i nowIso (canonicalSubmissionDigest env (submission_payload i)) k claimId (cred_id c)
                  (consume_capability nowIso claimId k db2)
      in and_then (appendWorkflowRunEventTx env (credential_event i c claimId (nextWorkflowClaimSeq db)) db3)
          (\<lambda>(_, db4). Inr (Inr (claimId, nextWorkflowClaimSeq db, False), db4))) = Inr (res, db')"
    using assms(1) unfolding write_credential_claim_def hashCapabilityToken_def generateCapabilityToken_def
    by (simp add: db1' id Let_def seq cl_def credential_claim_def credential_event_def
        flip: h_def)
  show ok: "claim_checks cl" using eq1 by (auto simp: and_then_ok ins split: if_splits)
  show "h \<notin> set (map cap_token_hash (capabilities db))" by (rule fresh)
  from eq1 ok show "res = Inr (next_claim_id db, nextWorkflowClaimSeq db, False)"
    and "find_run db (cred_run_id c) \<noteq> None"
    and "db' = (consume_credential i nowIso (canonicalSubmissionDigest env (submission_payload i)) k
          (next_claim_id db) (cred_id c) (consume_capability nowIso (next_claim_id db) k
            (with_claim cl (with_capability (minted_capability i nowIso h c) db))))
        \<lparr>run_events := add_event env (credential_event i c (next_claim_id db) (nextWorkflowClaimSeq db)) (run_events db)\<rparr>"
    by (auto simp: ins idseq Let_def and_then_ok append_event consume_credential_def find_run_def
        row_simps credential_event_def split: if_splits)
qed

definition credential_replay :: "run_env \<Rightarrow> submit_input \<Rightarrow> credential_row \<Rightarrow> ledger \<Rightarrow> claim_row \<Rightarrow> bool" where
  "credential_replay env i c db claim \<longleftrightarrow> cred_consumed_at c \<noteq> None
     \<and> cred_consumed_client_request_id c = Some (si_client_request_id i)
     \<and> cred_consumed_submission_digest c = Some (canonicalSubmissionDigest env (submission_payload i))
     \<and> (\<exists>k. cred_claim_id c = Some k \<and> getWorkflowClaim db k = Some claim)"

lemma submit_credential_ok:
  assumes "submitWorkflowDecisionByCredential env token i0 ex now db = Inr (Inr (k, q, rep), db')"
  defines "i \<equiv> git_head_input i0 ex"
  obtains (replay) c claim where "rep" and "db' = db"
      and "find_credential db (sha256 env token) = Some c"
      and "credential_replay env i c db claim" and "k = cl_id claim" and "q = cl_server_seq claim"
  | (fresh) c run where "\<not> rep"
      and "find_credential db (sha256 env token) = Some c" and "cred_consumed_at c = None"
      and "credential_refusal env i (or_else now (now_iso env)) db c = None"
      and "workflowFiniteTimestamp env ex"
      and "find_run db (cred_run_id c) = Some run"
      and "write_credential_claim env i (or_else now (now_iso env)) run c db = Inr (Inr (k, q, rep), db')"
proof -
  note def = submitWorkflowDecisionByCredential_def hashCapabilityToken_def Let_def
  from assms(1) obtain c where c: "find_credential db (sha256 env token) = Some c"
    and ex: "workflowFiniteTimestamp env ex"
    unfolding def by (auto split: if_splits option.splits)
  show ?thesis
  proof (cases "cred_consumed_at c")
    case (Some t)
    with assms(1) c show ?thesis unfolding def i_def [symmetric]
      by (intro replay [of c "the (getWorkflowClaim db (the (cred_claim_id c)))"])
        (auto simp: credential_replay_def split: if_splits option.splits)
  next
    case None
    with assms(1) c obtain run where run: "find_run db (cred_run_id c) = Some run"
      "credential_refusal env i (or_else now (now_iso env)) db c = None"
      "write_credential_claim env i (or_else now (now_iso env)) run c db = Inr (Inr (k, q, rep), db')"
      unfolding def i_def [symmetric] by (auto split: if_splits option.splits)
    from write_credential_claim_ok(1) [OF run(3)] have "\<not> rep" by simp
    with fresh c None run ex show ?thesis by blast
  qed
qed

subsection \<open>Admission\<close>

lemma admit_node_tables [row_simps]:
  "run_events (admit_node env i db) = run_events db" "runs (admit_node env i db) = runs db"
  "capabilities (admit_node env i db) = capabilities db" "claims (admit_node env i db) = claims db"
  "credentials (admit_node env i db) = credentials db" "revocations (admit_node env i db) = revocations db"
  "bindings (admit_node env i db) = bindings db" "receipts (admit_node env i db) = receipts db"
  "deadletters (admit_node env i db) = deadletters db" "cursors (admit_node env i db) = cursors db"
  "side_effects (admit_node env i db) = side_effects db" "find_run (admit_node env i db) r = find_run db r"
  "getWorkflowExecutionBinding (admit_node env i db) e = getWorkflowExecutionBinding db e"
  by (simp_all add: admit_node_def Let_def find_run_def getWorkflowExecutionBinding_def split: option.split)

definition add_binding :: "admit_input \<Rightarrow> string \<Rightarrow> binding_row list \<Rightarrow> binding_row list" where
  "add_binding i nowIso bs = (if list_ex (\<lambda>b. bind_execution_id b = ad_execution_id i) bs then bs
     else bs @ [\<lparr>bind_execution_id = ad_execution_id i, bind_run_id = ad_run_id i, bind_node_id = ad_node_id i,
        bind_attempt = int_of_number (ad_attempt i), bind_bound_at = nowIso\<rparr>])"

lemma admit_binding_eq:
  assumes "positive_int (ad_attempt i)"
  shows "admit_binding i nowIso db = Inr (db\<lparr>bindings := add_binding i nowIso (bindings db)\<rparr>)"
proof -
  have pos: "\<not> int_of_number (ad_attempt i) \<le> 0" using assms by (cases "ad_attempt i") auto
  show ?thesis
  proof (cases "getWorkflowExecutionBinding db (ad_execution_id i)")
    case None
    then have "\<not> list_ex (\<lambda>b. bind_execution_id b = ad_execution_id i) (bindings db)"
      by (auto simp: getWorkflowExecutionBinding_def find_None_iff' list_ex_iff)
    with None pos show ?thesis
      by (auto simp: admit_binding_def insert_binding_def add_binding_def list_ex_iff image_iff)
  next
    case (Some b)
    then have "list_ex (\<lambda>b. bind_execution_id b = ad_execution_id i) (bindings db)"
      by (auto simp: getWorkflowExecutionBinding_def list_ex_iff dest: find_Some_iff')
    with Some show ?thesis by (simp add: admit_binding_def add_binding_def)
  qed
qed

definition admit_event :: "admit_input \<Rightarrow> event_input" where
  "admit_event i = \<lparr>ei_run_id = ad_run_id i, ei_uid = ''execution_admitted:'' @ ad_execution_id i,
     ei_kind = ''execution_admitted'', ei_node_id = Some (ad_node_id i), ei_edge_id = None,
     ei_execution_id = Some (ad_execution_id i),
     ei_payload = Some (JObj [(''attempt'', JInt (int_of_number (ad_attempt i))),
       (''family'', JStr (ad_family i))])\<rparr>"

text \<open>The ledger after the node, binding, enrolment and supersede statements.\<close>

definition admit_prepared :: "run_env \<Rightarrow> admit_input \<Rightarrow> string \<Rightarrow> ledger \<Rightarrow> ledger" where
  "admit_prepared env i nowIso db = supersede_credentials i (enroll_run i
     ((admit_node env i db)\<lparr>bindings := add_binding i nowIso (bindings db)\<rparr>))"

lemma admit_prepared_tables [row_simps]:
  "run_events (admit_prepared env i n db) = run_events db"
  "capabilities (admit_prepared env i n db) = capabilities db" "claims (admit_prepared env i n db) = claims db"
  "revocations (admit_prepared env i n db) = revocations db" "receipts (admit_prepared env i n db) = receipts db"
  "deadletters (admit_prepared env i n db) = deadletters db" "cursors (admit_prepared env i n db) = cursors db"
  "side_effects (admit_prepared env i n db) = side_effects db"
  "bindings (admit_prepared env i n db) = add_binding i n (bindings db)"
  "run_nodes (admit_prepared env i n db) = run_nodes (admit_node env i db)"
  "runs (admit_prepared env i n db) = runs (enroll_run i db)"
  "credentials (admit_prepared env i n db) = credentials (supersede_credentials i db)"
  by (simp_all add: admit_prepared_def supersede_credentials_def enroll_run_def row_simps)

lemma admit_ok:
  assumes "admitWorkflowExecution env i now db = Inr (Inr (k, credential), db')"
  defines "nowIso \<equiv> or_else now (now_iso env)"
  defines "row \<equiv> admitted_credential i nowIso (sha256 env (fresh_token env))"
  shows "admit_input_refusal env i nowIso = None" and "admit_refusal i db = None"
    and "credential = fresh_token env"
    and "insert_credential row (admit_prepared env i nowIso db) = Inr (with_credential row (admit_prepared env i nowIso db))"
    and "k = sql_max (map cred_id (credentials db)) + 1"
    and "db' = (with_credential row (admit_prepared env i nowIso db))
      \<lparr>run_events := add_event env (admit_event i) (run_events db)\<rparr>"
proof -
  note def = admitWorkflowExecution_def generateCapabilityToken_def hashCapabilityToken_def
  show inp: "admit_input_refusal env i nowIso = None"
    using assms(1) unfolding def nowIso_def by (auto simp: Let_def split: option.splits)
  then have pos: "positive_int (ad_attempt i)" by (auto simp: admit_input_refusal_def split: if_splits)
  show ref: "admit_refusal i db = None"
    using assms(1) inp unfolding def nowIso_def by (auto simp: Let_def split: option.splits)
  let ?p = "admit_prepared env i nowIso db"
  have eq: "and_then (insert_credential row ?p) (\<lambda>db3. and_then (appendWorkflowRunEventTx env (admit_event i) db3)
      (\<lambda>(_, db4). Inr (Inr (or_else (map_option cred_id (find_credential db3 (cred_hash row))) 0,
         fresh_token env), db4))) = (Inr (Inr (k, credential), db') :: (int \<times> string) call)"
    using assms(1) inp ref unfolding def nowIso_def [symmetric]
    by (simp add: Let_def admit_binding_eq [OF pos] row_simps row_def admitted_credential_def
        admit_event_def admit_prepared_def)
  then show "credential = fresh_token env" by (auto simp: and_then_ok)
  from eq obtain db3 where "insert_credential row ?p = Inr db3" by (auto simp: and_then_ok)
  then have ins: "insert_credential row ?p = Inr (with_credential row ?p)"
    and new: "cred_hash row \<notin> set (map cred_hash (credentials ?p))"
    by (simp_all add: insert_credential_ok)
  then show "insert_credential row ?p = Inr (with_credential row ?p)" by simp
  have "List.find (\<lambda>c. cred_hash c = cred_hash row) (credentials ?p) = None"
    using new by (auto simp: find_None_iff' image_iff)
  then have "find_credential (with_credential row ?p) (cred_hash row) =
      Some (row\<lparr>cred_id := sql_max (map cred_id (credentials ?p)) + 1\<rparr>)"
    by (simp add: find_credential_def with_credential_def find_append)
  moreover have "map cred_id (credentials ?p) = map cred_id (credentials db)"
    by (simp add: row_simps supersede_credentials_def supersede_credential_def comp_def)
  ultimately show "k = sql_max (map cred_id (credentials db)) + 1"
    using eq by (auto simp: ins and_then_ok)
  from eq show "db' = (with_credential row ?p)
      \<lparr>run_events := add_event env (admit_event i) (run_events db)\<rparr>"
    by (auto simp: ins and_then_ok append_event row_simps split: if_splits)
qed

end
