(* ===== verification/LedgerRun.thy ===== *)
theory LedgerRun
  imports LedgerEffects
begin

section \<open>Histories of the ledger\<close>

text \<open>
  Every call that can change the ledger, the step relation they make and the states it reaches
  from the empty tables. The clock and the fresh token are chosen anew at every step; the hash
  and the engine's reading of unusual dates stay the same.
\<close>

datatype ledger_call =
    Create_run string string string "string option" "int option" "string option" bool
  | Upsert_node string string int string "string option" "string option"
  | Append_event event_input
  | Issue issue_input
  | Renew int string "string option"
  | Submit string submit_input "string option"
  | System_claim system_input
  | Revoke int string string
  | Source_event source_input
  | Deadletter string string string
  | Advance_cursor string js_number
  | Admit admit_input "string option"
  | Submit_credential string submit_input string "string option"
  | Shadow_batch batch_input

definition keep_ledger :: "(ledger_throw, 'a \<times> ledger) result \<Rightarrow> (ledger_throw, ledger) result" where
  "keep_ledger r = and_then r (\<lambda>(_, db). Inr db)"

fun run_call :: "run_env \<Rightarrow> ledger_call \<Rightarrow> ledger \<Rightarrow> (ledger_throw, ledger) result" where
  "run_call env (Create_run r i p t tr s e) db = createWorkflowRun env r i p t tr s e db"
| "run_call env (Upsert_node r n a st ex ended) db = Inr (upsertWorkflowRunNode env r n a st ex ended db)"
| "run_call env (Append_event i) db = keep_ledger (appendWorkflowRunEvent env i db)"
| "run_call env (Issue i) db = keep_ledger (issueWorkflowDecisionCapability env i db)"
| "run_call env (Renew k e now) db = keep_ledger (renewWorkflowDecisionCapability env k e now db)"
| "run_call env (Submit t i now) db = keep_ledger (submitWorkflowDecisionClaim env t i now db)"
| "run_call env (System_claim i) db = keep_ledger (appendWorkflowSystemClaim env i db)"
| "run_call env (Revoke k reason actor) db = revokeWorkflowClaim env k reason actor db"
| "run_call env (Source_event i) db = keep_ledger (applyWorkflowSourceEvent env i db)"
| "run_call env (Deadletter p s reason) db = Inr (recordWorkflowSourceDeadletter env p s reason db)"
| "run_call env (Advance_cursor p n) db = advanceWorkflowSourceCursor env p n db"
| "run_call env (Admit i now) db = keep_ledger (admitWorkflowExecution env i now db)"
| "run_call env (Submit_credential t i e now) db =
     keep_ledger (submitWorkflowDecisionByCredential env t i e now db)"
| "run_call env (Shadow_batch i) db = keep_ledger (applyWorkflowShadowBatch env i db)"

inductive ledger_step :: "(string \<Rightarrow> string) \<Rightarrow> (string \<Rightarrow> int option) \<Rightarrow> ledger \<Rightarrow> ledger \<Rightarrow> bool" for sh od where
  call: "sha256 env = sh \<Longrightarrow> other_date env = od \<Longrightarrow> run_call env c db = Inr db' \<Longrightarrow> ledger_step sh od db db'"

text \<open>\<open>ledger_after sh od db db'\<close>: some sequence of calls leads from \<open>db\<close> to \<open>db'\<close>.\<close>

inductive ledger_after :: "(string \<Rightarrow> string) \<Rightarrow> (string \<Rightarrow> int option) \<Rightarrow> ledger \<Rightarrow> ledger \<Rightarrow> bool" for sh od db where
  start: "ledger_after sh od db db"
| more: "ledger_after sh od db db' \<Longrightarrow> ledger_step sh od db' db'' \<Longrightarrow> ledger_after sh od db db''"

definition ledger_reach :: "(string \<Rightarrow> string) \<Rightarrow> (string \<Rightarrow> int option) \<Rightarrow> ledger \<Rightarrow> bool" where
  "ledger_reach sh od = ledger_after sh od empty_ledger"

lemma ledger_after_trans:
  assumes "ledger_after sh od a b" and "ledger_after sh od b c"
  shows "ledger_after sh od a c"
  using assms(2,1) by (induction) (auto intro: more)

lemma reach_after: "ledger_reach sh od a \<Longrightarrow> ledger_after sh od a b \<Longrightarrow> ledger_reach sh od b"
  using ledger_after_trans by (auto simp: ledger_reach_def)

lemma keep_ledger_ok: "keep_ledger r = Inr db' \<longleftrightarrow> (\<exists>x. r = Inr (x, db'))"
  by (auto simp: keep_ledger_def and_then_ok)

subsection \<open>A refused call writes nothing\<close>

lemma issue_refused: "issueWorkflowDecisionCapability env i db = Inr (Inl e, db') \<Longrightarrow> db' = db"
  unfolding issueWorkflowDecisionCapability_def by (auto simp: Let_def and_then_ok split: if_splits)

lemma renew_refused: "renewWorkflowDecisionCapability env k r now db = Inr (Inl e, db') \<Longrightarrow> db' = db"
  unfolding renewWorkflowDecisionCapability_def by (auto simp: Let_def split: if_splits option.splits)

lemma submit_refused: "submitWorkflowDecisionClaim env t i now db = Inr (Inl e, db') \<Longrightarrow> db' = db"
  unfolding submitWorkflowDecisionClaim_def
  by (auto simp: Let_def split: if_splits option.splits dest: write_runner_claim_ok(1))

lemma system_refused: "appendWorkflowSystemClaim env i db = Inr (Inl e, db') \<Longrightarrow> db' = db"
  unfolding appendWorkflowSystemClaim_def
  by (auto simp: Let_def and_then_ok split: if_splits option.splits)

lemma admit_refused: "admitWorkflowExecution env i now db = Inr (Inl e, db') \<Longrightarrow> db' = db"
  unfolding admitWorkflowExecution_def by (auto simp: Let_def and_then_ok split: option.splits)

lemma submit_credential_refused:
  "submitWorkflowDecisionByCredential env t i ex now db = Inr (Inl e, db') \<Longrightarrow> db' = db"
  unfolding submitWorkflowDecisionByCredential_def
  by (auto simp: Let_def split: if_splits option.splits dest: write_credential_claim_ok(1))

subsection \<open>The ways a step changes the tables\<close>

lemma step_cases [consumes 1, case_names skip create node event issue renew submit system revoke turn founder
    deadletter cursor admit credential batch]:
  assumes "ledger_step sh od db db'"
  obtains "db' = db"
  | r where "insert_run r db = Inr db'" and "run_status r = ''active''"
  | env r n a st ex ended where "db' = upsertWorkflowRunNodeTx env r n a st ex ended db"
  | env i where "find_run db (ei_run_id i) \<noteq> None"
      and "db' = db\<lparr>run_events := add_event env i (run_events db)\<rparr>"
  | env i k token where "sha256 env = sh" and "other_date env = od"
      and "issueWorkflowDecisionCapability env i db = Inr (Inr (k, token), db')"
  | env k req now e where "sha256 env = sh" and "other_date env = od"
      and "renewWorkflowDecisionCapability env k req now db = Inr (Inr e, db')"
  | env i nowIso run cap k q where "sha256 env = sh" and "other_date env = od"
      and "cap \<in> set (capabilities db)" and "cap_consumed_at cap = None"
      and "capability_refusal env i nowIso cap = None" and "getWorkflowRun db (cap_run_id cap) = Some run"
      and "\<forall>e. si_claim_expires_at i = Some e \<longrightarrow> workflowFiniteTimestamp env e"
      and "write_runner_claim env i nowIso run cap db = Inr (Inr (k, q, False), db')"
  | env i k q where "sha256 env = sh" and "other_date env = od"
      and "appendWorkflowSystemClaim env i db = Inr (Inr (k, q), db')"
  | env k reason actor where "revokeWorkflowClaim env k reason actor db = Inr db'"
  | env i where "\<not> list_ex (is_receipt i) (receipts db)" and "db' = with_receipt (new_receipt env i None) db"
  | env i p res where "sha256 env = sh" and "other_date env = od"
      and "\<not> list_ex (is_receipt i) (receipts db)"
      and "apply_founder_approval env i p db = Inr (res, db')"
  | env p s reason where "db' = recordWorkflowSourceDeadletter env p s reason db"
  | env p n where "advanceWorkflowSourceCursor env p n db = Inr db'"
  | env i now k token where "sha256 env = sh" and "other_date env = od"
      and "admitWorkflowExecution env i now db = Inr (Inr (k, token), db')"
  | env i ex nowIso run c k q where "sha256 env = sh" and "other_date env = od"
      and "c \<in> set (credentials db)" and "cred_consumed_at c = None"
      and "credential_refusal env (git_head_input i ex) nowIso db c = None"
      and "workflowFiniteTimestamp env ex" and "find_run db (cred_run_id c) = Some run"
      and "write_credential_claim env (git_head_input i ex) nowIso run c db = Inr (Inr (k, q, False), db')"
  | env i res where "applyWorkflowShadowBatch env i db = Inr (res, db')"
  using assms
proof (cases rule: ledger_step.cases)
  case (call env c)
  note steps = that and 1 = call
  show ?thesis
  proof (cases c)
    case (Create_run r i p t tr s e)
    with 1 show ?thesis by (intro steps(2)) (auto simp: createWorkflowRun_def)
  next
    case (Upsert_node r n a st ex ended)
    with 1 show ?thesis by (intro steps(3)) (auto simp: upsertWorkflowRunNode_def)
  next
    case (Append_event i)
    with 1 show ?thesis
      by (auto simp: keep_ledger_ok appendWorkflowRunEvent_def append_event intro: steps(4) split: if_splits)
  next
    case (Issue i)
    with 1 obtain r where r: "issueWorkflowDecisionCapability env i db = Inr (r, db')"
      by (auto simp: keep_ledger_ok)
    show ?thesis
    proof (cases r)
      case (Inl e)
      with r issue_refused steps(1) show ?thesis by blast
    next
      case (Inr x)
      with r 1 steps(5) show ?thesis by (cases x) blast
    qed
  next
    case (Renew k e now)
    with 1 obtain r where r: "renewWorkflowDecisionCapability env k e now db = Inr (r, db')"
      by (auto simp: keep_ledger_ok)
    show ?thesis
    proof (cases r)
      case (Inl e)
      with r renew_refused steps(1) show ?thesis by blast
    next
      case (Inr x)
      with r 1 steps(6) show ?thesis by blast
    qed
  next
    case (Submit t i now)
    with 1 obtain r where r: "submitWorkflowDecisionClaim env t i now db = Inr (r, db')"
      by (auto simp: keep_ledger_ok)
    show ?thesis
    proof (cases r)
      case (Inl e)
      with r submit_refused steps(1) show ?thesis by blast
    next
      case (Inr x)
      then obtain k q rep where x: "r = Inr (k, q, rep)" by (cases x) auto
      from r [unfolded x] show ?thesis
      proof (cases rule: submit_claim_ok)
        case (replay cap prior)
        then show ?thesis using steps(1) by blast
      next
        case (fresh cap run)
        moreover have "cap \<in> set (capabilities db)"
          using fresh(2) by (auto simp: find_capability_def dest: find_Some_iff')
        ultimately show ?thesis using 1 by (intro steps(7)) auto
      qed
    qed
  next
    case (System_claim i)
    with 1 obtain r where r: "appendWorkflowSystemClaim env i db = Inr (r, db')"
      by (auto simp: keep_ledger_ok)
    show ?thesis
    proof (cases r)
      case (Inl e)
      with r system_refused steps(1) show ?thesis by blast
    next
      case (Inr x)
      with r 1 steps(8) show ?thesis by (cases x) blast
    qed
  next
    case (Revoke k reason actor)
    with 1 show ?thesis by (intro steps(9)) auto
  next
    case (Source_event i)
    with 1 obtain r where r: "applyWorkflowSourceEvent env i db = Inr (r, db')"
      by (auto simp: keep_ledger_ok)
    then show ?thesis
    proof (cases rule: source_event_ok)
      case (replay x)
      then show ?thesis using steps(1) by blast
    next
      case (turn p)
      then show ?thesis using apply_turn_grant_ok [OF turn(4)]
        by (intro steps(10) [of i env]) (auto simp: find_None_iff' list_ex_iff)
    next
      case (founder p)
      then show ?thesis using 1 by (intro steps(11)) (auto simp: find_None_iff' list_ex_iff)
    qed
  next
    case (Deadletter p s reason)
    with 1 show ?thesis by (intro steps(12)) auto
  next
    case (Advance_cursor p n)
    with 1 show ?thesis by (intro steps(13)) auto
  next
    case (Admit i now)
    with 1 obtain r where r: "admitWorkflowExecution env i now db = Inr (r, db')"
      by (auto simp: keep_ledger_ok)
    show ?thesis
    proof (cases r)
      case (Inl e)
      with r admit_refused steps(1) show ?thesis by blast
    next
      case (Inr x)
      with r 1 steps(14) show ?thesis by (cases x) blast
    qed
  next
    case (Submit_credential t i ex now)
    with 1 obtain r where r: "submitWorkflowDecisionByCredential env t i ex now db = Inr (r, db')"
      by (auto simp: keep_ledger_ok)
    show ?thesis
    proof (cases r)
      case (Inl e)
      with r submit_credential_refused steps(1) show ?thesis by blast
    next
      case (Inr x)
      then obtain k q rep where x: "r = Inr (k, q, rep)" by (cases x) auto
      from r [unfolded x] show ?thesis
      proof (cases rule: submit_credential_ok)
        case (replay c claim)
        then show ?thesis using steps(1) by blast
      next
        case (fresh c run)
        moreover have "c \<in> set (credentials db)"
          using fresh(2) by (auto simp: find_credential_def dest: find_Some_iff')
        ultimately show ?thesis using 1 by (intro steps(15)) auto
      qed
    qed
  next
    case (Shadow_batch i)
    with 1 show ?thesis by (auto simp: keep_ledger_ok intro: steps(16))
  qed
qed

end
