(* ===== verification/LedgerOutbox.thy ===== *)
theory LedgerOutbox
  imports LedgerRun
begin

section \<open>What a shadow batch writes\<close>

text \<open>
  A batch only adds events, projects nodes, moves runs forward and grows the dispatch outbox. The
  outbox invariant: dense ids, and for every (run, node, attempt) ordinals \<open>1, 2, ...\<close> and one row
  per execution. The history relation: rows are never removed, keep their identity, and their
  state only moves along the one-way machine.
\<close>

subsection \<open>Events\<close>

inductive events_grow :: "string set \<Rightarrow> event_row list \<Rightarrow> event_row list \<Rightarrow> bool" for rids evs where
  same: "events_grow rids evs evs"
| add: "events_grow rids evs evs' \<Longrightarrow> ei_run_id i \<in> rids \<Longrightarrow> events_grow rids evs (add_event env i evs')"

lemma events_grow_trans: "events_grow rids b c \<Longrightarrow> events_grow rids a b \<Longrightarrow> events_grow rids a c"
  by (induction rule: events_grow.induct) (auto intro: add)

lemma events_grow_one: "ei_run_id i \<in> rids \<Longrightarrow> events_grow rids evs (add_event env i evs)"
  by (rule add [OF same])

lemma events_grow_prefix: "events_grow rids evs evs' \<Longrightarrow> prefix evs evs'"
  by (induction rule: events_grow.induct) (auto intro: prefix_order.trans add_event_prefix)

lemma find_run_id: "find_run db r \<noteq> None \<longleftrightarrow> r \<in> set (map run_id (runs db))"
  by (auto simp: find_run_def find_None_iff' image_iff)

subsection \<open>Outbox rows\<close>

definition new_launch :: "run_env \<Rightarrow> string \<Rightarrow> string \<Rightarrow> int \<Rightarrow> string \<Rightarrow> side_effect_row list \<Rightarrow> side_effect_row" where
  "new_launch env r n a e rows = \<lparr>se_id = sql_max (map se_id rows) + 1, se_run_id = r, se_node_id = n,
     se_attempt = a, se_kind = ''dispatch'', se_launch_ordinal = next_ordinal (filter (launch_of r n a) rows),
     se_execution_id = e, se_state = Intent_recorded, se_reason = None, se_created_at = sql_now env,
     se_updated_at = sql_now env, se_committed_at = None, se_started_at = None, se_abandoned_at = None\<rparr>"

lemma fold_ordinal_ge:
  "m \<le> fold (\<lambda>l m. max m (se_launch_ordinal l)) rows m
   \<and> (\<forall>l \<in> set rows. se_launch_ordinal l \<le> fold (\<lambda>l m. max m (se_launch_ordinal l)) rows m)"
proof (induction rows arbitrary: m)
  case Nil
  then show ?case by simp
next
  case (Cons l rows)
  from Cons.IH [of "max m (se_launch_ordinal l)"] show ?case by auto
qed

lemma next_ordinal_gt: "l \<in> set rows \<Longrightarrow> se_launch_ordinal l < next_ordinal rows"
  using fold_ordinal_ge [of 0 rows] by (auto simp: next_ordinal_def)

lemma allocate_eq:
  "allocateWorkflowLaunchOrdinalTx env r n a e db =
     (case List.find (\<lambda>l. se_execution_id l = e) (filter (launch_of r n a) (side_effects db)) of
        Some mine \<Rightarrow> Inr (se_launch_ordinal mine, db)
      | None \<Rightarrow> Inr (next_ordinal (filter (launch_of r n a) (side_effects db)),
          db\<lparr>side_effects := side_effects db @ [new_launch env r n a e (side_effects db)]\<rparr>))"
proof -
  have "\<not> list_ex (\<lambda>y. se_run_id y = r \<and> se_node_id y = n \<and> se_attempt y = a \<and> se_kind y = ''dispatch''
      \<and> se_launch_ordinal y = next_ordinal (filter (launch_of r n a) (side_effects db))) (side_effects db)"
    using next_ordinal_gt [of _ "filter (launch_of r n a) (side_effects db)"]
    by (fastforce simp: list_ex_iff launch_of_def)
  then show ?thesis
    by (simp add: allocateWorkflowLaunchOrdinalTx_def Let_def insert_side_effect_def new_launch_def
        split: option.split)
qed

text \<open>One change of the outbox: a new launch, or one row moved by the state machine.\<close>

inductive outbox_step :: "side_effect_row list \<Rightarrow> side_effect_row list \<Rightarrow> bool" where
  launch: "\<forall>l \<in> set rows. launch_of r n a l \<longrightarrow> se_execution_id l \<noteq> e \<Longrightarrow>
     outbox_step rows (rows @ [new_launch env r n a e rows])"
| move: "row \<in> set rows \<Longrightarrow> next_row nowIso to reason row = Inr row' \<Longrightarrow>
     outbox_step rows (map (\<lambda>l. if se_id l = se_id row then row' else l) rows)"

inductive outbox_grow :: "side_effect_row list \<Rightarrow> side_effect_row list \<Rightarrow> bool" for a where
  same_rows: "outbox_grow a a"
| more_rows: "outbox_grow a b \<Longrightarrow> outbox_step b c \<Longrightarrow> outbox_grow a c"

lemma outbox_grow_trans: "outbox_grow b c \<Longrightarrow> outbox_grow a b \<Longrightarrow> outbox_grow a c"
  by (induction rule: outbox_grow.induct) (auto intro: more_rows)

lemma outbox_grow_one: "outbox_step a b \<Longrightarrow> outbox_grow a b"
  by (rule more_rows [OF same_rows])

subsection \<open>The frame of a batch\<close>

definition run_key :: "run_row \<Rightarrow> string \<times> string \<times> string" where
  "run_key r = (run_id r, run_issue_id r, run_project_name r)"

text \<open>A run row moves forward: identity kept, status kept or set from active to completed.\<close>

definition run_moves :: "run_row \<Rightarrow> run_row \<Rightarrow> bool" where
  "run_moves r r' \<longleftrightarrow> run_key r' = run_key r \<and> (run_status r' = run_status r \<or> run_status r' \<noteq> ''active'')
     \<and> (run_claims_read_enrolled r \<longrightarrow> run_claims_read_enrolled r')"

text \<open>Nothing but runs, nodes, events and the outbox changes, each in its own way.\<close>

definition same_claim_tables :: "ledger \<Rightarrow> ledger \<Rightarrow> bool" where
  "same_claim_tables db db' \<longleftrightarrow> claims db' = claims db \<and> capabilities db' = capabilities db
     \<and> revocations db' = revocations db \<and> bindings db' = bindings db \<and> credentials db' = credentials db
     \<and> receipts db' = receipts db \<and> deadletters db' = deadletters db \<and> cursors db' = cursors db"

definition op_frame :: "ledger \<Rightarrow> ledger \<Rightarrow> bool" where
  "op_frame db db' \<longleftrightarrow> same_claim_tables db db' \<and> list_all2 run_moves (runs db) (runs db')
     \<and> events_grow (set (map run_id (runs db))) (run_events db) (run_events db')
     \<and> outbox_grow (side_effects db) (side_effects db')"

lemma run_moves_refl [simp]: "run_moves r r"
  by (simp add: run_moves_def)

lemma runs_move_refl [simp]: "list_all2 run_moves rs rs"
  by (simp add: list_all2_same)

lemma runs_move_ids: "list_all2 run_moves rs rs' \<Longrightarrow> map run_key rs' = map run_key rs"
  by (induction rule: list_all2_induct) (auto simp: run_moves_def)

lemma run_key_ids: "map run_key rs' = map run_key rs \<Longrightarrow> map run_id rs' = map run_id rs"
proof -
  assume "map run_key rs' = map run_key rs"
  then have "map fst (map run_key rs') = map fst (map run_key rs)" by simp
  then show ?thesis by (simp add: run_key_def comp_def)
qed

lemma runs_move_run_ids: "list_all2 run_moves rs rs' \<Longrightarrow> map run_id rs' = map run_id rs"
  by (rule run_key_ids [OF runs_move_ids])

lemma runs_move_trans:
  "list_all2 run_moves a b \<Longrightarrow> list_all2 run_moves b c \<Longrightarrow> list_all2 run_moves a c"
  by (erule (1) list_all2_trans [rotated]) (auto simp: run_moves_def)

lemma op_frame_refl [simp]: "op_frame db db"
  by (simp add: op_frame_def same_claim_tables_def events_grow.same same_rows)

lemma op_frame_trans: "op_frame a b \<Longrightarrow> op_frame b c \<Longrightarrow> op_frame a c"
  unfolding op_frame_def same_claim_tables_def
  by (auto intro: runs_move_trans outbox_grow_trans)
    (metis events_grow_trans list.set_map runs_move_run_ids)

lemma upsert_tables [row_simps]:
  "run_events (upsertWorkflowRunNodeTx env r n a st ex ended db) = run_events db"
  "runs (upsertWorkflowRunNodeTx env r n a st ex ended db) = runs db"
  "capabilities (upsertWorkflowRunNodeTx env r n a st ex ended db) = capabilities db"
  "claims (upsertWorkflowRunNodeTx env r n a st ex ended db) = claims db"
  "credentials (upsertWorkflowRunNodeTx env r n a st ex ended db) = credentials db"
  "revocations (upsertWorkflowRunNodeTx env r n a st ex ended db) = revocations db"
  "bindings (upsertWorkflowRunNodeTx env r n a st ex ended db) = bindings db"
  "receipts (upsertWorkflowRunNodeTx env r n a st ex ended db) = receipts db"
  "deadletters (upsertWorkflowRunNodeTx env r n a st ex ended db) = deadletters db"
  "cursors (upsertWorkflowRunNodeTx env r n a st ex ended db) = cursors db"
  "side_effects (upsertWorkflowRunNodeTx env r n a st ex ended db) = side_effects db"
  by (simp_all add: upsertWorkflowRunNodeTx_def)

lemma runs_move_map: "(\<And>x. run_moves x (f x)) \<Longrightarrow> list_all2 run_moves rs (map f rs)"
  by (simp add: list_all2_map2 list_all2_same)

lemma project_node_frame: "op_frame (bs_ledger s) (bs_ledger (project_node env r n a st e ended s))"
  by (simp add: op_frame_def same_claim_tables_def project_node_def set_current_node_def row_simps
      events_grow.same same_rows runs_move_map run_moves_def run_key_def)

lemma complete_run_frame: "op_frame db (complete_run r db)"
  by (simp add: op_frame_def same_claim_tables_def complete_run_def events_grow.same same_rows
      runs_move_map run_moves_def run_key_def)

lemma batch_event_frame:
  assumes "batch_event env i s = Inr s'"
  shows "op_frame (bs_ledger s) (bs_ledger s')"
proof -
  from assms have "find_run (bs_ledger s) (ei_run_id i) \<noteq> None"
    and s': "bs_ledger s' = (bs_ledger s)\<lparr>run_events := add_event env i (run_events (bs_ledger s))\<rparr>"
    unfolding batch_event_def by (auto simp: and_then_ok append_event split: if_splits)
  then have "ei_run_id i \<in> set (map run_id (runs (bs_ledger s)))" using find_run_id by blast
  then show ?thesis
    by (simp add: op_frame_def same_claim_tables_def s' same_rows events_grow_one del: set_map)
qed

lemma allocate_frame:
  assumes "allocateWorkflowLaunchOrdinalTx env r n a e db = Inr (k, db')"
  shows "op_frame db db'"
proof (cases "List.find (\<lambda>l. se_execution_id l = e) (filter (launch_of r n a) (side_effects db))")
  case None
  then have "\<forall>l \<in> set (side_effects db). launch_of r n a l \<longrightarrow> se_execution_id l \<noteq> e"
    by (auto simp: find_None_iff')
  from launch [OF this, of env] None assms show ?thesis
    by (auto simp: allocate_eq op_frame_def same_claim_tables_def
        intro: events_grow.same outbox_grow_one)
next
  case (Some mine)
  with assms show ?thesis by (simp add: allocate_eq)
qed

lemma transition_frame:
  assumes "transitionWorkflowSideEffectTx env r n a e to reason db = Inr db'"
  shows "op_frame db db'"
proof -
  from assms obtain row row' where row: "row \<in> set (side_effects db)"
      "next_row (now_iso env) to reason row = Inr row'"
    and db': "db' = db\<lparr>side_effects := map (\<lambda>l. if se_id l = se_id row then row' else l) (side_effects db)\<rparr>"
    unfolding transitionWorkflowSideEffectTx_def
    by (auto simp: and_then_ok dest: find_Some_iff' split: option.splits)
  from outbox_grow_one [OF move [OF row]] show ?thesis
    by (simp add: db' op_frame_def same_claim_tables_def events_grow.same)
qed

lemma apply_shadow_op_frame:
  assumes "apply_shadow_op env r x s = Inr s'"
  shows "op_frame (bs_ledger s) (bs_ledger s')"
proof (cases x)
  case (Edge f t a e)
  with assms show ?thesis by (auto dest: batch_event_frame)
next
  case (Dispatch n a e)
  with assms obtain k db s1 where s1: "allocateWorkflowLaunchOrdinalTx env r n (int_of_number a) e (bs_ledger s) = Inr (k, db)"
    and ev: "\<exists>i. batch_event env i (s\<lparr>bs_ledger := db, bs_ordinals := bs_ordinals s @ [k]\<rparr>) = Inr s1"
    and s': "s' = project_node env r n (int_of_number a) ''running'' e None s1"
    by (auto simp: and_then_ok)
  from ev obtain i where "batch_event env i (s\<lparr>bs_ledger := db, bs_ordinals := bs_ordinals s @ [k]\<rparr>) = Inr s1" ..
  from batch_event_frame [OF this] have "op_frame db (bs_ledger s1)" by simp
  with allocate_frame [OF s1] project_node_frame show ?thesis unfolding s' by (meson op_frame_trans)
next
  case (Wake n a e)
  with assms show ?thesis
    by (auto simp: and_then_ok) (meson batch_event_frame project_node_frame op_frame_trans)
next
  case (Complete n a e)
  with assms show ?thesis
    by (auto simp: and_then_ok) (meson batch_event_frame project_node_frame op_frame_trans)
next
  case (Kickback k)
  with assms show ?thesis by (auto dest: batch_event_frame)
next
  case Finalize
  with assms show ?thesis by (auto intro: complete_run_frame)
next
  case (Side_effect n a e to reason)
  with assms show ?thesis by (auto simp: and_then_ok dest: transition_frame)
qed

lemma apply_shadow_ops_frame:
  "apply_shadow_ops env r xs s = Inr s' \<Longrightarrow> op_frame (bs_ledger s) (bs_ledger s')"
proof (induction xs arbitrary: s)
  case Nil
  then show ?case by simp
next
  case (Cons x xs)
  then obtain s1 where "apply_shadow_op env r x s = Inr s1" "apply_shadow_ops env r xs s1 = Inr s'"
    by (auto simp: and_then_ok)
  then show ?case using apply_shadow_op_frame Cons.IH op_frame_trans by blast
qed

lemma batch_ok:
  assumes "applyWorkflowShadowBatch env i db = Inr (res, db')"
  obtains db1 where "db1 = db \<or> (\<exists>r. insert_run r db = Inr db1 \<and> run_status r = ''active'')"
    and "op_frame db1 db'"
proof -
  from assms obtain r cr db1 s where run: "batch_run env i db = Inr ((r, cr), db1)"
    and ops: "apply_shadow_ops env r (bi_ops i) \<lparr>bs_ledger = db1, bs_ordinals = [], bs_events = []\<rparr> = Inr s"
    and db': "db' = bs_ledger s"
    unfolding applyWorkflowShadowBatch_def by (auto simp: and_then_ok split: if_splits)
  from run have "db1 = db \<or> (\<exists>r. insert_run r db = Inr db1 \<and> run_status r = ''active'')"
    unfolding batch_run_def createWorkflowRun_def
    by (auto simp: and_then_ok split: if_splits option.splits)
  moreover from apply_shadow_ops_frame [OF ops] have "op_frame db1 db'" by (simp add: db')
  ultimately show ?thesis using that by blast
qed

end
