(* ===== verification/LedgerInv.thy ===== *)
theory LedgerInv
  imports LedgerOutbox
begin

section \<open>The ledger invariants: events, runs, bindings, receipts, outbox\<close>

text \<open>
  Table invariants that need no other table but the runs, and that every step keeps. The claim
  side (claims, capabilities, credentials and their links) is in the next theory.
\<close>

subsection \<open>Maps that keep keys\<close>

lemma map_key_kept: "(\<And>x. k (f x) = k x) \<Longrightarrow> map k (map f xs) = map k xs"
  by simp

subsection \<open>Runs\<close>

text \<open>Ids are unique, and so is the active run of a (project, issue).\<close>

definition is_active :: "run_row \<Rightarrow> bool" where
  "is_active r \<longleftrightarrow> run_status r = ''active''"

definition runs_ok :: "run_row list \<Rightarrow> bool" where
  "runs_ok rs \<longleftrightarrow> distinct (map run_id rs) \<and>
     distinct (map (\<lambda>r. (run_project_name r, run_issue_id r)) (filter is_active rs))"

lemma active_moves:
  assumes "list_all2 run_moves rs rs'"
  shows "set (map (\<lambda>r. (run_project_name r, run_issue_id r)) (filter is_active rs'))
      \<subseteq> set (map (\<lambda>r. (run_project_name r, run_issue_id r)) (filter is_active rs)) \<and>
    (distinct (map (\<lambda>r. (run_project_name r, run_issue_id r)) (filter is_active rs)) \<longrightarrow>
     distinct (map (\<lambda>r. (run_project_name r, run_issue_id r)) (filter is_active rs')))"
  using assms
proof (induction rule: list_all2_induct)
  case Nil
  then show ?case by simp
next
  case (Cons r rs r' rs')
  from Cons(1) have "run_project_name r' = run_project_name r" "run_issue_id r' = run_issue_id r"
    "is_active r' \<Longrightarrow> is_active r"
    by (auto simp: run_moves_def run_key_def is_active_def)
  with Cons.IH show ?case by auto
qed

lemma runs_ok_moves: "runs_ok rs \<Longrightarrow> list_all2 run_moves rs rs' \<Longrightarrow> runs_ok rs'"
  using active_moves [of rs rs'] runs_move_run_ids [of rs rs'] by (simp add: runs_ok_def del: set_map)

lemma runs_ok_insert:
  assumes "insert_run r db = Inr db'" and "runs_ok (runs db)"
  shows "runs_ok (runs db')"
  using assms unfolding insert_run_def
  by (auto simp: runs_ok_def is_active_def list_ex_iff split: if_splits) blast

text \<open>How a step changes the run table: rows move forward, at most one is added.\<close>

lemma enroll_moves: "list_all2 run_moves (runs db) (runs (enroll_run i db))"
  by (auto simp: enroll_run_def run_moves_def run_key_def intro!: runs_move_map)

lemma insert_run_runs: "insert_run r db = Inr db' \<Longrightarrow> db' = db\<lparr>runs := runs db @ [r]\<rparr>"
  by (auto simp: insert_run_def split: if_splits)

lemma write_runner_tables:
  assumes "write_runner_claim env i nowIso run cap db = Inr (res, db')"
  shows "runs db' = runs db" "run_nodes db' = run_nodes db" "credentials db' = credentials db"
    "bindings db' = bindings db" "receipts db' = receipts db" "cursors db' = cursors db"
    "side_effects db' = side_effects db" "revocations db' = revocations db" "deadletters db' = deadletters db"
  using write_runner_claim_ok(4) [OF assms] by (simp_all add: row_simps)

lemma consume_credential_tables [row_simps]:
  "runs (consume_credential i n d k c x db) = runs db" "claims (consume_credential i n d k c x db) = claims db"
  "run_events (consume_credential i n d k c x db) = run_events db"
  "capabilities (consume_credential i n d k c x db) = capabilities db"
  "run_nodes (consume_credential i n d k c x db) = run_nodes db"
  "revocations (consume_credential i n d k c x db) = revocations db"
  "bindings (consume_credential i n d k c x db) = bindings db"
  "receipts (consume_credential i n d k c x db) = receipts db"
  "deadletters (consume_credential i n d k c x db) = deadletters db"
  "cursors (consume_credential i n d k c x db) = cursors db"
  "side_effects (consume_credential i n d k c x db) = side_effects db"
  by (simp_all add: consume_credential_def)

lemma write_credential_tables:
  assumes "write_credential_claim env i nowIso run c db = Inr (res, db')"
  shows "runs db' = runs db" "run_nodes db' = run_nodes db" "bindings db' = bindings db"
    "receipts db' = receipts db" "cursors db' = cursors db" "side_effects db' = side_effects db"
    "revocations db' = revocations db" "deadletters db' = deadletters db"
  using write_credential_claim_ok(5) [OF assms] by (simp_all add: row_simps)

lemma with_receipt_tables [row_simps]:
  "runs (with_receipt r db) = runs db" "claims (with_receipt r db) = claims db"
  "run_events (with_receipt r db) = run_events db" "capabilities (with_receipt r db) = capabilities db"
  "run_nodes (with_receipt r db) = run_nodes db" "revocations (with_receipt r db) = revocations db"
  "bindings (with_receipt r db) = bindings db" "credentials (with_receipt r db) = credentials db"
  "deadletters (with_receipt r db) = deadletters db" "cursors (with_receipt r db) = cursors db"
  "side_effects (with_receipt r db) = side_effects db"
  "receipts (with_receipt r db) = receipts db @ [r]"
  by (simp_all add: with_receipt_def)

lemma with_revocation_tables [row_simps]:
  "runs (with_revocation env k x y db) = runs db" "claims (with_revocation env k x y db) = claims db"
  "run_events (with_revocation env k x y db) = run_events db"
  "capabilities (with_revocation env k x y db) = capabilities db"
  "run_nodes (with_revocation env k x y db) = run_nodes db"
  "bindings (with_revocation env k x y db) = bindings db"
  "credentials (with_revocation env k x y db) = credentials db"
  "receipts (with_revocation env k x y db) = receipts db"
  "deadletters (with_revocation env k x y db) = deadletters db"
  "cursors (with_revocation env k x y db) = cursors db"
  "side_effects (with_revocation env k x y db) = side_effects db"
  by (simp_all add: with_revocation_def insert_revocation_def)

lemma deadletter_tables [row_simps]:
  "runs (recordWorkflowSourceDeadletter env p s x db) = runs db"
  "claims (recordWorkflowSourceDeadletter env p s x db) = claims db"
  "run_events (recordWorkflowSourceDeadletter env p s x db) = run_events db"
  "capabilities (recordWorkflowSourceDeadletter env p s x db) = capabilities db"
  "run_nodes (recordWorkflowSourceDeadletter env p s x db) = run_nodes db"
  "bindings (recordWorkflowSourceDeadletter env p s x db) = bindings db"
  "credentials (recordWorkflowSourceDeadletter env p s x db) = credentials db"
  "receipts (recordWorkflowSourceDeadletter env p s x db) = receipts db"
  "revocations (recordWorkflowSourceDeadletter env p s x db) = revocations db"
  "cursors (recordWorkflowSourceDeadletter env p s x db) = cursors db"
  "side_effects (recordWorkflowSourceDeadletter env p s x db) = side_effects db"
  by (simp_all add: recordWorkflowSourceDeadletter_def)

lemma cursor_tables:
  assumes "advanceWorkflowSourceCursor env p n db = Inr db'"
  shows "runs db' = runs db" "claims db' = claims db" "run_events db' = run_events db"
    "capabilities db' = capabilities db" "run_nodes db' = run_nodes db" "bindings db' = bindings db"
    "credentials db' = credentials db" "receipts db' = receipts db" "revocations db' = revocations db"
    "side_effects db' = side_effects db" "deadletters db' = deadletters db"
  using assms unfolding advanceWorkflowSourceCursor_def by (auto simp: Let_def split: if_splits)

lemma renew_tables:
  assumes "renewWorkflowDecisionCapability env k req now db = Inr (Inr e, db')"
  shows "runs db' = runs db" "claims db' = claims db" "run_events db' = run_events db"
    "run_nodes db' = run_nodes db" "bindings db' = bindings db" "credentials db' = credentials db"
    "receipts db' = receipts db" "revocations db' = revocations db" "cursors db' = cursors db"
    "side_effects db' = side_effects db" "deadletters db' = deadletters db"
  using renew_ok [OF assms] by auto

lemma issue_tables:
  assumes "issueWorkflowDecisionCapability env i db = Inr (Inr (k, token), db')"
  shows "runs db' = runs db" "claims db' = claims db" "run_events db' = run_events db"
    "run_nodes db' = run_nodes db" "bindings db' = bindings db" "credentials db' = credentials db"
    "receipts db' = receipts db" "revocations db' = revocations db" "cursors db' = cursors db"
    "side_effects db' = side_effects db" "deadletters db' = deadletters db"
  using issue_ok(9) [OF assms] by (simp_all add: row_simps supersede_capabilities_def)

lemma system_tables:
  assumes "appendWorkflowSystemClaim env i db = Inr (Inr (k, q), db')"
  shows "runs db' = runs db" "run_nodes db' = run_nodes db" "credentials db' = credentials db"
    "bindings db' = bindings db" "receipts db' = receipts db" "cursors db' = cursors db"
    "side_effects db' = side_effects db" "revocations db' = revocations db" "capabilities db' = capabilities db"
    "deadletters db' = deadletters db"
  using system_claim_ok(4) [OF assms] by (auto simp: row_simps)

lemma founder_tables:
  assumes "apply_founder_approval env i p db = Inr (res, db')"
  shows "runs db' = runs db" "run_nodes db' = run_nodes db" "credentials db' = credentials db"
    "bindings db' = bindings db" "cursors db' = cursors db" "deadletters db' = deadletters db"
    "side_effects db' = side_effects db" "revocations db' = revocations db" "capabilities db' = capabilities db"
  using apply_founder_approval_ok(3) [OF assms] by (auto simp: row_simps)

lemma revoke_tables:
  assumes "revokeWorkflowClaim env k reason actor db = Inr db'"
  shows "runs db' = runs db" "run_nodes db' = run_nodes db" "credentials db' = credentials db"
    "bindings db' = bindings db" "receipts db' = receipts db" "cursors db' = cursors db"
    "side_effects db' = side_effects db" "claims db' = claims db" "capabilities db' = capabilities db"
    "deadletters db' = deadletters db"
  using revoke_ok [OF assms] by (auto simp: row_simps)

lemma insert_run_tables:
  assumes "insert_run r db = Inr db'"
  shows "run_nodes db' = run_nodes db" "credentials db' = credentials db"
    "bindings db' = bindings db" "receipts db' = receipts db" "cursors db' = cursors db"
    "side_effects db' = side_effects db" "claims db' = claims db" "capabilities db' = capabilities db"
    "deadletters db' = deadletters db" "revocations db' = revocations db" "run_events db' = run_events db"
    "runs db' = runs db @ [r]"
  using insert_run_runs [OF assms] by auto

lemma admit_tables:
  assumes "admitWorkflowExecution env i now db = Inr (Inr (k, token), db')"
  shows "receipts db' = receipts db" "cursors db' = cursors db" "claims db' = claims db"
    "side_effects db' = side_effects db" "capabilities db' = capabilities db"
    "deadletters db' = deadletters db" "revocations db' = revocations db"
    "runs db' = runs (enroll_run i db)"
    "bindings db' = add_binding i (or_else now (now_iso env)) (bindings db)"
  using admit_ok(6) [OF assms] by (simp_all add: row_simps)

lemmas op_tables = write_runner_tables write_credential_tables cursor_tables renew_tables issue_tables
  system_tables founder_tables revoke_tables insert_run_tables admit_tables

lemma batch_tables:
  assumes "applyWorkflowShadowBatch env i db = Inr (res, db')"
  shows "same_claim_tables db db'"
  using assms
proof (cases rule: batch_ok)
  case (1 db1)
  then have "same_claim_tables db db1" using insert_run_tables by (auto simp: same_claim_tables_def)
  with 1(2) show ?thesis by (simp add: op_frame_def same_claim_tables_def)
qed

lemma step_runs:
  assumes "ledger_step sh od db db'"
  shows "runs_ok (runs db) \<longrightarrow> runs_ok (runs db')"
    and "\<exists>mid. list_all2 run_moves (runs db @ mid) (runs db')"
proof -
  have "(\<exists>r. insert_run r db = Inr db') \<or> list_all2 run_moves (runs db) (runs db')
      \<or> (\<exists>r db1. insert_run r db = Inr db1 \<and> list_all2 run_moves (runs db1) (runs db'))"
    using assms
  proof (cases rule: step_cases)
    case (batch env i res)
    from this show ?thesis by (cases rule: batch_ok) (auto simp: op_frame_def)
  next
    case (admit env i now k token)
    then show ?thesis by (simp add: op_tables enroll_moves)
  qed (auto simp: op_tables row_simps)
  then show "runs_ok (runs db) \<longrightarrow> runs_ok (runs db')"
    and "\<exists>mid. list_all2 run_moves (runs db @ mid) (runs db')"
    by (auto intro: runs_ok_insert runs_ok_moves simp: op_tables dest: insert_run_tables(12))
      (metis runs_move_refl, metis append_Nil2)
qed

end
