(* ===== verification/LedgerHistory.thy ===== *)
theory LedgerHistory
  imports LedgerInv
begin

section \<open>History is only ever appended to\<close>

text \<open>
  How a step changes the history tables, and the invariants of the event table, the bindings,
  the receipts and the outbox.
\<close>

subsection \<open>Events\<close>

lemma events_grow_mono: "events_grow A evs evs' \<Longrightarrow> A \<subseteq> B \<Longrightarrow> events_grow B evs evs'"
  by (induction rule: events_grow.induct) (auto intro: events_grow.intros)

lemma run_known: "find_run db r \<noteq> None \<Longrightarrow> r \<in> run_id ` set (runs db)"
  using find_run_id by (metis list.set_map)

lemma step_events:
  assumes "ledger_step sh od db db'"
  shows "events_grow (run_id ` set (runs db')) (run_events db) (run_events db')"
  using assms
proof (cases rule: step_cases)
  case (event env i)
  then show ?thesis using run_known [of db "ei_run_id i"] by (simp add: events_grow_one)
next
  case (submit env i nowIso run cap k q)
  note w = write_runner_claim_ok(3,4) [OF submit(8)]
  then show ?thesis using run_known [of db "run_id run"]
    by (simp add: row_simps events_grow_one runner_claim_event_def)
next
  case (system env i k q)
  then obtain run where "find_run db (sy_run_id i) = Some run"
    "db' = (with_claim (system_claim env i (run_issue_id run) (nextWorkflowClaimSeq db)) db)
       \<lparr>run_events := add_event env (system_claim_event i (next_claim_id db) (nextWorkflowClaimSeq db)) (run_events db)\<rparr>"
    using system_claim_ok(4) by blast
  then show ?thesis using run_known [of db "sy_run_id i"]
    by (simp add: row_simps events_grow_one system_claim_event_def)
next
  case (revoke env k reason actor)
  then show ?thesis using revoke_ok [OF revoke] run_known
    by (auto simp: row_simps intro!: events_grow_one)
next
  case (founder env i p res)
  note f = apply_founder_approval_ok(2,3) [OF founder(4)]
  then show ?thesis using run_known [of db "json_string (json_get p ''run_id'')"]
    by (auto simp: row_simps source_event_def intro!: events_grow_one)
next
  case (admit env i now k token)
  note a = admit_ok [OF admit(3)]
  have "find_run db (ad_run_id i) \<noteq> None" using a(2)
    by (cases "find_run db (ad_run_id i)") (auto simp: admit_refusal_def Let_def)
  then have "ad_run_id i \<in> run_id ` set (runs db)" by (rule run_known)
  moreover have "run_id ` set (runs (enroll_run i db)) = run_id ` set (runs db)"
    using runs_move_run_ids [OF enroll_moves] by (metis list.set_map)
  ultimately show ?thesis by (simp add: a(6) row_simps events_grow_one admit_event_def)
next
  case (credential env i ex nowIso run c k q)
  note w = write_credential_claim_ok(3,5) [OF credential(8)]
  then show ?thesis using run_known [of db "cred_run_id c"]
    by (simp add: row_simps events_grow_one credential_event_def)
next
  case (batch env i res)
  then show ?thesis
  proof (cases rule: batch_ok)
    case (1 db1)
    then have "run_events db1 = run_events db" by (auto simp: op_tables)
    moreover have "run_id ` set (runs db1) = run_id ` set (runs db')"
      using runs_move_run_ids 1(2) unfolding op_frame_def by (metis list.set_map)
    ultimately show ?thesis using 1(2) by (simp add: op_frame_def)
  qed
qed (auto simp: row_simps op_tables intro: events_grow.same)

text \<open>Event uids are unique and every run's events are numbered \<open>1, 2, 3, ...\<close>.\<close>

definition run_seqs :: "event_row list \<Rightarrow> string \<Rightarrow> int list" where
  "run_seqs evs r = map ev_seq (filter (\<lambda>e. ev_run_id e = r) evs)"

definition events_ok :: "string set \<Rightarrow> event_row list \<Rightarrow> bool" where
  "events_ok rids evs \<longleftrightarrow> distinct (map ev_uid evs) \<and> (\<forall>r. dense (run_seqs evs r))
     \<and> ev_run_id ` set evs \<subseteq> rids"

lemma events_ok_grow:
  "events_grow rids evs evs' \<Longrightarrow> events_ok rids evs \<Longrightarrow> events_ok rids evs'"
proof (induction rule: events_grow.induct)
  case same
  then show ?case by simp
next
  case (add evs' i env)
  then have ok: "events_ok rids evs'" by simp
  show ?case
  proof (cases "uid_known evs' (ei_uid i)")
    case True
    then show ?thesis using ok by (simp add: add_event_def)
  next
    case False
    have "run_seqs (evs' @ [event_of env i evs']) r =
        (if r = ei_run_id i then run_seqs evs' r @ [sql_max (run_seqs evs' r) + 1] else run_seqs evs' r)" for r
      by (auto simp: run_seqs_def event_of_def next_seq_def)
    then have "dense (run_seqs (evs' @ [event_of env i evs']) r)" for r
      using ok dense_snoc by (simp add: events_ok_def)
    moreover have "distinct (map ev_uid (evs' @ [event_of env i evs']))"
      using ok False by (simp add: events_ok_def uid_known_def event_of_def)
    moreover have "ev_run_id ` set (evs' @ [event_of env i evs']) \<subseteq> rids"
      using ok add(2) by (auto simp: events_ok_def event_of_def)
    ultimately show ?thesis using False by (simp add: events_ok_def add_event_def)
  qed
qed

lemma step_run_ids: "ledger_step sh od db db' \<Longrightarrow> run_id ` set (runs db) \<subseteq> run_id ` set (runs db')"
proof -
  assume "ledger_step sh od db db'"
  from step_runs(2) [OF this] obtain mid where "list_all2 run_moves (runs db @ mid) (runs db')" ..
  from runs_move_run_ids [OF this] have "run_id ` set (runs db') = run_id ` set (runs db @ mid)"
    by (metis list.set_map)
  then show ?thesis by auto
qed

lemma step_events_ok:
  assumes "ledger_step sh od db db'" and "events_ok (run_id ` set (runs db)) (run_events db)"
  shows "events_ok (run_id ` set (runs db')) (run_events db')"
proof -
  have "events_ok (run_id ` set (runs db')) (run_events db)"
    using assms(2) step_run_ids [OF assms(1)] unfolding events_ok_def by blast
  with step_events [OF assms(1)] show ?thesis by (rule events_ok_grow)
qed

subsection \<open>The other append-only tables\<close>

lemma step_claims_prefix:
  assumes "ledger_step sh od db db'"
  shows "prefix (claims db) (claims db')"
  using assms
proof (cases rule: step_cases)
  case (submit env i nowIso run cap k q)
  from write_runner_claim_ok(4) [OF submit(8)] show ?thesis by (simp add: row_simps with_claim_def)
next
  case (system env i k q)
  from system_claim_ok(4) [OF system(3)] show ?thesis by (auto simp: with_claim_def)
next
  case (founder env i p res)
  from apply_founder_approval_ok(3) [OF founder(4)] show ?thesis by (simp add: row_simps with_claim_def)
next
  case (credential env i ex nowIso run c k q)
  from write_credential_claim_ok(5) [OF credential(8)] show ?thesis by (simp add: row_simps with_claim_def)
next
  case (batch env i res)
  from batch_tables [OF this] show ?thesis by (simp add: same_claim_tables_def)
qed (auto simp: row_simps op_tables)

lemma step_revocations_prefix:
  assumes "ledger_step sh od db db'"
  shows "prefix (revocations db) (revocations db')"
  using assms
proof (cases rule: step_cases)
  case (revoke env k reason actor)
  from revoke_ok [OF this] show ?thesis by (auto simp: with_revocation_def insert_revocation_def)
next
  case (batch env i res)
  from batch_tables [OF this] show ?thesis by (simp add: same_claim_tables_def)
qed (auto simp: row_simps op_tables)

lemma step_bindings_prefix:
  assumes "ledger_step sh od db db'"
  shows "prefix (bindings db) (bindings db')"
  using assms
proof (cases rule: step_cases)
  case (batch env i res)
  from batch_tables [OF this] show ?thesis by (simp add: same_claim_tables_def)
qed (auto simp: row_simps op_tables add_binding_def)

lemma step_receipts:
  assumes "ledger_step sh od db db'"
  shows "receipts db' = receipts db \<or> (\<exists>r. \<not> list_ex (\<lambda>x. rc_project x = rc_project r
    \<and> rc_source_event_id x = rc_source_event_id r) (receipts db) \<and> receipts db' = receipts db @ [r])"
  using assms
proof (cases rule: step_cases)
  case (turn env i)
  then have "receipts db' = receipts db @ [new_receipt env i None]" by (simp add: row_simps)
  with turn(1) show ?thesis
    by (intro disjI2 exI [of _ "new_receipt env i None"]) (simp add: is_receipt_def new_receipt_def list_ex_iff)
next
  case (founder env i p res)
  let ?r = "new_receipt env i (Some (next_claim_id db))"
  have "receipts db' = receipts db @ [?r]"
    using apply_founder_approval_ok(3) [OF founder(4)] by (simp add: row_simps)
  with founder(3) show ?thesis by (intro disjI2 exI [of _ ?r]) (simp add: is_receipt_def new_receipt_def list_ex_iff)
next
  case (batch env i res)
  from batch_tables [OF this] show ?thesis by (simp add: same_claim_tables_def)
qed (auto simp: row_simps op_tables)

definition receipts_ok :: "receipt_row list \<Rightarrow> bool" where
  "receipts_ok rs \<longleftrightarrow> distinct (map (\<lambda>r. (rc_project r, rc_source_event_id r)) rs)"

lemma step_receipts_ok:
  "ledger_step sh od db db' \<Longrightarrow> receipts_ok (receipts db) \<Longrightarrow> receipts_ok (receipts db')"
  using step_receipts by (fastforce simp: receipts_ok_def list_ex_iff)

text \<open>An execution is bound once, to a positive attempt.\<close>

definition bindings_ok :: "binding_row list \<Rightarrow> bool" where
  "bindings_ok bs \<longleftrightarrow> distinct (map bind_execution_id bs) \<and> (\<forall>b \<in> set bs. 0 < bind_attempt b)"

lemma step_bindings_ok:
  assumes "ledger_step sh od db db'" and "bindings_ok (bindings db)"
  shows "bindings_ok (bindings db')"
  using assms(1)
proof (cases rule: step_cases)
  case (admit env i now k token)
  from admit_ok(1) [OF admit(3)] have "positive_int (ad_attempt i)"
    by (auto simp: admit_input_refusal_def split: if_splits)
  then have "0 < int_of_number (ad_attempt i)" by (cases "ad_attempt i") auto
  with assms(2) show ?thesis unfolding admit_tables(9) [OF admit(3)]
    by (auto simp: add_binding_def bindings_ok_def list_ex_iff)
next
  case (batch env i res)
  from batch_tables [OF this] assms(2) show ?thesis by (simp add: same_claim_tables_def)
qed (use assms(2) in \<open>auto simp: row_simps op_tables\<close>)

subsection \<open>The outbox\<close>

text \<open>Which state may follow which: the one-way machine, read off the code.\<close>

definition state_moves :: "side_effect_state \<Rightarrow> side_effect_state \<Rightarrow> bool" where
  "state_moves a b \<longleftrightarrow> a = b \<or> (a, b) \<in> {(Intent_recorded, Launch_committed), (Intent_recorded, Started),
     (Intent_recorded, Abandoned), (Launch_committed, Started)}"

definition launch_key :: "side_effect_row \<Rightarrow> int \<times> string \<times> string \<times> int \<times> string \<times> int \<times> string \<times> string" where
  "launch_key l = (se_id l, se_run_id l, se_node_id l, se_attempt l, se_kind l, se_launch_ordinal l,
     se_execution_id l, se_created_at l)"

definition row_moves :: "side_effect_row \<Rightarrow> side_effect_row \<Rightarrow> bool" where
  "row_moves l l' \<longleftrightarrow> launch_key l' = launch_key l \<and> state_moves (se_state l) (se_state l')
     \<and> (se_committed_at l \<noteq> None \<longrightarrow> se_committed_at l' = se_committed_at l)
     \<and> (se_started_at l \<noteq> None \<longrightarrow> se_started_at l' = se_started_at l)"

lemma row_moves_refl [simp]: "row_moves l l"
  by (simp add: row_moves_def state_moves_def)

lemma state_moves_trans: "state_moves a b \<Longrightarrow> state_moves b c \<Longrightarrow> state_moves a c"
  by (cases a; cases b; cases c) (simp_all add: state_moves_def)

lemma row_moves_trans: "row_moves a b \<Longrightarrow> row_moves b c \<Longrightarrow> row_moves a c"
  unfolding row_moves_def using state_moves_trans [of "se_state a" "se_state b" "se_state c"] by simp

lemma next_row_moves: "next_row nowIso to reason l = Inr l' \<Longrightarrow> row_moves l l'"
  by (cases to; cases "se_state l"; cases "se_committed_at l"; cases "se_started_at l")
    (auto simp: next_row_def row_moves_def state_moves_def launch_key_def abandon_row_def advance_row_def
      split: if_splits)

definition outbox_ok :: "side_effect_row list \<Rightarrow> bool" where
  "outbox_ok rows \<longleftrightarrow> dense (map se_id rows) \<and>
     (\<forall>r n a. dense (map se_launch_ordinal (filter (launch_of r n a) rows))
        \<and> distinct (map se_execution_id (filter (launch_of r n a) rows)))"

lemma next_ordinal_max: "dense (map se_launch_ordinal rows) \<Longrightarrow>
    next_ordinal rows = sql_max (map se_launch_ordinal rows) + 1"
proof -
  assume d: "dense (map se_launch_ordinal rows)"
  have fold: "fold (\<lambda>l m. max m (se_launch_ordinal l)) rows m = fold max (map se_launch_ordinal rows) m" for m
    by (induction rows arbitrary: m) (simp_all add: max.commute)
  show ?thesis
  proof (cases rows)
    case Nil
    then show ?thesis by (simp add: next_ordinal_def sql_max_def)
  next
    case (Cons l ls)
    have "0 \<le> se_launch_ordinal l" using dense_pos [OF d, of "se_launch_ordinal l"] Cons by simp
    then show ?thesis unfolding next_ordinal_def fold by (simp add: Cons sql_max_def max_def)
  qed
qed

lemma map_same_key:
  assumes "\<forall>l \<in> set rows. k (f l) = k l"
  shows "map k (map f rows) = map k rows"
  using assms by simp

lemma filter_map_key:
  assumes "\<forall>l \<in> set rows. P (f l) = P l" and "\<forall>l \<in> set rows. k (f l) = k l"
  shows "map k (filter P (map f rows)) = map k (filter P rows)"
  using assms by (induction rows) auto

lemma outbox_ok_step:
  assumes "outbox_step rows rows'" and "outbox_ok rows"
  shows "outbox_ok rows' \<and> list_all2 row_moves rows (take (length rows) rows')"
  using assms(1)
proof cases
  case (launch r n a e env)
  let ?new = "new_launch env r n a e rows"
  have l: "launch_of r' n' a' ?new \<longleftrightarrow> r' = r \<and> n' = n \<and> a' = a" for r' n' a'
    by (auto simp: launch_of_def new_launch_def)
  have "dense (map se_id rows')" using assms(2) dense_snoc [of "map se_id rows"]
    by (simp add: launch(1) outbox_ok_def new_launch_def)
  moreover have "dense (map se_launch_ordinal (filter (launch_of r' n' a') rows'))" for r' n' a'
  proof (cases "r' = r \<and> n' = n \<and> a' = a")
    case True
    have d: "dense (map se_launch_ordinal (filter (launch_of r n a) rows))"
      using assms(2) by (simp add: outbox_ok_def)
    have "se_launch_ordinal ?new = sql_max (map se_launch_ordinal (filter (launch_of r n a) rows)) + 1"
      using next_ordinal_max [OF d] by (simp add: new_launch_def)
    with dense_snoc [OF d] show ?thesis using True by (simp add: launch(1) l)
  next
    case False
    then show ?thesis using assms(2) by (auto simp: launch(1) l outbox_ok_def)
  qed
  moreover have "distinct (map se_execution_id (filter (launch_of r' n' a') rows'))" for r' n' a'
  proof (cases "r' = r \<and> n' = n \<and> a' = a")
    case True
    have "se_execution_id ?new = e" by (simp add: new_launch_def)
    with True assms(2) launch(2) show ?thesis by (auto simp: launch(1) l outbox_ok_def)
  next
    case False
    then show ?thesis using assms(2) by (auto simp: launch(1) l outbox_ok_def)
  qed
  ultimately show ?thesis by (simp add: launch(1) outbox_ok_def list_all2_same)
next
  case (move row nowIso to reason row')
  let ?f = "\<lambda>l. if se_id l = se_id row then row' else l"
  have mv: "row_moves row row'" by (rule next_row_moves [OF move(3)])
  have "distinct (map se_id rows)" using assms(2) dense_distinct by (simp add: outbox_ok_def)
  then have same: "l = row" if "l \<in> set rows" "se_id l = se_id row" for l
    using that move(2) by (auto simp: distinct_map inj_on_def)
  then have moves: "\<forall>l \<in> set rows. row_moves l (?f l)" using mv by auto
  then have keys: "\<forall>l \<in> set rows. launch_key (?f l) = launch_key l" by (simp add: row_moves_def)
  then have P: "\<forall>l \<in> set rows. launch_of r n a (?f l) = launch_of r n a l" for r n a
    by (simp add: launch_key_def launch_of_def)
  have "map se_id (map ?f rows) = map se_id rows"
    and "map se_launch_ordinal (filter (launch_of r n a) (map ?f rows)) = map se_launch_ordinal (filter (launch_of r n a) rows)"
    and "map se_execution_id (filter (launch_of r n a) (map ?f rows)) = map se_execution_id (filter (launch_of r n a) rows)"
    for r n a
    using keys by (intro map_same_key filter_map_key P; simp add: launch_key_def)+
  then have "outbox_ok rows'" using assms(2) by (simp add: outbox_ok_def move(1) del: map_map)
  moreover have "list_all2 row_moves rows rows'" using moves by (simp add: move(1) list_all2_map2 list_all2_same)
  ultimately show ?thesis by (simp add: move(1))
qed

lemma outbox_length: "outbox_step a b \<Longrightarrow> length a \<le> length b"
  by (cases rule: outbox_step.cases) auto

lemma outbox_ok_grow:
  assumes "outbox_grow a b" and "outbox_ok a"
  shows "outbox_ok b \<and> length a \<le> length b \<and> list_all2 row_moves a (take (length a) b)"
  using assms
proof (induction rule: outbox_grow.induct)
  case same_rows
  then show ?case by (simp add: list_all2_same)
next
  case (more_rows b c)
  then have IH: "outbox_ok b" "length a \<le> length b" "list_all2 row_moves a (take (length a) b)" by auto
  note step = outbox_ok_step [OF more_rows(2) IH(1)]
  have len: "length b \<le> length c" using outbox_length [OF more_rows(2)] .
  from step have "list_all2 row_moves (take (length a) b) (take (length a) (take (length b) c))"
    by (intro list_all2_takeI) auto
  then have "list_all2 row_moves (take (length a) b) (take (length a) c)" using IH(2) by (simp add: min_def)
  from list_all2_trans [OF row_moves_trans IH(3) this] show ?case using step IH(2) len by auto
qed

lemma step_outbox:
  assumes "ledger_step sh od db db'"
  shows "outbox_grow (side_effects db) (side_effects db')"
  using assms
proof (cases rule: step_cases)
  case (batch env i res)
  then show ?thesis
  proof (cases rule: batch_ok)
    case (1 db1)
    then have "side_effects db1 = side_effects db" by (auto simp: op_tables)
    with 1(2) show ?thesis by (simp add: op_frame_def)
  qed
qed (auto simp: row_simps op_tables intro: same_rows)

end
