(* ===== verification/LedgerClaimInv.thy ===== *)
theory LedgerClaimInv
  imports LedgerHistory
begin

section \<open>The claim invariant: authority, vocabulary, expiry windows\<close>

text \<open>
  What every reachable ledger satisfies on the claim side: claims are numbered without gaps and
  carry only the predicates their issuer may use; a capability and a credential expire no later
  than their deadline; a node attempt has at most one live credential; a runner claim and the
  capability consumed for it determine each other; a spent credential names its claim.
\<close>

subsection \<open>The invariant\<close>

definition date_of :: "(string \<Rightarrow> int option) \<Rightarrow> string \<Rightarrow> int option" where
  "date_of od s = (case iso_utc s of None \<Rightarrow> od s | Some t \<Rightarrow> Some t)"

lemma date_parse_of: "date_parse env s = date_of (other_date env) s"
  by (simp add: date_parse_def date_of_def)

definition window_ok :: "(string \<Rightarrow> int option) \<Rightarrow> string \<Rightarrow> string \<Rightarrow> bool" where
  "window_ok od e d \<longleftrightarrow> (\<exists>x y. date_of od e = Some x \<and> date_of od d = Some y \<and> x \<le> y)"

definition claim_typed :: "(string \<Rightarrow> int option) \<Rightarrow> claim_row \<Rightarrow> bool" where
  "claim_typed od c \<longleftrightarrow> claim_checks c
     \<and> (cl_issuer_kind c = ''runner_node'' \<longrightarrow> listed WORKFLOW_DECISION_FAMILIES (cl_decision_kind c) (cl_predicate c)
          \<and> cl_decision_kind c \<in> set RUNNER_CAPABILITY_FAMILIES \<and> \<not> cl_permanent c)
     \<and> (cl_issuer_kind c = ''bridge_policy'' \<longrightarrow> cl_predicate c = ''qa_exempt'' \<and> cl_subject_kind c = ''snapshot_digest'')
     \<and> (cl_issuer_kind c = ''founder_challenge'' \<longrightarrow> cl_predicate c = ''founder_approved'' \<and> cl_subject_kind c = ''git_head'')
     \<and> (\<not> cl_permanent c \<longrightarrow> (\<exists>e t. cl_expires_at c = Some e \<and> date_of od e = Some t))"

definition claims_ok :: "(string \<Rightarrow> int option) \<Rightarrow> claim_row list \<Rightarrow> bool" where
  "claims_ok od cs \<longleftrightarrow> dense (map cl_id cs) \<and> dense (map cl_server_seq cs) \<and> (\<forall>c \<in> set cs. claim_typed od c)"

definition caps_ok :: "(string \<Rightarrow> int option) \<Rightarrow> capability_row list \<Rightarrow> bool" where
  "caps_ok od cs \<longleftrightarrow> dense (map cap_id cs) \<and> distinct (map cap_token_hash cs)
     \<and> (\<forall>c \<in> set cs. cap_family c \<in> set RUNNER_CAPABILITY_FAMILIES
          \<and> window_ok od (cap_expires_at c) (cap_absolute_deadline_at c))"

definition one_live :: "credential_row list \<Rightarrow> bool" where
  "one_live cs \<longleftrightarrow> (\<forall>r n a. length (filter (live_credential r n a) cs) \<le> 1)"

definition creds_ok :: "(string \<Rightarrow> int option) \<Rightarrow> binding_row list \<Rightarrow> credential_row list \<Rightarrow> bool" where
  "creds_ok od bs cs \<longleftrightarrow> dense (map cred_id cs) \<and> distinct (map cred_hash cs) \<and> one_live cs
     \<and> (\<forall>c \<in> set cs. cred_family c \<in> set RUNNER_CAPABILITY_FAMILIES \<and> list_ex (bound_to c) bs
          \<and> window_ok od (cred_expires_at c) (cred_absolute_deadline_at c))"

text \<open>The claim a consumed capability stands for.\<close>

definition authorises :: "capability_row \<Rightarrow> claim_row \<Rightarrow> bool" where
  "authorises c cl \<longleftrightarrow> cap_consumed_claim_id c = Some (cl_id cl) \<and> cl_issuer_kind cl = ''runner_node''
     \<and> cl_authority_id cl = string_of_int (cap_id c) \<and> cl_decision_kind cl = cap_family c
     \<and> cl_run_id cl = cap_run_id c \<and> cl_node_id cl = Some (cap_node_id c)
     \<and> cl_attempt cl = Some (cap_attempt c) \<and> cl_issuer_execution_id cl = Some (cap_execution_id c)"

definition cap_link :: "capability_row list \<Rightarrow> claim_row list \<Rightarrow> bool" where
  "cap_link caps cls \<longleftrightarrow>
     (\<forall>c \<in> set caps. (cap_consumed_at c = None) = (cap_consumed_claim_id c = None)) \<and>
     (\<forall>c \<in> set caps. cap_consumed_at c \<noteq> None \<longrightarrow> (\<exists>cl \<in> set cls. authorises c cl)) \<and>
     (\<forall>cl \<in> set cls. cl_issuer_kind cl = ''runner_node'' \<longrightarrow> (\<exists>c \<in> set caps. authorises c cl))"

definition spent_on :: "credential_row \<Rightarrow> claim_row \<Rightarrow> bool" where
  "spent_on c cl \<longleftrightarrow> cred_claim_id c = Some (cl_id cl)
     \<and> cl_submission_digest cl = cred_consumed_submission_digest c
     \<and> cl_client_request_id cl = cred_consumed_client_request_id c
     \<and> cl_issuer_execution_id cl = Some (cred_execution_id c)"

definition cred_link :: "credential_row list \<Rightarrow> claim_row list \<Rightarrow> bool" where
  "cred_link creds cls \<longleftrightarrow> (\<forall>c \<in> set creds. cred_consumed_at c \<noteq> None \<longrightarrow> (\<exists>cl \<in> set cls. spent_on c cl))"

definition claim_inv :: "(string \<Rightarrow> int option) \<Rightarrow> ledger \<Rightarrow> bool" where
  "claim_inv od db \<longleftrightarrow> claims_ok od (claims db) \<and> caps_ok od (capabilities db)
     \<and> creds_ok od (bindings db) (credentials db) \<and> cap_link (capabilities db) (claims db)
     \<and> cred_link (credentials db) (claims db)"

subsection \<open>Adding a claim\<close>

lemma claims_ok_add:
  assumes "claims_ok od (claims db)" and "\<And>k s. claim_typed od (c\<lparr>cl_id := k, cl_server_seq := s\<rparr>)"
  shows "claims_ok od (claims (with_claim c db))"
  using assms dense_snoc [of "map cl_id (claims db)"] dense_snoc [of "map cl_server_seq (claims db)"]
  by (auto simp: claims_ok_def with_claim_def)

lemma claim_typed_ids: "claim_typed od (c\<lparr>cl_id := k, cl_server_seq := s\<rparr>) = claim_typed od c"
  by (simp add: claim_typed_def claim_checks_def runner_claim_complete_def)

lemma cred_link_add: "cred_link creds (claims db) \<Longrightarrow> cred_link creds (claims (with_claim c db))"
  unfolding cred_link_def with_claim_def by fastforce

lemma cap_link_add_system:
  assumes "cap_link caps (claims db)" and "cl_issuer_kind c \<noteq> ''runner_node''"
  shows "cap_link caps (claims (with_claim c db))"
  using assms unfolding cap_link_def with_claim_def by fastforce

lemma finite_date: "workflowFiniteTimestamp env e \<longleftrightarrow> (\<exists>t. date_of (other_date env) e = Some t)"
  by (auto simp: workflowFiniteTimestamp_def date_parse_of)

lemma system_typed:
  assumes "system_input_ok env i" and "claim_checks (system_claim env i iss s)"
  shows "claim_typed (other_date env) (system_claim env i iss s)"
proof -
  have kind: "sy_issuer_kind i = ''bridge_policy'' \<and> sy_predicate i = ''qa_exempt''
      \<or> sy_issuer_kind i = ''founder_challenge'' \<and> sy_predicate i = ''founder_approved''"
    using assms(1) by (auto simp: system_input_ok_def listed_def SYSTEM_CLAIM_ALLOWLIST_def split: if_splits)
  have dates: "\<not> cl_permanent (system_claim env i iss s) \<Longrightarrow>
      \<exists>e t. sy_expires_at i = Some e \<and> date_of (other_date env) e = Some t"
    using assms(1) by (cases "sy_expires_at i") (auto simp: system_input_ok_def finite_date)
  show ?thesis using kind dates assms by (auto simp: claim_typed_def system_input_ok_def)
qed

lemma founder_typed: "claim_typed od (founder_claim env p s)"
  by (simp add: claim_typed_def founder_claim_checks)

lemma runner_typed:
  assumes "claim_checks (runner_claim env i iss r n a f e s k)"
    and "listed WORKFLOW_DECISION_FAMILIES f (si_predicate i)" and "f \<in> set RUNNER_CAPABILITY_FAMILIES"
    and "\<forall>x. si_claim_expires_at i = Some x \<longrightarrow> workflowFiniteTimestamp env x"
    and "si_claim_expires_at i \<noteq> None"
  shows "claim_typed (other_date env) (runner_claim env i iss r n a f e s k)"
  using assms by (auto simp: claim_typed_def finite_date)

subsection \<open>Capabilities\<close>

lemma supersede_keeps [simp]:
  "cap_id (supersede_capability r n a c) = cap_id c"
  "cap_token_hash (supersede_capability r n a c) = cap_token_hash c"
  "cap_family (supersede_capability r n a c) = cap_family c"
  "cap_expires_at (supersede_capability r n a c) = cap_expires_at c"
  "cap_absolute_deadline_at (supersede_capability r n a c) = cap_absolute_deadline_at c"
  "cap_consumed_at (supersede_capability r n a c) = cap_consumed_at c"
  "cap_consumed_claim_id (supersede_capability r n a c) = cap_consumed_claim_id c"
  "cap_run_id (supersede_capability r n a c) = cap_run_id c"
  "cap_node_id (supersede_capability r n a c) = cap_node_id c"
  "cap_attempt (supersede_capability r n a c) = cap_attempt c"
  "cap_execution_id (supersede_capability r n a c) = cap_execution_id c"
  by (simp_all add: supersede_capability_def)

lemma cap_link_map:
  assumes "\<And>c cl. authorises (f c) cl = authorises c cl" and "\<And>c. cap_consumed_at (f c) = cap_consumed_at c"
    and "\<And>c. cap_consumed_claim_id (f c) = cap_consumed_claim_id c"
  shows "cap_link (map f caps) cls = cap_link caps cls"
  by (simp add: cap_link_def assms)

lemma cap_link_snoc:
  "cap_consumed_at c = None \<Longrightarrow> cap_consumed_claim_id c = None \<Longrightarrow> cap_link caps cls \<Longrightarrow> cap_link (caps @ [c]) cls"
  unfolding cap_link_def by auto

lemma issue_inv:
  assumes "issueWorkflowDecisionCapability env i db = Inr (Inr (k, token), db')"
    and "claim_inv (other_date env) db"
  shows "claim_inv (other_date env) db'"
proof -
  note ok = issue_ok [OF assms(1)]
  let ?h = "sha256 env (fresh_token env)"
  let ?caps = "map (supersede_capability (is_run_id i) (is_node_id i) (is_attempt i)) (capabilities db)"
  let ?new = "(issued_capability env i ?h)\<lparr>cap_id := sql_max (map cap_id (capabilities db)) + 1\<rparr>"
  have caps: "capabilities db' = ?caps @ [?new]"
    by (simp add: ok(9) with_capability_def supersede_capabilities_def comp_def)
  have w: "window_ok (other_date env) (is_expires_at i) (is_absolute_deadline_at i)"
    using ok(2,3,4) by (auto simp: window_ok_def finite_date date_gt_def date_parse_of)
  have "?h \<notin> set (map cap_token_hash (capabilities db))"
    using ok(7) by (simp add: supersede_capabilities_def image_image)
  then have "caps_ok (other_date env) (capabilities db')"
    using assms(2) w ok(1) dense_snoc [of "map cap_id (capabilities db)"] unfolding caps
    by (auto simp: claim_inv_def caps_ok_def issued_capability_def comp_def image_image)
  moreover have "cap_link (capabilities db') (claims db)" unfolding caps
  proof (rule cap_link_snoc)
    show "cap_link ?caps (claims db)"
      using assms(2) by (subst cap_link_map) (simp_all add: claim_inv_def authorises_def)
  qed (simp_all add: issued_capability_def)
  ultimately show ?thesis using assms(2) by (simp add: claim_inv_def issue_tables [OF assms(1)])
qed

lemma renew_inv:
  assumes "renewWorkflowDecisionCapability env k req now db = Inr (Inr e, db')"
    and "claim_inv (other_date env) db"
  shows "claim_inv (other_date env) db'"
proof -
  from renew_ok [OF assms(1)] obtain cap where cap: "getWorkflowDecisionCapability db k = Some cap"
    and fin: "workflowFiniteTimestamp env req"
    and e: "e = (if date_gt env req (cap_absolute_deadline_at cap) then cap_absolute_deadline_at cap else req)"
    and db': "db' = db\<lparr>capabilities := map (\<lambda>c. if cap_id c = k then c\<lparr>cap_expires_at := e\<rparr> else c) (capabilities db)\<rparr>"
    by blast
  let ?f = "\<lambda>c. if cap_id c = k then c\<lparr>cap_expires_at := e\<rparr> else c"
  have ok: "caps_ok (other_date env) (capabilities db)" using assms(2) by (simp add: claim_inv_def)
  from cap have in_caps: "cap \<in> set (capabilities db)" "cap_id cap = k"
    by (auto simp: getWorkflowDecisionCapability_def dest: find_Some_iff')
  have "distinct (map cap_id (capabilities db))" using ok dense_distinct by (simp add: caps_ok_def)
  then have only: "c = cap" if "c \<in> set (capabilities db)" "cap_id c = k" for c
    using that in_caps by (auto simp: distinct_map inj_on_def)
  have "window_ok (other_date env) (cap_expires_at cap) (cap_absolute_deadline_at cap)"
    using ok in_caps(1) by (simp add: caps_ok_def)
  then have w: "window_ok (other_date env) e (cap_absolute_deadline_at cap)"
    using fin by (auto simp: e window_ok_def finite_date date_gt_def date_parse_of)
  have "map cap_id (map ?f (capabilities db)) = map cap_id (capabilities db)"
    and "map cap_token_hash (map ?f (capabilities db)) = map cap_token_hash (capabilities db)"
    by simp_all
  then have "caps_ok (other_date env) (capabilities db')"
    using ok w only by (auto simp: db' caps_ok_def simp del: map_map)
  moreover have "cap_link (capabilities db') (claims db)"
    unfolding db' using assms(2) by (simp, subst cap_link_map) (simp_all add: claim_inv_def authorises_def)
  ultimately show ?thesis using assms(2) by (simp add: claim_inv_def db')
qed

subsection \<open>Consuming a capability\<close>

lemma consume_caps: "capabilities (consume_capability n k x db) =
    map (\<lambda>c. if cap_id c = x then c\<lparr>cap_consumed_at := Some n, cap_consumed_claim_id := Some k\<rparr> else c) (capabilities db)"
  by (simp add: consume_capability_def)

lemma caps_ok_consume: "caps_ok od (capabilities db) \<Longrightarrow> caps_ok od (capabilities (consume_capability n k x db))"
proof -
  let ?f = "\<lambda>c. if cap_id c = x then c\<lparr>cap_consumed_at := Some n, cap_consumed_claim_id := Some k\<rparr> else c"
  assume "caps_ok od (capabilities db)"
  moreover have "map cap_id (map ?f (capabilities db)) = map cap_id (capabilities db)"
    and "map cap_token_hash (map ?f (capabilities db)) = map cap_token_hash (capabilities db)"
    by simp_all
  ultimately show ?thesis unfolding consume_caps by (auto simp: caps_ok_def simp del: map_map)
qed

lemma new_claim_fresh: "claims_ok od (claims db) \<Longrightarrow> cl \<in> set (claims db) \<Longrightarrow> cl_id cl \<noteq> next_claim_id db"
  using sql_max_ge [of "cl_id cl" "map cl_id (claims db)"] by (auto simp: next_claim_id_def)

lemma cap_link_consume:
  assumes ok: "caps_ok od (capabilities db)" and link: "cap_link (capabilities db) (claims db)"
    and cap: "cap \<in> set (capabilities db)" "cap_consumed_at cap = None"
    and c: "cl_issuer_kind c = ''runner_node''" "cl_authority_id c = string_of_int (cap_id cap)"
      "cl_decision_kind c = cap_family cap" "cl_run_id c = cap_run_id cap" "cl_node_id c = Some (cap_node_id cap)"
      "cl_attempt c = Some (cap_attempt cap)" "cl_issuer_execution_id c = Some (cap_execution_id cap)"
  shows "cap_link (capabilities (consume_capability n (next_claim_id db) (cap_id cap) db)) (claims (with_claim c db))"
proof -
  let ?f = "\<lambda>x. if cap_id x = cap_id cap
    then x\<lparr>cap_consumed_at := Some n, cap_consumed_claim_id := Some (next_claim_id db)\<rparr> else x"
  let ?c = "c\<lparr>cl_id := next_claim_id db, cl_server_seq := nextWorkflowClaimSeq db\<rparr>"
  have cls: "claims (with_claim c db) = claims db @ [?c]"
    by (simp add: with_claim_def next_claim_id_def nextWorkflowClaimSeq_def)
  have caps: "capabilities (consume_capability n (next_claim_id db) (cap_id cap) db) = map ?f (capabilities db)"
    by (rule consume_caps)
  have "distinct (map cap_id (capabilities db))" using ok dense_distinct by (simp add: caps_ok_def)
  then have only: "x = cap" if "x \<in> set (capabilities db)" "cap_id x = cap_id cap" for x
    using that cap by (auto simp: distinct_map inj_on_def)
  have new: "authorises (?f cap) ?c" by (simp add: authorises_def c)
  have old: "authorises (?f x) cl" if "authorises x cl" "x \<in> set (capabilities db)" for x cl
  proof -
    have "cap_consumed_at x \<noteq> None" using link that by (auto simp: cap_link_def authorises_def)
    then have "x \<noteq> cap" using cap(2) by auto
    then have "?f x = x" using only [OF that(2)] by auto
    then show ?thesis using that(1) by simp
  qed
  show ?thesis unfolding cap_link_def cls caps
  proof (intro conjI ballI impI)
    fix x' assume "x' \<in> set (map ?f (capabilities db))"
    then show "(cap_consumed_at x' = None) = (cap_consumed_claim_id x' = None)"
      using link by (auto simp: cap_link_def)
  next
    fix x' assume x': "x' \<in> set (map ?f (capabilities db))" "cap_consumed_at x' \<noteq> None"
    then obtain x where x: "x \<in> set (capabilities db)" "x' = ?f x" by auto
    show "\<exists>cl \<in> set (claims db @ [?c]). authorises x' cl"
    proof (cases "x = cap")
      case True
      then show ?thesis using new x(2) by auto
    next
      case False
      then have "x' = x" using only [OF x(1)] x(2) by auto
      then obtain cl where "cl \<in> set (claims db)" "authorises x cl"
        using link x x'(2) by (auto simp: cap_link_def)
      with \<open>x' = x\<close> show ?thesis by auto
    qed
  next
    fix cl assume cl: "cl \<in> set (claims db @ [?c])" "cl_issuer_kind cl = ''runner_node''"
    show "\<exists>x' \<in> set (map ?f (capabilities db)). authorises x' cl"
    proof (cases "cl \<in> set (claims db)")
      case True
      then obtain x where x: "x \<in> set (capabilities db)" "authorises x cl"
        using link cl(2) unfolding cap_link_def by blast
      have "?f x \<in> set (map ?f (capabilities db))" using x(1) by simp
      with old [OF x(2,1)] show ?thesis by (rule bexI)
    next
      case False
      then have "cl = ?c" using cl(1) by simp
      with new cap(1) show ?thesis by auto
    qed
  qed
qed

lemma submit_inv:
  assumes inv: "claim_inv (other_date env) db"
    and cap: "cap \<in> set (capabilities db)" "cap_consumed_at cap = None"
    and refusal: "capability_refusal env i nowIso cap = None"
    and run: "getWorkflowRun db (cap_run_id cap) = Some run"
    and fin: "\<forall>e. si_claim_expires_at i = Some e \<longrightarrow> workflowFiniteTimestamp env e"
    and w: "write_runner_claim env i nowIso run cap db = Inr (Inr (k, q, False), db')"
  shows "claim_inv (other_date env) db'"
proof -
  let ?c = "capability_claim env i run cap (nextWorkflowClaimSeq db)"
  note ok = write_runner_claim_ok [OF w]
  have ri: "run_id run = cap_run_id cap"
    using run by (auto simp: getWorkflowRun_def find_run_def dest: find_Some_iff')
  have fam: "cap_family cap \<in> set RUNNER_CAPABILITY_FAMILIES"
    using inv cap(1) by (simp add: claim_inv_def caps_ok_def)
  have "listed WORKFLOW_DECISION_FAMILIES (cap_family cap) (si_predicate i)"
    and "si_claim_expires_at i \<noteq> None"
    using refusal by (auto simp: capability_refusal_def truthy_iff split: if_splits option.splits)
  then have typed: "claim_typed (other_date env) ?c"
    using ok(2) fam fin unfolding capability_claim_def by (intro runner_typed)
  have "claims_ok (other_date env) (claims (with_claim ?c db))"
    using inv typed by (intro claims_ok_add) (simp_all add: claim_inv_def claim_typed_ids)
  moreover have "cap_link (capabilities (consume_capability nowIso (next_claim_id db) (cap_id cap) db)) (claims (with_claim ?c db))"
    using inv cap by (intro cap_link_consume [of "other_date env"]) (simp_all add: claim_inv_def capability_claim_def ri)
  moreover have "cred_link (credentials db) (claims (with_claim ?c db))"
    using inv by (intro cred_link_add) (simp add: claim_inv_def)
  moreover have "caps_ok (other_date env) (capabilities (consume_capability nowIso (next_claim_id db) (cap_id cap) db))"
    using inv by (intro caps_ok_consume) (simp add: claim_inv_def)
  ultimately show ?thesis using inv
    by (simp add: claim_inv_def ok(4) row_simps consume_caps)
qed

lemma system_inv:
  assumes "claim_inv (other_date env) db" and "appendWorkflowSystemClaim env i db = Inr (Inr (k, q), db')"
  shows "claim_inv (other_date env) db'"
proof -
  note ok = system_claim_ok [OF assms(2)]
  from ok(4) obtain run where "find_run db (sy_run_id i) = Some run" and checks: "claim_checks (system_claim env i (run_issue_id run) (nextWorkflowClaimSeq db))"
    and db': "db' = (with_claim (system_claim env i (run_issue_id run) (nextWorkflowClaimSeq db)) db)
      \<lparr>run_events := add_event env (system_claim_event i (next_claim_id db) (nextWorkflowClaimSeq db)) (run_events db)\<rparr>"
    by blast
  let ?c = "system_claim env i (run_issue_id run) (nextWorkflowClaimSeq db)"
  have "sy_issuer_kind i \<noteq> ''runner_node''"
    using ok(1) by (auto simp: system_input_ok_def listed_def SYSTEM_CLAIM_ALLOWLIST_def split: if_splits)
  then have "cap_link (capabilities db) (claims (with_claim ?c db))"
    using assms(1) by (intro cap_link_add_system) (simp_all add: claim_inv_def)
  moreover have "claims_ok (other_date env) (claims (with_claim ?c db))"
    using assms(1) system_typed [OF ok(1) checks]
    by (intro claims_ok_add) (simp_all add: claim_inv_def claim_typed_ids)
  moreover have "cred_link (credentials db) (claims (with_claim ?c db))"
    using assms(1) by (intro cred_link_add) (simp add: claim_inv_def)
  ultimately show ?thesis using assms(1) by (simp add: claim_inv_def db' row_simps)
qed

lemma founder_inv:
  assumes "claim_inv od db" and "apply_founder_approval env i p db = Inr (res, db')"
  shows "claim_inv od db'"
proof -
  note ok = apply_founder_approval_ok(3) [OF assms(2)]
  let ?c = "founder_claim env p (nextWorkflowClaimSeq db)"
  have "cap_link (capabilities db) (claims (with_claim ?c db))"
    using assms(1) by (intro cap_link_add_system) (simp_all add: claim_inv_def)
  moreover have "claims_ok od (claims (with_claim ?c db))"
    using assms(1) founder_typed by (intro claims_ok_add) (simp_all add: claim_inv_def claim_typed_ids)
  moreover have "cred_link (credentials db) (claims (with_claim ?c db))"
    using assms(1) by (intro cred_link_add) (simp add: claim_inv_def)
  ultimately show ?thesis using assms(1) by (simp add: claim_inv_def ok row_simps)
qed

subsection \<open>Credentials\<close>

lemma length_filter_map_le:
  assumes "\<And>x. P (f x) \<Longrightarrow> P x"
  shows "length (filter P (map f xs)) \<le> length (filter P xs)"
  using assms by (induction xs) auto

lemma one_live_map: "(\<And>x r n a. live_credential r n a (f x) \<Longrightarrow> live_credential r n a x) \<Longrightarrow>
    one_live xs \<Longrightarrow> one_live (map f xs)"
  unfolding one_live_def using length_filter_map_le le_trans by metis

lemma supersede_cred_keeps [simp]:
  "cred_id (supersede_credential r n a c) = cred_id c"
  "cred_hash (supersede_credential r n a c) = cred_hash c"
  "cred_family (supersede_credential r n a c) = cred_family c"
  "cred_expires_at (supersede_credential r n a c) = cred_expires_at c"
  "cred_absolute_deadline_at (supersede_credential r n a c) = cred_absolute_deadline_at c"
  "cred_consumed_at (supersede_credential r n a c) = cred_consumed_at c"
  "cred_claim_id (supersede_credential r n a c) = cred_claim_id c"
  "cred_run_id (supersede_credential r n a c) = cred_run_id c"
  "cred_node_id (supersede_credential r n a c) = cred_node_id c"
  "cred_attempt (supersede_credential r n a c) = cred_attempt c"
  "cred_execution_id (supersede_credential r n a c) = cred_execution_id c"
  "cred_consumed_submission_digest (supersede_credential r n a c) = cred_consumed_submission_digest c"
  "cred_consumed_client_request_id (supersede_credential r n a c) = cred_consumed_client_request_id c"
  by (simp_all add: supersede_credential_def)

lemma supersede_live: "live_credential r n a (supersede_credential r' n' a' c) \<Longrightarrow> live_credential r n a c"
  by (auto simp: live_credential_def supersede_credential_def split: if_splits)

lemma bound_to_supersede [simp]: "bound_to (supersede_credential r n a c) b = bound_to c b"
  by (simp add: bound_to_def)

lemma list_ex_more: "list_ex P xs \<Longrightarrow> list_ex P (xs @ ys)"
  by simp

lemma add_binding_ex: "list_ex P bs \<Longrightarrow> list_ex P (add_binding i n bs)"
  by (simp add: add_binding_def)

lemma creds_ok_snoc:
  assumes ok: "creds_ok od bs cs"
    and ins: "cred_hash c \<notin> set (map cred_hash cs)"
      "\<not> list_ex (live_credential (cred_run_id c) (cred_node_id c) (cred_attempt c)) cs"
      "cred_family c \<in> set RUNNER_CAPABILITY_FAMILIES" "list_ex (bound_to c) bs"
      "window_ok od (cred_expires_at c) (cred_absolute_deadline_at c)"
  shows "creds_ok od bs (cs @ [c\<lparr>cred_id := sql_max (map cred_id cs) + 1\<rparr>])"
proof -
  let ?new = "c\<lparr>cred_id := sql_max (map cred_id cs) + 1\<rparr>"
  have live: "live_credential r n a ?new \<Longrightarrow> filter (live_credential r n a) cs = []" for r n a
    using ins(2) by (auto simp: live_credential_def list_ex_iff filter_empty_conv)
  have "one_live (cs @ [?new])" unfolding one_live_def
  proof (intro allI)
    fix r n a
    show "length (filter (live_credential r n a) (cs @ [?new])) \<le> 1"
      using ok live [of r n a] by (cases "live_credential r n a ?new") (auto simp: creds_ok_def one_live_def)
  qed
  moreover have "bound_to ?new = bound_to c" by (simp add: bound_to_def fun_eq_iff)
  ultimately show ?thesis using ok ins dense_snoc [of "map cred_id cs"]
    by (auto simp: creds_ok_def)
qed

lemma admit_inv:
  assumes inv: "claim_inv (other_date env) db"
    and adm: "admitWorkflowExecution env i now db = Inr (Inr (k, token), db')"
  shows "claim_inv (other_date env) db'"
proof -
  let ?n = "or_else now (now_iso env)"
  let ?row = "admitted_credential i ?n (sha256 env (fresh_token env))"
  let ?p = "admit_prepared env i ?n db"
  let ?f = "supersede_credential (ad_run_id i) (ad_node_id i) (int_of_number (ad_attempt i))"
  note ok = admit_ok [OF adm]
  from ok(4) have ins: "cred_hash ?row \<notin> set (map cred_hash (credentials ?p))"
      "\<not> list_ex (live_credential (cred_run_id ?row) (cred_node_id ?row) (cred_attempt ?row)) (credentials ?p)"
      "cred_family ?row \<in> set RUNNER_CAPABILITY_FAMILIES" "list_ex (bound_to ?row) (bindings ?p)"
    unfolding insert_credential_ok by blast+
  have window: "window_ok (other_date env) (cred_expires_at ?row) (cred_absolute_deadline_at ?row)"
    using ok(1) by (auto simp: admit_input_refusal_def admitted_credential_def window_ok_def finite_date
        date_gt_def date_parse_of split: if_splits)
  have creds: "credentials ?p = map ?f (credentials db)" by (simp add: row_simps supersede_credentials_def)
  have "creds_ok (other_date env) (bindings ?p) (credentials ?p)"
  proof -
    have "one_live (map ?f (credentials db))"
      using inv supersede_live by (intro one_live_map) (auto simp: claim_inv_def creds_ok_def)
    moreover have "map cred_id (map ?f (credentials db)) = map cred_id (credentials db)"
      and "map cred_hash (map ?f (credentials db)) = map cred_hash (credentials db)" by simp_all
    moreover have "list_ex (bound_to (?f c)) (bindings ?p)" if "c \<in> set (credentials db)" for c
    proof -
      have "list_ex (bound_to c) (bindings db)" using inv that by (simp add: claim_inv_def creds_ok_def)
      then have "list_ex (bound_to c) (bindings ?p)" by (simp add: row_simps add_binding_ex)
      moreover have "bound_to (?f c) = bound_to c" by (simp add: fun_eq_iff)
      ultimately show ?thesis by simp
    qed
    ultimately show ?thesis using inv
      unfolding creds by (auto simp: creds_ok_def claim_inv_def simp del: map_map)
  qed
  from creds_ok_snoc [OF this ins window]
  have "creds_ok (other_date env) (bindings db') (credentials db')"
    by (simp add: ok(6) with_credential_def)
  moreover have "cred_link (credentials db') (claims db)"
  proof -
    have "cred_link (map ?f (credentials db)) (claims db)"
      using inv by (auto simp: claim_inv_def cred_link_def spent_on_def)
    moreover have "credentials db' = map ?f (credentials db) @ [?row\<lparr>cred_id := sql_max (map cred_id (credentials ?p)) + 1\<rparr>]"
      by (simp add: ok(6) with_credential_def creds)
    ultimately show ?thesis by (auto simp: cred_link_def admitted_credential_def)
  qed
  ultimately show ?thesis using inv by (simp add: claim_inv_def admit_tables [OF adm])
qed

subsection \<open>Spending a credential\<close>

lemma bound_to_spent [simp]:
  "bound_to (c\<lparr>cred_decision_capability_id := k, cred_consumed_at := n,
     cred_consumed_client_request_id := r, cred_consumed_submission_digest := d, cred_claim_id := cl\<rparr>) = bound_to c"
  by (simp add: bound_to_def fun_eq_iff)

lemma creds_ok_consume:
  assumes "creds_ok od bs (credentials db)"
  shows "creds_ok od bs (credentials (consume_credential i n d k cl x db))"
proof -
  let ?f = "\<lambda>c. if cred_id c = x
       then c\<lparr>cred_decision_capability_id := Some k, cred_consumed_at := Some n,
              cred_consumed_client_request_id := Some (si_client_request_id i),
              cred_consumed_submission_digest := Some d, cred_claim_id := Some cl\<rparr>
       else c"
  have eq: "credentials (consume_credential i n d k cl x db) = map ?f (credentials db)"
    by (simp add: consume_credential_def)
  have "one_live (map ?f (credentials db))"
    using assms by (intro one_live_map) (auto simp: live_credential_def creds_ok_def split: if_splits)
  moreover have "map cred_id (map ?f (credentials db)) = map cred_id (credentials db)"
    and "map cred_hash (map ?f (credentials db)) = map cred_hash (credentials db)" by simp_all
  ultimately show ?thesis using assms unfolding eq by (auto simp: creds_ok_def simp del: map_map)
qed

lemma cred_link_consume:
  assumes link: "cred_link (credentials db) cls" and ok: "creds_ok od bs (credentials db)"
    and c: "c \<in> set (credentials db)" and cl: "cl \<in> set cls"
    and fit: "cl_submission_digest cl = Some d" "cl_client_request_id cl = Some (si_client_request_id i)"
      "cl_issuer_execution_id cl = Some (cred_execution_id c)"
  shows "cred_link (credentials (consume_credential i n d k (cl_id cl) (cred_id c) db)) cls"
proof -
  have "distinct (map cred_id (credentials db))" using ok dense_distinct by (simp add: creds_ok_def)
  then have only: "x = c" if "x \<in> set (credentials db)" "cred_id x = cred_id c" for x
    using that c by (auto simp: distinct_map inj_on_def)
  show ?thesis using link cl fit only
    by (fastforce simp: cred_link_def consume_credential_def spent_on_def)
qed

lemma credential_inv:
  assumes inv: "claim_inv (other_date env) db"
    and c: "c \<in> set (credentials db)" "cred_consumed_at c = None"
    and refusal: "credential_refusal env i nowIso db c = None"
    and fin: "\<exists>e. si_claim_expires_at i = Some e \<and> workflowFiniteTimestamp env e"
    and w: "write_credential_claim env i nowIso run c db = Inr (Inr (k, q, False), db')"
  shows "claim_inv (other_date env) db'"
proof -
  let ?h = "sha256 env (fresh_token env)"
  let ?m = "minted_capability i nowIso ?h c"
  let ?k = "next_capability_id db"
  let ?m' = "?m\<lparr>cap_id := ?k\<rparr>"
  let ?db1 = "with_capability ?m db"
  let ?cl = "credential_claim env i run c (nextWorkflowClaimSeq db) ?k"
  let ?cl' = "?cl\<lparr>cl_id := next_claim_id db, cl_server_seq := nextWorkflowClaimSeq db\<rparr>"
  note ok = write_credential_claim_ok [OF w]
  have seq: "nextWorkflowClaimSeq ?db1 = nextWorkflowClaimSeq db" "next_claim_id ?db1 = next_claim_id db"
    by (simp_all add: nextWorkflowClaimSeq_def next_claim_id_def row_simps)
  have cred: "cred_family c \<in> set RUNNER_CAPABILITY_FAMILIES"
      "window_ok (other_date env) (cred_expires_at c) (cred_absolute_deadline_at c)"
    using inv c(1) by (simp_all add: claim_inv_def creds_ok_def)
  have caps1: "capabilities ?db1 = capabilities db @ [?m']" by (simp add: with_capability_def next_capability_id_def)
  have "caps_ok (other_date env) (capabilities ?db1)"
    using inv cred ok(4) dense_snoc [of "map cap_id (capabilities db)"]
    unfolding caps1 by (auto simp: claim_inv_def caps_ok_def minted_capability_def next_capability_id_def)
  note caps_ok1 = this
  have link1: "cap_link (capabilities ?db1) (claims ?db1)" unfolding caps1
    using inv by (intro cap_link_snoc) (simp_all add: minted_capability_def row_simps claim_inv_def)
  have mid: "?m' \<in> set (capabilities ?db1)" "cap_consumed_at ?m' = None"
    by (simp_all only: caps1) (simp_all add: minted_capability_def)
  have link: "cap_link (capabilities (consume_capability nowIso (next_claim_id ?db1) (cap_id ?m') ?db1))
      (claims (with_claim ?cl ?db1))"
    by (rule cap_link_consume [OF caps_ok1 link1 mid]) (simp_all add: minted_capability_def credential_claim_def)
  have "listed WORKFLOW_DECISION_FAMILIES (cred_family c) (si_predicate i)"
    using refusal by (auto simp: credential_refusal_def split: if_splits)
  then have typed: "claim_typed (other_date env) ?cl"
    using ok(2) cred(1) fin unfolding credential_claim_def by (intro runner_typed) auto
  have claims: "claims_ok (other_date env) (claims (with_claim ?cl ?db1))"
    using inv typed by (intro claims_ok_add) (simp_all add: claim_inv_def claim_typed_ids row_simps)
  have cls: "claims (with_claim ?cl ?db1) = claims db @ [?cl']"
    by (simp add: with_claim_def row_simps next_claim_id_def nextWorkflowClaimSeq_def)
  have "cred_link (credentials db) (claims db @ [?cl'])"
    using inv by (auto simp: claim_inv_def cred_link_def)
  then have "cred_link (credentials (consume_credential i nowIso (canonicalSubmissionDigest env (submission_payload i)) ?k
      (cl_id ?cl') (cred_id c) db)) (claims db @ [?cl'])"
    using inv c(1) by (intro cred_link_consume [of _ _ "other_date env" "bindings db"])
      (simp_all add: claim_inv_def credential_claim_def)
  then have clink: "cred_link (credentials db') (claims db @ [?cl'])"
    by (simp add: ok(5) consume_credential_def row_simps)
  have "creds_ok (other_date env) (bindings db) (credentials (consume_credential i nowIso
      (canonicalSubmissionDigest env (submission_payload i)) ?k (next_claim_id db) (cred_id c) db))"
    using inv by (intro creds_ok_consume) (simp add: claim_inv_def)
  then have creds: "creds_ok (other_date env) (bindings db) (credentials db')"
    by (simp add: ok(5) consume_credential_def row_simps)
  have caps': "capabilities db' = capabilities (consume_capability nowIso (next_claim_id ?db1) (cap_id ?m') ?db1)"
    by (simp add: ok(5) row_simps seq consume_caps)
  have claims': "claims db' = claims (with_claim ?cl ?db1)"
    by (simp add: ok(5) row_simps)
  show ?thesis unfolding claim_inv_def
    using claims link clink creds caps_ok_consume [OF caps_ok1] write_credential_tables(3) [OF w]
    by (simp add: claims' caps' cls)
qed

subsection \<open>Every step keeps it\<close>

lemma step_claim_inv:
  assumes "ledger_step sh od db db'" and "claim_inv od db"
  shows "claim_inv od db'"
  using assms(1)
proof (cases rule: step_cases)
  case (issue env i k token)
  then show ?thesis using issue_inv assms(2) by blast
next
  case (renew env k req now e)
  then show ?thesis using renew_inv assms(2) by blast
next
  case (submit env i nowIso run cap k q)
  then show ?thesis using submit_inv assms(2) by blast
next
  case (system env i k q)
  then show ?thesis using system_inv assms(2) by blast
next
  case (founder env i p res)
  then show ?thesis using founder_inv assms(2) by blast
next
  case (admit env i now k token)
  then show ?thesis using admit_inv assms(2) by blast
next
  case (credential env i ex nowIso run c k q)
  have "\<exists>e. si_claim_expires_at (git_head_input i ex) = Some e \<and> workflowFiniteTimestamp env e"
    using credential(6) by (simp add: git_head_input_def)
  with credential assms(2) show ?thesis using credential_inv by blast
next
  case (batch env i res)
  from batch_tables [OF this] assms(2) show ?thesis by (simp add: same_claim_tables_def claim_inv_def)
qed (use assms(2) in \<open>auto simp: row_simps op_tables claim_inv_def\<close>)

lemma empty_claim_inv: "claim_inv od empty_ledger"
  by (simp add: claim_inv_def empty_ledger_def claims_ok_def caps_ok_def creds_ok_def one_live_def
      cap_link_def cred_link_def)

lemma empty_events_ok: "events_ok rids (run_events empty_ledger)"
  by (simp add: empty_ledger_def events_ok_def run_seqs_def)

lemma empty_outbox_ok: "outbox_ok (side_effects empty_ledger)"
  by (simp add: empty_ledger_def outbox_ok_def)

text \<open>All the invariants of a reachable ledger.\<close>

definition ledger_inv :: "(string \<Rightarrow> int option) \<Rightarrow> ledger \<Rightarrow> bool" where
  "ledger_inv od db \<longleftrightarrow> claim_inv od db \<and> runs_ok (runs db) \<and> events_ok (run_id ` set (runs db)) (run_events db)
     \<and> bindings_ok (bindings db) \<and> receipts_ok (receipts db) \<and> outbox_ok (side_effects db)"

lemma step_ledger_inv: "ledger_step sh od db db' \<Longrightarrow> ledger_inv od db \<Longrightarrow> ledger_inv od db'"
  using step_claim_inv [of sh od db db'] step_runs(1) [of sh od db db'] step_events_ok [of sh od db db']
    step_bindings_ok [of sh od db db'] step_receipts_ok [of sh od db db']
    outbox_ok_grow [OF step_outbox [of sh od db db']]
  by (simp add: ledger_inv_def)

lemma after_ledger_inv: "ledger_after sh od db db' \<Longrightarrow> ledger_inv od db \<Longrightarrow> ledger_inv od db'"
  by (induction rule: ledger_after.induct) (auto intro: step_ledger_inv)

lemma reach_ledger_inv: "ledger_reach sh od db \<Longrightarrow> ledger_inv od db"
proof -
  have "ledger_inv od empty_ledger"
    using empty_claim_inv empty_events_ok empty_outbox_ok
    by (simp add: ledger_inv_def empty_ledger_def runs_ok_def bindings_ok_def receipts_ok_def)
  then show "ledger_reach sh od db \<Longrightarrow> ledger_inv od db"
    using after_ledger_inv unfolding ledger_reach_def by blast
qed

end
