(* ===== verification/LedgerUse.thy ===== *)
theory LedgerUse
  imports LedgerClaimInv
begin

section \<open>Spent authority stays spent; what the gate resolves to\<close>

text \<open>
  A consumed capability and a consumed credential keep their receipt through every later step, so
  an exact replay finds it again. The resolver at use time picks the last claim of the highest
  attempt and nothing else.
\<close>

subsection \<open>Consumed capabilities\<close>

definition cap_kept :: "capability_row \<Rightarrow> capability_row \<Rightarrow> bool" where
  "cap_kept c c' \<longleftrightarrow> cap_token_hash c' = cap_token_hash c \<and> cap_id c' = cap_id c
     \<and> cap_consumed_at c' = cap_consumed_at c \<and> cap_consumed_claim_id c' = cap_consumed_claim_id c"

lemma cap_kept_refl [simp]: "cap_kept c c"
  by (simp add: cap_kept_def)

lemma in_map_kept: "c \<in> set cs \<Longrightarrow> cap_kept c (f c) \<Longrightarrow> \<exists>c' \<in> set (map f cs @ ds). cap_kept c c'"
  by auto

lemma consumed_other:
  assumes "caps_ok od caps" and "c \<in> set caps" and "cap_consumed_at c \<noteq> None"
    and "cap \<in> set caps" and "cap_consumed_at cap = None"
  shows "cap_id c \<noteq> cap_id cap"
proof -
  have "distinct (map cap_id caps)" using assms(1) dense_distinct by (simp add: caps_ok_def)
  then show ?thesis using assms by (auto simp: distinct_map inj_on_def)
qed

lemma step_cap_kept:
  assumes "ledger_step sh od db db'" and inv: "claim_inv od db"
    and c: "c \<in> set (capabilities db)" "cap_consumed_at c \<noteq> None"
  shows "\<exists>c' \<in> set (capabilities db'). cap_kept c c'"
  using assms(1)
proof (cases rule: step_cases)
  case (issue env i k token)
  have "capabilities db' = map (supersede_capability (is_run_id i) (is_node_id i) (is_attempt i)) (capabilities db)
      @ [(issued_capability env i (sha256 env (fresh_token env)))
          \<lparr>cap_id := sql_max (map cap_id (capabilities (supersede_capabilities i db))) + 1\<rparr>]"
    using issue_ok(9) [OF issue(3)] by (simp add: with_capability_def supersede_capabilities_def)
  then show ?thesis using in_map_kept [OF c(1)] by (simp add: cap_kept_def del: set_append)
next
  case (renew env k req now e)
  let ?f = "\<lambda>x. if cap_id x = k then x\<lparr>cap_expires_at := e\<rparr> else x"
  have "capabilities db' = map ?f (capabilities db) @ []" using renew_ok [OF renew(3)] by auto
  moreover have kept: "cap_kept c (?f c)" by (simp add: cap_kept_def)
  ultimately show ?thesis
    using in_map_kept [where f = ?f and ds = "[]", OF c(1) kept] by (simp only:)
next
  case (submit env i nowIso run cap k q)
  let ?f = "\<lambda>x. if cap_id x = cap_id cap
    then x\<lparr>cap_consumed_at := Some nowIso, cap_consumed_claim_id := Some (next_claim_id db)\<rparr> else x"
  have "cap_id c \<noteq> cap_id cap"
    using inv c submit by (intro consumed_other [of od "capabilities db"]) (auto simp: claim_inv_def)
  then have kept: "cap_kept c (?f c)" by simp
  have "capabilities db' = map ?f (capabilities db) @ []"
    using write_runner_claim_ok(4) [OF submit(8)] by (simp add: consume_caps row_simps)
  with in_map_kept [where f = ?f and ds = "[]", OF c(1) kept] show ?thesis by (simp only:)
next
  case (credential env i ex nowIso run cr k q)
  let ?n = "next_capability_id db"
  let ?f = "\<lambda>x. if cap_id x = ?n
    then x\<lparr>cap_consumed_at := Some nowIso, cap_consumed_claim_id := Some (next_claim_id db)\<rparr> else x"
  have "cap_id c \<noteq> ?n"
    using c(1) sql_max_ge [of "cap_id c" "map cap_id (capabilities db)"] by (auto simp: next_capability_id_def)
  then have kept: "cap_kept c (?f c)" by simp
  have "\<exists>ds. capabilities db' = map ?f (capabilities db) @ ds"
    using write_credential_claim_ok(5) [OF credential(8)]
    by (simp add: consume_caps row_simps with_capability_def)
  then obtain ds where "capabilities db' = map ?f (capabilities db) @ ds" ..
  with in_map_kept [where f = ?f and ds = ds, OF c(1) kept] show ?thesis by (simp only:)
next
  case (batch env i res)
  from batch_tables [OF this] have "capabilities db' = capabilities db" by (simp add: same_claim_tables_def)
  with c(1) show ?thesis by (intro bexI [of _ c]) simp_all
qed (simp_all add: row_simps op_tables bexI [OF cap_kept_refl c(1)])

lemma after_cap_kept:
  assumes "ledger_after sh od db db'" and "claim_inv od db"
    and "c \<in> set (capabilities db)" and "cap_consumed_at c \<noteq> None"
  shows "claim_inv od db' \<and> (\<exists>c' \<in> set (capabilities db'). cap_kept c c')"
  using assms
proof (induction rule: ledger_after.induct)
  case start
  then show ?case using cap_kept_refl by blast
next
  case (more db' db'')
  then obtain c' where c': "claim_inv od db'" "c' \<in> set (capabilities db')" "cap_kept c c'" by auto
  then have "cap_consumed_at c' \<noteq> None" using more(6) by (simp add: cap_kept_def)
  from step_cap_kept [OF more(2) c'(1,2) this] obtain c'' where
    "c'' \<in> set (capabilities db'')" "cap_kept c' c''" by blast
  with c'(3) step_claim_inv [OF more(2) c'(1)] show ?case by (auto simp: cap_kept_def)
qed

subsection \<open>Consumed credentials\<close>

definition cred_kept :: "credential_row \<Rightarrow> credential_row \<Rightarrow> bool" where
  "cred_kept c c' \<longleftrightarrow> cred_hash c' = cred_hash c \<and> cred_id c' = cred_id c
     \<and> cred_consumed_at c' = cred_consumed_at c \<and> cred_claim_id c' = cred_claim_id c
     \<and> cred_consumed_submission_digest c' = cred_consumed_submission_digest c
     \<and> cred_consumed_client_request_id c' = cred_consumed_client_request_id c"

lemma cred_kept_refl [simp]: "cred_kept c c"
  by (simp add: cred_kept_def)

lemma step_cred_kept:
  assumes "ledger_step sh od db db'" and inv: "claim_inv od db"
    and c: "c \<in> set (credentials db)" "cred_consumed_at c \<noteq> None"
  shows "\<exists>c' \<in> set (credentials db'). cred_kept c c'"
  using assms(1)
proof (cases rule: step_cases)
  case (admit env i now k token)
  let ?f = "supersede_credential (ad_run_id i) (ad_node_id i) (int_of_number (ad_attempt i))"
  have "\<exists>ds. credentials db' = map ?f (credentials db) @ ds"
    using admit_ok(6) [OF admit(3)] by (simp add: with_credential_def row_simps supersede_credentials_def)
  moreover have "cred_kept c (?f c)" by (simp add: cred_kept_def)
  ultimately show ?thesis using c(1) by auto
next
  case (credential env i ex nowIso run cr k q)
  have "distinct (map cred_id (credentials db))"
    using inv dense_distinct by (simp add: claim_inv_def creds_ok_def)
  then have "cred_id c \<noteq> cred_id cr" using c credential(3,4) by (auto simp: distinct_map inj_on_def)
  then show ?thesis using c(1) write_credential_claim_ok(5) [OF credential(8)]
    by (auto simp: consume_credential_def row_simps intro!: bexI [of _ c])
next
  case (batch env i res)
  from batch_tables [OF this] have "credentials db' = credentials db" by (simp add: same_claim_tables_def)
  with c(1) show ?thesis by (intro bexI [of _ c]) simp_all
qed (simp_all add: row_simps op_tables bexI [OF cred_kept_refl c(1)])

lemma after_cred_kept:
  assumes "ledger_after sh od db db'" and "claim_inv od db"
    and "c \<in> set (credentials db)" and "cred_consumed_at c \<noteq> None"
  shows "claim_inv od db' \<and> (\<exists>c' \<in> set (credentials db'). cred_kept c c')"
  using assms
proof (induction rule: ledger_after.induct)
  case start
  then show ?case using cred_kept_refl by blast
next
  case (more db' db'')
  then obtain c' where c': "claim_inv od db'" "c' \<in> set (credentials db')" "cred_kept c c'" by auto
  then have "cred_consumed_at c' \<noteq> None" using more(6) by (simp add: cred_kept_def)
  from step_cred_kept [OF more(2) c'(1,2) this] obtain c'' where
    "c'' \<in> set (credentials db'')" "cred_kept c' c''" by blast
  with c'(3) step_claim_inv [OF more(2) c'(1)] show ?case by (auto simp: cred_kept_def)
qed

subsection \<open>Append-only over histories\<close>

lemma after_prefixes:
  assumes "ledger_after sh od db db'"
  shows "prefix (claims db) (claims db') \<and> prefix (run_events db) (run_events db')
    \<and> prefix (revocations db) (revocations db') \<and> prefix (bindings db) (bindings db')
    \<and> prefix (receipts db) (receipts db')"
  using assms
proof (induction rule: ledger_after.induct)
  case start
  then show ?case by simp
next
  case (more db' db'')
  have "prefix (receipts db') (receipts db'')" using step_receipts [OF more(2)] by auto
  with more.IH step_claims_prefix [OF more(2)] events_grow_prefix [OF step_events [OF more(2)]]
    step_revocations_prefix [OF more(2)] step_bindings_prefix [OF more(2)]
  show ?case by (meson prefix_order.trans)
qed

lemma claim_by_id:
  assumes "claims_ok od (claims db)" and "c \<in> set (claims db)"
  shows "getWorkflowClaim db (cl_id c) = Some c"
proof -
  have "distinct (map cl_id (claims db))" using assms(1) dense_distinct by (simp add: claims_ok_def)
  then show ?thesis unfolding getWorkflowClaim_def using assms(2) by (rule find_unique)
qed

lemma find_capability_row:
  assumes "caps_ok od (capabilities db)" and "c \<in> set (capabilities db)"
  shows "find_capability db (cap_token_hash c) = Some c"
  unfolding find_capability_def using assms find_unique [of cap_token_hash "capabilities db" c]
  by (simp add: caps_ok_def)

lemma find_credential_row:
  assumes "creds_ok od bs (credentials db)" and "c \<in> set (credentials db)"
  shows "find_credential db (cred_hash c) = Some c"
  unfolding find_credential_def using assms find_unique [of cred_hash "credentials db" c]
  by (simp add: creds_ok_def)

subsection \<open>Resolution\<close>

lemma fold_later:
  "let r = fold later_claim cs c in r \<in> insert c (set cs) \<and> (\<forall>d \<in> insert c (set cs). cl_server_seq d \<le> cl_server_seq r)"
proof (induction cs arbitrary: c)
  case Nil
  then show ?case by simp
next
  case (Cons d cs)
  have "later_claim d c \<in> {c, d} \<and> cl_server_seq c \<le> cl_server_seq (later_claim d c)
      \<and> cl_server_seq d \<le> cl_server_seq (later_claim d c)"
    by (simp add: later_claim_def)
  with Cons.IH [of "later_claim d c"] show ?case by (fastforce simp: Let_def)
qed

lemma candidate_in:
  assumes "rows \<noteq> []"
  shows "candidate_claim rows \<in> set rows \<and> (\<forall>d \<in> set rows. cl_server_seq d \<le> cl_server_seq (candidate_claim rows))"
proof -
  obtain c cs where "rows = c # cs" using assms by (cases rows) auto
  with fold_later [of cs c] show ?thesis by (simp add: candidate_claim_def Let_def)
qed

lemma top_claims_max:
  assumes "rows \<noteq> []"
  shows "top_claims rows \<noteq> [] \<and> (\<forall>c. c \<in> set (top_claims rows) \<longleftrightarrow>
    c \<in> set rows \<and> (\<forall>d \<in> set rows. attempt_of d \<le> attempt_of c))"
proof -
  let ?m = "sql_max (map attempt_of rows)"
  have m: "?m \<in> attempt_of ` set rows" using sql_max_in [of "map attempt_of rows"] assms by simp
  have ge: "attempt_of d \<le> ?m" if "d \<in> set rows" for d using sql_max_ge [of "attempt_of d" "map attempt_of rows"] that by simp
  have "top_claims rows \<noteq> []" using m by (auto simp: top_claims_def filter_empty_conv)
  moreover have "c \<in> set (top_claims rows) \<longleftrightarrow> c \<in> set rows \<and> (\<forall>d \<in> set rows. attempt_of d \<le> attempt_of c)" for c
    using m ge by (fastforce simp: top_claims_def)
  ultimately show ?thesis by blast
qed

text \<open>The claim a gate may act on.\<close>

definition gate_claim :: "run_env \<Rightarrow> resolve_input \<Rightarrow> string \<Rightarrow> ledger \<Rightarrow> claim_row \<Rightarrow> bool" where
  "gate_claim env i nowIso db c \<longleftrightarrow> c \<in> set (claims db) \<and> resolve_match i c
     \<and> (\<forall>d \<in> set (claims db). resolve_match i d \<longrightarrow>
          attempt_of d < attempt_of c
          \<or> attempt_of d = attempt_of c \<and> cl_server_seq d \<le> cl_server_seq c \<and> cl_predicate d = cl_predicate c)
     \<and> (\<forall>r \<in> set (revocations db). rev_claim_id r \<noteq> cl_id c)
     \<and> (cl_permanent c \<or> \<not> workflowExpired env (or_else (cl_expires_at c) ''null'') nowIso)
     \<and> cl_predicate c \<in> set PASSING_PREDICATES"

lemma resolve_iff_gate:
  assumes "distinct (map cl_server_seq (claims db))"
    and "workflowFiniteTimestamp env (or_else now (now_iso env))"
  shows "resolveWorkflowDecisionClaim env i now db = Inr c \<longleftrightarrow> gate_claim env i (or_else now (now_iso env)) db c"
proof -
  let ?rows = "filter (resolve_match i) (claims db)"
  let ?top = "top_claims ?rows"
  let ?cand = "candidate_claim ?top"
  let ?n = "or_else now (now_iso env)"
  show ?thesis
  proof (cases "?rows = []")
    case True
    then show ?thesis using assms(2)
      by (auto simp: resolveWorkflowDecisionClaim_def Let_def gate_claim_def filter_empty_conv)
  next
    case False
    note top = top_claims_max [OF False]
    have cand: "?cand \<in> set ?top" "\<And>d. d \<in> set ?top \<Longrightarrow> cl_server_seq d \<le> cl_server_seq ?cand"
      using candidate_in top by auto
    have res: "resolveWorkflowDecisionClaim env i now db = Inr c \<longleftrightarrow>
        c = ?cand \<and> (\<forall>r \<in> set ?top. cl_predicate r = cl_predicate c)
        \<and> (\<forall>r \<in> set (revocations db). rev_claim_id r \<noteq> cl_id c)
        \<and> (cl_permanent c \<or> \<not> workflowExpired env (or_else (cl_expires_at c) ''null'') ?n)
        \<and> cl_predicate c \<in> set PASSING_PREDICATES"
      using False assms(2) by (auto simp: resolveWorkflowDecisionClaim_def Let_def list_ex_iff)
    have "c = ?cand \<longleftrightarrow> c \<in> set ?top \<and> (\<forall>d \<in> set ?top. cl_server_seq d \<le> cl_server_seq c)"
    proof
      assume "c = ?cand"
      with cand show "c \<in> set ?top \<and> (\<forall>d \<in> set ?top. cl_server_seq d \<le> cl_server_seq c)" by simp
    next
      assume c: "c \<in> set ?top \<and> (\<forall>d \<in> set ?top. cl_server_seq d \<le> cl_server_seq c)"
      then have "cl_server_seq c = cl_server_seq ?cand" using cand by (meson order.antisym)
      moreover have "c \<in> set (claims db)" "?cand \<in> set (claims db)" using c cand(1) top by auto
      ultimately show "c = ?cand" using assms(1) by (auto simp: distinct_map inj_on_def)
    qed
    moreover have "c \<in> set ?top \<and> (\<forall>d \<in> set ?top. cl_server_seq d \<le> cl_server_seq c \<and> cl_predicate d = cl_predicate c) \<longleftrightarrow>
      c \<in> set (claims db) \<and> resolve_match i c \<and> (\<forall>d \<in> set (claims db). resolve_match i d \<longrightarrow>
          attempt_of d < attempt_of c
          \<or> attempt_of d = attempt_of c \<and> cl_server_seq d \<le> cl_server_seq c \<and> cl_predicate d = cl_predicate c)"
      (is "?L \<longleftrightarrow> ?R")
    proof
      assume L: ?L
      then have c: "c \<in> set ?rows" "\<forall>d \<in> set ?rows. attempt_of d \<le> attempt_of c" using top by blast+
      have "attempt_of d < attempt_of c \<or> attempt_of d = attempt_of c \<and> cl_server_seq d \<le> cl_server_seq c
          \<and> cl_predicate d = cl_predicate c" if "d \<in> set ?rows" for d
      proof (cases "attempt_of d = attempt_of c")
        case True
        with that c have "d \<in> set ?top" using top by metis
        with L True show ?thesis by blast
      next
        case False
        with that c(2) show ?thesis by force
      qed
      with c(1) show ?R by simp
    next
      assume R: ?R
      then have c: "c \<in> set ?rows" "\<forall>d \<in> set ?rows. attempt_of d \<le> attempt_of c" by force+
      then have "c \<in> set ?top" using top by blast
      moreover have "cl_server_seq d \<le> cl_server_seq c \<and> cl_predicate d = cl_predicate c" if "d \<in> set ?top" for d
      proof -
        have "d \<in> set ?rows" "attempt_of c \<le> attempt_of d" using that top c(1) by blast+
        with R show ?thesis by force
      qed
      ultimately show ?L by blast
    qed
    ultimately show ?thesis unfolding res gate_claim_def by blast
  qed
qed

end
