(* ===== verification/LedgerDemo.thy ===== *)
theory LedgerDemo
  imports LedgerUse
begin

section \<open>A concrete history\<close>

text \<open>
  A short run of the ledger the witnesses use: create a run, admit the QA execution, submit its
  verdict by credential; issue a review capability and submit by token. Every state is computed.
\<close>

fun run_all :: "(run_env \<times> ledger_call) list \<Rightarrow> ledger \<Rightarrow> (ledger_throw, ledger) result" where
  "run_all [] db = Inr db"
| "run_all ((env, c) # xs) db = and_then (run_call env c db) (run_all xs)"

lemma run_all_after:
  "run_all xs db = Inr db' \<Longrightarrow> \<forall>(env, c) \<in> set xs. sha256 env = sh \<and> other_date env = od \<Longrightarrow>
     ledger_after sh od db db'"
proof (induction xs arbitrary: db)
  case Nil
  then show ?case by (auto intro: start)
next
  case (Cons x xs)
  obtain env c where x: "x = (env, c)" by (cases x)
  with Cons.prems obtain db1 where db1: "run_call env c db = Inr db1" "run_all xs db1 = Inr db'"
    by (auto simp: and_then_ok)
  have "ledger_step sh od db db1" using Cons.prems(2) x db1(1) by (intro call) auto
  then have "ledger_after sh od db db1" using more [OF start] by blast
  moreover have "ledger_after sh od db1 db'" using Cons.IH [OF db1(2)] Cons.prems(2) x by auto
  ultimately show ?case by (rule ledger_after_trans)
qed

definition T0 :: string where "T0 = ''2026-01-01T00:00:00.000Z''"
definition T1 :: string where "T1 = ''2026-01-01T01:00:00.000Z''"
definition T2 :: string where "T2 = ''2026-01-01T02:00:00.000Z''"
definition T3 :: string where "T3 = ''2026-01-02T00:00:00.000Z''"

definition demo_sha :: "string \<Rightarrow> string" where "demo_sha s = CHR ''h'' # s"
definition demo_dates :: "string \<Rightarrow> int option" where "demo_dates s = None"

definition demo_env :: "string \<Rightarrow> string \<Rightarrow> run_env" where
  "demo_env now tok = \<lparr>now_iso = now, sql_now = ''2026-01-01 00:00:00'', fresh_token = tok,
     sha256 = demo_sha, other_date = demo_dates\<rparr>"

definition demo_admit :: admit_input where
  "demo_admit = \<lparr>ad_run_id = ''r1'', ad_node_id = ''qa'', ad_execution_id = ''e1'', ad_attempt = JsInt 1,
     ad_family = ''qa_verdict'', ad_expires_at = T1, ad_absolute_deadline_at = T2\<rparr>"

definition demo_verdict :: submit_input where
  "demo_verdict = \<lparr>si_client_request_id = ''q1'', si_predicate = ''qa_passed'', si_subject_kind = ''git_head'',
     si_subject_digest = ''abc'', si_issuer_vendor = ''codex'', si_issuer_model = ''m'',
     si_subject_producer_execution_id = Some ''e0'', si_subject_producer_vendor = Some ''claude'',
     si_claim_expires_at = Some T3, si_evidence = None\<rparr>"

definition demo_issue :: issue_input where
  "demo_issue = \<lparr>is_run_id = ''r1'', is_node_id = ''review'', is_execution_id = ''e2'', is_attempt = 1,
     is_family = ''review_verdict'', is_manifest_revision = None, is_evidence_schema_version = None,
     is_expected_subject_digest = None, is_expires_at = T1, is_absolute_deadline_at = T2\<rparr>"

definition demo_review :: submit_input where
  "demo_review = demo_verdict\<lparr>si_client_request_id := ''q2'', si_predicate := ''codex_approved''\<rparr>"

definition demo_system :: system_input where
  "demo_system = \<lparr>sy_issuer_kind = ''bridge_policy'', sy_run_id = ''r1'', sy_issue_id = ''ISS-1'',
     sy_decision_kind = ''qa_policy'', sy_predicate = ''qa_exempt'', sy_subject_kind = ''snapshot_digest'',
     sy_subject_digest = ''snap'', sy_node_id = None, sy_attempt = None, sy_expires_at = None,
     sy_permanent = Some True, sy_evidence = None, sy_authority_id = ''policy''\<rparr>"

definition demo_created :: "(run_env \<times> ledger_call) list" where
  "demo_created = [(demo_env T0 ''k0'', Create_run ''r1'' ''ISS-1'' ''proj'' None None None False)]"

definition demo_admitted :: "(run_env \<times> ledger_call) list" where
  "demo_admitted = demo_created @ [(demo_env T0 ''k1'', Admit demo_admit None)]"

definition demo_spent :: "(run_env \<times> ledger_call) list" where
  "demo_spent = demo_admitted @ [(demo_env T0 ''k2'', Submit_credential ''k1'' demo_verdict T3 None)]"

definition demo_issued :: "(run_env \<times> ledger_call) list" where
  "demo_issued = demo_spent @ [(demo_env T0 ''k3'', Issue demo_issue)]"

definition demo_reviewed :: "(run_env \<times> ledger_call) list" where
  "demo_reviewed = demo_issued @ [(demo_env T0 ''k4'', Submit ''k3'' demo_review None)]"

definition demo_all :: "(run_env \<times> ledger_call) list" where
  "demo_all = demo_reviewed @ [(demo_env T0 ''k5'', System_claim demo_system)]"

definition ledger_of :: "(run_env \<times> ledger_call) list \<Rightarrow> ledger" where
  "ledger_of xs = (case run_all xs empty_ledger of Inl _ \<Rightarrow> empty_ledger | Inr db \<Rightarrow> db)"

lemmas demo_defs = demo_all_def demo_reviewed_def demo_issued_def demo_spent_def demo_admitted_def
  demo_created_def

lemma demo_all_ok: "is_ok (run_all demo_all empty_ledger)" by code_simp

lemma run_all_append: "run_all (xs @ ys) db = and_then (run_all xs db) (run_all ys)"
proof (induction xs arbitrary: db)
  case Nil
  then show ?case by simp
next
  case (Cons x xs)
  then show ?case by (cases x) (simp add: and_then_def split: sum.split)
qed

lemma demo_prefix_ok:
  "is_ok (run_all demo_reviewed empty_ledger)" "is_ok (run_all demo_issued empty_ledger)"
  "is_ok (run_all demo_spent empty_ledger)" "is_ok (run_all demo_admitted empty_ledger)"
  "is_ok (run_all demo_created empty_ledger)"
  using demo_all_ok by (auto simp: demo_defs run_all_append is_ok_iff and_then_ok)

lemma run_all_ledger_of: "is_ok (run_all xs empty_ledger) \<Longrightarrow> run_all xs empty_ledger = Inr (ledger_of xs)"
  by (auto simp: ledger_of_def is_ok_iff)

lemma demo_envs: "\<forall>(env, c) \<in> set demo_all. sha256 env = demo_sha \<and> other_date env = demo_dates"
  by (simp add: demo_defs demo_env_def)

lemma demo_reach:
  "ledger_reach demo_sha demo_dates (ledger_of demo_all)"
  "ledger_reach demo_sha demo_dates (ledger_of demo_reviewed)"
  "ledger_reach demo_sha demo_dates (ledger_of demo_issued)"
  "ledger_reach demo_sha demo_dates (ledger_of demo_spent)"
  "ledger_reach demo_sha demo_dates (ledger_of demo_admitted)"
  "ledger_reach demo_sha demo_dates (ledger_of demo_created)"
  using demo_envs run_all_after [OF run_all_ledger_of] demo_all_ok demo_prefix_ok
  by (simp_all add: ledger_reach_def demo_defs)

lemma demo_extend:
  assumes "is_ok (run_all (xs @ ys) empty_ledger)"
    and "\<forall>(env, c) \<in> set ys. sha256 env = demo_sha \<and> other_date env = demo_dates"
  shows "ledger_after demo_sha demo_dates (ledger_of xs) (ledger_of (xs @ ys))"
proof -
  have "run_all ys (ledger_of xs) = Inr (ledger_of (xs @ ys))"
    using assms(1) by (auto simp: ledger_of_def run_all_append is_ok_iff and_then_ok)
  then show ?thesis using assms(2) by (rule run_all_after)
qed

end
