(* ===== verification/LedgerProps.thy ===== *)
theory LedgerProps
  imports LedgerDemo
begin

section \<open>What the workflow ledger guarantees\<close>

text \<open>
  The properties of the claims ledger over every history of calls: append-only tables and gap-free
  numbering, one claim per capability, closed vocabulary, expiry windows, idempotent replay,
  refusals without effect, and the exact meaning of a gate that opens.
\<close>

subsection \<open>History and numbering\<close>

text \<open>C34: whatever calls follow, the rows of claims, run events, revocations, execution bindings
  and source receipts recorded so far stay, unchanged and in place: the tables only grow at the
  end.\<close>

theorem history_append_only:
  assumes "ledger_after sh od db db'"
  shows "prefix (claims db) (claims db') \<and> prefix (run_events db) (run_events db')
    \<and> prefix (revocations db) (revocations db') \<and> prefix (bindings db) (bindings db')
    \<and> prefix (receipts db) (receipts db')"
  using after_prefixes [OF assms] .

lemma demo_spent_after: "ledger_after demo_sha demo_dates (ledger_of demo_spent) (ledger_of demo_all)"
proof -
  have eq: "demo_all = demo_spent @ [(demo_env T0 ''k3'', Issue demo_issue),
      (demo_env T0 ''k4'', Submit ''k3'' demo_review None), (demo_env T0 ''k5'', System_claim demo_system)]"
    by (simp add: demo_defs)
  show ?thesis unfolding eq using demo_all_ok [unfolded eq]
    by (rule demo_extend) (simp add: demo_env_def)
qed

theorem history_append_only_witness: "prefix (claims (ledger_of demo_spent)) (claims (ledger_of demo_all))"
  using history_append_only [OF demo_spent_after] by blast

lemma sort_key_sorted: "sorted (map k xs) \<Longrightarrow> sort_key k xs = xs"
  by (simp add: sorted_sort_id sort_key_id_if_sorted)

text \<open>In every reachable ledger the server sequence numbers of the claims are 1, 2, 3, ... in
  table order, event uids are unique, and the events of each run, as \<open>listWorkflowRunEvents\<close>
  returns them, are numbered 1, 2, 3, ... without a gap.\<close>

theorem sequences_gap_free:
  assumes "ledger_reach sh od db"
  shows "map cl_server_seq (claims db) = map int [1..<Suc (length (claims db))]
    \<and> distinct (map ev_uid (run_events db))
    \<and> map ev_seq (listWorkflowRunEvents db r) = map int [1..<Suc (length (listWorkflowRunEvents db r))]"
proof -
  have inv: "ledger_inv od db" using reach_ledger_inv [OF assms] .
  let ?evs = "filter (\<lambda>e. ev_run_id e = r) (run_events db)"
  have d: "dense (map ev_seq ?evs)" using inv by (simp add: ledger_inv_def events_ok_def run_seqs_def)
  then have "sorted (map ev_seq ?evs)" unfolding dense_def
    by (metis sorted_upt sorted_wrt_map_mono of_nat_le_iff)
  then have "listWorkflowRunEvents db r = ?evs" by (simp add: listWorkflowRunEvents_def sort_key_sorted)
  with inv d show ?thesis
    by (simp add: ledger_inv_def claim_inv_def claims_ok_def events_ok_def dense_def del: upt_Suc)
qed

theorem sequences_gap_free_witness:
  "map cl_server_seq (claims (ledger_of demo_all)) = map int [1..<Suc (length (claims (ledger_of demo_all)))]"
  using sequences_gap_free [OF demo_reach(1)] by blast

subsection \<open>Authority\<close>

lemma string_of_int_pos_inj: "0 \<le> i \<Longrightarrow> 0 \<le> j \<Longrightarrow> string_of_int i = string_of_int j \<Longrightarrow> i = j"
  using digits_of_inj [of "nat i" "nat j"] by (simp add: string_of_int_def)

text \<open>C1: a capability is one-shot. Every claim signed by a runner node names, as its authority, a
  capability of its run, node, attempt, execution and family that was consumed for this very
  claim, and no two runner claims have the same authority.\<close>

theorem capability_one_shot:
  assumes "ledger_reach sh od db" and "c \<in> set (claims db)" and "cl_issuer_kind c = ''runner_node''"
  shows "(\<exists>cap \<in> set (capabilities db). cap_consumed_at cap \<noteq> None \<and> authorises cap c)
    \<and> (\<forall>d \<in> set (claims db). cl_issuer_kind d = ''runner_node'' \<and> cl_authority_id d = cl_authority_id c \<longrightarrow> d = c)"
proof -
  have inv: "claim_inv od db" using reach_ledger_inv [OF assms(1)] by (simp add: ledger_inv_def)
  have link: "\<exists>cap \<in> set (capabilities db). authorises cap d"
    if "d \<in> set (claims db)" "cl_issuer_kind d = ''runner_node''" for d
    using inv that by (simp add: claim_inv_def cap_link_def)
  have consumed: "cap_consumed_at cap \<noteq> None" if "cap \<in> set (capabilities db)" "authorises cap d" for cap d
    using inv that by (auto simp: claim_inv_def cap_link_def authorises_def)
  obtain cap where cap: "cap \<in> set (capabilities db)" "authorises cap c" using link assms by blast
  have dc: "dense (map cap_id (capabilities db))" and dl: "dense (map cl_id (claims db))"
    using inv by (simp_all add: claim_inv_def caps_ok_def claims_ok_def)
  have "d = c" if d: "d \<in> set (claims db)" "cl_issuer_kind d = ''runner_node''" "cl_authority_id d = cl_authority_id c" for d
  proof -
    obtain cap' where cap': "cap' \<in> set (capabilities db)" "authorises cap' d" using link d by blast
    have "string_of_int (cap_id cap') = string_of_int (cap_id cap)"
      using cap(2) cap'(2) d(3) by (simp add: authorises_def)
    moreover have "1 \<le> cap_id cap" "1 \<le> cap_id cap'"
      using dense_pos [OF dc] cap(1) cap'(1) by simp_all
    ultimately have "cap_id cap' = cap_id cap" by (intro string_of_int_pos_inj) simp_all
    then have "cap' = cap" using dense_distinct [OF dc] cap(1) cap'(1) by (auto simp: distinct_map inj_on_def)
    then have "cl_id d = cl_id c" using cap(2) cap'(2) by (simp add: authorises_def)
    then show "d = c" using dense_distinct [OF dl] d(1) assms(2) by (auto simp: distinct_map inj_on_def)
  qed
  with cap consumed show ?thesis by blast
qed

lemma demo_runner_claim: "\<exists>c \<in> set (claims (ledger_of demo_spent)). cl_issuer_kind c = ''runner_node''"
proof -
  have "list_ex (\<lambda>c. cl_issuer_kind c = ''runner_node'') (claims (ledger_of demo_spent))" by code_simp
  then show ?thesis by (simp add: list_ex_iff)
qed

theorem capability_one_shot_witness:
  "\<exists>c \<in> set (claims (ledger_of demo_spent)). \<exists>cap \<in> set (capabilities (ledger_of demo_spent)). authorises cap c"
  using capability_one_shot [OF demo_reach(4)] demo_runner_claim by blast



text \<open>expiry windows hold for ever. Whatever was issued, renewed, admitted or minted, every
  capability and every submission credential expires no later than its absolute deadline, and a
  (run, node, attempt) has at most one live credential.\<close>

theorem expiry_within_deadline:
  assumes "ledger_reach sh od db"
  shows "list_all (\<lambda>c. window_ok od (cap_expires_at c) (cap_absolute_deadline_at c)) (capabilities db)
    \<and> list_all (\<lambda>c. window_ok od (cred_expires_at c) (cred_absolute_deadline_at c)) (credentials db)
    \<and> length (filter (live_credential r n a) (credentials db)) \<le> 1"
  using reach_ledger_inv [OF assms]
  by (simp add: ledger_inv_def claim_inv_def caps_ok_def creds_ok_def one_live_def list_all_iff)

theorem expiry_within_deadline_witness:
  "list_all (\<lambda>c. window_ok demo_dates (cap_expires_at c) (cap_absolute_deadline_at c)) (capabilities (ledger_of demo_all))"
  using expiry_within_deadline [OF demo_reach(1)] by blast

end
