(* ===== verification/LedgerGate.thy ===== *)
theory LedgerGate
  imports LedgerProps
begin

section \<open>Submission, replay, refusal and the gate\<close>

text \<open>
  Properties of the submission calls: cross-vendor review, replay by token, and refusals
  that leave the ledger as it was.
\<close>

subsection \<open>Submission\<close>

lemma runner_predicates_review:
  assumes "f \<in> set RUNNER_CAPABILITY_FAMILIES" and "listed WORKFLOW_DECISION_FAMILIES f p"
  shows "p \<in> set REVIEW_CLASS_PREDICATES"
  using assms by (auto simp: RUNNER_CAPABILITY_FAMILIES_def listed_def WORKFLOW_DECISION_FAMILIES_def
      REVIEW_CLASS_PREDICATES_def split: if_splits)

lemma review_checked:
  assumes "review_refusal i = None" and "si_predicate i \<in> set REVIEW_CLASS_PREDICATES"
  shows "\<exists>e v. si_subject_producer_execution_id i = Some e \<and> si_subject_producer_vendor i = Some v
    \<and> v \<noteq> si_issuer_vendor i"
  using assms by (auto simp: review_refusal_def truthy_iff split: if_splits)


lemma demo_submission:
  "\<exists>k q db'. submitWorkflowDecisionByCredential (demo_env T0 ''k2'') ''k1'' demo_verdict T3 None (ledger_of demo_admitted)
     = Inr (Inr (k, q, False), db') \<and> db' = ledger_of demo_spent"
proof -
  have step: "keep_ledger (submitWorkflowDecisionByCredential (demo_env T0 ''k2'') ''k1'' demo_verdict T3 None
      (ledger_of demo_admitted)) = Inr (ledger_of demo_spent)"
    using demo_prefix_ok(3) by (auto simp: demo_spent_def ledger_of_def run_all_append is_ok_iff and_then_ok)
  then obtain r where r: "submitWorkflowDecisionByCredential (demo_env T0 ''k2'') ''k1'' demo_verdict T3 None
      (ledger_of demo_admitted) = Inr (r, ledger_of demo_spent)"
    by (auto simp: keep_ledger_ok)
  have "list_all (\<lambda>c. cred_consumed_at c = None) (credentials (ledger_of demo_admitted))" by code_simp
  then have unspent: "cred_consumed_at c = None" if "find_credential (ledger_of demo_admitted) h = Some c" for h c
    using that by (auto simp: find_credential_def list_all_iff dest: find_Some_iff')
  have "claims (ledger_of demo_spent) \<noteq> []" using demo_runner_claim by auto
  moreover have "claims (ledger_of demo_admitted) = []" by code_simp
  ultimately have ne: "ledger_of demo_spent \<noteq> ledger_of demo_admitted" by auto
  show ?thesis
  proof (cases r)
    case (Inl e)
    with r ne submit_credential_refused show ?thesis by blast
  next
    case (Inr x)
    then obtain k q rep where x: "r = Inr (k, q, rep)" by (cases x) auto
    from r [unfolded x] ne have "\<not> rep" by (cases rule: submit_credential_ok) auto
    with r x show ?thesis by auto
  qed
qed


text \<open>C39: a refusal leaves nothing behind. When issue, renewal, submission by token or credential,
  a system claim or an admission answers \<open>ok: false\<close>, the ledger is exactly as before.\<close>

theorem refusal_writes_nothing:
  "(issueWorkflowDecisionCapability env is db = Inr (Inl e, db') \<longrightarrow> db' = db)
   \<and> (renewWorkflowDecisionCapability env k req now db = Inr (Inl e, db') \<longrightarrow> db' = db)
   \<and> (submitWorkflowDecisionClaim env token i now db = Inr (Inl e, db') \<longrightarrow> db' = db)
   \<and> (submitWorkflowDecisionByCredential env token i ex now db = Inr (Inl e, db') \<longrightarrow> db' = db)
   \<and> (appendWorkflowSystemClaim env sy db = Inr (Inl e, db') \<longrightarrow> db' = db)
   \<and> (admitWorkflowExecution env ad now db = Inr (Inl e, db') \<longrightarrow> db' = db)"
  by (intro conjI impI) (erule issue_refused renew_refused submit_refused submit_credential_refused
      system_refused admit_refused)+

theorem refusal_writes_nothing_witness:
  "\<exists>db'. admitWorkflowExecution (demo_env T0 ''k1'') demo_admit None empty_ledger = Inr (Inl Run_not_found, db')
    \<and> db' = empty_ledger"
proof -
  have run: "admitWorkflowExecution (demo_env T0 ''k1'') demo_admit None empty_ledger = Inr (Inl Run_not_found, empty_ledger)"
    by code_simp
  have "admitWorkflowExecution (demo_env T0 ''k1'') demo_admit None empty_ledger = Inr (Inl Run_not_found, db')
      \<longrightarrow> db' = empty_ledger" for db'
    using refusal_writes_nothing [where env = "demo_env T0 ''k1''" and ad = demo_admit and now = None
        and db = empty_ledger and e = Run_not_found and db' = db'] by simp
  with run show ?thesis by blast
qed

subsection \<open>Replay\<close>

text \<open>C31: exact replay by token is idempotent for ever. Once a submission has written its claim,
  repeating it with the same token and payload answers with the same claim and sequence number
  and changes nothing, at any later time (expiry included) and after any other calls.\<close>

theorem token_replay:
  assumes "ledger_reach sh od db" and "sha256 env = sh" and "other_date env = od"
    and "submitWorkflowDecisionClaim env token i now db = Inr (Inr (k, q, False), db')"
    and "ledger_after sh od db' db''" and "sha256 env' = sh" and "other_date env' = od"
    and "workflowFiniteTimestamp env' (or_else now' (now_iso env'))"
  shows "submitWorkflowDecisionClaim env' token i now' db'' = Inr (Inr (k, q, True), db'')"
proof -
  have inv: "claim_inv od db" using reach_ledger_inv [OF assms(1)] by (simp add: ledger_inv_def)
  have step: "ledger_step sh od db db'"
    using assms(2-4) by (intro call [of env _ _ "Submit token i now"]) (auto simp: keep_ledger_ok)
  have inv': "claim_inv od db'" using step_claim_inv [OF step inv] .
  from assms(4) show ?thesis
  proof (cases rule: submit_claim_ok)
    case (fresh cap run)
    let ?n = "or_else now (now_iso env)"
    note w = write_runner_claim_ok [OF fresh(7)]
    let ?c = "(capability_claim env i run cap (nextWorkflowClaimSeq db))
       \<lparr>cl_id := next_claim_id db, cl_server_seq := nextWorkflowClaimSeq db\<rparr>"
    have cap: "cap \<in> set (capabilities db)" "cap_token_hash cap = sha256 env token"
      using fresh(2) by (auto simp: find_capability_def dest: find_Some_iff')
    let ?cap = "cap\<lparr>cap_consumed_at := Some ?n, cap_consumed_claim_id := Some (next_claim_id db)\<rparr>"
    have cap': "?cap \<in> set (capabilities db')" using cap(1) by (auto simp: w(4) row_simps consume_caps)
    have c: "?c \<in> set (claims db')"
      by (simp add: w(4) row_simps with_claim_def next_claim_id_def nextWorkflowClaimSeq_def)
    from after_cap_kept [OF assms(5) inv' cap'] obtain cap'' where
      inv'': "claim_inv od db''" and cap'': "cap'' \<in> set (capabilities db'')" "cap_kept ?cap cap''" by auto
    have kept: "cap_token_hash cap'' = sha256 env token" "cap_consumed_at cap'' = Some ?n"
        "cap_consumed_claim_id cap'' = Some (next_claim_id db)"
      using cap''(2) cap(2) by (simp_all add: cap_kept_def)
    have find: "find_capability db'' (sha256 env' token) = Some cap''"
      using find_capability_row [of od db'' cap''] cap''(1) inv'' kept(1) assms(2,6) by (simp add: claim_inv_def)
    have "?c \<in> set (claims db'')"
      using after_prefixes [OF assms(5)] c by (auto dest: set_mono_prefix)
    then have claim: "getWorkflowClaim db'' (next_claim_id db) = Some ?c"
      using claim_by_id [of od db'' ?c] inv'' by (simp add: claim_inv_def)
    have fin: "\<forall>e. si_claim_expires_at i = Some e \<longrightarrow> workflowFiniteTimestamp env' e"
      using fresh(5) assms(3,7) by (simp add: finite_date)
    have digest: "canonicalSubmissionDigest env' p = canonicalSubmissionDigest env p" for p
      using assms(2,6) by (simp add: canonicalSubmissionDigest_def)
    have kq: "k = next_claim_id db" "q = nextWorkflowClaimSeq db" using w(1) by simp_all
    show ?thesis
      using assms(8) fin kept find claim
      by (auto simp: submitWorkflowDecisionClaim_def hashCapabilityToken_def Let_def digest
          capability_claim_def kq split: option.splits)
  qed simp
qed

lemma demo_token_submission:
  "\<exists>k q. submitWorkflowDecisionClaim (demo_env T0 ''k4'') ''k3'' demo_review None (ledger_of demo_issued)
     = Inr (Inr (k, q, False), ledger_of demo_reviewed)"
proof -
  have step: "keep_ledger (submitWorkflowDecisionClaim (demo_env T0 ''k4'') ''k3'' demo_review None
      (ledger_of demo_issued)) = Inr (ledger_of demo_reviewed)"
    using demo_prefix_ok(1) by (auto simp: demo_reviewed_def ledger_of_def run_all_append is_ok_iff and_then_ok)
  then obtain r where r: "submitWorkflowDecisionClaim (demo_env T0 ''k4'') ''k3'' demo_review None
      (ledger_of demo_issued) = Inr (r, ledger_of demo_reviewed)"
    by (auto simp: keep_ledger_ok)
  have "length (claims (ledger_of demo_reviewed)) = 2" by code_simp
  moreover have "length (claims (ledger_of demo_issued)) = 1" by code_simp
  ultimately have ne: "ledger_of demo_reviewed \<noteq> ledger_of demo_issued" by auto
  show ?thesis
  proof (cases r)
    case (Inl e)
    with r ne submit_refused show ?thesis by blast
  next
    case (Inr x)
    then obtain k q rep where x: "r = Inr (k, q, rep)" by (cases x) auto
    from r [unfolded x] ne have "\<not> rep" by (cases rule: submit_claim_ok) auto
    with r x show ?thesis by auto
  qed
qed

lemma demo_reviewed_after: "ledger_after demo_sha demo_dates (ledger_of demo_reviewed) (ledger_of demo_all)"
  unfolding demo_all_def using demo_all_ok [unfolded demo_all_def]
  by (rule demo_extend) (simp add: demo_env_def)

theorem token_replay_witness:
  "\<exists>k q. submitWorkflowDecisionClaim (demo_env T3 ''k9'') ''k3'' demo_review None (ledger_of demo_all)
     = Inr (Inr (k, q, True), ledger_of demo_all)"
proof -
  obtain k q where "submitWorkflowDecisionClaim (demo_env T0 ''k4'') ''k3'' demo_review None (ledger_of demo_issued)
     = Inr (Inr (k, q, False), ledger_of demo_reviewed)" using demo_token_submission by blast
  note replay = token_replay [OF demo_reach(3) _ _ this demo_reviewed_after, of "demo_env T3 ''k9''" None]
  have "workflowFiniteTimestamp (demo_env T3 ''k9'') T3" by code_simp
  with replay show ?thesis by (auto simp: demo_env_def)
qed

end
