(* ===== verification/LedgerResolve.thy ===== *)
theory LedgerResolve
  imports LedgerGate
begin

section \<open>Credentials, source events, the outbox, and when a gate opens\<close>

text \<open>
  Replay by credential, the exact meaning of a gate that opens, and the finality of revocation.
\<close>

subsection \<open>Credential replay\<close>

text \<open>Exact replay by credential is idempotent for ever: after a submission has spent the
  credential, the same credential and payload give the same claim and sequence number and change
  nothing, after any other calls, and even when the credential has expired meanwhile.\<close>

theorem credential_replay_stable:
  assumes "ledger_reach sh od db" and "sha256 env = sh" and "other_date env = od"
    and "submitWorkflowDecisionByCredential env token i ex now db = Inr (Inr (k, q, False), db')"
    and "ledger_after sh od db' db''" and "sha256 env' = sh" and "other_date env' = od"
    and "workflowFiniteTimestamp env' (or_else now' (now_iso env'))"
  shows "submitWorkflowDecisionByCredential env' token i ex now' db'' = Inr (Inr (k, q, True), db'')"
proof -
  have inv: "claim_inv od db" using reach_ledger_inv [OF assms(1)] by (simp add: ledger_inv_def)
  have step: "ledger_step sh od db db'"
    using assms(2-4) by (intro call [of env _ _ "Submit_credential token i ex now"]) (auto simp: keep_ledger_ok)
  have inv': "claim_inv od db'" using step_claim_inv [OF step inv] .
  let ?i = "git_head_input i ex"
  from assms(4) show ?thesis
  proof (cases rule: submit_credential_ok)
    case (fresh c run)
    let ?n = "or_else now (now_iso env)"
    let ?k = "next_capability_id db"
    let ?d = "canonicalSubmissionDigest env (submission_payload ?i)"
    note w = write_credential_claim_ok [OF fresh(7)]
    let ?cl = "(credential_claim env ?i run c (nextWorkflowClaimSeq db) ?k)
       \<lparr>cl_id := next_claim_id db, cl_server_seq := nextWorkflowClaimSeq db\<rparr>"
    let ?c = "c\<lparr>cred_decision_capability_id := Some ?k, cred_consumed_at := Some ?n,
        cred_consumed_client_request_id := Some (si_client_request_id ?i),
        cred_consumed_submission_digest := Some ?d, cred_claim_id := Some (next_claim_id db)\<rparr>"
    have c: "c \<in> set (credentials db)" "cred_hash c = sha256 env token"
      using fresh(2) by (auto simp: find_credential_def dest: find_Some_iff')
    have c': "?c \<in> set (credentials db')" using c(1) by (auto simp: w(5) row_simps consume_credential_def)
    have cl: "?cl \<in> set (claims db')"
      by (simp add: w(5) row_simps with_claim_def next_claim_id_def nextWorkflowClaimSeq_def)
    from after_cred_kept [OF assms(5) inv' c'] obtain c'' where
      inv'': "claim_inv od db''" and c'': "c'' \<in> set (credentials db'')" "cred_kept ?c c''" by auto
    have kept: "cred_hash c'' = sha256 env token" "cred_consumed_at c'' = Some ?n"
        "cred_claim_id c'' = Some (next_claim_id db)" "cred_consumed_submission_digest c'' = Some ?d"
        "cred_consumed_client_request_id c'' = Some (si_client_request_id ?i)"
      using c''(2) c(2) by (simp_all add: cred_kept_def)
    have find: "find_credential db'' (sha256 env' token) = Some c''"
      using find_credential_row [of od "bindings db''" db'' c''] c''(1) inv'' kept(1) assms(2,6)
      by (simp add: claim_inv_def)
    have "?cl \<in> set (claims db'')"
      using after_prefixes [OF assms(5)] cl by (auto dest: set_mono_prefix)
    then have claim: "getWorkflowClaim db'' (next_claim_id db) = Some ?cl"
      using claim_by_id [of od db'' ?cl] inv'' by (simp add: claim_inv_def)
    have fin: "workflowFiniteTimestamp env' ex" using fresh(5) assms(3,7) by (simp add: finite_date)
    have digest: "canonicalSubmissionDigest env' p = canonicalSubmissionDigest env p" for p
      using assms(2,6) by (simp add: canonicalSubmissionDigest_def)
    have kq: "k = next_claim_id db" "q = nextWorkflowClaimSeq db" using w(1) by simp_all
    show ?thesis
      using assms(8) fin kept find claim
      by (simp add: submitWorkflowDecisionByCredential_def hashCapabilityToken_def Let_def digest
          credential_claim_def kq)
  qed simp
qed

theorem credential_replay_stable_witness:
  "\<exists>k q. submitWorkflowDecisionByCredential (demo_env T3 ''k9'') ''k1'' demo_verdict T3 None (ledger_of demo_all)
     = Inr (Inr (k, q, True), ledger_of demo_all)"
proof -
  obtain k q where "submitWorkflowDecisionByCredential (demo_env T0 ''k2'') ''k1'' demo_verdict T3 None
      (ledger_of demo_admitted) = Inr (Inr (k, q, False), ledger_of demo_spent)" using demo_submission by blast
  note replay = credential_replay_stable [OF demo_reach(5) _ _ this demo_spent_after, of "demo_env T3 ''k9''" None]
  have "workflowFiniteTimestamp (demo_env T3 ''k9'') T3" by code_simp
  with replay show ?thesis by (auto simp: demo_env_def)
qed

subsection \<open>Gates\<close>

text \<open>C7: a gate opens on exactly one kind of claim. In every reachable ledger and at a readable
  instant, the resolver answers \<open>valid\<close> with \<open>c\<close> if and only if \<open>c\<close> matches the run, node, kind and
  subject asked for, no matching claim has a higher attempt, \<open>c\<close> is the last claim of its attempt
  and all claims of that attempt agree, \<open>c\<close> is not revoked, not expired, and passing. An older
  attempt is never used in its place.\<close>

theorem resolve_exact:
  assumes "ledger_reach sh od db" and "workflowFiniteTimestamp env (or_else now (now_iso env))"
  shows "resolveWorkflowDecisionClaim env i now db = Inr c \<longleftrightarrow> gate_claim env i (or_else now (now_iso env)) db c"
proof -
  have "distinct (map cl_server_seq (claims db))"
    using reach_ledger_inv [OF assms(1)] dense_distinct by (simp add: ledger_inv_def claim_inv_def claims_ok_def)
  then show ?thesis using assms(2) by (rule resolve_iff_gate)
qed

definition demo_question :: resolve_input where
  "demo_question = \<lparr>rs_run_id = ''r1'', rs_node_id = Some ''qa'', rs_decision_kind = ''qa_verdict'',
     rs_subject_kind = ''git_head'', rs_subject_digest = ''abc''\<rparr>"

lemma demo_gate_open: "is_ok (resolveWorkflowDecisionClaim (demo_env T1 ''k'') demo_question None (ledger_of demo_spent))"
  by code_simp

theorem resolve_exact_witness:
  "\<exists>c. gate_claim (demo_env T1 ''k'') demo_question T1 (ledger_of demo_spent) c"
proof -
  obtain c where "resolveWorkflowDecisionClaim (demo_env T1 ''k'') demo_question None (ledger_of demo_spent) = Inr c"
    using demo_gate_open by (auto simp: is_ok_iff)
  moreover have "workflowFiniteTimestamp (demo_env T1 ''k'') (or_else None (now_iso (demo_env T1 ''k'')))"
    by code_simp
  ultimately have "gate_claim (demo_env T1 ''k'') demo_question (or_else None (now_iso (demo_env T1 ''k'')))
      (ledger_of demo_spent) c"
    using resolve_exact [OF demo_reach(4), of "demo_env T1 ''k''" None demo_question c] by blast
  then show ?thesis by (auto simp: demo_env_def)
qed

text \<open>C20: revocation is final. Once a claim is revoked no gate opens on it again, whatever is
  called afterwards and whatever is asked.\<close>

theorem revoked_for_ever:
  assumes "ledger_reach sh od db" and "sha256 env = sh" and "other_date env = od"
    and "revokeWorkflowClaim env k reason actor db = Inr db'"
    and "ledger_after sh od db' db''"
    and "resolveWorkflowDecisionClaim env' i now db'' = Inr c"
  shows "cl_id c \<noteq> k"
proof
  assume ck: "cl_id c = k"
  have "ledger_step sh od db db'"
    using assms(2-4) by (intro call [of env _ _ "Revoke k reason actor"]) auto
  then have "ledger_after sh od db db''"
    using ledger_after_trans [OF more [OF start] assms(5)] by blast
  then have reach: "ledger_reach sh od db''" using assms(1) reach_after by blast
  have fin: "workflowFiniteTimestamp env' (or_else now (now_iso env'))"
    using assms(6) by (auto simp: resolveWorkflowDecisionClaim_def Let_def split: if_splits)
  have dist: "distinct (map cl_server_seq (claims db''))"
    using reach_ledger_inv [OF reach] dense_distinct by (simp add: ledger_inv_def claim_inv_def claims_ok_def)
  from assms(6) have "\<forall>r \<in> set (revocations db''). rev_claim_id r \<noteq> k"
    using resolve_iff_gate [OF dist fin] ck by (auto simp: gate_claim_def)
  moreover have "\<exists>r \<in> set (revocations db'). rev_claim_id r = k"
    using revoke_ok [OF assms(4)] by (auto simp: with_revocation_def insert_revocation_def)
  moreover have "set (revocations db') \<subseteq> set (revocations db'')"
    using after_prefixes [OF assms(5)] set_mono_prefix by blast
  ultimately show False by blast
qed

lemma case_call_ok:
  "(case X of Inr (Inr x, db) \<Rightarrow> P x db | _ \<Rightarrow> False) \<Longrightarrow> \<exists>x db. X = Inr (Inr x, db) \<and> P x db"
proof (cases X)
  case (Inr b)
  then show "(case X of Inr (Inr x, db) \<Rightarrow> P x db | _ \<Rightarrow> False) \<Longrightarrow> \<exists>x db. X = Inr (Inr x, db) \<and> P x db"
    by (cases b; cases "fst b") auto
qed simp

lemma case_result_ok: "(case R of Inr c \<Rightarrow> P c | Inl _ \<Rightarrow> False) \<Longrightarrow> \<exists>c. R = Inr c \<and> P c"
  by (cases R) auto

definition founder_as_review :: system_input where
  "founder_as_review = \<lparr>sy_issuer_kind = ''founder_challenge'', sy_run_id = ''r1'', sy_issue_id = ''ISS-1'',
     sy_decision_kind = ''review_verdict'', sy_predicate = ''founder_approved'', sy_subject_kind = ''git_head'',
     sy_subject_digest = ''abc'', sy_node_id = Some ''review'', sy_attempt = None, sy_expires_at = None,
     sy_permanent = Some True, sy_evidence = None, sy_authority_id = ''f''\<rparr>"

definition review_question :: resolve_input where
  "review_question = \<lparr>rs_run_id = ''r1'', rs_node_id = Some ''review'', rs_decision_kind = ''review_verdict'',
     rs_subject_kind = ''git_head'', rs_subject_digest = ''abc''\<rparr>"

text \<open>a system claim may carry any decision kind: a founder approval written under the kind
  \<open>review_verdict\<close> opens the review gate of its node, without a review.\<close>

theorem system_claim_kind_free:
  "\<exists>x db c. appendWorkflowSystemClaim (demo_env T0 ''k'') founder_as_review (ledger_of demo_created) = Inr (Inr x, db)
     \<and> resolveWorkflowDecisionClaim (demo_env T0 ''k'') review_question None db = Inr c
     \<and> cl_predicate c = ''founder_approved''"
proof -
  have "(case appendWorkflowSystemClaim (demo_env T0 ''k'') founder_as_review (ledger_of demo_created) of
      Inr (Inr x, db) \<Rightarrow> (case resolveWorkflowDecisionClaim (demo_env T0 ''k'') review_question None db of
          Inr c \<Rightarrow> cl_predicate c = ''founder_approved'' | Inl _ \<Rightarrow> False)
    | _ \<Rightarrow> False)" by code_simp
  from case_call_ok [OF this] show ?thesis by (blast dest: case_result_ok)
qed

subsection \<open>Revocation at work\<close>

theorem revoked_for_ever_witness:
  "\<exists>c db. revokeWorkflowClaim (demo_env T0 ''k'') 1 ''r'' ''a'' (ledger_of demo_spent) = Inr db
    \<and> resolveWorkflowDecisionClaim (demo_env T0 ''k'')
        (demo_question\<lparr>rs_run_id := ''r1''\<rparr>) None (ledger_of demo_spent) = Inr c
    \<and> resolveWorkflowDecisionClaim (demo_env T0 ''k'') demo_question None db \<noteq> Inr c"
proof -
  have "is_ok (revokeWorkflowClaim (demo_env T0 ''k'') 1 ''r'' ''a'' (ledger_of demo_spent))" by code_simp
  then obtain db where db: "revokeWorkflowClaim (demo_env T0 ''k'') 1 ''r'' ''a'' (ledger_of demo_spent) = Inr db"
    by (auto simp: is_ok_iff)
  have "case resolveWorkflowDecisionClaim (demo_env T0 ''k'') (demo_question\<lparr>rs_run_id := ''r1''\<rparr>) None
      (ledger_of demo_spent) of Inr c \<Rightarrow> cl_id c = 1 | Inl _ \<Rightarrow> False" by code_simp
  then obtain c where c: "resolveWorkflowDecisionClaim (demo_env T0 ''k'') (demo_question\<lparr>rs_run_id := ''r1''\<rparr>) None
      (ledger_of demo_spent) = Inr c" "cl_id c = 1" by (auto split: sum.splits)
  have "resolveWorkflowDecisionClaim (demo_env T0 ''k'') demo_question None db \<noteq> Inr c"
    using revoked_for_ever [OF demo_reach(4) _ _ db start, of "demo_env T0 ''k''" demo_question None c] c(2)
    by (auto simp: demo_env_def)
  with db c(1) show ?thesis by blast
qed

end
