(* ===== verification/LedgerSourceProps.thy ===== *)
theory LedgerSourceProps
  imports LedgerResolve
begin

section \<open>The outbox over histories, and source events exactly once\<close>

text \<open>
  The dispatch outbox over every history of calls: rows stay and move one way, ordinals are dense; and
  the source-event writer: an event is applied once, with the one collision its uid admits.
\<close>

subsection \<open>The dispatch outbox\<close>

lemma after_outbox: "ledger_after sh od db db' \<Longrightarrow> outbox_grow (side_effects db) (side_effects db')"
  by (induction rule: ledger_after.induct) (auto intro: same_rows outbox_grow_trans step_outbox)

text \<open>Launch history is never rewritten. Over any further calls the outbox rows of a
  reachable ledger stay, in order, with their run, node, attempt, kind, ordinal, execution and
  creation time; their state only moves from \<open>intent_recorded\<close> to \<open>launch_committed\<close>, \<open>started\<close> or
  \<open>abandoned\<close>, or from \<open>launch_committed\<close> to \<open>started\<close>; and a commit or start time once stamped
  stays. So a committed launch is never abandoned.\<close>

theorem outbox_one_way:
  assumes "ledger_reach sh od db" and "ledger_after sh od db db'"
  shows "length (side_effects db) \<le> length (side_effects db')
    \<and> list_all2 row_moves (side_effects db) (take (length (side_effects db)) (side_effects db'))"
  using outbox_ok_grow [OF after_outbox [OF assms(2)]] reach_ledger_inv [OF assms(1)]
  by (simp add: ledger_inv_def)

definition demo_batch :: batch_input where
  "demo_batch = \<lparr>bi_project_name = ''p'', bi_issue_id = ''i'', bi_new_run_id = Some ''w1'', bi_run_id = None,
     bi_ops = [Edge ''start'' ''implement'' (JsInt 1) None, Dispatch ''implement'' (JsInt 1) ''e1'',
       Dispatch ''implement'' (JsInt 1) ''e2'', Kickback (JsInt 1)]\<rparr>"

definition demo_commit :: batch_input where
  "demo_commit = \<lparr>bi_project_name = ''p'', bi_issue_id = ''i'', bi_new_run_id = None, bi_run_id = None,
     bi_ops = [Side_effect ''implement'' (JsInt 1) ''e1'' To_committed None]\<rparr>"

definition demo_launched :: "(run_env \<times> ledger_call) list" where
  "demo_launched = [(demo_env T0 ''k'', Shadow_batch demo_batch)]"

definition demo_committed :: "(run_env \<times> ledger_call) list" where
  "demo_committed = demo_launched @ [(demo_env T1 ''k'', Shadow_batch demo_commit)]"

lemma demo_committed_ok: "is_ok (run_all demo_committed empty_ledger)" by code_simp

lemma demo_launched_ok: "is_ok (run_all demo_launched empty_ledger)"
  using demo_committed_ok by (auto simp: demo_committed_def run_all_append is_ok_iff and_then_ok)

lemma demo_launched_reach: "ledger_reach demo_sha demo_dates (ledger_of demo_launched)"
  unfolding ledger_reach_def using run_all_ledger_of [OF demo_launched_ok]
  by (rule run_all_after) (simp add: demo_launched_def demo_env_def)

lemma demo_committed_after: "ledger_after demo_sha demo_dates (ledger_of demo_launched) (ledger_of demo_committed)"
  unfolding demo_committed_def using demo_committed_ok [unfolded demo_committed_def]
  by (rule demo_extend) (simp add: demo_env_def)

theorem outbox_one_way_witness:
  "list_all2 row_moves (side_effects (ledger_of demo_launched))
     (take (length (side_effects (ledger_of demo_launched))) (side_effects (ledger_of demo_committed)))"
  using outbox_one_way [OF demo_launched_reach demo_committed_after] by blast

text \<open>in every reachable ledger the launches of one (run, node, attempt) carry the ordinals
  1, 2, 3, ... in order of their first dispatch, and each execution has exactly one row.\<close>

theorem launch_ordinals:
  assumes "ledger_reach sh od db"
  shows "map se_launch_ordinal (filter (launch_of r n a) (side_effects db))
      = map int [1..<Suc (length (filter (launch_of r n a) (side_effects db)))]
    \<and> distinct (map se_execution_id (filter (launch_of r n a) (side_effects db)))"
  using reach_ledger_inv [OF assms] by (simp add: ledger_inv_def outbox_ok_def dense_def del: upt_Suc)

theorem launch_ordinals_witness:
  "map se_launch_ordinal (filter (launch_of ''w1'' ''implement'' 1) (side_effects (ledger_of demo_launched)))
      = map int [1..<Suc (length (filter (launch_of ''w1'' ''implement'' 1) (side_effects (ledger_of demo_launched))))]"
  using launch_ordinals [OF demo_launched_reach] by blast

subsection \<open>Source events\<close>

lemma find_prefix: "prefix xs ys \<Longrightarrow> List.find P xs = Some x \<Longrightarrow> List.find P ys = Some x"
  by (auto simp: prefix_def find_append)

text \<open>A source event takes effect once. After a founder approval was applied, and whatever is
  called in between, the same event answers with the same claim and writes nothing, and an event
  with the same project and id but another payload digest is rejected.\<close>

theorem source_event_once:
  assumes "applyWorkflowSourceEvent env i db = Inr (Founder_claim Applied k, db')"
    and "ledger_after sh od db' db''" and "sha256 env' = sha256 env"
  shows "applyWorkflowSourceEvent env' i db'' = Inr (Founder_claim Replayed k, db'') \<and>
    (\<forall>j. so_project j = so_project i \<and> so_source_event_id j = so_source_event_id i
        \<and> so_payload_digest j \<noteq> so_payload_digest i
      \<longrightarrow> (\<exists>m. applyWorkflowSourceEvent env' j db'' = Inl (Source_rejected m)))"
proof -
  obtain p where p0: "so_payload i = Some p"
    using assms(1) by (cases "so_payload i") (simp_all add: applyWorkflowSourceEvent_def)
  have p1: "\<not> (so_schema_version i \<noteq> 1 \<or> json_get p ''schema_version'' \<noteq> JInt 1
      \<or> canonicalSubmissionDigest env p \<noteq> so_payload_digest i)"
  proof
    assume "so_schema_version i \<noteq> 1 \<or> json_get p ''schema_version'' \<noteq> JInt 1
      \<or> canonicalSubmissionDigest env p \<noteq> so_payload_digest i"
    with assms(1) show False unfolding applyWorkflowSourceEvent_def p0 by simp
  qed
  have founder: "List.find (is_receipt i) (receipts db) = None \<and> so_kind i = Founder_approval
      \<and> apply_founder_approval env i p db = Inr (Founder_claim Applied k, db')"
    using assms(1)
  proof (cases rule: source_event_ok)
    case (replay x)
    then show ?thesis by (cases "so_kind i") simp_all
  next
    case (turn q)
    with apply_turn_grant_ok [OF turn(4)] show ?thesis by simp
  next
    case (founder q)
    then show ?thesis by (simp add: p0)
  qed
  then have fnd: "List.find (is_receipt i) (receipts db) = None" "so_kind i = Founder_approval"
    and app: "apply_founder_approval env i p db = Inr (Founder_claim Applied k, db')" by simp_all
  note f = apply_founder_approval_ok [OF app]
  let ?r = "new_receipt env i (Some k)"
  have k: "k = next_claim_id db" using f(1) by simp
  have "receipts db' = receipts db @ [?r]" unfolding f(3) k [symmetric] by (simp add: row_simps)
  then have "List.find (is_receipt i) (receipts db') = Some ?r"
    using fnd(1) by (simp add: find_append is_receipt_def new_receipt_def)
  then have found: "List.find (is_receipt i) (receipts db'') = Some ?r"
    by (rule find_prefix [rotated]) (simp add: after_prefixes [OF assms(2)])
  have digest: "canonicalSubmissionDigest env' q = canonicalSubmissionDigest env q" for q
    using assms(3) by (simp add: canonicalSubmissionDigest_def)
  have "applyWorkflowSourceEvent env' i db'' = Inr (Founder_claim Replayed k, db'')"
    using p0 p1 found fnd(2) by (simp add: applyWorkflowSourceEvent_def digest new_receipt_def)
  moreover have "\<exists>m. applyWorkflowSourceEvent env' j db'' = Inl (Source_rejected m)"
    if j: "so_project j = so_project i" "so_source_event_id j = so_source_event_id i"
      "so_payload_digest j \<noteq> so_payload_digest i" for j
  proof -
    have "is_receipt j = is_receipt i" using j by (simp add: is_receipt_def fun_eq_iff)
    with found have "List.find (is_receipt j) (receipts db'') = Some ?r" by simp
    moreover have "rc_payload_digest ?r \<noteq> so_payload_digest j" using j(3) by (simp add: new_receipt_def)
    ultimately show ?thesis by (auto simp: applyWorkflowSourceEvent_def split: option.splits)
  qed
  ultimately show ?thesis by blast
qed

definition approval_payload :: "string \<Rightarrow> json" where
  "approval_payload run = JObj [(''schema_version'', JInt 1), (''run_id'', JStr run), (''issue_id'', JStr ''i''),
     (''approved_head'', JStr (replicate 40 CHR ''a'')), (''authority_id'', JStr ''f''),
     (''response'', JObj [(''approved'', JBool True)])]"

definition plain_env :: run_env where
  "plain_env = (demo_env T0 ''k'')\<lparr>sha256 := (\<lambda>s. s)\<rparr>"

definition approval :: "string \<Rightarrow> string \<Rightarrow> string \<Rightarrow> source_input" where
  "approval project event run = \<lparr>so_project = project, so_source_event_id = event, so_kind = Founder_approval,
     so_payload = Some (approval_payload run), so_payload_digest = canonicalJsonString (approval_payload run),
     so_schema_version = 1\<rparr>"

definition two_projects :: "(run_env \<times> ledger_call) list" where
  "two_projects = [(plain_env, Create_run ''r1'' ''i'' ''a:b'' None None None False),
     (plain_env, Create_run ''r2'' ''i'' ''a'' None None None False)]"

definition approved_one :: "(run_env \<times> ledger_call) list" where
  "approved_one = two_projects @ [(plain_env, Source_event (approval ''a:b'' ''c'' ''r1''))]"

definition approved_both :: "(run_env \<times> ledger_call) list" where
  "approved_both = approved_one @ [(plain_env, Source_event (approval ''a'' ''b:c'' ''r2''))]"

lemma approved_runs:
  "is_ok (run_all two_projects empty_ledger)"
  "map cl_run_id (claims (ledger_of approved_both)) = [''r1'', ''r2'']"
  "map ev_run_id (run_events (ledger_of approved_both)) = [''r1'']"
  by code_simp+

text \<open>the uid of the run event of a founder approval joins project and source event id with a
  colon, so the approvals of event \<open>c\<close> of project \<open>a:b\<close> and of event \<open>b:c\<close> of project \<open>a\<close> share it:
  both claims are written, the second run gets no event.\<close>

theorem source_event_uid_collision:
  "map cl_run_id (claims (ledger_of approved_both)) = [''r1'', ''r2'']
   \<and> map ev_run_id (run_events (ledger_of approved_both)) = [''r1'']"
  using approved_runs by blast

lemma approved_one_result:
  "case applyWorkflowSourceEvent plain_env (approval ''a:b'' ''c'' ''r1'') (ledger_of two_projects) of
     Inr (Founder_claim Applied k, db) \<Rightarrow> k = 1 | _ \<Rightarrow> False"
  by code_simp

theorem source_event_once_witness:
  "\<exists>db. applyWorkflowSourceEvent plain_env (approval ''a:b'' ''c'' ''r1'') db = Inr (Founder_claim Replayed 1, db)"
proof -
  obtain db where db: "applyWorkflowSourceEvent plain_env (approval ''a:b'' ''c'' ''r1'') (ledger_of two_projects)
      = Inr (Founder_claim Applied 1, db)"
    using approved_one_result by (auto split: sum.split_asm prod.split_asm source_result.split_asm apply_status.split_asm)
  from source_event_once [OF db start] show ?thesis by blast
qed

end
