(* ===== verification/LedgerLive.thy ===== *)
theory LedgerLive
  imports LedgerSourceProps
begin

section \<open>An admitted execution can deliver its verdict; a batch can be replayed\<close>

text \<open>
  Liveness of the ledger: the credential an admission returns can be spent on a verdict.
\<close>

subsection \<open>Admission to verdict\<close>

lemma write_credential_claim_succeeds:
  assumes "sha256 env (fresh_token env) \<notin> set (map cap_token_hash (capabilities db))"
    and "claim_checks (credential_claim env i run c (nextWorkflowClaimSeq db) (next_capability_id db))"
    and "find_run db (cred_run_id c) \<noteq> None"
  shows "\<exists>db'. write_credential_claim env i nowIso run c db
    = Inr (Inr (next_claim_id db, nextWorkflowClaimSeq db, False), db')"
proof -
  let ?h = "sha256 env (fresh_token env)"
  let ?m = "minted_capability i nowIso ?h c"
  let ?db1 = "with_capability ?m db"
  let ?cl = "credential_claim env i run c (nextWorkflowClaimSeq db) (next_capability_id db)"
  have h: "cap_token_hash ?m = ?h" by (simp add: minted_capability_def)
  have cap: "insert_capability ?m db = Inr ?db1" using assms(1) by (simp add: insert_capability_ok h)
  have id: "or_else (map_option cap_id (find_capability ?db1 ?h)) 0 = next_capability_id db"
    using find_new_capability [of ?m db] assms(1) by (simp add: h next_capability_id_def)
  have seq: "nextWorkflowClaimSeq ?db1 = nextWorkflowClaimSeq db" "next_claim_id ?db1 = next_claim_id db"
    by (simp_all add: nextWorkflowClaimSeq_def next_claim_id_def row_simps)
  have ins: "insert_claim ?cl ?db1 = Inr (with_claim ?cl ?db1)"
    using assms(2) by (subst insert_claim_next) (simp_all add: seq credential_claim_def)
  have idseq: "workflowClaimIdBySeq (with_claim ?cl ?db1) (nextWorkflowClaimSeq db) = next_claim_id db"
    using claim_id_by_next_seq [of ?cl ?db1] seq by simp
  show ?thesis
    using assms(3) ins
    by (simp add: write_credential_claim_def Let_def hashCapabilityToken_def generateCapabilityToken_def cap id seq
        credential_claim_def [symmetric] idseq append_event row_simps find_run_def)
qed

lemma admit_node_holds:
  assumes "admit_refusal i db = None"
  shows "list_ex (\<lambda>n. is_node (ad_run_id i) (ad_node_id i) (int_of_number (ad_attempt i)) n
    \<and> rn_execution_id n = Some (ad_execution_id i)) (run_nodes (admit_node env i db))"
proof (cases "getWorkflowRunNode db (ad_run_id i) (ad_node_id i) (int_of_number (ad_attempt i))")
  case None
  then show ?thesis by (simp add: admit_node_def Let_def is_node_def)
next
  case (Some n)
  then have n: "n \<in> set (run_nodes db)" "is_node (ad_run_id i) (ad_node_id i) (int_of_number (ad_attempt i)) n"
    by (auto simp: getWorkflowRunNode_def dest: find_Some_iff')
  show ?thesis
  proof (cases "rn_execution_id n")
    case None
    with Some n show ?thesis
      by (auto simp: admit_node_def Let_def list_ex_iff is_node_def
          intro!: bexI [of _ "n\<lparr>rn_execution_id := Some (ad_execution_id i), rn_state := ''admitted''\<rparr>"] image_eqI [of _ _ n])
  next
    case (Some e)
    have "e = ad_execution_id i"
      using assms Some \<open>getWorkflowRunNode _ _ _ _ = Some n\<close>
      by (auto simp: admit_refusal_def Let_def split: option.splits if_splits)
    with Some n \<open>getWorkflowRunNode _ _ _ _ = Some n\<close> show ?thesis
      by (auto simp: admit_node_def Let_def list_ex_iff)
  qed
qed

lemma admit_run_holds:
  assumes "admit_refusal i db = None"
  shows "list_ex (\<lambda>r. run_id r = ad_run_id i \<and> run_claims_read_enrolled r
    \<and> (ad_node_id i \<noteq> ''qa'' \<or> run_current_qa_attempt r = Some (int_of_number (ad_attempt i))))
    (runs (enroll_run i db))"
proof -
  have "find_run db (ad_run_id i) \<noteq> None"
    using assms by (cases "find_run db (ad_run_id i)") (auto simp: admit_refusal_def Let_def)
  then have "ad_run_id i \<in> run_id ` set (runs db)" by (rule run_known)
  then obtain x where x: "x \<in> set (runs db)" "run_id x = ad_run_id i" by auto
  let ?x = "x\<lparr>run_claims_read_enrolled := True, run_current_qa_attempt := (if ad_node_id i = ''qa''
    then Some (int_of_number (ad_attempt i)) else run_current_qa_attempt x)\<rparr>"
  have "?x \<in> set (runs (enroll_run i db))"
    using x by (auto simp: enroll_run_def intro: image_eqI [of _ _ x])
  then show ?thesis unfolding list_ex_iff by (rule bexI [rotated]) (simp add: x)
qed

text \<open>C33: admission is enough to deliver a verdict. Right after a successful admission the returned
  credential, used before it expires with a verdict of its family, another vendor's named product
  and a readable claim expiry, is accepted and writes a claim.\<close>

theorem admitted_credential_spendable:
  assumes "ledger_reach sh od db" and "sha256 env = sh" and "other_date env = od"
    and "admitWorkflowExecution env ad now db = Inr (Inr (k, credential), db')"
    and "sha256 env' = sh" and "other_date env' = od"
    and "workflowFiniteTimestamp env' (or_else now' (now_iso env'))"
    and "\<not> workflowExpired env' (ad_expires_at ad) (or_else now' (now_iso env'))"
    and "listed WORKFLOW_DECISION_FAMILIES (ad_family ad) (si_predicate i)"
    and "review_refusal i = None" and "workflowFiniteTimestamp env' ex"
    and "sh (fresh_token env') \<notin> set (map cap_token_hash (capabilities db'))"
  shows "\<exists>db''. submitWorkflowDecisionByCredential env' credential i ex now' db'
    = Inr (Inr (next_claim_id db', nextWorkflowClaimSeq db', False), db'')"
proof -
  let ?now = "or_else now (now_iso env)" and ?now' = "or_else now' (now_iso env')"
  let ?row = "admitted_credential ad ?now (sha256 env (fresh_token env))"
  let ?p = "admit_prepared env ad ?now db"
  let ?i = "git_head_input i ex"
  note a = admit_ok [OF assms(4)]
  have step: "ledger_step sh od db db'"
    using assms(2-4) by (intro call [of env _ _ "Admit ad now"]) (auto simp: keep_ledger_ok)
  have inv: "claim_inv od db'"
    using reach_ledger_inv [OF assms(1)] step_claim_inv [OF step] by (simp add: ledger_inv_def)
  let ?c = "?row\<lparr>cred_id := sql_max (map cred_id (credentials ?p)) + 1\<rparr>"
  have c: "?c \<in> set (credentials db')" by (simp add: a(6) with_credential_def)
  then have find: "find_credential db' (sha256 env' credential) = Some ?c"
    using find_credential_row [of od "bindings db'" db' ?c] inv assms(2,5)
    by (simp add: claim_inv_def a(3) admitted_credential_def)
  have fields: "cred_run_id ?c = ad_run_id ad" "cred_node_id ?c = ad_node_id ad"
    "cred_execution_id ?c = ad_execution_id ad" "cred_attempt ?c = int_of_number (ad_attempt ad)"
    "cred_family ?c = ad_family ad" "cred_expires_at ?c = ad_expires_at ad"
    "cred_consumed_at ?c = None" "\<not> cred_revoked ?c"
    by (simp_all add: admitted_credential_def)
  have bound: "list_ex (bound_to ?c) (bindings db')"
    using inv c by (simp add: claim_inv_def creds_ok_def del: list_ex_iff)
  have nodes: "run_nodes db' = run_nodes (admit_node env ad db)" and runs: "runs db' = runs (enroll_run ad db)"
    by (simp_all add: a(6) row_simps)
  have current: "binding_current db' ?c"
    using bound admit_node_holds [OF a(2), of env] admit_run_holds [OF a(2)]
    unfolding binding_current_def nodes runs list_ex_iff bound_to_def fields
    by (metis (no_types, lifting))
  have "workflowFiniteTimestamp env' (ad_expires_at ad)"
    using a(1) assms(3,6) by (auto simp: admit_input_refusal_def finite_date split: if_splits)
  moreover have "review_refusal ?i = review_refusal i" "si_predicate ?i = si_predicate i"
    by (simp_all add: review_refusal_def git_head_input_def)
  ultimately have refusal: "credential_refusal env' ?i ?now' db' ?c = None"
    using assms(8-10) current by (simp add: credential_refusal_def fields)
  have "find_run db' (ad_run_id ad) \<noteq> None"
    using admit_run_holds [OF a(2)] by (auto simp: find_run_def find_None_iff' runs list_ex_iff)
  then obtain run where run: "find_run db' (ad_run_id ad) = Some run" by auto
  have "si_predicate i \<in> set WORKFLOW_CLAIM_PREDICATES"
    using assms(9) by (auto simp: listed_def WORKFLOW_DECISION_FAMILIES_def WORKFLOW_CLAIM_PREDICATES_def
        split: if_splits)
  then have "claim_checks (credential_claim env' ?i run ?c (nextWorkflowClaimSeq db') (next_capability_id db'))"
    by (simp add: credential_claim_def runner_claim_def claim_checks_def runner_claim_complete_def
        git_head_input_def WORKFLOW_CLAIM_ISSUER_KINDS_def WORKFLOW_CLAIM_SUBJECT_KINDS_def)
  from write_credential_claim_succeeds [OF _ this, of ?now'] assms(5,12) run
  obtain db'' where "write_credential_claim env' ?i ?now' run ?c db'
      = Inr (Inr (next_claim_id db', nextWorkflowClaimSeq db', False), db'')" by (auto simp: fields)
  then show ?thesis
    using assms(7,11) find refusal run
    by (simp add: submitWorkflowDecisionByCredential_def Let_def hashCapabilityToken_def fields
        del: or_else_simps)
qed

theorem admitted_credential_spendable_witness:
  "\<exists>k q db. submitWorkflowDecisionByCredential (demo_env T0 ''k2'') ''k1'' demo_verdict T3 None (ledger_of demo_admitted)
     = Inr (Inr (k, q, False), db)"
proof -
  have ok: "case admitWorkflowExecution (demo_env T0 ''k1'') demo_admit None (ledger_of demo_created) of
      Inr (Inr x, db) \<Rightarrow> snd x = ''k1'' | _ \<Rightarrow> False" by code_simp
  from case_call_ok [OF this] obtain k db where
    adm: "admitWorkflowExecution (demo_env T0 ''k1'') demo_admit None (ledger_of demo_created) = Inr (Inr (k, ''k1''), db)"
    by auto
  have "keep_ledger (admitWorkflowExecution (demo_env T0 ''k1'') demo_admit None (ledger_of demo_created))
      = Inr (ledger_of demo_admitted)"
    using demo_prefix_ok(4) by (auto simp: demo_admitted_def ledger_of_def run_all_append is_ok_iff and_then_ok)
  then have db: "db = ledger_of demo_admitted" using adm by (simp add: keep_ledger_def)
  have "workflowFiniteTimestamp (demo_env T0 ''k2'') T0" "workflowFiniteTimestamp (demo_env T0 ''k2'') T3"
    "\<not> workflowExpired (demo_env T0 ''k2'') T1 T0" by code_simp+
  moreover have "listed WORKFLOW_DECISION_FAMILIES (ad_family demo_admit) (si_predicate demo_verdict)"
    "review_refusal demo_verdict = None" by code_simp+
  moreover have "capabilities (ledger_of demo_admitted) = []" by code_simp
  ultimately have "\<exists>db''. submitWorkflowDecisionByCredential (demo_env T0 ''k2'') ''k1'' demo_verdict T3 None db
      = Inr (Inr (next_claim_id db, nextWorkflowClaimSeq db, False), db'')"
    by (intro admitted_credential_spendable [OF demo_reach(6) _ _ adm])
      (simp_all add: demo_env_def db demo_admit_def)
  then show ?thesis by (auto simp: db)
qed

end
