(* ===== verification/Journal.thy ===== *)
theory Journal
  imports Prelude
begin

section \<open>The lead journal (teamlead/src/lead-backends/codex)\<close>

text \<open>
  \<open>LeadJournal.ts\<close>: the state machine of an input of a Codex lead, over any \<open>JournalStore\<close> (the
  TypeScript interface is the record \<open>journal_store\<close> of operations), and its two stores:
  \<open>InMemoryJournalStore\<close>, three maps, and \<open>SqliteJournalStore\<close>, one table. Ids from the id factory
  and the clock are arguments. The journal's own operations are the definitions \<open>accept\<close> to
  \<open>recoveryAction\<close>; JournalStores.thy shows that both stores obey one contract.
\<close>

subsection \<open>Entries and states\<close>

datatype journal_state = Accepted | Dispatching | Dispatched | Model_completed | Output_pending
  | Completed | Ambiguous | Dead_letter

definition ALL_STATES :: "journal_state list" where
  "ALL_STATES = [Accepted, Dispatching, Dispatched, Model_completed, Output_pending, Completed,
     Ambiguous, Dead_letter]"

definition TERMINAL_STATES :: "journal_state list" where
  "TERMINAL_STATES = [Completed, Ambiguous, Dead_letter]"

fun FORWARD :: "journal_state \<Rightarrow> journal_state list" where
  "FORWARD Accepted = [Dispatching]"
| "FORWARD Dispatching = [Dispatched]"
| "FORWARD Dispatched = [Model_completed]"
| "FORWARD Model_completed = [Output_pending]"
| "FORWARD Output_pending = [Completed]"
| "FORWARD Completed = []"
| "FORWARD Ambiguous = []"
| "FORWARD Dead_letter = []"

definition ESCAPE_STATES :: "journal_state list" where
  "ESCAPE_STATES = [Ambiguous, Dead_letter]"

definition statesAllowing :: "journal_state \<Rightarrow> journal_state list" where
  "statesAllowing to =
     (if to \<in> set ESCAPE_STATES then filter (\<lambda>s. s \<notin> set TERMINAL_STATES) ALL_STATES
      else filter (\<lambda>s. to \<in> set (FORWARD s)) ALL_STATES)"

datatype journal_source = Discord | Mailbox | Founder_terminal

record reply_route =
  rr_kind :: string
  rr_parent_channel_id :: string
  rr_source_message_id :: string
  rr_thread_id :: string
  rr_thread_name :: "string option"

record journal_entry =
  je_id :: string
  je_key :: string
  je_source :: journal_source
  je_payload :: string
  je_channel :: "string option"
  je_route :: "reply_route option"
  je_state :: journal_state
  je_corr :: "string option"
  je_turn :: "string option"
  je_output :: "string option"
  je_outbox :: "string option"
  je_reason :: "string option"
  je_created :: int
  je_updated :: int

text \<open>A patch: a field that is \<open>None\<close> is not a key of the patch object.\<close>

record journal_patch =
  jp_corr :: "string option"
  jp_turn :: "string option"
  jp_output :: "string option"
  jp_outbox :: "string option"
  jp_reason :: "string option"
  jp_updated :: "int option"

definition no_patch :: journal_patch where
  "no_patch = \<lparr>jp_corr = None, jp_turn = None, jp_output = None, jp_outbox = None, jp_reason = None,
     jp_updated = None\<rparr>"

text \<open>\<open>Illegal_transition from to id\<close>, with \<open>None\<close> for \<open>missing\<close>; the other errors with their text.\<close>

datatype journal_throw =
    Illegal_transition "journal_state option" journal_state string
  | Journal_rejected string

subsection \<open>The store interface\<close>

record 's journal_store =
  js_insert :: "journal_entry \<Rightarrow> 's \<Rightarrow> (journal_throw, (bool \<times> journal_entry) \<times> 's) result"
  js_get :: "string \<Rightarrow> 's \<Rightarrow> journal_entry option"
  js_get_key :: "string \<Rightarrow> 's \<Rightarrow> journal_entry option"
  js_transition :: "string \<Rightarrow> journal_state list \<Rightarrow> journal_state \<Rightarrow> journal_patch \<Rightarrow> 's
    \<Rightarrow> (journal_throw, journal_entry \<times> 's) result"
  js_unfinished :: "'s \<Rightarrow> journal_entry list"

subsection \<open>The journal\<close>

record accept_input =
  ac_key :: string
  ac_source :: journal_source
  ac_payload :: string
  ac_channel :: "string option"
  ac_route :: "reply_route option"

definition accepted_entry :: "int \<Rightarrow> string \<Rightarrow> accept_input \<Rightarrow> journal_entry" where
  "accepted_entry now newId args =
     \<lparr>je_id = newId, je_key = ac_key args, je_source = ac_source args, je_payload = ac_payload args,
      je_channel = (if truthy (ac_channel args) then ac_channel args else None),
      je_route = ac_route args, je_state = Accepted, je_corr = None, je_turn = None,
      je_output = None, je_outbox = None, je_reason = None, je_created = now, je_updated = now\<rparr>"

definition accept :: "'s journal_store \<Rightarrow> int \<Rightarrow> string \<Rightarrow> accept_input \<Rightarrow> 's
    \<Rightarrow> (journal_throw, (bool \<times> journal_entry) \<times> 's) result" where
  "accept ops now newId args s =
     (if ac_key args = [] then Inl (Journal_rejected ''LeadJournal.accept: idempotencyKey is required'')
      else js_insert ops (accepted_entry now newId args) s)"

definition observation :: "int \<Rightarrow> string \<Rightarrow> string \<Rightarrow> string option \<Rightarrow> journal_entry" where
  "observation now key payload output =
     \<lparr>je_id = ''obs-'' @ key, je_key = key, je_source = Founder_terminal, je_payload = payload,
      je_channel = None, je_route = None, je_state = Completed, je_corr = None, je_turn = None,
      je_output = output, je_outbox = None, je_reason = None, je_created = now, je_updated = now\<rparr>"

definition recordObservation :: "'s journal_store \<Rightarrow> int \<Rightarrow> string \<Rightarrow> string \<Rightarrow> string option \<Rightarrow> 's
    \<Rightarrow> (journal_throw, 's) result" where
  "recordObservation ops now key payload output s =
     and_then (js_insert ops (observation now key payload output) s) (\<lambda>(_, s'). Inr s')"

definition transition :: "'s journal_store \<Rightarrow> int \<Rightarrow> string \<Rightarrow> journal_state \<Rightarrow> journal_patch \<Rightarrow> 's
    \<Rightarrow> (journal_throw, journal_entry \<times> 's) result" where
  "transition ops now i to patch s =
     js_transition ops i (statesAllowing to) to (patch\<lparr>jp_updated := Some now\<rparr>) s"

definition required :: "string \<Rightarrow> string \<Rightarrow> (journal_throw, 'a) result \<Rightarrow> (journal_throw, 'a) result" where
  "required msg arg k = (if arg = [] then Inl (Journal_rejected msg) else k)"

definition toDispatching where
  "toDispatching ops now i corr s =
     required ''toDispatching: clientCorrelationId is required'' corr
       (transition ops now i Dispatching (no_patch\<lparr>jp_corr := Some corr\<rparr>) s)"

definition toDispatched where
  "toDispatched ops now i turn s =
     required ''toDispatched: turnId is required'' turn
       (transition ops now i Dispatched (no_patch\<lparr>jp_turn := Some turn\<rparr>) s)"

definition toModelCompleted where
  "toModelCompleted ops now i output s =
     transition ops now i Model_completed (no_patch\<lparr>jp_output := Some (or_else output [])\<rparr>) s"

definition toOutputPending where
  "toOutputPending ops now i outbox s =
     required ''toOutputPending: outboxId is required'' outbox
       (transition ops now i Output_pending (no_patch\<lparr>jp_outbox := Some outbox\<rparr>) s)"

definition toCompleted where
  "toCompleted ops now i s = transition ops now i Completed no_patch s"

definition toAmbiguous where
  "toAmbiguous ops now i reason s =
     required ''toAmbiguous: reason is required'' reason
       (transition ops now i Ambiguous (no_patch\<lparr>jp_reason := Some reason\<rparr>) s)"

definition toDeadLetter where
  "toDeadLetter ops now i reason s =
     required ''toDeadLetter: reason is required'' reason
       (transition ops now i Dead_letter (no_patch\<lparr>jp_reason := Some reason\<rparr>) s)"

datatype recovery_action = Redispatch | Reconcile | Resend_output | No_action

fun recovery_of :: "journal_state \<Rightarrow> recovery_action" where
  "recovery_of Accepted = Redispatch"
| "recovery_of Dispatching = Reconcile"
| "recovery_of Dispatched = Reconcile"
| "recovery_of Model_completed = Resend_output"
| "recovery_of Output_pending = Resend_output"
| "recovery_of _ = No_action"

definition recoveryAction :: "journal_entry \<Rightarrow> recovery_action" where
  "recoveryAction entry = recovery_of (je_state entry)"

definition is_unfinished :: "journal_entry \<Rightarrow> bool" where
  "is_unfinished e = (je_state e \<notin> set TERMINAL_STATES)"

text \<open>\<open>{ ...current, ...safePatch, state: to }\<close>.\<close>

definition patched :: "journal_state \<Rightarrow> journal_patch \<Rightarrow> journal_entry \<Rightarrow> journal_entry" where
  "patched to p e = e\<lparr>je_corr := coalesce (jp_corr p) (je_corr e),
     je_turn := coalesce (jp_turn p) (je_turn e), je_output := coalesce (jp_output p) (je_output e),
     je_outbox := coalesce (jp_outbox p) (je_outbox e), je_reason := coalesce (jp_reason p) (je_reason e),
     je_updated := or_else (jp_updated p) (je_updated e), je_state := to\<rparr>"

subsection \<open>The in-memory store\<close>

record memory_store =
  by_id :: "(string \<times> journal_entry) list"
  by_key :: "(string \<times> string) list"
  seq_of :: "(string \<times> nat) list"
  next_seq_no :: nat

definition empty_memory :: memory_store where
  "empty_memory = \<lparr>by_id = [], by_key = [], seq_of = [], next_seq_no = 0\<rparr>"

definition memory_lookup :: "string \<Rightarrow> memory_store \<Rightarrow> journal_entry option" where
  "memory_lookup key s =
     (case map_of (by_key s) key of None \<Rightarrow> None
      | Some i \<Rightarrow> if i = [] then None else map_of (by_id s) i)"

definition memory_insert :: "journal_entry \<Rightarrow> memory_store
    \<Rightarrow> (journal_throw, (bool \<times> journal_entry) \<times> memory_store) result" where
  "memory_insert e s =
     (case memory_lookup (je_key e) s of
        Some existing \<Rightarrow> Inr ((False, existing), s)
      | None \<Rightarrow> Inr ((True, e),
          s\<lparr>by_id := AList.update (je_id e) e (by_id s),
            by_key := AList.update (je_key e) (je_id e) (by_key s),
            seq_of := AList.update (je_id e) (next_seq_no s) (seq_of s),
            next_seq_no := next_seq_no s + 1\<rparr>))"

definition memory_get :: "string \<Rightarrow> memory_store \<Rightarrow> journal_entry option" where
  "memory_get i s = map_of (by_id s) i"

definition memory_transition :: "string \<Rightarrow> journal_state list \<Rightarrow> journal_state \<Rightarrow> journal_patch
    \<Rightarrow> memory_store \<Rightarrow> (journal_throw, journal_entry \<times> memory_store) result" where
  "memory_transition i expected to p s =
     (case map_of (by_id s) i of
        None \<Rightarrow> Inl (Illegal_transition None to i)
      | Some current \<Rightarrow>
          if je_state current \<notin> set expected then Inl (Illegal_transition (Some (je_state current)) to i)
          else (let updated = patched to p current
                in Inr (updated, s\<lparr>by_id := AList.update (je_id updated) updated (by_id s)\<rparr>)))"

definition memory_unfinished :: "memory_store \<Rightarrow> journal_entry list" where
  "memory_unfinished s = sort_key (\<lambda>e. or_else (map_of (seq_of s) (je_id e)) 0)
     (filter is_unfinished (map snd (by_id s)))"

definition memory_ops :: "memory_store journal_store" where
  "memory_ops = \<lparr>js_insert = memory_insert, js_get = memory_get, js_get_key = memory_lookup,
     js_transition = memory_transition, js_unfinished = memory_unfinished\<rparr>"

subsection \<open>The SQLite store\<close>

text \<open>
  A row of the table \<open>journal\<close>, in rowid order in the list. \<open>reply_route_json\<close> is kept as the value
  it encodes: \<open>JSON.parse\<close> inverts \<open>JSON.stringify\<close> on an object of strings.
\<close>

record journal_row =
  jr_id :: string
  jr_idempotency_key :: string
  jr_source :: journal_source
  jr_payload :: string
  jr_state :: journal_state
  jr_client_correlation_id :: "string option"
  jr_turn_id :: "string option"
  jr_output :: "string option"
  jr_outbox_id :: "string option"
  jr_reason :: "string option"
  jr_reply_channel_id :: "string option"
  jr_reply_route_json :: "reply_route option"
  jr_created_at :: int
  jr_updated_at :: int

type_synonym sqlite_store = "journal_row list"

definition rowToEntry :: "journal_row \<Rightarrow> journal_entry" where
  "rowToEntry r = \<lparr>je_id = jr_id r, je_key = jr_idempotency_key r, je_source = jr_source r,
     je_payload = jr_payload r, je_channel = jr_reply_channel_id r, je_route = jr_reply_route_json r,
     je_state = jr_state r, je_corr = jr_client_correlation_id r, je_turn = jr_turn_id r,
     je_output = jr_output r, je_outbox = jr_outbox_id r, je_reason = jr_reason r,
     je_created = jr_created_at r, je_updated = jr_updated_at r\<rparr>"

text \<open>The columns the \<open>INSERT\<close> names; every other column is \<open>NULL\<close>.\<close>

definition inserted_row :: "journal_entry \<Rightarrow> journal_row" where
  "inserted_row e = \<lparr>jr_id = je_id e, jr_idempotency_key = je_key e, jr_source = je_source e,
     jr_payload = je_payload e, jr_state = je_state e, jr_client_correlation_id = None,
     jr_turn_id = None, jr_output = None, jr_outbox_id = None, jr_reason = None,
     jr_reply_channel_id = je_channel e, jr_reply_route_json = je_route e,
     jr_created_at = je_created e, jr_updated_at = je_updated e\<rparr>"

definition sqlite_get :: "string \<Rightarrow> sqlite_store \<Rightarrow> journal_entry option" where
  "sqlite_get i s = map_option rowToEntry (List.find (\<lambda>r. jr_id r = i) s)"

definition sqlite_get_key :: "string \<Rightarrow> sqlite_store \<Rightarrow> journal_entry option" where
  "sqlite_get_key k s = map_option rowToEntry (List.find (\<lambda>r. jr_idempotency_key r = k) s)"

text \<open>\<open>ON CONFLICT(idempotency_key) DO NOTHING\<close> is tried first; the primary key is not its target.\<close>

definition sqlite_insert :: "journal_entry \<Rightarrow> sqlite_store
    \<Rightarrow> (journal_throw, (bool \<times> journal_entry) \<times> sqlite_store) result" where
  "sqlite_insert e s =
     (case sqlite_get_key (je_key e) s of
        Some existing \<Rightarrow> Inr ((False, existing), s)
      | None \<Rightarrow>
          if list_ex (\<lambda>r. jr_id r = je_id e) s then Inl (Journal_rejected ''UNIQUE constraint failed: journal.id'')
          else Inr ((True, e), s @ [inserted_row e]))"

definition patched_row :: "journal_state \<Rightarrow> journal_patch \<Rightarrow> journal_row \<Rightarrow> journal_row" where
  "patched_row to p r = r\<lparr>jr_state := to,
     jr_client_correlation_id := coalesce (jp_corr p) (jr_client_correlation_id r),
     jr_turn_id := coalesce (jp_turn p) (jr_turn_id r), jr_output := coalesce (jp_output p) (jr_output r),
     jr_outbox_id := coalesce (jp_outbox p) (jr_outbox_id r), jr_reason := coalesce (jp_reason p) (jr_reason r),
     jr_updated_at := or_else (jp_updated p) (jr_updated_at r)\<rparr>"

definition cas_hit :: "string \<Rightarrow> journal_state list \<Rightarrow> journal_row \<Rightarrow> bool" where
  "cas_hit i expected r = (jr_id r = i \<and> jr_state r \<in> set expected)"

text \<open>One guarded \<open>UPDATE\<close>; the number of changed rows decides, then the row is read back.\<close>

definition sqlite_transition :: "string \<Rightarrow> journal_state list \<Rightarrow> journal_state \<Rightarrow> journal_patch
    \<Rightarrow> sqlite_store \<Rightarrow> (journal_throw, journal_entry \<times> sqlite_store) result" where
  "sqlite_transition i expected to p s =
     (if length (filter (cas_hit i expected) s) \<noteq> 1
      then Inl (Illegal_transition (map_option je_state (sqlite_get i s)) to i)
      else (let s' = map (\<lambda>r. if cas_hit i expected r then patched_row to p r else r) s in
        case sqlite_get i s' of
          None \<Rightarrow> Inl (Illegal_transition None to i)
        | Some updated \<Rightarrow> Inr (updated, s')))"

definition sqlite_unfinished :: "sqlite_store \<Rightarrow> journal_entry list" where
  "sqlite_unfinished s = map rowToEntry (filter (\<lambda>r. jr_state r \<notin> set TERMINAL_STATES) s)"

definition sqlite_ops :: "sqlite_store journal_store" where
  "sqlite_ops = \<lparr>js_insert = sqlite_insert, js_get = sqlite_get, js_get_key = sqlite_get_key,
     js_transition = sqlite_transition, js_unfinished = sqlite_unfinished\<rparr>"

end
