(* ===== verification/LeadRouter.thy ===== *)
theory LeadRouter
  imports Journal
begin

section \<open>The lead's input router (lead-backends/codex/LeadInputRouter.ts)\<close>

text \<open>
  The serial turn loop of a Codex lead over its journal. Its asynchronous functions are programs:
  trees whose nodes are the journal writes, the calls of the executor, the sender, the typing
  notifier and the route hook (with one branch per outcome of the promise), and the pushes on the
  queue. \<open>processEntry\<close>, \<open>deliverOutput\<close> and \<open>recoverEntry\<close> build them the way the code reads, a
  \<open>try/catch\<close> being the failure continuation of each node. The router holds the store, the queue,
  the pump's program and the recovery's program; \<open>router_step\<close> executes one node of either, so a
  restart can fall between any two of them. Calls are logged with the entry they are made for.
\<close>

subsection \<open>Calls and programs\<close>

datatype ext_call =
    Start_turn string string string   \<comment> \<open>thread, input, client correlation id\<close>
  | Await_completion string
  | Reconcile_turn string
  | Ensure_route reply_route
  | Enqueue string string string "string option"   \<comment> \<open>lead, text, idempotency key, channel\<close>
  | Deliver string
  | Typing_start "string option"
  | Typing_stop "string option"
  | Topic_engaged reply_route

record reconcile_result =
  rc_exists :: bool
  rc_completed :: bool
  rc_turn :: "string option"
  rc_output :: "string option"

text \<open>What a promise settles to: a rejection with its message, a string (turn id, output text,
  outbox id; empty for \<open>void\<close>), or a reconcile result.\<close>

datatype outcome = Threw string | Value string | Reconciled reconcile_result

fun outcome_ok :: "ext_call \<Rightarrow> outcome \<Rightarrow> bool" where
  "outcome_ok (Reconcile_turn _) (Value _) = False"
| "outcome_ok (Reconcile_turn _) _ = True"
| "outcome_ok _ (Reconciled _) = False"
| "outcome_ok _ _ = True"

datatype journal_op =
    Op_dispatching string string
  | Op_dispatched string string
  | Op_model_completed string "string option"
  | Op_output_pending string string
  | Op_completed string
  | Op_ambiguous string string

datatype prog =
    Finished
  | Journal_step journal_op "(journal_throw, journal_entry) result \<Rightarrow> prog"
  | Ext string ext_call "outcome \<Rightarrow> prog"
  | Wait ext_call "outcome \<Rightarrow> prog"
  | Push string prog

fun run_op :: "'s journal_store \<Rightarrow> int \<Rightarrow> journal_op \<Rightarrow> 's \<Rightarrow> (journal_throw, journal_entry \<times> 's) result" where
  "run_op ops now (Op_dispatching i c) s = toDispatching ops now i c s"
| "run_op ops now (Op_dispatched i t) s = toDispatched ops now i t s"
| "run_op ops now (Op_model_completed i t) s = toModelCompleted ops now i t s"
| "run_op ops now (Op_output_pending i b) s = toOutputPending ops now i b s"
| "run_op ops now (Op_completed i) s = toCompleted ops now i s"
| "run_op ops now (Op_ambiguous i r) s = toAmbiguous ops now i r s"

subsection \<open>Error messages\<close>

fun state_name :: "journal_state \<Rightarrow> string" where
  "state_name Accepted = ''accepted''"
| "state_name Dispatching = ''dispatching''"
| "state_name Dispatched = ''dispatched''"
| "state_name Model_completed = ''model_completed''"
| "state_name Output_pending = ''output_pending''"
| "state_name Completed = ''completed''"
| "state_name Ambiguous = ''ambiguous''"
| "state_name Dead_letter = ''dead_letter''"

definition arrow :: string where
  "arrow = [CHR '' '', CHR 0xE2, CHR 0x86, CHR 0x92, CHR '' '']"

fun error_message :: "journal_throw \<Rightarrow> string" where
  "error_message (Illegal_transition from to i) =
     ''illegal journal transition '' @ (case from of None \<Rightarrow> ''missing'' | Some s \<Rightarrow> state_name s)
       @ arrow @ state_name to @ '' (entry '' @ i @ '')''"
| "error_message (Journal_rejected m) = m"

subsection \<open>The functions of the router\<close>

record router_config =
  lead_id :: string
  thread_id :: string
  has_ensure_route :: bool   \<comment> \<open>\<open>ensureReplyRoute\<close> is wired\<close>
  has_topic_hook :: bool     \<comment> \<open>\<open>onTopicEngaged\<close> is wired\<close>
  has_typing :: bool         \<comment> \<open>\<open>typing\<close> is wired\<close>

definition safeAmbiguous :: "string \<Rightarrow> string \<Rightarrow> prog" where
  "safeAmbiguous i reason = Journal_step (Op_ambiguous i reason) (\<lambda>_. Finished)"

text \<open>A journal write and a call inside a \<open>try\<close> block with handler \<open>h\<close>.\<close>

definition write_or :: "(string \<Rightarrow> prog) \<Rightarrow> journal_op \<Rightarrow> (journal_entry \<Rightarrow> prog) \<Rightarrow> prog" where
  "write_or h op k = Journal_step op (\<lambda>r. case r of Inl e \<Rightarrow> h (error_message e) | Inr e \<Rightarrow> k e)"

definition call_or :: "(string \<Rightarrow> prog) \<Rightarrow> string \<Rightarrow> ext_call \<Rightarrow> (string \<Rightarrow> prog) \<Rightarrow> prog" where
  "call_or h i c k = Ext i c (\<lambda>r. case r of Threw m \<Rightarrow> h m | Value v \<Rightarrow> k v | Reconciled _ \<Rightarrow> h [])"

definition ensureReplyRouteIfNeeded :: "router_config \<Rightarrow> string \<Rightarrow> reply_route option \<Rightarrow> prog \<Rightarrow> prog" where
  "ensureReplyRouteIfNeeded cfg i route p =
     (case route of None \<Rightarrow> p
      | Some r \<Rightarrow> if \<not> has_ensure_route cfg then p
                 else if rr_kind r \<noteq> ''roundtable_thread_from_message'' then p
                 else Ext i (Ensure_route r) (\<lambda>_. p))"

definition deliverOutput :: "router_config \<Rightarrow> (string \<Rightarrow> prog) \<Rightarrow> string \<Rightarrow> string \<Rightarrow> string option
    \<Rightarrow> reply_route option \<Rightarrow> prog \<Rightarrow> prog" where
  "deliverOutput cfg h i output channel route p =
     ensureReplyRouteIfNeeded cfg i route
       (call_or h i (Enqueue (lead_id cfg) output (i @ '':out'') (if truthy channel then channel else None))
         (\<lambda>outboxId. write_or h (Op_output_pending i outboxId)
           (\<lambda>_. call_or h i (Deliver outboxId) (\<lambda>_. p))))"

definition typing :: "router_config \<Rightarrow> string \<Rightarrow> ext_call \<Rightarrow> prog \<Rightarrow> prog" where
  "typing cfg i c p = (if has_typing cfg then Ext i c (\<lambda>_. p) else p)"

definition process_failed :: "string \<Rightarrow> string \<Rightarrow> prog" where
  "process_failed i m = safeAmbiguous i (''process failed: '' @ m)"

text \<open>The inner \<open>try ... finally\<close>, after \<open>toDispatching\<close> returned the entry.\<close>

definition process_claimed :: "router_config \<Rightarrow> string \<Rightarrow> string \<Rightarrow> journal_entry \<Rightarrow> prog" where
  "process_claimed cfg i corrId entry =
     typing cfg i (Typing_start (je_channel entry))
       (let h = (\<lambda>m. typing cfg i (Typing_stop (je_channel entry)) (process_failed i m)) in
        call_or h i (Start_turn (thread_id cfg) (je_payload entry) corrId) (\<lambda>turnId.
          write_or h (Op_dispatched i turnId) (\<lambda>_.
            call_or h i (Await_completion turnId) (\<lambda>output.
              write_or h (Op_model_completed i (Some output)) (\<lambda>_.
                deliverOutput cfg h i output (je_channel entry) (je_route entry)
                  (write_or h (Op_completed i) (\<lambda>_.
                    typing cfg i (Typing_stop (je_channel entry)) Finished)))))))"

definition processEntry :: "router_config \<Rightarrow> string \<Rightarrow> string \<Rightarrow> prog" where
  "processEntry cfg i corrId =
     write_or (process_failed i) (Op_dispatching i corrId) (process_claimed cfg i corrId)"

definition recover_failed :: "string \<Rightarrow> string \<Rightarrow> prog" where
  "recover_failed i m = safeAmbiguous i (''recover failed: '' @ m)"

definition resend_output :: "router_config \<Rightarrow> journal_entry \<Rightarrow> string \<Rightarrow> prog" where
  "resend_output cfg entry output =
     deliverOutput cfg (recover_failed (je_id entry)) (je_id entry) output (je_channel entry) (je_route entry)
       (write_or (recover_failed (je_id entry)) (Op_completed (je_id entry)) (\<lambda>_. Finished))"

definition reconciled :: "router_config \<Rightarrow> journal_entry \<Rightarrow> reconcile_result \<Rightarrow> prog" where
  "reconciled cfg entry r =
     (let i = je_id entry; h = recover_failed i in
      if \<not> rc_exists r then safeAmbiguous i ''reconcile: no turn found - cannot prove side-effect-free replay''
      else if rc_completed r \<and> rc_output r \<noteq> None then
        (let output = the (rc_output r);
             finish = write_or h (Op_model_completed i (Some output)) (\<lambda>_. resend_output cfg entry output)
         in if je_state entry = Dispatching then
              (if \<not> truthy (rc_turn r)
               then safeAmbiguous i ''reconcile: completed turn without a real turnId''
               else write_or h (Op_dispatched i (the (rc_turn r))) (\<lambda>_. finish))
            else if je_state entry = Dispatched then finish
            else resend_output cfg entry output)
      else safeAmbiguous i ''reconcile: turn in unknown/active state'')"

definition recoverEntry :: "router_config \<Rightarrow> journal_entry \<Rightarrow> prog" where
  "recoverEntry cfg entry =
     (let i = je_id entry; h = recover_failed i in
      case recoveryAction entry of
        Redispatch \<Rightarrow> Push i Finished
      | Reconcile \<Rightarrow>
          if \<not> truthy (je_corr entry) then safeAmbiguous i ''reconcile: missing correlation id''
          else Ext i (Reconcile_turn (the (je_corr entry))) (\<lambda>r. case r of
              Threw m \<Rightarrow> h m
            | Value _ \<Rightarrow> h []
            | Reconciled rc \<Rightarrow> reconciled cfg entry rc)
      | Resend_output \<Rightarrow>
          if truthy (je_outbox entry) then
            ensureReplyRouteIfNeeded cfg i (je_route entry)
              (call_or h i (Deliver (the (je_outbox entry)))
                (\<lambda>_. write_or h (Op_completed i) (\<lambda>_. Finished)))
          else (case je_output entry of
              Some output \<Rightarrow> resend_output cfg entry output
            | None \<Rightarrow> safeAmbiguous i ''resend_output: no outboxId and no persisted output'')
      | No_action \<Rightarrow> Finished)"

subsection \<open>The router and its steps\<close>

text \<open>
  \<open>rt_pump\<close> is \<open>None\<close> when no pump runs; \<open>rt_recover\<close> holds the entries \<open>recover\<close> has still to
  handle and the program of the current one.
\<close>

record 's router =
  rt_store :: 's
  rt_queue :: "string list"
  rt_pump :: "prog option"
  rt_recover :: "(journal_entry list \<times> prog) option"
  rt_log :: "(string \<times> ext_call) list"

definition new_router :: "'s \<Rightarrow> 's router" where
  "new_router s = \<lparr>rt_store = s, rt_queue = [], rt_pump = None, rt_recover = None, rt_log = []\<rparr>"

text \<open>\<open>queue.push(id); void this.pump()\<close>.\<close>

definition enqueue_entry :: "string \<Rightarrow> 's router \<Rightarrow> 's router" where
  "enqueue_entry i rt = rt\<lparr>rt_queue := rt_queue rt @ [i],
     rt_pump := Some (or_else (rt_pump rt) Finished)\<rparr>"

definition submit :: "'s journal_store \<Rightarrow> router_config \<Rightarrow> int \<Rightarrow> string \<Rightarrow> accept_input \<Rightarrow> 's router
    \<Rightarrow> (journal_throw, (bool \<times> string) \<times> 's router) result" where
  "submit ops cfg now newId input rt =
     and_then (accept ops now newId input (rt_store rt)) (\<lambda>((accepted, entry), s).
       let rt1 = rt\<lparr>rt_store := s\<rparr> in
       if accepted then
         (let rt2 = (case je_route entry of Some r \<Rightarrow>
                if has_topic_hook cfg then rt1\<lparr>rt_log := rt_log rt1 @ [(je_id entry, Topic_engaged r)]\<rparr> else rt1
              | None \<Rightarrow> rt1)
          in Inr ((True, je_id entry), enqueue_entry (je_id entry) rt2))
       else Inr ((False, je_id entry), rt1))"

text \<open>One node of a program.\<close>

fun advance :: "'s journal_store \<Rightarrow> int \<Rightarrow> outcome \<Rightarrow> prog \<Rightarrow> 's router \<Rightarrow> prog \<times> 's router" where
  "advance ops now r Finished rt = (Finished, rt)"
| "advance ops now r (Journal_step op k) rt =
     (case run_op ops now op (rt_store rt) of
        Inl e \<Rightarrow> (k (Inl e), rt)
      | Inr (entry, s) \<Rightarrow> (k (Inr entry), rt\<lparr>rt_store := s\<rparr>))"
| "advance ops now r (Ext i c k) rt = (Wait c k, rt\<lparr>rt_log := rt_log rt @ [(i, c)]\<rparr>)"
| "advance ops now r (Wait c k) rt = (if outcome_ok c r then k r else Wait c k, rt)"
| "advance ops now r (Push i p) rt = (p, enqueue_entry i rt)"

text \<open>
  What can happen: an input arrives (with a fresh id from the factory), a founder-terminal turn
  is recorded, the pump takes the next entry (with a fresh correlation id) or executes one node,
  the recovery starts, takes its next entry or executes one node, the process restarts.
\<close>

datatype router_event =
    Submit int string accept_input
  | Observe int string string "string option"
  | Pump_next string
  | Pump int outcome
  | Recover_start
  | Recover_next
  | Recover int outcome
  | Restart

fun router_step :: "'s journal_store \<Rightarrow> router_config \<Rightarrow> router_event \<Rightarrow> 's router \<Rightarrow> 's router" where
  "router_step ops cfg (Submit now newId input) rt =
     (case submit ops cfg now newId input rt of Inl _ \<Rightarrow> rt | Inr (_, rt') \<Rightarrow> rt')"
| "router_step ops cfg (Observe now key payload output) rt =
     (case recordObservation ops now key payload output (rt_store rt) of
        Inl _ \<Rightarrow> rt | Inr s \<Rightarrow> rt\<lparr>rt_store := s\<rparr>)"
| "router_step ops cfg (Pump_next corrId) rt =
     (case rt_pump rt of
        Some Finished \<Rightarrow>
          (case rt_queue rt of
             [] \<Rightarrow> rt\<lparr>rt_pump := None\<rparr>
           | i # is \<Rightarrow> rt\<lparr>rt_queue := is, rt_pump := Some (processEntry cfg i corrId)\<rparr>)
      | _ \<Rightarrow> rt)"
| "router_step ops cfg (Pump now r) rt =
     (case rt_pump rt of None \<Rightarrow> rt
      | Some p \<Rightarrow> (let (p', rt') = advance ops now r p rt in rt'\<lparr>rt_pump := Some p'\<rparr>))"
| "router_step ops cfg Recover_start rt =
     (case rt_recover rt of
        None \<Rightarrow> rt\<lparr>rt_recover := Some (js_unfinished ops (rt_store rt), Finished)\<rparr>
      | Some _ \<Rightarrow> rt)"
| "router_step ops cfg Recover_next rt =
     (case rt_recover rt of
        Some ([], Finished) \<Rightarrow> rt\<lparr>rt_recover := None\<rparr>
      | Some (e # es, Finished) \<Rightarrow> rt\<lparr>rt_recover := Some (es, recoverEntry cfg e)\<rparr>
      | _ \<Rightarrow> rt)"
| "router_step ops cfg (Recover now r) rt =
     (case rt_recover rt of None \<Rightarrow> rt
      | Some (es, p) \<Rightarrow> (let (p', rt') = advance ops now r p rt in rt'\<lparr>rt_recover := Some (es, p')\<rparr>))"
| "router_step ops cfg Restart rt = rt\<lparr>rt_queue := [], rt_pump := None, rt_recover := None\<rparr>"

text \<open>The id factory returns a fresh, non-empty id; an observation's id is fresh unless its key is known.\<close>

fun event_ok :: "'s journal_store \<Rightarrow> router_event \<Rightarrow> 's router \<Rightarrow> bool" where
  "event_ok ops (Submit now newId input) rt = (newId \<noteq> [] \<and> js_get ops newId (rt_store rt) = None)"
| "event_ok ops (Observe now key payload output) rt =
     (js_get ops (''obs-'' @ key) (rt_store rt) = None \<or> js_get_key ops key (rt_store rt) \<noteq> None)"
| "event_ok ops ev rt = True"

inductive router_run :: "'s journal_store \<Rightarrow> router_config \<Rightarrow> 's router \<Rightarrow> 's router \<Rightarrow> bool" for ops cfg where
  start: "router_run ops cfg rt rt"
| step: "router_run ops cfg rt rt' \<Longrightarrow> event_ok ops ev rt' \<Longrightarrow> router_run ops cfg rt (router_step ops cfg ev rt')"

text \<open>A whole program against a world that answers each call from the calls made so far.\<close>

primrec run_prog :: "'s journal_store \<Rightarrow> int \<Rightarrow> ((string \<times> ext_call) list \<Rightarrow> outcome) \<Rightarrow> prog
    \<Rightarrow> 's router \<Rightarrow> 's router" where
  "run_prog ops now world Finished = (\<lambda>rt. rt)"
| "run_prog ops now world (Journal_step op k) = (\<lambda>rt. case run_op ops now op (rt_store rt) of
     Inl e \<Rightarrow> run_prog ops now world (k (Inl e)) rt
   | Inr (entry, s) \<Rightarrow> run_prog ops now world (k (Inr entry)) (rt\<lparr>rt_store := s\<rparr>))"
| "run_prog ops now world (Ext i c k) = (\<lambda>rt.
     let log = rt_log rt @ [(i, c)] in run_prog ops now world (k (world log)) (rt\<lparr>rt_log := log\<rparr>))"
| "run_prog ops now world (Wait c k) = (\<lambda>rt. run_prog ops now world (k (world (rt_log rt))) rt)"
| "run_prog ops now world (Push i p) = (\<lambda>rt. run_prog ops now world p (enqueue_entry i rt))"

end
