(* ===== verification/JournalStores.thy ===== *)
theory JournalStores
  imports Journal
begin

section \<open>One contract for both journal stores\<close>

text \<open>
  \<open>journal_contract\<close> states what \<open>LeadJournal\<close> needs of a store: an abstract list of entries in
  insertion order (\<open>rows\<close>), with distinct ids and keys, on which \<open>insertAccepted\<close> appends,
  \<open>transition\<close> is a compare-and-set of one entry, and \<open>listUnfinished\<close> filters. \<open>kept\<close> is what the
  store persists of an inserted entry. Both stores are interpretations of it.
\<close>

subsection \<open>The contract\<close>

definition set_entry :: "journal_entry \<Rightarrow> journal_entry list \<Rightarrow> journal_entry list" where
  "set_entry e = map (\<lambda>x. if je_id x = je_id e then e else x)"

definition entry_of :: "string \<Rightarrow> journal_entry list \<Rightarrow> journal_entry option" where
  "entry_of i = List.find (\<lambda>e. je_id e = i)"

definition key_entry :: "string \<Rightarrow> journal_entry list \<Rightarrow> journal_entry option" where
  "key_entry k = List.find (\<lambda>e. je_key e = k)"

lemma patched_id [simp]: "je_id (patched to p e) = je_id e" "je_key (patched to p e) = je_key e"
  "je_state (patched to p e) = to"
  by (simp_all add: patched_def)

lemma set_entry_ids [simp]: "map je_id (set_entry e es) = map je_id es"
  by (simp add: set_entry_def)

lemma set_entry_map_id: "map (\<lambda>x. f (je_id x)) (set_entry e es) = map (\<lambda>x. f (je_id x)) es"
  by (induction es) (auto simp: set_entry_def)

lemma entry_ofD: "entry_of i es = Some e \<Longrightarrow> e \<in> set es \<and> je_id e = i"
  unfolding entry_of_def by (drule find_Some_iff') simp

lemma entry_of_None: "entry_of i es = None \<longleftrightarrow> i \<notin> je_id ` set es"
  by (auto simp: entry_of_def find_None_iff')

lemma entry_of_append: "entry_of i (es @ [x]) =
    (case entry_of i es of None \<Rightarrow> if je_id x = i then Some x else None | Some e \<Rightarrow> Some e)"
  by (simp add: entry_of_def find_append split: option.split)

lemma entry_of_set_entry: "entry_of i (set_entry e es) =
    (if i = je_id e \<and> entry_of i es \<noteq> None then Some e else entry_of i es)"
  by (induction es) (auto simp: set_entry_def entry_of_def)

lemma set_entry_keys:
  assumes "distinct (map je_id es)" and "e \<in> set es"
  shows "map je_key (set_entry (patched to p e) es) = map je_key es"
proof -
  have "inj_on je_id (set es)" using assms(1) by (simp add: distinct_map)
  then have "je_key (if je_id x = je_id e then patched to p e else x) = je_key x" if "x \<in> set es" for x
    using that assms(2) inj_onD [of je_id "set es" x e] by auto
  then show ?thesis by (simp add: set_entry_def)
qed

locale journal_contract =
  fixes ops :: "'s journal_store" and inv :: "'s \<Rightarrow> bool" and rows :: "'s \<Rightarrow> journal_entry list"
    and kept :: "journal_entry \<Rightarrow> journal_entry"
  assumes rows_distinct: "inv s \<Longrightarrow> distinct (map je_id (rows s)) \<and> distinct (map je_key (rows s))"
    and kept_id: "je_id (kept e) = je_id e" and kept_key: "je_key (kept e) = je_key e"
    and kept_state: "je_state (kept e) = je_state e"
    and insert_known: "inv s \<Longrightarrow> e \<in> set (rows s) \<Longrightarrow> je_key e = je_key x
      \<Longrightarrow> js_insert ops x s = Inr ((False, e), s)"
    and insert_new: "inv s \<Longrightarrow> je_id x \<noteq> [] \<Longrightarrow> je_key x \<notin> je_key ` set (rows s)
      \<Longrightarrow> je_id x \<notin> je_id ` set (rows s)
      \<Longrightarrow> \<exists>s'. js_insert ops x s = Inr ((True, x), s') \<and> inv s' \<and> rows s' = rows s @ [kept x]"
    and get_is: "inv s \<Longrightarrow> js_get ops i s = entry_of i (rows s)"
    and get_key_is: "inv s \<Longrightarrow> js_get_key ops k s = key_entry k (rows s)"
    and transition_miss: "inv s \<Longrightarrow> (case entry_of i (rows s) of None \<Rightarrow> True | Some e \<Rightarrow> je_state e \<notin> set expected)
      \<Longrightarrow> js_transition ops i expected to p s
        = Inl (Illegal_transition (map_option je_state (entry_of i (rows s))) to i)"
    and transition_hit: "inv s \<Longrightarrow> entry_of i (rows s) = Some e \<Longrightarrow> je_state e \<in> set expected
      \<Longrightarrow> \<exists>s'. js_transition ops i expected to p s = Inr (patched to p e, s') \<and> inv s'
        \<and> rows s' = set_entry (patched to p e) (rows s)"
    and unfinished_is: "inv s \<Longrightarrow> js_unfinished ops s = filter is_unfinished (rows s)"

subsection \<open>The SQLite store\<close>

definition sqlite_rows :: "sqlite_store \<Rightarrow> journal_entry list" where
  "sqlite_rows = map rowToEntry"

definition sqlite_inv :: "sqlite_store \<Rightarrow> bool" where
  "sqlite_inv s = (distinct (map jr_id s) \<and> distinct (map jr_idempotency_key s))"

definition persisted :: "journal_entry \<Rightarrow> journal_entry" where
  "persisted e = e\<lparr>je_corr := None, je_turn := None, je_output := None, je_outbox := None, je_reason := None\<rparr>"

lemma row_fields [simp]: "je_id (rowToEntry r) = jr_id r" "je_key (rowToEntry r) = jr_idempotency_key r"
  "je_state (rowToEntry r) = jr_state r"
  by (simp_all add: rowToEntry_def)

lemma row_of_inserted: "rowToEntry (inserted_row e) = persisted e"
  by (simp add: rowToEntry_def inserted_row_def persisted_def)

lemma row_of_patched: "rowToEntry (patched_row to p r) = patched to p (rowToEntry r)"
  by (simp add: rowToEntry_def patched_row_def patched_def)

lemma sqlite_rows_ids: "map je_id (sqlite_rows s) = map jr_id s"
  "map je_key (sqlite_rows s) = map jr_idempotency_key s"
  by (simp_all add: sqlite_rows_def)

lemma sqlite_get_rows: "sqlite_get i s = entry_of i (sqlite_rows s)"
  by (induction s) (auto simp: sqlite_get_def entry_of_def sqlite_rows_def)

lemma sqlite_insert_known:
  assumes "sqlite_inv s" and "e \<in> set (sqlite_rows s)" and "je_key e = je_key x"
  shows "sqlite_insert x s = Inr ((False, e), s)"
proof -
  from assms(2) obtain r where r: "r \<in> set s" "e = rowToEntry r" by (auto simp: sqlite_rows_def)
  then have "List.find (\<lambda>q. jr_idempotency_key q = jr_idempotency_key r) s = Some r"
    using assms(1) by (intro find_unique) (simp_all add: sqlite_inv_def)
  then show ?thesis using r assms(3) by (simp add: sqlite_insert_def sqlite_get_key_def)
qed

lemma sqlite_insert_new:
  assumes "sqlite_inv s" and "je_key x \<notin> je_key ` set (sqlite_rows s)" and "je_id x \<notin> je_id ` set (sqlite_rows s)"
  shows "sqlite_insert x s = Inr ((True, x), s @ [inserted_row x]) \<and> sqlite_inv (s @ [inserted_row x])"
proof -
  have no: "je_key x \<notin> jr_idempotency_key ` set s" "je_id x \<notin> jr_id ` set s"
    using assms(2,3) by (simp_all add: sqlite_rows_def image_image)
  then have k: "jr_idempotency_key r \<noteq> je_key x" "jr_id r \<noteq> je_id x" if "r \<in> set s" for r
    using that by (metis imageI)+
  then have "sqlite_get_key (je_key x) s = None" by (simp add: sqlite_get_key_def find_None_iff')
  moreover have "\<not> list_ex (\<lambda>r. jr_id r = je_id x) s" using k by (auto simp: list_ex_iff)
  ultimately show ?thesis
    using assms(1) no by (simp add: sqlite_insert_def sqlite_inv_def inserted_row_def)
qed

lemma cas_hits: "sqlite_inv s \<Longrightarrow> r \<in> set s \<Longrightarrow> jr_id r = i \<Longrightarrow> jr_state r \<in> set expected
    \<Longrightarrow> filter (cas_hit i expected) s = [r]"
  by (induction s) (auto simp: sqlite_inv_def cas_hit_def image_iff filter_empty_conv)

lemma sqlite_transition_hit:
  assumes "sqlite_inv s" and "entry_of i (sqlite_rows s) = Some e" and "je_state e \<in> set expected"
  shows "\<exists>s'. sqlite_transition i expected to p s = Inr (patched to p e, s') \<and> sqlite_inv s'
    \<and> sqlite_rows s' = set_entry (patched to p e) (sqlite_rows s)"
proof -
  have e: "e \<in> rowToEntry ` set s" "je_id e = i" using entry_ofD [OF assms(2)] by (simp_all add: sqlite_rows_def)
  from e(1) obtain r where re: "e = rowToEntry r" "r \<in> set s" by (rule imageE)
  then have r: "r \<in> set s" "e = rowToEntry r" "jr_id r = i" using e(2) by simp_all
  have hits: "filter (cas_hit i expected) s = [r]" using cas_hits [OF assms(1) r(1,3)] assms(3) r(2) by simp
  have only: "q = r" if "q \<in> set s" "jr_id q = i" for q
    using assms(1) that r inj_onD [of jr_id "set s" q r] by (simp add: sqlite_inv_def distinct_map)
  let ?s' = "map (\<lambda>q. if cas_hit i expected q then patched_row to p q else q) s"
  have "cas_hit i expected r" using r assms(3) by (simp add: cas_hit_def)
  then have step: "rowToEntry (if cas_hit i expected q then patched_row to p q else q)
      = (if jr_id q = i then patched to p e else rowToEntry q)" if "q \<in> set s" for q
    using only [OF that] r by (auto simp: cas_hit_def row_of_patched)
  then have rows: "sqlite_rows ?s' = set_entry (patched to p e) (sqlite_rows s)"
    using r(2,3) by (simp add: sqlite_rows_def set_entry_def)
  have "sqlite_inv ?s'"
    using assms(1) by (auto simp: sqlite_inv_def patched_row_def comp_def if_distrib [of jr_id]
        if_distrib [of jr_idempotency_key] cong: if_cong)
  moreover have "sqlite_get i ?s' = Some (patched to p e)"
    using assms(2) r by (simp add: sqlite_get_rows rows entry_of_set_entry)
  ultimately show ?thesis using hits rows by (simp add: sqlite_transition_def Let_def)
qed

lemma sqlite_transition_miss:
  assumes "case entry_of i (sqlite_rows s) of None \<Rightarrow> True | Some e \<Rightarrow> je_state e \<notin> set expected"
    and "sqlite_inv s"
  shows "sqlite_transition i expected to p s
    = Inl (Illegal_transition (map_option je_state (entry_of i (sqlite_rows s))) to i)"
proof -
  have "\<not> cas_hit i expected r" if "r \<in> set s" for r
  proof
    assume hit: "cas_hit i expected r"
    have "List.find (\<lambda>e. je_id e = je_id (rowToEntry r)) (sqlite_rows s) = Some (rowToEntry r)"
      using assms(2) that by (intro find_unique) (simp_all add: sqlite_rows_ids sqlite_inv_def, simp add: sqlite_rows_def)
    then show False using assms(1) hit by (simp add: entry_of_def cas_hit_def)
  qed
  then have "filter (cas_hit i expected) s = []" by (simp add: filter_empty_conv)
  then show ?thesis by (simp add: sqlite_transition_def sqlite_get_rows)
qed

lemma sqlite_get_key_rows: "sqlite_get_key k s = key_entry k (sqlite_rows s)"
  by (induction s) (auto simp: sqlite_get_key_def key_entry_def sqlite_rows_def)

interpretation sqlite: journal_contract sqlite_ops sqlite_inv sqlite_rows persisted
proof unfold_locales
  fix s :: sqlite_store and x e :: journal_entry and i expected to p
  show "sqlite_inv s \<Longrightarrow> distinct (map je_id (sqlite_rows s)) \<and> distinct (map je_key (sqlite_rows s))"
    by (simp add: sqlite_rows_ids sqlite_inv_def)
  show "je_id (persisted e) = je_id e" "je_key (persisted e) = je_key e" "je_state (persisted e) = je_state e"
    by (simp_all add: persisted_def)
  show "sqlite_inv s \<Longrightarrow> e \<in> set (sqlite_rows s) \<Longrightarrow> je_key e = je_key x
      \<Longrightarrow> js_insert sqlite_ops x s = Inr ((False, e), s)"
    by (simp add: sqlite_ops_def sqlite_insert_known)
  show "\<exists>s'. js_insert sqlite_ops x s = Inr ((True, x), s') \<and> sqlite_inv s'
      \<and> sqlite_rows s' = sqlite_rows s @ [persisted x]"
    if "sqlite_inv s" "je_key x \<notin> je_key ` set (sqlite_rows s)" "je_id x \<notin> je_id ` set (sqlite_rows s)"
    using sqlite_insert_new [OF that] by (simp add: sqlite_ops_def sqlite_rows_def row_of_inserted)
  show "js_get sqlite_ops i s = entry_of i (sqlite_rows s)"
    by (simp add: sqlite_ops_def sqlite_get_rows)
  show "js_get_key sqlite_ops k s = key_entry k (sqlite_rows s)" for k
    by (simp add: sqlite_ops_def sqlite_get_key_rows)
  show "js_transition sqlite_ops i expected to p s
      = Inl (Illegal_transition (map_option je_state (entry_of i (sqlite_rows s))) to i)"
    if "sqlite_inv s" "case entry_of i (sqlite_rows s) of None \<Rightarrow> True | Some e \<Rightarrow> je_state e \<notin> set expected"
    using sqlite_transition_miss [OF that(2,1)] by (simp add: sqlite_ops_def)
  show "\<exists>s'. js_transition sqlite_ops i expected to p s = Inr (patched to p e, s') \<and> sqlite_inv s'
      \<and> sqlite_rows s' = set_entry (patched to p e) (sqlite_rows s)"
    if "sqlite_inv s" "entry_of i (sqlite_rows s) = Some e" "je_state e \<in> set expected"
    using sqlite_transition_hit [OF that] by (simp add: sqlite_ops_def)
  show "js_unfinished sqlite_ops s = filter is_unfinished (sqlite_rows s)"
    by (simp add: sqlite_ops_def sqlite_unfinished_def sqlite_rows_def is_unfinished_def filter_map comp_def)
qed

subsection \<open>The in-memory store\<close>

definition memory_rows :: "memory_store \<Rightarrow> journal_entry list" where
  "memory_rows s = map snd (by_id s)"

definition memory_inv :: "memory_store \<Rightarrow> bool" where
  "memory_inv s = (by_id s = map (\<lambda>e. (je_id e, e)) (memory_rows s)
     \<and> distinct (map je_id (memory_rows s)) \<and> distinct (map je_key (memory_rows s))
     \<and> [] \<notin> je_id ` set (memory_rows s)
     \<and> map_of (by_key s) = (\<lambda>k. map_option je_id (key_entry k (memory_rows s)))
     \<and> map (\<lambda>e. map_of (seq_of s) (je_id e)) (memory_rows s) = map Some [0..<length (memory_rows s)]
     \<and> next_seq_no s = length (memory_rows s))"

lemma map_of_entries: "map_of (map (\<lambda>e. (je_id e, e)) es) i = entry_of i es"
  by (induction es) (auto simp: entry_of_def)

lemma memory_get_rows: "memory_inv s \<Longrightarrow> memory_get i s = entry_of i (memory_rows s)"
  using map_of_entries [of "memory_rows s" i] by (simp add: memory_inv_def memory_get_def)

lemma key_entryD: "key_entry k es = Some e \<Longrightarrow> e \<in> set es \<and> je_key e = k"
  unfolding key_entry_def by (drule find_Some_iff') simp

lemma key_entry_unique: "distinct (map je_key es) \<Longrightarrow> e \<in> set es \<Longrightarrow> key_entry (je_key e) es = Some e"
  unfolding key_entry_def by (rule find_unique)

lemma entry_of_unique: "distinct (map je_id es) \<Longrightarrow> e \<in> set es \<Longrightarrow> entry_of (je_id e) es = Some e"
  unfolding entry_of_def by (rule find_unique)

lemma memory_lookup_rows:
  assumes "memory_inv s"
  shows "memory_lookup k s = key_entry k (memory_rows s)"
proof (cases "key_entry k (memory_rows s)")
  case None
  with assms show ?thesis by (simp add: memory_lookup_def memory_inv_def)
next
  case (Some e)
  then have e: "e \<in> set (memory_rows s)" using key_entryD by blast
  have "entry_of (je_id e) (memory_rows s) = Some e"
    using assms e by (intro entry_of_unique) (simp_all add: memory_inv_def)
  moreover have "je_id e \<noteq> []" using assms imageI [OF e, of je_id] unfolding memory_inv_def by metis
  ultimately show ?thesis
    using assms Some memory_get_rows [OF assms, of "je_id e"]
    by (simp add: memory_lookup_def memory_inv_def memory_get_def)
qed

lemma update_entry: "distinct (map je_id es) \<Longrightarrow> entry_of i es = Some e \<Longrightarrow> je_id e' = i
    \<Longrightarrow> AList.update i e' (map (\<lambda>e. (je_id e, e)) es) = map (\<lambda>e. (je_id e, e)) (set_entry e' es)"
proof (induction es)
  case (Cons x es)
  then show ?case
    using map_idI [of es "\<lambda>y. if je_id y = i then e' else y"]
    by (auto simp: entry_of_def set_entry_def image_iff split: if_splits)
qed (simp add: entry_of_def)

lemma memory_insert_new:
  assumes inv: "memory_inv s" and "je_id x \<noteq> []" and key: "je_key x \<notin> je_key ` set (memory_rows s)"
    and id: "je_id x \<notin> je_id ` set (memory_rows s)"
  shows "\<exists>s'. memory_insert x s = Inr ((True, x), s') \<and> memory_inv s' \<and> memory_rows s' = memory_rows s @ [x]"
proof -
  have none: "key_entry (je_key x) (memory_rows s) = None"
    using not_image [OF key] by (simp add: key_entry_def find_None_iff')
  have by_id: "by_id s = map (\<lambda>e. (je_id e, e)) (memory_rows s)" using inv by (simp add: memory_inv_def)
  have "je_id x \<notin> fst ` set (by_id s)" using id unfolding by_id by (auto simp: image_image)
  then have upd: "AList.update (je_id x) x (by_id s) = by_id s @ [(je_id x, x)]" by (rule update_new_key)
  let ?s' = "s\<lparr>by_id := by_id s @ [(je_id x, x)], by_key := AList.update (je_key x) (je_id x) (by_key s),
    seq_of := AList.update (je_id x) (next_seq_no s) (seq_of s), next_seq_no := next_seq_no s + 1\<rparr>"
  have rows: "memory_rows ?s' = memory_rows s @ [x]" by (simp add: memory_rows_def)
  have keys: "key_entry k (memory_rows s @ [x]) = (if k = je_key x then Some x else key_entry k (memory_rows s))" for k
    using none by (auto simp: key_entry_def find_append split: option.split)
  have seqs: "map (\<lambda>e. map_of (seq_of ?s') (je_id e)) (memory_rows s)
      = map (\<lambda>e. map_of (seq_of s) (je_id e)) (memory_rows s)"
    using id by (auto simp: image_iff)
  have "memory_inv ?s'"
    unfolding memory_inv_def rows map_append seqs using inv assms(2) key id
    by (auto simp: memory_inv_def keys)
  moreover have "memory_insert x s = Inr ((True, x), ?s')"
    using none by (simp add: memory_insert_def memory_lookup_rows [OF inv] upd)
  ultimately show ?thesis using rows by blast
qed

lemma key_entry_set_entry:
  assumes "distinct (map je_id es)" and "e \<in> set es" and "distinct (map je_key es)"
  shows "map_option je_id (key_entry k (set_entry (patched to p e) es)) = map_option je_id (key_entry k es)"
proof -
  have "map je_id (set_entry (patched to p e) es) = map je_id es" by simp
  moreover have "map je_key (set_entry (patched to p e) es) = map je_key es" by (rule set_entry_keys) fact+
  moreover have "map je_id xs = map je_id ys \<Longrightarrow> map je_key xs = map je_key ys
      \<Longrightarrow> map_option je_id (key_entry k xs) = map_option je_id (key_entry k ys)" for xs ys
  proof (induction xs arbitrary: ys)
    case (Cons x xs)
    then show ?case by (cases ys) (auto simp: key_entry_def)
  qed (simp add: key_entry_def)
  ultimately show ?thesis by blast
qed

lemma memory_transition_hit:
  assumes inv: "memory_inv s" and e: "entry_of i (memory_rows s) = Some e" and "je_state e \<in> set expected"
  shows "\<exists>s'. memory_transition i expected to p s = Inr (patched to p e, s') \<and> memory_inv s'
    \<and> memory_rows s' = set_entry (patched to p e) (memory_rows s)"
proof -
  let ?e = "patched to p e" and ?es = "memory_rows s"
  have d: "distinct (map je_id ?es)" "distinct (map je_key ?es)" using inv by (simp_all add: memory_inv_def)
  have m: "e \<in> set ?es" "je_id e = i" using entry_ofD [OF e] by simp_all
  have by_id: "by_id s = map (\<lambda>e. (je_id e, e)) ?es" using inv by (simp add: memory_inv_def)
  have upd: "AList.update i ?e (by_id s) = map (\<lambda>e. (je_id e, e)) (set_entry ?e ?es)"
    unfolding by_id using d(1) e by (rule update_entry) (simp add: m)
  let ?s' = "s\<lparr>by_id := AList.update i ?e (by_id s)\<rparr>"
  have rows: "memory_rows ?s' = set_entry ?e ?es" by (simp add: upd memory_rows_def [of "s\<lparr>by_id := _\<rparr>"] comp_def)
  have ids: "je_id ` set (set_entry ?e ?es) = je_id ` set ?es"
    using set_entry_ids [of ?e ?es] by (metis set_map)
  have len: "length (set_entry ?e ?es) = length ?es" by (simp add: set_entry_def)
  have "memory_inv ?s'"
    unfolding memory_inv_def rows ids len using inv d key_entry_set_entry [OF d(1) m(1) d(2), of _ to p] upd
      set_entry_keys [OF d(1) m(1), of to p] by (simp add: memory_inv_def set_entry_map_id [of "map_of (seq_of s)"])
  moreover have "map_of (by_id s) i = Some e" using e by (simp add: by_id map_of_entries)
  ultimately show ?thesis
    using assms(3) rows m by (simp add: memory_transition_def Let_def)
qed

lemma memory_unfinished_rows:
  assumes inv: "memory_inv s"
  shows "memory_unfinished s = filter is_unfinished (memory_rows s)"
proof -
  let ?key = "\<lambda>e. or_else (map_of (seq_of s) (je_id e)) 0"
  have "map ?key (memory_rows s) = map (\<lambda>q. or_else q 0) (map (\<lambda>e. map_of (seq_of s) (je_id e)) (memory_rows s))"
    by simp
  also have "\<dots> = [0..<length (memory_rows s)]" using inv by (simp add: memory_inv_def comp_def)
  finally have "sorted (map ?key (memory_rows s))" by simp
  then have "sorted (map ?key (filter is_unfinished (memory_rows s)))" by (rule sorted_filter)
  then show ?thesis
    unfolding memory_unfinished_def memory_rows_def [symmetric] by (simp add: sort_key_id_if_sorted)
qed

interpretation memory: journal_contract memory_ops memory_inv memory_rows "\<lambda>e. e"
proof unfold_locales
  fix s :: memory_store and x e :: journal_entry and i expected to p
  show "memory_inv s \<Longrightarrow> distinct (map je_id (memory_rows s)) \<and> distinct (map je_key (memory_rows s))"
    by (simp add: memory_inv_def)
  show "js_insert memory_ops x s = Inr ((False, e), s)"
    if "memory_inv s" "e \<in> set (memory_rows s)" "je_key e = je_key x"
    using that key_entry_unique [of "memory_rows s" e]
    by (simp add: memory_ops_def memory_insert_def memory_lookup_rows) (simp add: memory_inv_def)
  show "\<exists>s'. js_insert memory_ops x s = Inr ((True, x), s') \<and> memory_inv s' \<and> memory_rows s' = memory_rows s @ [x]"
    if "memory_inv s" "je_id x \<noteq> []" "je_key x \<notin> je_key ` set (memory_rows s)"
      "je_id x \<notin> je_id ` set (memory_rows s)"
    using memory_insert_new [OF that] by (simp add: memory_ops_def)
  show "memory_inv s \<Longrightarrow> js_get memory_ops i s = entry_of i (memory_rows s)"
    by (simp add: memory_ops_def memory_get_rows)
  show "memory_inv s \<Longrightarrow> js_get_key memory_ops k s = key_entry k (memory_rows s)" for k
    by (simp add: memory_ops_def memory_lookup_rows)
  show "js_transition memory_ops i expected to p s
      = Inl (Illegal_transition (map_option je_state (entry_of i (memory_rows s))) to i)"
    if "memory_inv s" "case entry_of i (memory_rows s) of None \<Rightarrow> True | Some e \<Rightarrow> je_state e \<notin> set expected"
    using that memory_get_rows [OF that(1), of i]
    by (auto simp: memory_ops_def memory_transition_def memory_get_def split: option.splits)
  show "\<exists>s'. js_transition memory_ops i expected to p s = Inr (patched to p e, s') \<and> memory_inv s'
      \<and> memory_rows s' = set_entry (patched to p e) (memory_rows s)"
    if "memory_inv s" "entry_of i (memory_rows s) = Some e" "je_state e \<in> set expected"
    using memory_transition_hit [OF that] by (simp add: memory_ops_def)
  show "memory_inv s \<Longrightarrow> js_unfinished memory_ops s = filter is_unfinished (memory_rows s)"
    by (simp add: memory_ops_def memory_unfinished_rows)
qed simp_all

end
