(* ===== verification/LeadRouterRun.thy ===== *)
theory LeadRouterRun
  imports LeadRouter JournalStores
begin

section \<open>What the journal's contract gives the router\<close>

text \<open>
  Lemmas of the router over any store that obeys \<open>journal_contract\<close>: what a journal write does,
  that an entry which left \<open>accepted\<close> never returns to it, where a program can start a turn, and in
  which states a program can leave its entry.
\<close>

subsection \<open>Journal writes\<close>

fun op_id :: "journal_op \<Rightarrow> string" where
  "op_id (Op_dispatching i _) = i" | "op_id (Op_dispatched i _) = i" | "op_id (Op_model_completed i _) = i"
| "op_id (Op_output_pending i _) = i" | "op_id (Op_completed i) = i" | "op_id (Op_ambiguous i _) = i"

fun op_to :: "journal_op \<Rightarrow> journal_state" where
  "op_to (Op_dispatching _ _) = Dispatching" | "op_to (Op_dispatched _ _) = Dispatched"
| "op_to (Op_model_completed _ _) = Model_completed" | "op_to (Op_output_pending _ _) = Output_pending"
| "op_to (Op_completed _) = Completed" | "op_to (Op_ambiguous _ _) = Ambiguous"

fun op_patch :: "journal_op \<Rightarrow> journal_patch" where
  "op_patch (Op_dispatching _ c) = no_patch\<lparr>jp_corr := Some c\<rparr>"
| "op_patch (Op_dispatched _ t) = no_patch\<lparr>jp_turn := Some t\<rparr>"
| "op_patch (Op_model_completed _ x) = no_patch\<lparr>jp_output := Some (or_else x [])\<rparr>"
| "op_patch (Op_output_pending _ b) = no_patch\<lparr>jp_outbox := Some b\<rparr>"
| "op_patch (Op_completed _) = no_patch"
| "op_patch (Op_ambiguous _ r) = no_patch\<lparr>jp_reason := Some r\<rparr>"

text \<open>The required argument is missing.\<close>

fun op_refused :: "journal_op \<Rightarrow> bool" where
  "op_refused (Op_dispatching _ c) = (c = [])" | "op_refused (Op_dispatched _ t) = (t = [])"
| "op_refused (Op_output_pending _ b) = (b = [])" | "op_refused (Op_ambiguous _ r) = (r = [])"
| "op_refused _ = False"

definition op_entry :: "int \<Rightarrow> journal_op \<Rightarrow> journal_entry \<Rightarrow> journal_entry" where
  "op_entry now op e = patched (op_to op) ((op_patch op)\<lparr>jp_updated := Some now\<rparr>) e"

lemma run_op_refused: "op_refused op \<Longrightarrow> \<exists>m. run_op ops now op s = Inl m"
  by (cases op) (auto simp: toDispatching_def toDispatched_def toOutputPending_def toAmbiguous_def required_def)

lemma run_op_transition: "\<not> op_refused op \<Longrightarrow> run_op ops now op s =
    js_transition ops (op_id op) (statesAllowing (op_to op)) (op_to op) ((op_patch op)\<lparr>jp_updated := Some now\<rparr>) s"
  by (cases op) (auto simp: toDispatching_def toDispatched_def toModelCompleted_def toOutputPending_def
      toCompleted_def toAmbiguous_def required_def transition_def)

lemma op_entry_fields [simp]: "je_id (op_entry now op e) = je_id e" "je_state (op_entry now op e) = op_to op"
  "je_payload (op_entry now op e) = je_payload e" "je_key (op_entry now op e) = je_key e"
  "je_channel (op_entry now op e) = je_channel e" "je_route (op_entry now op e) = je_route e"
  by (simp_all add: op_entry_def patched_def)

lemma op_to_not_accepted [simp]: "op_to op \<noteq> Accepted"
  by (cases op) simp_all

lemma statesAllowing_simps [simp]:
  "statesAllowing Dispatching = [Accepted]" "statesAllowing Dispatched = [Dispatching]"
  "statesAllowing Model_completed = [Dispatched]" "statesAllowing Output_pending = [Model_completed]"
  "statesAllowing Completed = [Output_pending]" "statesAllowing Accepted = []"
  "statesAllowing Ambiguous = [Accepted, Dispatching, Dispatched, Model_completed, Output_pending]"
  "statesAllowing Dead_letter = [Accepted, Dispatching, Dispatched, Model_completed, Output_pending]"
  by code_simp+

lemma op_entry_corr: "je_state e \<in> set (statesAllowing (op_to op)) \<Longrightarrow> je_state e \<noteq> Accepted
    \<Longrightarrow> je_corr (op_entry now op e) = je_corr e"
  by (cases op) (auto simp: op_entry_def patched_def no_patch_def)

context journal_contract
begin

lemma run_op_hit:
  assumes "inv s" and "\<not> op_refused op" and "entry_of (op_id op) (rows s) = Some e"
    and "je_state e \<in> set (statesAllowing (op_to op))"
  shows "\<exists>s'. run_op ops now op s = Inr (op_entry now op e, s') \<and> inv s'
    \<and> rows s' = set_entry (op_entry now op e) (rows s)"
  unfolding run_op_transition [OF assms(2)] op_entry_def
  using transition_hit [OF assms(1,3,4)] .

lemma run_op_ok:
  assumes "inv s" and "run_op ops now op s = Inr (x, s')"
  obtains e where "entry_of (op_id op) (rows s) = Some e" "je_state e \<in> set (statesAllowing (op_to op))"
    "x = op_entry now op e" "inv s'" "rows s' = set_entry (op_entry now op e) (rows s)"
proof -
  have nr: "\<not> op_refused op" using run_op_refused [of op ops now s] assms(2) by auto
  show thesis
  proof (cases "case entry_of (op_id op) (rows s) of None \<Rightarrow> True
      | Some e \<Rightarrow> je_state e \<notin> set (statesAllowing (op_to op))")
    case True
    from transition_miss [OF assms(1) this] assms(2) show thesis by (simp add: run_op_transition [OF nr])
  next
    case False
    then obtain e where e: "entry_of (op_id op) (rows s) = Some e" "je_state e \<in> set (statesAllowing (op_to op))"
      by (auto split: option.splits)
    from run_op_hit [OF assms(1) nr e, of now] assms(2) e that show thesis by auto
  qed
qed

lemma run_op_miss:
  assumes "inv s" and "entry_of (op_id op) (rows s) = Some e" and "je_state e \<notin> set (statesAllowing (op_to op))"
  shows "\<exists>m. run_op ops now op s = Inl m"
proof (cases "run_op ops now op s")
  case (Inr p)
  then show ?thesis using run_op_ok [OF assms(1), of now op "fst p" "snd p"] assms(2,3) by (cases p) auto
qed simp

end

subsection \<open>An entry that was dispatched stays dispatched\<close>

text \<open>Entries that left \<open>accepted\<close> keep their payload and correlation id and do not return.\<close>

definition keeps_started :: "journal_entry list \<Rightarrow> journal_entry list \<Rightarrow> bool" where
  "keeps_started es es' = (\<forall>i e. entry_of i es = Some e \<and> je_state e \<noteq> Accepted \<longrightarrow>
     (\<exists>e'. entry_of i es' = Some e' \<and> je_state e' \<noteq> Accepted \<and> je_payload e' = je_payload e
        \<and> je_corr e' = je_corr e))"

lemma keeps_started_refl [simp]: "keeps_started es es"
  by (simp add: keeps_started_def)

lemma keeps_started_append [simp]: "keeps_started es (es @ [x])"
  by (auto simp: keeps_started_def entry_of_append)

lemma keeps_started_op:
  assumes "entry_of (op_id op) es = Some e" and "je_state e \<in> set (statesAllowing (op_to op))"
  shows "keeps_started es (set_entry (op_entry now op e) es)"
  unfolding keeps_started_def entry_of_set_entry
  using assms entry_ofD [OF assms(1)] op_entry_corr [OF assms(2)] by auto

subsection \<open>Where a program starts a turn\<close>

fun is_start :: "ext_call \<Rightarrow> bool" where
  "is_start (Start_turn _ _ _) = True"
| "is_start _ = False"

primrec no_start :: "prog \<Rightarrow> bool" where
  "no_start Finished = True"
| "no_start (Journal_step op k) = (\<forall>r. no_start (k r))"
| "no_start (Ext i c k) = (\<not> is_start c \<and> (\<forall>r. no_start (k r)))"
| "no_start (Wait c k) = (\<forall>r. no_start (k r))"
| "no_start (Push i p) = no_start p"

text \<open>At most one turn is started on each path, namely by the call \<open>c\<close> for entry \<open>i\<close>.\<close>

primrec starts_only :: "string \<Rightarrow> ext_call \<Rightarrow> prog \<Rightarrow> bool" where
  "starts_only i c Finished = True"
| "starts_only i c (Journal_step op k) = (\<forall>r. starts_only i c (k r))"
| "starts_only i c (Ext j d k) =
     (if is_start d then j = i \<and> d = c \<and> (\<forall>r. no_start (k r)) else (\<forall>r. starts_only i c (k r)))"
| "starts_only i c (Wait d k) = (\<forall>r. starts_only i c (k r))"
| "starts_only i c (Push j p) = starts_only i c p"

lemma no_start_safeAmbiguous [simp]: "no_start (safeAmbiguous i m)"
  by (simp add: safeAmbiguous_def)

lemma no_start_write_or: "(\<And>m. no_start (h m)) \<Longrightarrow> (\<And>e. no_start (k e)) \<Longrightarrow> no_start (write_or h op k)"
  by (simp add: write_or_def split: sum.split)

lemma no_start_call_or: "\<not> is_start c \<Longrightarrow> (\<And>m. no_start (h m)) \<Longrightarrow> (\<And>v. no_start (k v))
    \<Longrightarrow> no_start (call_or h i c k)"
  by (simp add: call_or_def split: outcome.split)

lemma no_start_ensure: "no_start p \<Longrightarrow> no_start (ensureReplyRouteIfNeeded cfg i route p)"
  by (simp add: ensureReplyRouteIfNeeded_def split: option.split)

lemma no_start_typing: "\<not> is_start c \<Longrightarrow> no_start p \<Longrightarrow> no_start (typing cfg i c p)"
  by (simp add: typing_def)

lemmas no_start_intros = no_start_write_or no_start_call_or no_start_ensure no_start_typing

lemma no_start_deliver: "(\<And>m. no_start (h m)) \<Longrightarrow> no_start p \<Longrightarrow> no_start (deliverOutput cfg h i out ch route p)"
  unfolding deliverOutput_def by (intro no_start_intros) simp_all

lemma no_start_recover_failed [simp]: "no_start (recover_failed i m)"
  by (simp add: recover_failed_def)

lemma no_start_resend: "no_start (resend_output cfg e out)"
  unfolding resend_output_def by (intro no_start_deliver no_start_intros no_start_recover_failed) simp_all

lemma no_start_reconciled: "no_start (reconciled cfg e r)"
  unfolding reconciled_def Let_def by (simp add: no_start_write_or no_start_resend)

lemma recover_no_start: "no_start (recoverEntry cfg e)"
  unfolding recoverEntry_def Let_def
  by (simp add: no_start_reconciled no_start_resend no_start_intros
      split: recovery_action.split option.split outcome.split)

definition turn_of :: "router_config \<Rightarrow> string \<Rightarrow> journal_entry \<Rightarrow> ext_call" where
  "turn_of cfg corrId e = Start_turn (thread_id cfg) (je_payload e) corrId"

lemma no_start_failed [simp]: "no_start (process_failed i m)"
  by (simp add: process_failed_def)

lemma starts_only_typing: "\<not> is_start d \<Longrightarrow> starts_only i c p \<Longrightarrow> starts_only i c (typing cfg i d p)"
  by (simp add: typing_def)

lemma starts_only_call: "is_start c \<Longrightarrow> (\<And>m. no_start (h m)) \<Longrightarrow> (\<And>v. no_start (k v))
    \<Longrightarrow> starts_only i c (call_or h i c k)"
  by (simp add: call_or_def split: outcome.split)

lemma claimed_starts_only: "starts_only i (turn_of cfg c e) (process_claimed cfg i c e)"
proof -
  let ?h = "\<lambda>m. typing cfg i (Typing_stop (je_channel e)) (process_failed i m)"
  have h: "no_start (?h m)" for m by (intro no_start_intros) simp_all
  have "no_start (write_or ?h (Op_dispatched i t) (\<lambda>_. call_or ?h i (Await_completion t) (\<lambda>out.
      write_or ?h (Op_model_completed i (Some out)) (\<lambda>_.
        deliverOutput cfg ?h i out (je_channel e) (je_route e) (write_or ?h (Op_completed i) (\<lambda>_.
          typing cfg i (Typing_stop (je_channel e)) Finished))))))" for t
    by (intro no_start_intros no_start_deliver h) simp_all
  then show ?thesis
    unfolding process_claimed_def Let_def turn_of_def
    by (intro starts_only_typing starts_only_call h) simp_all
qed

end
