(* ===== verification/LeadRouterInv.thy ===== *)
theory LeadRouterInv
  imports LeadRouterRun
begin

section \<open>One turn per entry, whatever is interleaved\<close>

text \<open>
  The invariant behind at-most-once: every logged turn start belongs to an entry that left
  \<open>accepted\<close> and carries its payload and recorded correlation id; the only program that can still
  start a turn is the pump's, for an entry that has none; the recovery never starts one.
\<close>

definition starts :: "(string \<times> ext_call) list \<Rightarrow> (string \<times> ext_call) list" where
  "starts log = filter (\<lambda>(_, c). is_start c) log"

definition starts_of :: "string \<Rightarrow> (string \<times> ext_call) list \<Rightarrow> nat" where
  "starts_of i log = length (filter (\<lambda>(j, _). j = i) (starts log))"

definition turn_for :: "router_config \<Rightarrow> journal_entry list \<Rightarrow> string \<Rightarrow> ext_call \<Rightarrow> bool" where
  "turn_for cfg es i c = (\<exists>e corrId. entry_of i es = Some e \<and> je_state e \<noteq> Accepted
     \<and> je_corr e = Some corrId \<and> c = turn_of cfg corrId e)"

definition started_ok :: "router_config \<Rightarrow> journal_entry list \<Rightarrow> (string \<times> ext_call) list \<Rightarrow> bool" where
  "started_ok cfg es log = ((\<forall>(i, c) \<in> set (starts log). turn_for cfg es i c) \<and> (\<forall>i. starts_of i log \<le> 1))"

definition pump_ok :: "router_config \<Rightarrow> journal_entry list \<Rightarrow> (string \<times> ext_call) list \<Rightarrow> prog \<Rightarrow> bool" where
  "pump_ok cfg es log p = (no_start p \<or> (\<exists>i c. p = processEntry cfg i c)
     \<or> (\<exists>i c. turn_for cfg es i c \<and> starts_of i log = 0 \<and> starts_only i c p))"

lemma turn_for_keeps: "keeps_started es es' \<Longrightarrow> turn_for cfg es i c \<Longrightarrow> turn_for cfg es' i c"
  unfolding keeps_started_def turn_for_def turn_of_def by metis

lemma started_ok_frame: "started_ok cfg es log \<Longrightarrow> keeps_started es es' \<Longrightarrow> starts log' = starts log
    \<Longrightarrow> started_ok cfg es' log'"
  by (auto simp: started_ok_def starts_of_def intro: turn_for_keeps)

lemma pump_ok_frame:
  assumes "pump_ok cfg es log p" and "keeps_started es es'" and "starts log' = starts log"
  shows "pump_ok cfg es' log' p"
proof -
  have "starts_of i log' = starts_of i log" for i by (simp add: starts_of_def assms(3))
  then show ?thesis using assms(1) turn_for_keeps [OF assms(2)] unfolding pump_ok_def
    by (elim disjE exE conjE) (simp, blast, simp, blast)
qed

lemma starts_append: "starts (log @ [(i, c)]) = starts log @ (if is_start c then [(i, c)] else [])"
  by (simp add: starts_def)

text \<open>An \<open>accepted\<close> entry has no turn yet.\<close>

lemma accepted_no_start:
  assumes "started_ok cfg es log" and "entry_of i es = Some e" and "je_state e = Accepted"
  shows "starts_of i log = 0"
proof -
  have "\<not> turn_for cfg es i c" for c using assms(2,3) by (simp add: turn_for_def)
  then have "(i, c) \<notin> set (starts log)" for c using assms(1) by (auto simp: started_ok_def)
  then show ?thesis by (auto simp: starts_of_def filter_empty_conv)
qed

lemma started_ok_start:
  assumes "started_ok cfg es log" and "turn_for cfg es i c" and "starts_of i log = 0"
  shows "started_ok cfg es (log @ [(i, c)])"
  using assms by (auto simp: started_ok_def starts_append starts_of_def)

lemma starts_only_next: "starts_only i c (Ext j d k) \<Longrightarrow> \<not> is_start d \<Longrightarrow> starts_only i c (Wait d k)"
  by simp

context journal_contract
begin

definition router_inv :: "router_config \<Rightarrow> 's router \<Rightarrow> bool" where
  "router_inv cfg rt = (inv (rt_store rt) \<and> started_ok cfg (rows (rt_store rt)) (rt_log rt)
     \<and> (\<forall>p. rt_pump rt = Some p \<longrightarrow> pump_ok cfg (rows (rt_store rt)) (rt_log rt) p)
     \<and> (\<forall>es p. rt_recover rt = Some (es, p) \<longrightarrow> no_start p))"

lemma advance_frame:
  assumes "inv (rt_store rt)" and "advance ops now r p rt = (p', rt')"
  shows "inv (rt_store rt') \<and> keeps_started (rows (rt_store rt)) (rows (rt_store rt'))
    \<and> rt_log rt' = rt_log rt @ (case p of Ext i c k \<Rightarrow> [(i, c)] | _ \<Rightarrow> [])
    \<and> (rt_pump rt' = rt_pump rt \<or> rt_pump rt' = Some Finished) \<and> rt_recover rt' = rt_recover rt"
proof (cases p)
  case (Journal_step op k)
  show ?thesis
  proof (cases "run_op ops now op (rt_store rt)")
    case (Inr x)
    obtain y s where x: "x = (y, s)" by (cases x)
    from Inr have "run_op ops now op (rt_store rt) = Inr (y, s)" by (simp add: x)
    from run_op_ok [OF assms(1) this] obtain e where
      "entry_of (op_id op) (rows (rt_store rt)) = Some e" "je_state e \<in> set (statesAllowing (op_to op))"
      "inv s" "rows s = set_entry (op_entry now op e) (rows (rt_store rt))" by metis
    then show ?thesis using assms(2) Inr Journal_step x by (auto simp: keeps_started_op)
  qed (use assms Journal_step in auto)
next
  case (Push i q)
  then show ?thesis using assms by (cases "rt_pump rt") (auto simp: enqueue_entry_def)
qed (use assms in auto)

lemma advance_no_start:
  assumes "advance ops now r p rt = (p', rt')" and "no_start p"
  shows "no_start p' \<and> starts (rt_log rt') = starts (rt_log rt)"
  using assms by (cases p) (auto simp: starts_append enqueue_entry_def split: sum.splits prod.splits)

text \<open>The pump executes one node.\<close>

lemma pump_advance:
  assumes "router_inv cfg rt" and "rt_pump rt = Some p" and adv: "advance ops now r p rt = (p', rt')"
  shows "started_ok cfg (rows (rt_store rt')) (rt_log rt') \<and> pump_ok cfg (rows (rt_store rt')) (rt_log rt') p'"
proof -
  let ?es = "rows (rt_store rt)" and ?es' = "rows (rt_store rt')"
  have inv: "inv (rt_store rt)" and st: "started_ok cfg ?es (rt_log rt)"
    and ok: "pump_ok cfg ?es (rt_log rt) p" using assms(1,2) by (auto simp: router_inv_def)
  note frame = advance_frame [OF inv adv]
  from ok consider "no_start p" | (claim) i c where "p = processEntry cfg i c"
    | (start) i c where "turn_for cfg ?es i c" "starts_of i (rt_log rt) = 0" "starts_only i c p"
    unfolding pump_ok_def by blast
  then show ?thesis
  proof cases
    case 1
    with advance_no_start [OF adv] frame st show ?thesis
      by (auto simp: pump_ok_def intro: started_ok_frame)
  next
    case claim
    let ?op = "Op_dispatching i c"
    have p: "p = Journal_step ?op (\<lambda>r. case r of Inl e \<Rightarrow> process_failed i (error_message e)
        | Inr e \<Rightarrow> process_claimed cfg i c e)" using claim by (simp add: processEntry_def write_or_def)
    show ?thesis
    proof (cases "run_op ops now ?op (rt_store rt)")
      case (Inl e)
      then show ?thesis using adv p st by (auto simp: pump_ok_def)
    next
      case (Inr x)
      obtain y s where x: "x = (y, s)" by (cases x)
      from Inr have run: "run_op ops now ?op (rt_store rt) = Inr (y, s)" by (simp add: x)
      from run_op_ok [OF inv this] obtain e where
        e: "entry_of i ?es = Some e" "je_state e = Accepted" "y = op_entry now ?op e"
          "rows s = set_entry y ?es" by auto
      have rt': "rt' = rt\<lparr>rt_store := s\<rparr>" "p' = process_claimed cfg i c y" using adv p run by auto
      have "turn_for cfg ?es' i (turn_of cfg c y)"
        using e entry_ofD [OF e(1)] unfolding turn_for_def
        by (simp add: rt' entry_of_set_entry) (simp add: op_entry_def patched_def no_patch_def)
      moreover have "starts_of i (rt_log rt') = 0" using accepted_no_start [OF st e(1,2)] by (simp add: rt')
      ultimately have "pump_ok cfg ?es' (rt_log rt') p'"
        using claimed_starts_only [of i cfg c y] unfolding pump_ok_def rt'(2) by blast
      moreover have "started_ok cfg ?es' (rt_log rt')"
        using started_ok_frame [OF st, of ?es' "rt_log rt'"] frame rt' by simp
      ultimately show ?thesis by blast
    qed
  next
    case start
    have turn: "turn_for cfg ?es' i c" using frame start(1) turn_for_keeps by blast
    show ?thesis
    proof (cases "\<exists>j d k. p = Ext j d k \<and> is_start d")
      case True
      then obtain d k where "p = Ext i c k" "\<forall>r. no_start (k r)" "is_start c" using start(3) by auto
      then show ?thesis
        using adv started_ok_start [OF st start(1,2)] by (auto simp: pump_ok_def)
    next
      case False
      then have "starts (rt_log rt') = starts (rt_log rt)"
        using frame by (cases p) (auto simp: starts_append)
      moreover have "starts_only i c p'"
        using False adv start(3) by (cases p) (auto split: sum.splits prod.splits if_splits)
      moreover have "starts_of i (rt_log rt') = 0"
        using start(2) \<open>starts (rt_log rt') = starts (rt_log rt)\<close> by (simp add: starts_of_def)
      ultimately show ?thesis
        using turn started_ok_frame [OF st, of ?es' "rt_log rt'"] frame unfolding pump_ok_def by blast
    qed
  qed
qed

lemma insert_fresh:
  assumes "inv s" and "je_id x \<noteq> []" and "je_id x \<notin> je_id ` set (rows s) \<or> je_key x \<in> je_key ` set (rows s)"
  shows "\<exists>b e s'. js_insert ops x s = Inr ((b, e), s') \<and> inv s' \<and> keeps_started (rows s) (rows s')
    \<and> (if je_key x \<in> je_key ` set (rows s) then \<not> b \<and> s' = s \<and> je_key e = je_key x \<and> e \<in> set (rows s)
       else b \<and> e = x \<and> rows s' = rows s @ [kept x])"
proof (cases "je_key x \<in> je_key ` set (rows s)")
  case True
  then obtain e where "e \<in> set (rows s)" "je_key e = je_key x" by auto
  then show ?thesis using insert_known [OF assms(1)] assms(1) True by (intro exI [of _ False]) simp
next
  case False
  then show ?thesis using insert_new [OF assms(1,2) False] assms(3) by auto
qed

lemma get_None: "inv s \<Longrightarrow> js_get ops i s = None \<longleftrightarrow> i \<notin> je_id ` set (rows s)"
  by (simp add: get_is entry_of_None)

lemma get_key_None: "inv s \<Longrightarrow> js_get_key ops k s \<noteq> None \<longleftrightarrow> k \<in> je_key ` set (rows s)"
  by (auto simp: get_key_is key_entry_def find_None_iff')

lemma step_inv:
  assumes rinv: "router_inv cfg rt" and "event_ok ops ev rt"
  shows "router_inv cfg (router_step ops cfg ev rt)"
proof (cases ev)
  case (Submit now newId input)
  show ?thesis
  proof (cases "submit ops cfg now newId input rt")
    case (Inr x)
    let ?x = "accepted_entry now newId input"
    have inv: "inv (rt_store rt)" using rinv by (simp add: router_inv_def)
    have "je_id ?x = newId" by (simp add: accepted_entry_def)
    then obtain b e s' where ins: "js_insert ops ?x (rt_store rt) = Inr ((b, e), s')" "inv s'"
        "keeps_started (rows (rt_store rt)) (rows s')"
      using insert_fresh [OF inv, of ?x] assms(2) Submit get_None [OF inv] by auto
    have acc: "accept ops now newId input (rt_store rt) = Inr ((b, e), s')"
      using Inr ins(1) by (auto simp: submit_def accept_def split: if_splits)
    then obtain rt2 where rt2: "snd x = rt2" "rt_store rt2 = s'" "starts (rt_log rt2) = starts (rt_log rt)"
      "rt_recover rt2 = rt_recover rt" "rt_pump rt2 = rt_pump rt \<or> rt_pump rt2 = Some (or_else (rt_pump rt) Finished)"
      using Inr by (cases b) (auto simp: submit_def Let_def enqueue_entry_def starts_append split: option.splits if_splits)
    have "router_step ops cfg ev rt = rt2" using Submit Inr rt2(1) by (cases x) auto
    moreover have "pump_ok cfg es log Finished" for es log by (simp add: pump_ok_def)
    ultimately show ?thesis
      using rinv rt2 ins(2,3) unfolding router_inv_def
      by (cases "rt_pump rt") (auto intro: started_ok_frame pump_ok_frame)
  qed (use Submit rinv in simp)
next
  case (Observe now key payload out)
  let ?x = "observation now key payload out"
  have inv: "inv (rt_store rt)" using rinv by (simp add: router_inv_def)
  have "je_id ?x = ''obs-'' @ key" "je_key ?x = key" by (simp_all add: observation_def)
  then obtain b e s' where "js_insert ops ?x (rt_store rt) = Inr ((b, e), s')" "inv s'"
      "keeps_started (rows (rt_store rt)) (rows s')"
    using insert_fresh [OF inv, of ?x] assms(2) Observe get_None [OF inv] get_key_None [OF inv] by auto
  then show ?thesis
    using rinv Observe unfolding router_inv_def
    by (auto simp: recordObservation_def intro: started_ok_frame pump_ok_frame)
next
  case (Pump_next c)
  show ?thesis
  proof (cases "rt_pump rt = Some Finished")
    case True
    then show ?thesis using Pump_next rinv by (auto simp: router_inv_def pump_ok_def split: list.split)
  next
    case False
    then have "router_step ops cfg ev rt = rt" using Pump_next by (auto split: option.split prog.split)
    then show ?thesis using rinv by simp
  qed
next
  case (Pump now r)
  show ?thesis
  proof (cases "rt_pump rt")
    case (Some p)
    obtain p' rt' where adv: "advance ops now r p rt = (p', rt')" by fastforce
    have "inv (rt_store rt)" using rinv by (simp add: router_inv_def)
    with advance_frame [OF this adv] pump_advance [OF rinv Some adv] show ?thesis
      using rinv Some Pump adv by (simp add: router_inv_def)
  qed (use Pump rinv in simp)
next
  case Recover_start
  then show ?thesis using rinv by (auto simp: router_inv_def split: option.split)
next
  case Recover_next
  then show ?thesis
    using rinv recover_no_start by (auto simp: router_inv_def split: option.split list.split prog.split)
next
  case (Recover now r)
  show ?thesis
  proof (cases "rt_recover rt")
    case (Some x)
    obtain es p where x: "x = (es, p)" by (cases x)
    obtain p' rt' where adv: "advance ops now r p rt = (p', rt')" by fastforce
    have inv: "inv (rt_store rt)" using rinv by (simp add: router_inv_def)
    have no: "no_start p" using rinv Some x by (simp add: router_inv_def)
    note frame = advance_frame [OF inv adv] and ns = advance_no_start [OF adv no]
    have "router_step ops cfg ev rt = rt'\<lparr>rt_recover := Some (es, p')\<rparr>" using Recover Some x adv by simp
    moreover have "pump_ok cfg es log Finished" for es log by (simp add: pump_ok_def)
    ultimately show ?thesis
      using rinv frame ns unfolding router_inv_def
      by (cases "rt_pump rt") (auto intro: started_ok_frame pump_ok_frame)
  qed (use Recover rinv in simp)
next
  case Restart
  then show ?thesis using rinv by (simp add: router_inv_def)
qed

lemma run_inv:
  assumes "router_run ops cfg rt rt'" and "router_inv cfg rt"
  shows "router_inv cfg rt'"
  using assms by (induction rule: router_run.induct) (auto intro: step_inv)

lemma new_router_inv: "inv s \<Longrightarrow> router_inv cfg (new_router s)"
  by (simp add: router_inv_def new_router_def started_ok_def starts_def starts_of_def)

lemma at_most_one_turn:
  assumes "inv s" and "router_run ops cfg (new_router s) rt"
  shows "starts_of i (rt_log rt) \<le> 1"
    and "(i, Start_turn th input corrId) \<in> set (rt_log rt) \<Longrightarrow>
      \<exists>e. js_get ops i (rt_store rt) = Some e \<and> je_payload e = input \<and> je_corr e = Some corrId
        \<and> je_state e \<noteq> Accepted"
proof -
  have rinv: "router_inv cfg rt" using run_inv [OF assms(2) new_router_inv [OF assms(1)]] .
  then show "starts_of i (rt_log rt) \<le> 1" by (simp add: router_inv_def started_ok_def)
  assume "(i, Start_turn th input corrId) \<in> set (rt_log rt)"
  then have "turn_for cfg (rows (rt_store rt)) i (Start_turn th input corrId)"
    using rinv by (force simp: router_inv_def started_ok_def starts_def)
  then show "\<exists>e. js_get ops i (rt_store rt) = Some e \<and> je_payload e = input \<and> je_corr e = Some corrId
      \<and> je_state e \<noteq> Accepted"
    using rinv by (auto simp: turn_for_def turn_of_def router_inv_def get_is)
qed

end

end
