(* ===== verification/LeadRouterSettle.thy ===== *)
theory LeadRouterSettle
  imports LeadRouterInv
begin

section \<open>Every program leaves its entry settled\<close>

text \<open>
  \<open>reaches R T i p st cs\<close>: whatever outcomes satisfying \<open>R\<close> the calls have, the program \<open>p\<close>, run on
  a journal whose entry \<open>i\<close> is in state \<open>st\<close> after the calls \<open>cs\<close>, ends with a state and a list of
  calls that satisfy \<open>T\<close>. It is computed on the program alone; \<open>run_reaches\<close> transfers it to the
  store.
\<close>

primrec reaches :: "(outcome \<Rightarrow> bool) \<Rightarrow> (journal_state \<Rightarrow> ext_call list \<Rightarrow> bool) \<Rightarrow> string \<Rightarrow> prog
    \<Rightarrow> journal_state \<Rightarrow> ext_call list \<Rightarrow> bool" where
  "reaches R T i Finished = (\<lambda>st cs. T st cs)"
| "reaches R T i (Journal_step op k) = (\<lambda>st cs. op_id op = i \<and>
     (if \<not> op_refused op \<and> st \<in> set (statesAllowing (op_to op))
      then (\<forall>e. reaches R T i (k (Inr e)) (op_to op) cs) else (\<forall>m. reaches R T i (k (Inl m)) st cs)))"
| "reaches R T i (Ext j c k) = (\<lambda>st cs. j = i \<and> (\<forall>r. R r \<longrightarrow> reaches R T i (k r) st (cs @ [c])))"
| "reaches R T i (Wait c k) = (\<lambda>st cs. \<forall>r. R r \<longrightarrow> reaches R T i (k r) st cs)"
| "reaches R T i (Push j p) = (\<lambda>st cs. False)"

lemma reaches_write_or:
  assumes "op_id op = i"
    and "\<And>e. \<not> op_refused op \<Longrightarrow> st \<in> set (statesAllowing (op_to op)) \<Longrightarrow> reaches R T i (k e) (op_to op) cs"
    and "\<And>m. op_refused op \<or> st \<notin> set (statesAllowing (op_to op)) \<Longrightarrow> reaches R T i (h m) st cs"
  shows "reaches R T i (write_or h op k) st cs"
  using assms by (auto simp: write_or_def)

lemma reaches_call_or:
  assumes "\<And>m. R (Threw m) \<Longrightarrow> reaches R T i (h m) st (cs @ [c])"
    and "\<And>v. R (Value v) \<Longrightarrow> reaches R T i (k v) st (cs @ [c])"
    and "\<And>r. R (Reconciled r) \<Longrightarrow> reaches R T i (h []) st (cs @ [c])"
  shows "reaches R T i (call_or h i c k) st cs"
  using assms by (auto simp: call_or_def split: outcome.split)

lemma reaches_ensure:
  assumes "reaches R T i p st cs" and "\<And>r. reaches R T i p st (cs @ [Ensure_route r])"
  shows "reaches R T i (ensureReplyRouteIfNeeded cfg i route p) st cs"
  using assms by (auto simp: ensureReplyRouteIfNeeded_def split: option.split)

lemma reaches_typing:
  assumes "reaches R T i p st cs" and "reaches R T i p st (cs @ [c])"
  shows "reaches R T i (typing cfg i c p) st cs"
  using assms by (simp add: typing_def)

lemmas reaches_intros = reaches_write_or reaches_call_or reaches_ensure reaches_typing

definition in_progress :: "journal_state \<Rightarrow> bool" where
  "in_progress st = (st \<notin> set TERMINAL_STATES)"

lemma in_progress_simps [simp]: "in_progress Accepted" "in_progress Dispatching" "in_progress Dispatched"
  "in_progress Model_completed" "in_progress Output_pending"
  by code_simp+

lemma in_progress_escape: "in_progress st \<Longrightarrow> st \<in> set (statesAllowing Ambiguous)"
  by (cases st) (simp_all add: in_progress_def TERMINAL_STATES_def)

text \<open>Settled: ambiguous, or completed after the reply was delivered.\<close>

definition settled :: "journal_state \<Rightarrow> ext_call list \<Rightarrow> bool" where
  "settled st cs = (st = Ambiguous \<or> st = Completed \<and> (\<exists>b. Deliver b \<in> set cs))"

lemma settles_safeAmbiguous: "in_progress st \<Longrightarrow> m \<noteq> [] \<Longrightarrow> reaches R settled i (safeAmbiguous i m) st cs"
  using in_progress_escape [of st] by (simp add: safeAmbiguous_def settled_def)

lemma settles_failed: "in_progress st \<Longrightarrow> reaches R settled i (process_failed i m) st cs"
  "in_progress st \<Longrightarrow> reaches R settled i (recover_failed i m) st cs"
  unfolding process_failed_def recover_failed_def by (auto intro: settles_safeAmbiguous)

lemma settles_deliver:
  assumes h: "\<And>m st cs. in_progress st \<Longrightarrow> reaches R settled i (h m) st cs"
    and p: "\<And>st cs b. in_progress st \<Longrightarrow> Deliver b \<in> set cs \<Longrightarrow> reaches R settled i p st cs"
    and "in_progress st"
  shows "reaches R settled i (deliverOutput cfg h i out ch route p) st cs"
  unfolding deliverOutput_def
  by (intro reaches_intros h) (auto intro!: p assms(3))

text \<open>The turn itself, with any handler \<open>h\<close> and any end \<open>p\<close>.\<close>

lemma settles_turn:
  assumes h: "\<And>m st cs. in_progress st \<Longrightarrow> reaches R settled i (h m) st cs"
    and p: "\<And>st cs b. in_progress st \<Longrightarrow> Deliver b \<in> set cs \<Longrightarrow> reaches R settled i p st cs"
  shows "reaches R settled i (call_or h i turn (\<lambda>t. write_or h (Op_dispatched i t) (\<lambda>_.
    call_or h i (Await_completion t) (\<lambda>out. write_or h (Op_model_completed i (Some out)) (\<lambda>_.
      deliverOutput cfg h i out ch route p))))) Dispatching cs"
proof -
  have d: "in_progress st \<Longrightarrow> reaches R settled i (deliverOutput cfg h i out ch route p) st cs" for out st cs
    using h p by (rule settles_deliver)
  show ?thesis by (intro reaches_call_or reaches_write_or h d) simp_all
qed

lemma settles_claimed: "reaches R settled i (process_claimed cfg i c e) Dispatching cs"
proof -
  let ?h = "\<lambda>m. typing cfg i (Typing_stop (je_channel e)) (process_failed i m)"
  have h: "in_progress st \<Longrightarrow> reaches R settled i (?h m) st cs" for m st cs
    by (intro reaches_typing settles_failed)
  have fin: "reaches R settled i (write_or ?h (Op_completed i) (\<lambda>_. typing cfg i (Typing_stop (je_channel e)) Finished)) st cs"
    if "in_progress st" "Deliver b \<in> set cs" for st cs b
    by (rule reaches_write_or, simp, rule reaches_typing) (use that h in \<open>auto simp: settled_def\<close>)
  note turn = settles_turn [of R i ?h, OF h fin]
  show ?thesis
    unfolding process_claimed_def Let_def by (intro reaches_typing) (rule turn; assumption)+
qed

lemma settles_process: "reaches R settled i (processEntry cfg i c) Accepted cs"
  unfolding processEntry_def by (intro reaches_intros settles_failed) (simp_all add: settles_claimed)

lemma settles_resend: "in_progress st \<Longrightarrow> reaches R settled (je_id e) (resend_output cfg e out) st cs"
  unfolding resend_output_def
  by (intro settles_deliver settles_failed reaches_write_or) (auto simp: settled_def)

lemma settles_reconciled:
  assumes "je_state e = Dispatching \<or> je_state e = Dispatched"
  shows "reaches R settled (je_id e) (reconciled cfg e r) (je_state e) cs"
proof -
  let ?i = "je_id e"
  have fin: "reaches R settled ?i (write_or (recover_failed ?i) (Op_model_completed ?i (Some out))
      (\<lambda>_. resend_output cfg e out)) st cs" if "in_progress st" for st out cs
    using that by (intro reaches_write_or settles_failed) (auto intro: settles_resend)
  show ?thesis
    using assms unfolding reconciled_def Let_def
    by (auto simp: settles_resend intro!: settles_safeAmbiguous fin reaches_write_or settles_failed)
qed

lemma settles_recover:
  assumes "is_unfinished e" and "je_state e \<noteq> Accepted"
  shows "reaches R settled (je_id e) (recoverEntry cfg e) (je_state e) cs"
proof -
  have st: "in_progress (je_state e)" using assms(1) by (simp add: is_unfinished_def in_progress_def)
  consider "je_state e = Dispatching \<or> je_state e = Dispatched" "recoveryAction e = Reconcile"
    | "recoveryAction e = Resend_output"
    using assms st by (cases "je_state e") (auto simp: in_progress_def TERMINAL_STATES_def recoveryAction_def)
  then show ?thesis
  proof cases
    case 1
    then show ?thesis
      using settles_reconciled [OF 1(1)] st unfolding recoverEntry_def Let_def
      by (auto intro: settles_safeAmbiguous settles_failed split: outcome.split)
  next
    case 2
    have "reaches R settled (je_id e) (ensureReplyRouteIfNeeded cfg (je_id e) (je_route e)
        (call_or (recover_failed (je_id e)) (je_id e) (Deliver b)
          (\<lambda>_. write_or (recover_failed (je_id e)) (Op_completed (je_id e)) (\<lambda>_. Finished)))) (je_state e) cs" for b
      using st by (intro reaches_intros settles_failed) (auto simp: settled_def)
    then show ?thesis
      using 2 st unfolding recoverEntry_def Let_def
      by (auto intro: settles_safeAmbiguous settles_resend split: option.split)
  qed
qed

subsection \<open>When no call fails\<close>

definition answered :: "outcome \<Rightarrow> bool" where
  "answered r = (\<exists>v. r = Value v \<and> v \<noteq> [])"

definition replied :: "router_config \<Rightarrow> string \<Rightarrow> journal_state \<Rightarrow> ext_call list \<Rightarrow> bool" where
  "replied cfg i st cs = (st = Completed \<and> (\<exists>b. Deliver b \<in> set cs)
     \<and> (\<exists>out ch. Enqueue (lead_id cfg) out (i @ '':out'') ch \<in> set cs))"

lemma process_replies:
  assumes "c \<noteq> []"
  shows "reaches answered (replied cfg i) i (processEntry cfg i c) Accepted cs"
  unfolding processEntry_def process_claimed_def deliverOutput_def Let_def
  using assms by (intro reaches_intros) (auto simp: answered_def replied_def)

subsection \<open>Transfer to the store\<close>

context journal_contract
begin

lemma run_reaches:
  assumes "inv (rt_store rt)" and "entry_of i (rows (rt_store rt)) = Some e"
    and "reaches R T i p (je_state e) cs" and "\<And>log. R (world log)"
  shows "\<exists>e' cs'. inv (rt_store (run_prog ops now world p rt))
    \<and> entry_of i (rows (rt_store (run_prog ops now world p rt))) = Some e'
    \<and> rt_log (run_prog ops now world p rt) = rt_log rt @ map (Pair i) cs' \<and> T (je_state e') (cs @ cs')"
  using assms(1-3)
proof (induction p arbitrary: rt e cs)
  case Finished
  then show ?case by (intro exI [of _ e] exI [of _ "[]"]) simp
next
  case (Journal_step op k)
  show ?case
  proof (cases "run_op ops now op (rt_store rt)")
    case (Inl m)
    have "op_refused op \<or> je_state e \<notin> set (statesAllowing (op_to op))"
    proof (rule ccontr)
      assume "\<not> ?thesis"
      then show False using run_op_hit [OF Journal_step.prems(1), of op e now] Journal_step.prems Inl by auto
    qed
    then have "reaches R T i (k (Inl m)) (je_state e) cs" using Journal_step.prems(3) by auto
    from Journal_step.IH [OF _ Journal_step.prems(1,2) this] Inl show ?thesis by simp
  next
    case (Inr x)
    obtain y s where x: "x = (y, s)" by (cases x)
    from Inr have run: "run_op ops now op (rt_store rt) = Inr (y, s)" by (simp add: x)
    obtain e0 where e0: "entry_of (op_id op) (rows (rt_store rt)) = Some e0"
      "je_state e0 \<in> set (statesAllowing (op_to op))" "y = op_entry now op e0" "inv s"
      "rows s = set_entry (op_entry now op e0) (rows (rt_store rt))"
      using run_op_ok [OF Journal_step.prems(1) run] by metis
    have op: "op_id op = i" "e0 = e" using Journal_step.prems e0(1) by auto
    have "\<not> op_refused op" using run_op_refused [of op ops now "rt_store rt"] run by auto
    then have "reaches R T i (k (Inr y)) (op_to op) cs" using Journal_step.prems(3) e0(2) op(2) by auto
    then have "reaches R T i (k (Inr y)) (je_state y) cs" by (simp add: e0(3))
    moreover have "entry_of i (rows (rt_store (rt\<lparr>rt_store := s\<rparr>))) = Some y"
      using e0 op entry_ofD [OF Journal_step.prems(2)] Journal_step.prems(2) by (simp add: entry_of_set_entry)
    ultimately show ?thesis
      using Journal_step.IH [of "k (Inr y)" "rt\<lparr>rt_store := s\<rparr>" y cs] e0(4) run by auto
  qed
next
  case (Ext j c k)
  let ?log = "rt_log rt @ [(i, c)]"
  have "reaches R T i (k (world ?log)) (je_state e) (cs @ [c])" "j = i"
    using Ext.prems(3) assms(4) by auto
  with Ext.IH [of "k (world ?log)" "rt\<lparr>rt_log := ?log\<rparr>" e "cs @ [c]"] Ext.prems(1,2)
  obtain e' cs' where "inv (rt_store (run_prog ops now world (Ext j c k) rt))"
    "entry_of i (rows (rt_store (run_prog ops now world (Ext j c k) rt))) = Some e'"
    "rt_log (run_prog ops now world (Ext j c k) rt) = ?log @ map (Pair i) cs'" "T (je_state e') ((cs @ [c]) @ cs')"
    by (auto simp: Let_def)
  then show ?case by (intro exI [of _ e'] exI [of _ "c # cs'"]) simp
next
  case (Wait c k)
  then show ?case using Wait.IH [of "k (world (rt_log rt))" rt e cs] assms(4) by simp
qed simp

end

end
