(* ===== verification/LeadProps.thy ===== *)
theory LeadProps
  imports LeadRouterSettle "HOL-Library.Sublist"
begin

section \<open>What the lead's journal and router guarantee\<close>

text \<open>
  The properties of the router over the SQLite journal, the store of the running lead, for every
  interleaving of submissions, observations, pump and recovery steps and restarts; and the
  agreement of the two stores.
\<close>

definition demo_config :: router_config where
  "demo_config = \<lparr>lead_id = ''lead'', thread_id = ''th'', has_ensure_route = True, has_topic_hook = True,
     has_typing = True\<rparr>"

definition demo_input :: accept_input where
  "demo_input = \<lparr>ac_key = ''m1'', ac_source = Discord, ac_payload = ''hi'', ac_channel = None, ac_route = None\<rparr>"

lemma empty_sqlite [simp]: "sqlite_inv []"
  by (simp add: sqlite_inv_def)

text \<open>A list of events, each allowed when it happens.\<close>

fun run_events :: "'s journal_store \<Rightarrow> router_config \<Rightarrow> router_event list \<Rightarrow> 's router \<Rightarrow> 's router option" where
  "run_events ops cfg [] rt = Some rt"
| "run_events ops cfg (ev # evs) rt =
     (if event_ok ops ev rt then run_events ops cfg evs (router_step ops cfg ev rt) else None)"

lemma run_events_run:
  assumes "router_run ops cfg rt0 rt" and "run_events ops cfg evs rt = Some rt'"
  shows "router_run ops cfg rt0 rt'"
  using assms by (induction evs arbitrary: rt) (auto intro: router_run.step split: if_splits)

definition router_of :: "router_event list \<Rightarrow> sqlite_store router" where
  "router_of evs = the (run_events sqlite_ops demo_config evs (new_router []))"

lemma router_of_run: "run_events sqlite_ops demo_config evs (new_router []) \<noteq> None
    \<Longrightarrow> router_run sqlite_ops demo_config (new_router []) (router_of evs)"
  unfolding router_of_def by (rule run_events_run [OF router_run.start]) simp

definition demo_submitted :: "router_event list" where
  "demo_submitted = [Submit 1 ''e1'' demo_input]"

definition demo_claimed :: "router_event list" where
  "demo_claimed = demo_submitted @ [Pump_next ''c1'', Pump 2 (Value []), Pump 2 (Value []), Pump 2 (Value []),
     Pump 2 (Value [])]"

lemma demo_runs: "run_events sqlite_ops demo_config demo_submitted (new_router []) \<noteq> None"
  "run_events sqlite_ops demo_config demo_claimed (new_router []) \<noteq> None"
  by code_simp+

subsection \<open>At most one turn\<close>

text \<open>C2: the model is asked at most once per input. Over every interleaving of submissions, pump
  and recovery steps and restarts, an entry's turn is started at most once, and a started turn
  carries the entry's payload and the correlation id the journal recorded for it.\<close>

theorem turn_at_most_once:
  assumes "router_run sqlite_ops cfg (new_router []) rt"
  shows "starts_of i (rt_log rt) \<le> 1
    \<and> ((i, Start_turn th text corrId) \<in> set (rt_log rt) \<longrightarrow>
        (\<exists>e. sqlite_get i (rt_store rt) = Some e \<and> je_payload e = text \<and> je_corr e = Some corrId
          \<and> je_state e \<noteq> Accepted))"
  using sqlite.at_most_one_turn [OF empty_sqlite assms] by (auto simp: sqlite_ops_def)

theorem turn_at_most_once_witness:
  "starts_of ''e1'' (rt_log (router_of demo_claimed)) \<le> 1 \<and> starts_of ''e1'' (rt_log (router_of demo_claimed)) = 1"
proof
  show "starts_of ''e1'' (rt_log (router_of demo_claimed)) \<le> 1"
    using turn_at_most_once [OF router_of_run [OF demo_runs(2)]] by blast
  show "starts_of ''e1'' (rt_log (router_of demo_claimed)) = 1" by code_simp
qed

subsection \<open>Every taken entry is settled\<close>

text \<open>C23: an entry the pump takes never stays in between. Whatever the executor and the sender
  answer or throw, \<open>processEntry\<close> on an accepted entry ends with the entry ambiguous, or completed
  after its reply was delivered; and completed when every call answers.\<close>

theorem process_settles:
  assumes "router_run sqlite_ops cfg (new_router []) rt"
    and "sqlite_get i (rt_store rt) = Some e" and "je_state e = Accepted"
  shows "\<exists>e' cs. sqlite_get i (rt_store (run_prog sqlite_ops now world (processEntry cfg i corrId) rt)) = Some e'
    \<and> rt_log (run_prog sqlite_ops now world (processEntry cfg i corrId) rt) = rt_log rt @ map (Pair i) cs
    \<and> settled (je_state e') cs
    \<and> (corrId \<noteq> [] \<and> (\<forall>log. answered (world log)) \<longrightarrow> replied cfg i (je_state e') cs)"
proof -
  have inv: "sqlite_inv (rt_store rt)"
    using sqlite.run_inv [OF assms(1) sqlite.new_router_inv [OF empty_sqlite]] by (simp add: sqlite.router_inv_def)
  have e: "entry_of i (sqlite_rows (rt_store rt)) = Some e" using assms(2) by (simp add: sqlite_get_rows)
  show ?thesis
  proof (cases "corrId \<noteq> [] \<and> (\<forall>log. answered (world log))")
    case True
    then have "reaches answered (replied cfg i) i (processEntry cfg i corrId) (je_state e) []"
      using process_replies [of corrId cfg i "[]"] assms(3) by simp
    from sqlite.run_reaches [OF inv e this, where world = world and now = now] True
    show ?thesis by (auto simp: sqlite_get_rows settled_def replied_def)
  next
    case False
    have "reaches (\<lambda>_. True) settled i (processEntry cfg i corrId) (je_state e) []"
      using settles_process [of "\<lambda>_. True" i cfg corrId "[]"] assms(3) by simp
    from sqlite.run_reaches [OF inv e this, where world = world and now = now] False
    show ?thesis by (auto simp: sqlite_get_rows)
  qed
qed

theorem process_settles_witness:
  "\<exists>e' cs. sqlite_get ''e1'' (rt_store (run_prog sqlite_ops 5 (\<lambda>_. Value ''x'')
       (processEntry demo_config ''e1'' ''c1'') (router_of demo_submitted))) = Some e'
     \<and> replied demo_config ''e1'' (je_state e') cs"
proof -
  have "case sqlite_get ''e1'' (rt_store (router_of demo_submitted)) of
      Some e \<Rightarrow> je_state e = Accepted | None \<Rightarrow> False" by code_simp
  then obtain e where "sqlite_get ''e1'' (rt_store (router_of demo_submitted)) = Some e" "je_state e = Accepted"
    by (auto split: option.splits)
  from process_settles [OF router_of_run [OF demo_runs(1)] this, of 5 "\<lambda>_. Value ''x''" "''c1''"]
  show ?thesis by (auto simp: answered_def)
qed

subsection \<open>Recovery\<close>

text \<open>Recovery never runs the model again and leaves nothing in between. For an entry found
  unfinished at startup after its dispatch began, \<open>recoverEntry\<close> starts no turn and ends with the
  entry ambiguous, or completed after a delivery, whatever the calls answer or throw.\<close>

theorem recovery_settles:
  assumes "router_run sqlite_ops cfg (new_router []) rt"
    and "e \<in> set (sqlite_unfinished (rt_store rt))" and "recoveryAction e \<noteq> Redispatch"
  shows "no_start (recoverEntry cfg e) \<and>
    (\<exists>e' cs. sqlite_get (je_id e) (rt_store (run_prog sqlite_ops now world (recoverEntry cfg e) rt)) = Some e'
      \<and> rt_log (run_prog sqlite_ops now world (recoverEntry cfg e) rt) = rt_log rt @ map (Pair (je_id e)) cs
      \<and> settled (je_state e') cs)"
proof
  have inv: "sqlite_inv (rt_store rt)"
    using sqlite.run_inv [OF assms(1) sqlite.new_router_inv [OF empty_sqlite]] by (simp add: sqlite.router_inv_def)
  have e: "e \<in> set (sqlite_rows (rt_store rt))" "is_unfinished e"
    using assms(2) sqlite.unfinished_is [OF inv] by (auto simp: sqlite_ops_def)
  have entry: "entry_of (je_id e) (sqlite_rows (rt_store rt)) = Some e"
    using sqlite.rows_distinct [OF inv] e(1) by (intro entry_of_unique) simp_all
  have "je_state e \<noteq> Accepted" using assms(3) by (auto simp: recoveryAction_def)
  from sqlite.run_reaches [OF inv entry settles_recover [OF e(2) this, of "\<lambda>_. True" cfg "[]"], where world = world and now = now]
  show "\<exists>e' cs. sqlite_get (je_id e) (rt_store (run_prog sqlite_ops now world (recoverEntry cfg e) rt)) = Some e'
      \<and> rt_log (run_prog sqlite_ops now world (recoverEntry cfg e) rt) = rt_log rt @ map (Pair (je_id e)) cs
      \<and> settled (je_state e') cs"
    by (auto simp: sqlite_get_rows)
qed (rule recover_no_start)

theorem recovery_settles_witness:
  "\<exists>e \<in> set (sqlite_unfinished (rt_store (router_of demo_claimed))). no_start (recoverEntry demo_config e)"
proof -
  let ?rt = "router_of demo_claimed"
  have "map recoveryAction (sqlite_unfinished (rt_store ?rt)) = [Reconcile]" by code_simp
  then obtain e where "e \<in> set (sqlite_unfinished (rt_store ?rt))" "recoveryAction e \<noteq> Redispatch"
    by (cases "sqlite_unfinished (rt_store ?rt)") auto
  with recovery_settles [OF router_of_run [OF demo_runs(2)] this] show ?thesis by blast
qed

end
