(* ===== verification/JournalProps.thy ===== *)
theory JournalProps
  imports LeadProps
begin

section \<open>What the journal guarantees\<close>

text \<open>
  How the rows of the journal evolve over a run of the router (\<open>rows_step\<close>), and from it the
  idempotent intake, the finality of terminal entries; the two stores compared operation by
  operation.
\<close>

subsection \<open>Evolution of the rows\<close>

inductive rows_step :: "journal_entry list \<Rightarrow> journal_entry list \<Rightarrow> bool" where
  same: "rows_step es es"
| append: "je_id x \<notin> je_id ` set es \<Longrightarrow> je_key x \<notin> je_key ` set es \<Longrightarrow> rows_step es (es @ [x])"
| change: "entry_of (op_id op) es = Some e \<Longrightarrow> je_state e \<in> set (statesAllowing (op_to op))
    \<Longrightarrow> rows_step es (set_entry (op_entry now op e) es)"

definition rows_ok :: "journal_entry list \<Rightarrow> bool" where
  "rows_ok es = (distinct (map je_id es) \<and> distinct (map je_key es))"

text \<open>Ids and keys stay in place; terminal entries stay as they are.\<close>

definition evolves :: "journal_entry list \<Rightarrow> journal_entry list \<Rightarrow> bool" where
  "evolves es es' = (prefix (map (\<lambda>e. (je_id e, je_key e)) es) (map (\<lambda>e. (je_id e, je_key e)) es')
     \<and> (\<forall>i e. entry_of i es = Some e \<and> \<not> is_unfinished e \<longrightarrow> entry_of i es' = Some e))"

lemma set_entry_op_keys:
  assumes "rows_ok es" and "entry_of (op_id op) es = Some e"
  shows "map (\<lambda>e. (je_id e, je_key e)) (set_entry (op_entry now op e) es) = map (\<lambda>e. (je_id e, je_key e)) es"
proof -
  have "x = e" if "x \<in> set es" "je_id x = je_id e" for x
    using assms that entry_ofD [OF assms(2)] inj_onD [of je_id "set es" x e] by (simp add: rows_ok_def distinct_map)
  then show ?thesis by (auto simp: set_entry_def)
qed

lemma rows_step_evolves:
  assumes "rows_step es es'" and "rows_ok es"
  shows "evolves es es'"
  using assms
proof cases
  case (change op e now)
  have "\<not> is_unfinished e' \<Longrightarrow> je_state e' \<notin> set (statesAllowing (op_to op))" for e'
    by (cases op) (auto simp: is_unfinished_def TERMINAL_STATES_def)
  then show ?thesis
    using change set_entry_op_keys [OF assms(2) change(2)] entry_ofD [OF change(2)]
    by (auto simp: evolves_def entry_of_set_entry)
qed (auto simp: evolves_def entry_of_append)

lemma evolves_trans: "evolves es es' \<Longrightarrow> evolves es' es'' \<Longrightarrow> evolves es es''"
  unfolding evolves_def by (meson prefix_order.trans)

context journal_contract
begin

lemma insert_rows_step:
  assumes "inv s" and "je_id x \<noteq> []" and "je_id x \<notin> je_id ` set (rows s) \<or> je_key x \<in> je_key ` set (rows s)"
    and "js_insert ops x s = Inr ((b, e), s')"
  shows "rows_step (rows s) (rows s')"
proof (cases "je_key x \<in> je_key ` set (rows s)")
  case True
  then show ?thesis using insert_fresh [OF assms(1-3)] assms(4) by (auto intro: rows_step.same)
next
  case False
  then show ?thesis
    using insert_fresh [OF assms(1-3)] assms(3,4) by (auto simp: kept_id kept_key intro: rows_step.append)
qed

lemma advance_rows_step:
  assumes "inv (rt_store rt)" and "advance ops now r p rt = (p', rt')"
  shows "rows_step (rows (rt_store rt)) (rows (rt_store rt'))"
proof (cases p)
  case (Journal_step op k)
  show ?thesis
  proof (cases "run_op ops now op (rt_store rt)")
    case (Inr x)
    obtain y s where x: "x = (y, s)" by (cases x)
    with Inr have "run_op ops now op (rt_store rt) = Inr (y, s)" by simp
    from run_op_ok [OF assms(1) this] obtain e where
      "entry_of (op_id op) (rows (rt_store rt)) = Some e" "je_state e \<in> set (statesAllowing (op_to op))"
      "rows s = set_entry (op_entry now op e) (rows (rt_store rt))" by metis
    then show ?thesis using assms(2) Inr Journal_step x by (auto intro: rows_step.change)
  qed (use assms Journal_step in \<open>auto intro: rows_step.same\<close>)
qed (use assms in \<open>auto simp: enqueue_entry_def intro: rows_step.same\<close>)

lemma router_rows_step:
  assumes rinv: "router_inv cfg rt" and "event_ok ops ev rt"
  shows "rows_step (rows (rt_store rt)) (rows (rt_store (router_step ops cfg ev rt)))"
proof -
  have inv: "inv (rt_store rt)" using rinv by (simp add: router_inv_def)
  show ?thesis
  proof (cases ev)
    case (Submit now newId input)
    show ?thesis
    proof (cases "accept ops now newId input (rt_store rt)")
      case (Inr x)
      obtain b e s' where x: "x = ((b, e), s')" by (metis prod.collapse)
      have "js_insert ops (accepted_entry now newId input) (rt_store rt) = Inr ((b, e), s')"
        using Inr x by (simp add: accept_def split: if_splits)
      then have "rows_step (rows (rt_store rt)) (rows s')"
        using assms(2) Submit get_None [OF inv] by (intro insert_rows_step [OF inv]) (auto simp: accepted_entry_def)
      moreover have "rt_store (router_step ops cfg ev rt) = s'"
        using Inr x Submit by (auto simp: submit_def Let_def enqueue_entry_def split: option.split)
      ultimately show ?thesis by simp
    qed (use Submit in \<open>simp add: submit_def rows_step.same\<close>)
  next
    case (Observe now key payload out)
    show ?thesis
    proof (cases "js_insert ops (observation now key payload out) (rt_store rt)")
      case (Inr x)
      obtain b e s' where x: "x = ((b, e), s')" by (metis prod.collapse)
      from Inr x have "rows_step (rows (rt_store rt)) (rows s')"
        using assms(2) Observe get_None [OF inv] get_key_None [OF inv]
        by (intro insert_rows_step [OF inv, of "observation now key payload out"]) (auto simp: observation_def)
      then show ?thesis using Inr x Observe by (simp add: recordObservation_def)
    qed (use Observe in \<open>simp add: recordObservation_def rows_step.same\<close>)
  next
    case (Pump_next c)
    then show ?thesis by (auto intro: rows_step.same split: option.split prog.split list.split)
  next
    case (Pump now r)
    then show ?thesis
      using advance_rows_step [OF inv] by (auto intro: rows_step.same split: option.split prod.split)
  next
    case (Recover now r)
    then show ?thesis
      using advance_rows_step [OF inv] by (auto intro: rows_step.same split: option.split prod.split)
  qed (auto intro: rows_step.same split: option.split prog.split list.split)
qed

lemma run_evolves:
  assumes "router_run ops cfg rt rt'" and "router_inv cfg rt"
  shows "evolves (rows (rt_store rt)) (rows (rt_store rt'))"
  using assms
proof (induction rule: router_run.induct)
  case (step rt rt' ev)
  have "router_inv cfg rt'" using run_inv [OF step.hyps(1) step.prems] .
  then have "rows_step (rows (rt_store rt')) (rows (rt_store (router_step ops cfg ev rt')))"
    and "rows_ok (rows (rt_store rt'))"
    using router_rows_step step.hyps(2) rows_distinct by (auto simp: router_inv_def rows_ok_def)
  then show ?case using step.IH [OF step.prems] rows_step_evolves evolves_trans by blast
qed (simp add: evolves_def)

lemma terminal_stays:
  assumes "router_run ops cfg rt rt'" and "router_inv cfg rt"
    and "js_get ops i (rt_store rt) = Some e" and "je_state e \<in> set TERMINAL_STATES"
  shows "js_get ops i (rt_store rt') = Some e"
proof -
  have "router_inv cfg rt'" using run_inv [OF assms(1,2)] .
  then show ?thesis
    using run_evolves [OF assms(1,2)] assms(2-4)
    by (auto simp: evolves_def get_is is_unfinished_def router_inv_def)
qed

lemma known_key:
  assumes "router_run ops cfg rt rt'" and "router_inv cfg rt" and "e \<in> set (rows (rt_store rt))"
    and "je_key x = je_key e"
  shows "\<exists>e'. je_id e' = je_id e \<and> js_insert ops x (rt_store rt') = Inr ((False, e'), rt_store rt')"
proof -
  have inv: "inv (rt_store rt')" using run_inv [OF assms(1,2)] by (simp add: router_inv_def)
  have "(je_id e, je_key e) \<in> (\<lambda>e. (je_id e, je_key e)) ` set (rows (rt_store rt'))"
    using run_evolves [OF assms(1,2)] assms(3) set_mono_prefix by (fastforce simp: evolves_def)
  then obtain e' where "e' \<in> set (rows (rt_store rt'))" "je_id e' = je_id e" "je_key e' = je_key e" by auto
  then show ?thesis using insert_known [OF inv, of e' x] assms(4) by auto
qed

lemma submit_again:
  assumes "router_inv cfg rt" and "newId \<noteq> []" and "js_get ops newId (rt_store rt) = None"
    and "submit ops cfg now newId input rt = Inr ((True, i), rt1)"
    and "router_run ops cfg rt1 rt2" and "ac_key input' = ac_key input"
  shows "submit ops cfg now' newId' input' rt2 = Inr ((False, i), rt2)"
proof -
  let ?x = "accepted_entry now newId input"
  have inv: "inv (rt_store rt)" using assms(1) by (simp add: router_inv_def)
  have step: "router_step ops cfg (Submit now newId input) rt = rt1" using assms(4) by simp
  have rinv1: "router_inv cfg rt1" using step_inv [OF assms(1), of "Submit now newId input"] assms(2,3) step by simp
  obtain b e s' where ins: "js_insert ops ?x (rt_store rt) = Inr ((b, e), s')"
    and res: "rt_store rt1 = s'" "i = je_id e" "b"
    using assms(4)
    by (auto simp: submit_def accept_def Let_def enqueue_entry_def and_then_ok split: if_splits option.splits)
  have "je_id ?x = newId" by (simp add: accepted_entry_def)
  then have e: "e = ?x" "rows s' = rows (rt_store rt) @ [kept ?x]"
    using insert_fresh [OF inv, of ?x] ins res(3) assms(2,3) get_None [OF inv] by (auto split: if_splits)
  have "kept ?x \<in> set (rows (rt_store rt1))" using res(1) e(2) by simp
  from known_key [OF assms(5) rinv1 this, of "accepted_entry now' newId' input'"]
  obtain e' where "je_id e' = je_id ?x"
    "js_insert ops (accepted_entry now' newId' input') (rt_store rt2) = Inr ((False, e'), rt_store rt2)"
    using assms(6) by (auto simp: kept_key kept_id accepted_entry_def)
  moreover have "ac_key input' \<noteq> []" using assms(4,6) by (auto simp: submit_def accept_def split: if_splits)
  ultimately show ?thesis using res(2) e(1) by (simp add: submit_def accept_def)
qed

end

subsection \<open>Intake and finality\<close>

text \<open>Intake is idempotent. Once an input was accepted, whatever happens afterwards (restarts
  included), submitting an input with the same idempotency key is answered with the same entry id,
  is not accepted and changes nothing.\<close>

theorem intake_idempotent:
  assumes "router_run sqlite_ops cfg (new_router []) rt"
    and "newId \<noteq> []" and "sqlite_get newId (rt_store rt) = None"
    and "submit sqlite_ops cfg now newId input rt = Inr ((True, i), rt1)"
    and "router_run sqlite_ops cfg rt1 rt2" and "ac_key input' = ac_key input"
  shows "submit sqlite_ops cfg now' newId' input' rt2 = Inr ((False, i), rt2)"
  using sqlite.submit_again [OF sqlite.run_inv [OF assms(1) sqlite.new_router_inv [OF empty_sqlite]] assms(2) _ assms(4-6)]
    assms(3) by (simp add: sqlite_ops_def)

lemma submitted_first: "submit sqlite_ops demo_config 1 ''e1'' demo_input (new_router [])
    = Inr ((True, ''e1''), router_of demo_submitted)"
proof -
  have "fst (projr (submit sqlite_ops demo_config 1 ''e1'' demo_input (new_router []))) = (True, ''e1'')"
    "is_ok (submit sqlite_ops demo_config 1 ''e1'' demo_input (new_router []))" by code_simp+
  moreover have "event_ok sqlite_ops (Submit 1 ''e1'' demo_input) (new_router [])" by code_simp
  ultimately show ?thesis
    by (auto simp: router_of_def demo_submitted_def is_ok_iff)
qed

theorem intake_idempotent_witness:
  "submit sqlite_ops demo_config 9 ''e2'' (demo_input\<lparr>ac_payload := ''again''\<rparr>)
     (router_step sqlite_ops demo_config Restart (router_of demo_submitted))
   = Inr ((False, ''e1''), router_step sqlite_ops demo_config Restart (router_of demo_submitted))"
proof (rule intake_idempotent [OF router_run.start _ _ submitted_first])
  show "router_run sqlite_ops demo_config (router_of demo_submitted)
      (router_step sqlite_ops demo_config Restart (router_of demo_submitted))"
    by (rule router_run.step [OF router_run.start]) simp
qed (simp_all add: new_router_def sqlite_get_def)

text \<open>terminal is final. An entry that is completed, ambiguous or dead-lettered is never
  written again, whatever the router does.\<close>

theorem terminal_frozen:
  assumes "router_run sqlite_ops cfg (new_router []) rt" and "router_run sqlite_ops cfg rt rt'"
    and "sqlite_get i (rt_store rt) = Some e" and "je_state e \<in> set TERMINAL_STATES"
  shows "sqlite_get i (rt_store rt') = Some e"
  using sqlite.terminal_stays [OF assms(2) sqlite.run_inv [OF assms(1) sqlite.new_router_inv [OF empty_sqlite]], of i e]
    assms(3,4) by (simp add: sqlite_ops_def)

definition demo_observed :: "router_event list" where
  "demo_observed = [Observe 1 ''t1'' ''ls'' (Some ''out'')]"

lemma demo_observed_run: "run_events sqlite_ops demo_config demo_observed (new_router []) \<noteq> None"
  by code_simp

theorem terminal_frozen_witness:
  "\<exists>e. sqlite_get ''obs-t1'' (rt_store (router_step sqlite_ops demo_config Restart (router_of demo_observed))) = Some e
     \<and> je_state e = Completed"
proof -
  let ?rt = "router_of demo_observed"
  have "map_option je_state (sqlite_get ''obs-t1'' (rt_store ?rt)) = Some Completed" by code_simp
  then obtain e where e: "sqlite_get ''obs-t1'' (rt_store ?rt) = Some e" "je_state e = Completed" by auto
  have "router_run sqlite_ops demo_config ?rt (router_step sqlite_ops demo_config Restart ?rt)"
    by (rule router_run.step [OF router_run.start]) simp
  from terminal_frozen [OF router_of_run [OF demo_observed_run] this e(1)] e(2)
  show ?thesis by (auto simp: TERMINAL_STATES_def)
qed

subsection \<open>The two stores\<close>

text \<open>The stores hold the same entries; the results are the same and keep it so.\<close>

definition same_rows :: "memory_store \<Rightarrow> sqlite_store \<Rightarrow> bool" where
  "same_rows s t = (memory_inv s \<and> sqlite_inv t \<and> memory_rows s = sqlite_rows t)"

fun agree :: "(journal_throw, 'a \<times> memory_store) result \<Rightarrow> (journal_throw, 'a \<times> sqlite_store) result \<Rightarrow> bool" where
  "agree (Inl e) (Inl f) = (e = f)"
| "agree (Inr (x, s)) (Inr (y, t)) = (x = y \<and> same_rows s t)"
| "agree _ _ = False"

lemma op_agree:
  assumes "same_rows s t"
  shows "agree (run_op memory_ops now op s) (run_op sqlite_ops now op t)"
proof (cases "op_refused op")
  case True
  then show ?thesis
    by (cases op) (auto simp: toDispatching_def toDispatched_def toOutputPending_def toAmbiguous_def required_def)
next
  case False
  have inv: "memory_inv s" "sqlite_inv t" and eq: "memory_rows s = sqlite_rows t"
    using assms by (simp_all add: same_rows_def)
  show ?thesis
  proof (cases "case entry_of (op_id op) (sqlite_rows t) of None \<Rightarrow> True
      | Some e \<Rightarrow> je_state e \<notin> set (statesAllowing (op_to op))")
    case True
    then show ?thesis
      using memory.transition_miss [OF inv(1)] sqlite.transition_miss [OF inv(2)]
      by (simp add: run_op_transition [OF False] eq)
  next
    case ok: False
    then obtain e where e: "entry_of (op_id op) (sqlite_rows t) = Some e" "je_state e \<in> set (statesAllowing (op_to op))"
      by (auto split: option.splits)
    from sqlite.run_op_hit [OF inv(2) False e, of now] memory.run_op_hit [OF inv(1) False, of e now] e
    show ?thesis by (auto simp: same_rows_def eq)
  qed
qed


lemma same_rows_empty: "same_rows empty_memory []"
  by (auto simp: same_rows_def memory_inv_def memory_rows_def empty_memory_def sqlite_rows_def key_entry_def)


text \<open>the stores differ on an observation: the in-memory store keeps its output, the SQLite
  \<open>INSERT\<close> has no \<open>output\<close> column, so the recorded output of a founder-terminal turn is lost.\<close>

theorem observation_output_lost:
  "\<exists>s t. recordObservation memory_ops now key payload (Some out) empty_memory = Inr s
     \<and> recordObservation sqlite_ops now key payload (Some out) [] = Inr t
     \<and> map_option je_output (memory_get (''obs-'' @ key) s) = Some (Some out)
     \<and> map_option je_output (sqlite_get (''obs-'' @ key) t) = Some None"
  by (simp add: recordObservation_def memory_ops_def memory_insert_def memory_lookup_def empty_memory_def
      memory_get_def sqlite_ops_def sqlite_insert_def sqlite_get_key_def sqlite_get_def observation_def
      inserted_row_def rowToEntry_def)

end
