(* ===== verification/JsText.thy ===== *)
theory JsText
  imports Runtime
begin

section \<open>String.prototype.trim\<close>

text \<open>
  The string functions several components use: prefix tests, the trim of JavaScript over UTF-8, the strings
  it leaves alone, and an evaluation rule for the common case.
\<close>

text \<open>The white space and line terminators \<open>String.prototype.trim\<close> removes, in UTF-8.\<close>

definition WHITE_SPACE :: "string list" where
  "WHITE_SPACE = map (map char_of) ([[9 :: nat], [10], [11], [12], [13], [32], [0xC2, 0xA0], [0xE1, 0x9A, 0x80]]
     @ map (\<lambda>k. [0xE2, 0x80, k]) [0x80 ..< 0x8B]
     @ [[0xE2, 0x80, 0xA8], [0xE2, 0x80, 0xA9], [0xE2, 0x80, 0xAF], [0xE2, 0x81, 0x9F], [0xE3, 0x80, 0x80],
        [0xEF, 0xBB, 0xBF]])"

definition begins_with :: "string \<Rightarrow> string \<Rightarrow> bool" where
  "begins_with w s = (take (length w) s = w)"

lemma begins_shorter: "w \<noteq> [] \<Longrightarrow> begins_with w s \<Longrightarrow> length s - length w < length s"
  by (cases s) (auto simp: begins_with_def)

function strip :: "string list \<Rightarrow> string \<Rightarrow> string" where
  "strip ws s = (case find (\<lambda>w. w \<noteq> [] \<and> begins_with w s) ws of
     None \<Rightarrow> s | Some w \<Rightarrow> strip ws (drop (length w) s))"
  by pat_completeness auto

termination
  by (relation "measure (\<lambda>(ws, s). length s)") (auto simp: find_Some_iff intro: begins_shorter)

declare strip.simps [simp del]

definition trim :: "string \<Rightarrow> string" where
  "trim s = rev (strip (map rev WHITE_SPACE) (rev (strip WHITE_SPACE s)))"

definition clean :: "string \<Rightarrow> bool" where
  "clean s = (s \<noteq> [] \<and> trim s = s)"

definition no_prefix :: "string list \<Rightarrow> string \<Rightarrow> bool" where
  "no_prefix ws s = (\<forall>w \<in> set ws. w \<noteq> [] \<longrightarrow> \<not> begins_with w s)"

lemma strip_none: "no_prefix ws s \<Longrightarrow> strip ws s = s"
proof -
  assume "no_prefix ws s"
  then have "find (\<lambda>w. w \<noteq> [] \<and> begins_with w s) ws = None" by (auto simp: find_None_iff no_prefix_def)
  then show ?thesis by (subst strip.simps) simp
qed

lemma strip_suffix: "no_prefix ws (strip ws s) \<and> (\<exists>p. s = p @ strip ws s)"
proof (induction ws s rule: strip.induct)
  case (1 ws s)
  show ?case
  proof (cases "find (\<lambda>w. w \<noteq> [] \<and> begins_with w s) ws")
    case None
    then have "no_prefix ws s" by (auto simp: find_None_iff no_prefix_def)
    then show ?thesis by (simp add: strip_none)
  next
    case (Some w)
    then have eq: "strip ws s = strip ws (drop (length w) s)" by (subst strip.simps) simp
    obtain p where "drop (length w) s = p @ strip ws (drop (length w) s)" using "1.IH" [OF Some] by blast
    then have "s = (take (length w) s @ p) @ strip ws (drop (length w) s)"
      by (metis append.assoc append_take_drop_id)
    then show ?thesis using "1.IH" [OF Some] unfolding eq by blast
  qed
qed

lemma begins_with_append: "begins_with w s \<Longrightarrow> begins_with w (s @ t)"
  by (auto simp: begins_with_def take_append) (metis append_eq_conv_conj length_take min_def nat_le_linear take_all_iff)

lemma trim_trim: "trim (trim s) = trim s"
proof -
  let ?a = "strip WHITE_SPACE s" and ?r = "map rev WHITE_SPACE"
  have a: "no_prefix WHITE_SPACE ?a" using strip_suffix by blast
  obtain p where p: "rev ?a = p @ strip ?r (rev ?a)" using strip_suffix by blast
  have "?a = trim s @ rev p" using arg_cong [OF p, of rev] by (simp add: trim_def)
  then have "no_prefix WHITE_SPACE (trim s)"
    using a begins_with_append unfolding no_prefix_def by metis
  moreover have "no_prefix ?r (rev (trim s))" using strip_suffix [of ?r "rev ?a"] by (simp add: trim_def)
  ultimately show ?thesis unfolding trim_def [of "trim s"] by (simp add: strip_none)
qed

text \<open>Letters and digits need no search: an evaluation rule for \<open>trim\<close>.\<close>

definition letter :: "char \<Rightarrow> bool" where
  "letter c = (\<not> digit7 c \<and> (digit6 c \<or> digit5 c \<and> digit4 c))"

lemma white_space_ends: "list_all (\<lambda>w. w \<noteq> [] \<and> \<not> letter (hd w) \<and> \<not> letter (last w)) WHITE_SPACE"
  by (simp add: WHITE_SPACE_def letter_def upt_rec char_of_def bit_Suc_0_iff)

lemma white_space_end: "w \<in> set WHITE_SPACE \<Longrightarrow> \<not> letter (hd w) \<and> \<not> letter (last w)"
  using white_space_ends by (simp add: list_all_iff)

lemma no_white_space: "s \<noteq> [] \<Longrightarrow> letter (hd s) \<Longrightarrow> no_prefix WHITE_SPACE s"
proof -
  assume s: "s \<noteq> []" "letter (hd s)"
  have "hd w = hd s" if "w \<noteq> []" "begins_with w s" for w using that s by (cases w; cases s) (auto simp: begins_with_def)
  then show ?thesis using s white_space_end unfolding no_prefix_def by metis
qed

lemma no_white_space_rev: "s \<noteq> [] \<Longrightarrow> letter (last s) \<Longrightarrow> no_prefix (map rev WHITE_SPACE) (rev s)"
proof -
  assume s: "s \<noteq> []" "letter (last s)"
  have "last w = last s" if "rev w \<noteq> []" "begins_with (rev w) (rev s)" for w
    using that s by (cases w rule: rev_cases; cases s rule: rev_cases) (auto simp: begins_with_def)
  then have "\<not> begins_with (rev w) (rev s)" if "rev w \<noteq> []" "w \<in> set WHITE_SPACE" for w
    using that s white_space_end by metis
  then show ?thesis by (auto simp: no_prefix_def)
qed

lemma trim_code [code]:
  "trim s = (if s \<noteq> [] \<and> letter (hd s) \<and> letter (last s) then s
     else rev (strip (map rev WHITE_SPACE) (rev (strip WHITE_SPACE s))))"
  by (auto simp: trim_def strip_none no_white_space no_white_space_rev)

end
