(* ===== verification/Manifest.thy ===== *)
theory Manifest
  imports JsText
begin

section \<open>Workflow manifests (teamlead/src/workflow-template.ts)\<close>

text \<open>
  The strict validator of workflow templates: a JavaScript value (parsed YAML or JSON) becomes a typed
  manifest, or the first error the code throws; then the graph checks. \<open>applyWorkflowOverride\<close>
  edits a manifest and validates the result again.
\<close>

subsection \<open>Errors\<close>

datatype manifest_error =
    Must_be_object string | Unknown_key string string | Must_be_nonempty string
  | Must_be_one_of string "string list" | Bad_schema_version | Must_be_array string
  | Duplicate_id string | Gate_cannot_define string string | Model_needs_vendor string
  | Incompatible_model string string | Bad_handoff string | Not_one_qa | Unknown_endpoint string
  | Bad_iterations string | Terminal_not_gate | Duplicate_ship_claims | Missing_ship_claims
  | Undeclared_cycle | Not_one_start | Unreachable_node | Terminal_has_outgoing
  | Bad_conditions string | Bad_qa_loop string | Stray_loop string
  | Unknown_override string | Gate_override string | Skip_not_boolean string | Skip_qa string
  | Skip_loop string | Skip_ambiguous string

type_synonym 'a checked = "(manifest_error, 'a) result"

subsection \<open>Values\<close>

text \<open>\<open>o[k]\<close> on a plain object.\<close>

definition prop_of :: "(string \<times> json) list \<Rightarrow> string \<Rightarrow> json" where
  "prop_of kvs k = or_else (map_of kvs k) JUndef"

fun record_of :: "json \<Rightarrow> string \<Rightarrow> (string \<times> json) list checked" where
  "record_of (JObj kvs) path = Inr kvs"
| "record_of _ path = Inl (Must_be_object path)"

fun array_of :: "json \<Rightarrow> string \<Rightarrow> json list checked" where
  "array_of (JArr vs) path = Inr vs"
| "array_of _ path = Inl (Must_be_array path)"

text \<open>An unknown key that is the empty string is falsy, so it neither throws nor lets a later one throw.\<close>

definition exactKeys :: "(string \<times> json) list \<Rightarrow> string list \<Rightarrow> string \<Rightarrow> unit checked" where
  "exactKeys kvs allowed path =
     (case find (\<lambda>k. k \<notin> set allowed) (map fst kvs) of
        Some k \<Rightarrow> if k = [] then Inr () else Inl (Unknown_key path k)
      | None \<Rightarrow> Inr ())"

fun nonempty :: "json \<Rightarrow> string \<Rightarrow> string checked" where
  "nonempty (JStr s) path = (if trim s = [] then Inl (Must_be_nonempty path) else Inr (trim s))"
| "nonempty _ path = Inl (Must_be_nonempty path)"

text \<open>A member of a closed vocabulary; the model's constructor stands for the string.\<close>

fun oneOf :: "(string \<times> 'a) list \<Rightarrow> json \<Rightarrow> string \<Rightarrow> 'a checked" where
  "oneOf table (JStr s) path = (case map_of table s of
     None \<Rightarrow> Inl (Must_be_one_of path (map fst table)) | Some x \<Rightarrow> Inr x)"
| "oneOf table _ path = Inl (Must_be_one_of path (map fst table))"

text \<open>A property that may be absent.\<close>

definition optional :: "json \<Rightarrow> (json \<Rightarrow> 'a checked) \<Rightarrow> 'a option checked" where
  "optional v f = (if v = JUndef then Inr None else and_then (f v) (\<lambda>x. Inr (Some x)))"

definition indexed :: "string \<Rightarrow> nat \<Rightarrow> string" where
  "indexed name i = ''manifest.'' @ name @ ''['' @ digits_of i @ '']''"

subsection \<open>The manifest\<close>

datatype node_type = Design | Implement | Qa | Gate
datatype vendor = Claude | Codex
datatype effort = Low | Medium | High | Xhigh
datatype edge_condition = Design_done | Implement_done | Qa_pass | Founder_approved_edge
datatype loop_condition = Qa_fail | Founder_feedback_kickback
datatype ship_claim = Qa_passed | Founder_approved

definition NODE_TYPES :: "(string \<times> node_type) list" where
  "NODE_TYPES = [(''design'', Design), (''implement'', Implement), (''qa'', Qa), (''gate'', Gate)]"
definition VENDORS :: "(string \<times> vendor) list" where
  "VENDORS = [(''claude'', Claude), (''codex'', Codex)]"
definition EFFORTS :: "(string \<times> effort) list" where
  "EFFORTS = [(''low'', Low), (''medium'', Medium), (''high'', High), (''xhigh'', Xhigh)]"
definition EDGE_CONDITIONS :: "(string \<times> edge_condition) list" where
  "EDGE_CONDITIONS = [(''design_done'', Design_done), (''implement_done'', Implement_done),
     (''qa_pass'', Qa_pass), (''founder_approved'', Founder_approved_edge)]"
definition LOOP_CONDITIONS :: "(string \<times> loop_condition) list" where
  "LOOP_CONDITIONS = [(''qa_fail'', Qa_fail), (''founder_feedback_kickback'', Founder_feedback_kickback)]"
definition SHIP_CLAIMS :: "(string \<times> ship_claim) list" where
  "SHIP_CLAIMS = [(''qa_passed'', Qa_passed), (''founder_approved'', Founder_approved)]"

record manifest_node =
  mn_id :: string
  mn_type :: node_type
  mn_vendor :: "vendor option"
  mn_model :: "string option"
  mn_effort :: "effort option"
  mn_handoff :: bool

record manifest_edge =
  me_id :: string
  me_from :: string
  me_to :: string
  me_condition :: edge_condition

record manifest_loop =
  ml_id :: string
  ml_from :: string
  ml_to :: string
  loop_when :: loop_condition
  max_iterations :: int

text \<open>\<open>schema_version\<close>, the terminal predicate, \<open>exit_when\<close> and \<open>on_limit\<close> have one legal value.\<close>

record manifest =
  mf_nodes :: "manifest_node list"
  mf_edges :: "manifest_edge list"
  mf_loops :: "manifest_loop list"
  terminal_node :: string
  ship_claims :: "ship_claim list"

fun compatibleModel :: "vendor \<Rightarrow> string \<Rightarrow> bool" where
  "compatibleModel Claude m = begins_with ''claude-'' m"
| "compatibleModel Codex m = begins_with ''gpt-'' m"

subsection \<open>Nodes, edges and loops\<close>

definition parse_handoff :: "string \<Rightarrow> string \<Rightarrow> json \<Rightarrow> bool checked" where
  "parse_handoff path i v =
     (if v = JUndef then Inr False
      else and_then (record_of v (path @ ''.handoff_pointer'')) (\<lambda>p.
        and_then (exactKeys p [''worktree'', ''design_doc''] (''node '' @ i @ ''.handoff_pointer'')) (\<lambda>_.
        if prop_of p ''worktree'' \<noteq> JBool True \<or> prop_of p ''design_doc'' \<noteq> JBool True then Inl (Bad_handoff i)
        else Inr True)))"

definition parse_agent_node :: "string \<Rightarrow> (string \<times> json) list \<Rightarrow> string \<Rightarrow> node_type \<Rightarrow> manifest_node checked" where
  "parse_agent_node path n i ty =
     and_then (optional (prop_of n ''vendor'') (\<lambda>v. oneOf VENDORS v (path @ ''.vendor''))) (\<lambda>vendor.
     and_then (optional (prop_of n ''model'') (\<lambda>v. nonempty v (path @ ''.model''))) (\<lambda>model.
       if model \<noteq> None \<and> vendor = None then Inl (Model_needs_vendor i)
       else if (case (vendor, model) of (Some v, Some m) \<Rightarrow> \<not> compatibleModel v m | _ \<Rightarrow> False)
       then Inl (Incompatible_model i (the model))
       else and_then (parse_handoff path i (prop_of n ''handoff_pointer'')) (\<lambda>handoff.
         and_then (optional (prop_of n ''effort'') (\<lambda>v. oneOf EFFORTS v (path @ ''.effort''))) (\<lambda>effort.
         Inr \<lparr>mn_id = i, mn_type = ty, mn_vendor = vendor, mn_model = model, mn_effort = effort,
              mn_handoff = handoff\<rparr>))))"

definition parse_node :: "nat \<Rightarrow> string list \<Rightarrow> json \<Rightarrow> manifest_node checked" where
  "parse_node k seen raw = (let path = indexed ''nodes'' k in
     and_then (record_of raw path) (\<lambda>n.
     and_then (exactKeys n [''id'', ''type'', ''vendor'', ''model'', ''effort'', ''handoff_pointer''] path) (\<lambda>_.
     and_then (nonempty (prop_of n ''id'') (path @ ''.id'')) (\<lambda>i.
       if i \<in> set seen then Inl (Duplicate_id i)
       else and_then (oneOf NODE_TYPES (prop_of n ''type'') (path @ ''.type'')) (\<lambda>ty.
         if ty = Gate then
           (case find (\<lambda>k. prop_of n k \<noteq> JUndef) [''vendor'', ''model'', ''effort'', ''handoff_pointer''] of
              Some k \<Rightarrow> Inl (Gate_cannot_define i k)
            | None \<Rightarrow> Inr \<lparr>mn_id = i, mn_type = Gate, mn_vendor = None, mn_model = None, mn_effort = None,
                           mn_handoff = False\<rparr>)
         else parse_agent_node path n i ty)))))"

fun parse_nodes :: "nat \<Rightarrow> string list \<Rightarrow> json list \<Rightarrow> manifest_node list checked" where
  "parse_nodes k seen [] = Inr []"
| "parse_nodes k seen (v # vs) = and_then (parse_node k seen v) (\<lambda>n.
     and_then (parse_nodes (k + 1) (mn_id n # seen) vs) (\<lambda>ns. Inr (n # ns)))"

definition parse_edge :: "string list \<Rightarrow> nat \<Rightarrow> string list \<Rightarrow> json \<Rightarrow> manifest_edge checked" where
  "parse_edge nodeIds k seen raw = (let path = indexed ''edges'' k in
     and_then (record_of raw path) (\<lambda>e.
     and_then (exactKeys e [''id'', ''from'', ''to'', ''condition''] path) (\<lambda>_.
     and_then (nonempty (prop_of e ''id'') (path @ ''.id'')) (\<lambda>i.
       if i \<in> set seen then Inl (Duplicate_id i)
       else and_then (nonempty (prop_of e ''from'') (path @ ''.from'')) (\<lambda>source.
         and_then (nonempty (prop_of e ''to'') (path @ ''.to'')) (\<lambda>target.
         if source \<notin> set nodeIds \<or> target \<notin> set nodeIds then Inl (Unknown_endpoint i)
         else and_then (oneOf EDGE_CONDITIONS (prop_of e ''condition'') (path @ ''.condition'')) (\<lambda>c.
           Inr \<lparr>me_id = i, me_from = source, me_to = target, me_condition = c\<rparr>)))))))"

fun parse_edges :: "string list \<Rightarrow> nat \<Rightarrow> string list \<Rightarrow> json list \<Rightarrow> manifest_edge list checked" where
  "parse_edges ids k seen [] = Inr []"
| "parse_edges ids k seen (v # vs) = and_then (parse_edge ids k seen v) (\<lambda>e.
     and_then (parse_edges ids (k + 1) (me_id e # seen) vs) (\<lambda>es. Inr (e # es)))"

fun positive_json :: "json \<Rightarrow> bool" where
  "positive_json (JInt i) = (0 < i)"
| "positive_json _ = False"

fun json_int :: "json \<Rightarrow> int" where
  "json_int (JInt i) = i"
| "json_int _ = 0"

definition parse_loop :: "string list \<Rightarrow> nat \<Rightarrow> string list \<Rightarrow> json \<Rightarrow> manifest_loop checked" where
  "parse_loop nodeIds k seen raw = (let path = indexed ''loops'' k in
     and_then (record_of raw path) (\<lambda>l.
     and_then (exactKeys l [''id'', ''from'', ''to'', ''loop_when'', ''exit_when'', ''max_iterations'', ''on_limit''] path) (\<lambda>_.
     and_then (nonempty (prop_of l ''id'') (path @ ''.id'')) (\<lambda>i.
       if i \<in> set seen then Inl (Duplicate_id i)
       else and_then (nonempty (prop_of l ''from'') (path @ ''.from'')) (\<lambda>source.
         and_then (nonempty (prop_of l ''to'') (path @ ''.to'')) (\<lambda>target.
         if source \<notin> set nodeIds \<or> target \<notin> set nodeIds then Inl (Unknown_endpoint i)
         else if \<not> positive_json (prop_of l ''max_iterations'') then Inl (Bad_iterations i)
         else and_then (oneOf LOOP_CONDITIONS (prop_of l ''loop_when'') (path @ ''.loop_when'')) (\<lambda>lw.
           and_then (oneOf [(''qa_pass'', ())] (prop_of l ''exit_when'') (path @ ''.exit_when'')) (\<lambda>_.
           and_then (oneOf [(''escalate'', ())] (prop_of l ''on_limit'') (path @ ''.on_limit'')) (\<lambda>_.
           Inr \<lparr>ml_id = i, ml_from = source, ml_to = target, loop_when = lw,
                max_iterations = json_int (prop_of l ''max_iterations'')\<rparr>)))))))))"

text \<open>\<open>seen\<close> starts with the edge ids.\<close>

fun parse_loops :: "string list \<Rightarrow> nat \<Rightarrow> string list \<Rightarrow> json list \<Rightarrow> manifest_loop list checked" where
  "parse_loops ids k seen [] = Inr []"
| "parse_loops ids k seen (v # vs) = and_then (parse_loop ids k seen v) (\<lambda>l.
     and_then (parse_loops ids (k + 1) (ml_id l # seen) vs) (\<lambda>ls. Inr (l # ls)))"

fun parse_claims :: "nat \<Rightarrow> json list \<Rightarrow> ship_claim list checked" where
  "parse_claims k [] = Inr []"
| "parse_claims k (v # vs) = and_then (oneOf SHIP_CLAIMS v (indexed ''ship_claims'' k)) (\<lambda>c.
     and_then (parse_claims (k + 1) vs) (\<lambda>cs. Inr (c # cs)))"

subsection \<open>The graph checks\<close>

definition successors :: "manifest_edge list \<Rightarrow> string \<Rightarrow> string list" where
  "successors es n = map me_to (filter (\<lambda>e. me_from e = n) es)"

lemma unvisited_shrinks:
  "n \<in> set ids \<Longrightarrow> n \<notin> set visiting \<Longrightarrow> card (set ids - set (n # visiting)) < card (set ids - set visiting)"
  by (rule psubset_card_mono) auto

text \<open>
  \<open>assertAcyclic\<close>: depth-first search. The result is the list of finished nodes; \<open>None\<close> is the throw
  at a node that is being visited.
\<close>

function visit :: "string list \<Rightarrow> manifest_edge list \<Rightarrow> string list \<Rightarrow> string list \<Rightarrow> string list \<Rightarrow> string list option" where
  "visit ids es visiting visited [] = Some visited"
| "visit ids es visiting visited (n # ns) =
     (if n \<in> set visiting then None
      else if n \<in> set visited then visit ids es visiting visited ns
      else (case visit ids es (n # visiting) visited (if n \<in> set ids then successors es n else []) of
          None \<Rightarrow> None
        | Some visited' \<Rightarrow> visit ids es visiting (n # visited') ns))"
  by pat_completeness auto

termination
proof (relation "measures [\<lambda>(ids, es, visiting, visited, ns). card (set ids - set visiting),
    \<lambda>(ids, es, visiting, visited, ns). length ns]", goal_cases)
  case (3 ids es visiting visited n ns)
  show ?case
  proof (cases "n \<in> set ids")
    case True
    then show ?thesis using unvisited_shrinks [OF True 3(1)] by simp
  next
    case False
    then have "set ids - set (n # visiting) = set ids - set visiting" by auto
    then show ?thesis using False by simp
  qed
qed auto

definition assertAcyclic :: "string list \<Rightarrow> manifest_edge list \<Rightarrow> bool" where
  "assertAcyclic ids es = (visit ids es [] [] ids \<noteq> None)"

lemma split_edges:
  "c \<notin> set reached \<Longrightarrow> length (filter (\<lambda>e. me_from e \<notin> set (c # reached)) es) + length (successors es c)
    = length (filter (\<lambda>e. me_from e \<notin> set reached) es)"
  by (induction es) (auto simp: successors_def)

text \<open>The breadth-first queue of the reachability check.\<close>

function bfs :: "manifest_edge list \<Rightarrow> string list \<Rightarrow> string list \<Rightarrow> string list" where
  "bfs es reached [] = reached"
| "bfs es reached (c # queue) =
     (if c \<in> set reached then bfs es reached queue else bfs es (c # reached) (queue @ successors es c))"
  by pat_completeness auto

termination
proof (relation "measure (\<lambda>(es, reached, queue). length (filter (\<lambda>e. me_from e \<notin> set reached) es) + length queue)", goal_cases)
  case (3 es reached c queue)
  then show ?case using split_edges [OF 3, of es] by simp
qed auto

definition starts :: "manifest_node list \<Rightarrow> manifest_edge list \<Rightarrow> string list" where
  "starts ns es = filter (\<lambda>i. \<forall>e \<in> set es. me_to e \<noteq> i) (map mn_id ns)"

definition expected_condition :: "node_type \<Rightarrow> edge_condition option" where
  "expected_condition ty = (case ty of Design \<Rightarrow> Some Design_done | Implement \<Rightarrow> Some Implement_done
     | Qa \<Rightarrow> Some Qa_pass | Gate \<Rightarrow> None)"

text \<open>\<open>exit_when\<close> is \<open>qa_pass\<close> in every parsed loop.\<close>

definition check_node :: "manifest_edge list \<Rightarrow> manifest_loop list \<Rightarrow> string \<Rightarrow> manifest_node \<Rightarrow> manifest_error option" where
  "check_node es ls terminal n =
     (let conditions = map me_condition (filter (\<lambda>e. me_from e = mn_id n) es);
          nodeLoops = filter (\<lambda>l. ml_from l = mn_id n) ls in
      if mn_id n = terminal then
        (if conditions \<noteq> [] \<or> nodeLoops \<noteq> [] then Some Terminal_has_outgoing else None)
      else if expected_condition (mn_type n) = None \<or> map Some conditions \<noteq> [expected_condition (mn_type n)]
      then Some (Bad_conditions (mn_id n))
      else if mn_type n = Qa then
        (if map loop_when nodeLoops \<noteq> [Qa_fail] then Some (Bad_qa_loop (mn_id n)) else None)
      else if nodeLoops \<noteq> [] then Some (Stray_loop (mn_id n)) else None)"

fun first_error :: "'e option list \<Rightarrow> 'e option" where
  "first_error [] = None"
| "first_error (None # es) = first_error es"
| "first_error (Some e # es) = Some e"

definition check_graph :: "manifest_node list \<Rightarrow> manifest_edge list \<Rightarrow> manifest_loop list \<Rightarrow> string
    \<Rightarrow> manifest_error option" where
  "check_graph ns es ls terminal =
     (if \<not> assertAcyclic (map mn_id ns) es then Some Undeclared_cycle
      else if length (starts ns es) \<noteq> 1 then Some Not_one_start
      else if length (bfs es [] [hd (starts ns es)]) \<noteq> length ns then Some Unreachable_node
      else first_error (map (check_node es ls terminal) ns))"

definition parse_terminal :: "manifest_node list \<Rightarrow> json \<Rightarrow> string checked" where
  "parse_terminal ns v =
     and_then (record_of v ''manifest.terminal_gate'') (\<lambda>t.
     and_then (exactKeys t [''node'', ''predicate''] ''manifest.terminal_gate'') (\<lambda>_.
     and_then (nonempty (prop_of t ''node'') ''manifest.terminal_gate.node'') (\<lambda>i.
       if map_option mn_type (find (\<lambda>n. mn_id n = i) ns) \<noteq> Some Gate then Inl Terminal_not_gate
       else and_then (oneOf [(''founder_approved'', ())] (prop_of t ''predicate'') ''terminal_gate.predicate'') (\<lambda>_.
       Inr i))))"

subsection \<open>The validator\<close>

definition MANIFEST_KEYS :: "string list" where
  "MANIFEST_KEYS = [''schema_version'', ''nodes'', ''edges'', ''loops'', ''terminal_gate'', ''ship_claims'']"

definition finish_manifest :: "manifest_node list \<Rightarrow> manifest_edge list \<Rightarrow> manifest_loop list \<Rightarrow> string
    \<Rightarrow> ship_claim list \<Rightarrow> manifest checked" where
  "finish_manifest ns es ls terminal claims =
     (if \<not> distinct claims then Inl Duplicate_ship_claims
      else if Qa_passed \<notin> set claims \<or> Founder_approved \<notin> set claims then Inl Missing_ship_claims
      else (case check_graph ns es ls terminal of
          Some e \<Rightarrow> Inl e
        | None \<Rightarrow> Inr \<lparr>mf_nodes = ns, mf_edges = es, mf_loops = ls, terminal_node = terminal,
                        ship_claims = claims\<rparr>))"

definition validateWorkflowManifest :: "json \<Rightarrow> manifest checked" where
  "validateWorkflowManifest value =
     and_then (record_of value ''manifest'') (\<lambda>root.
     and_then (exactKeys root MANIFEST_KEYS ''manifest'') (\<lambda>_.
       if prop_of root ''schema_version'' \<noteq> JInt 1 then Inl Bad_schema_version
       else if prop_of root ''nodes'' = JArr [] then Inl (Must_be_array ''manifest.nodes'')
       else and_then (array_of (prop_of root ''nodes'') ''manifest.nodes'') (\<lambda>nodes.
         and_then (array_of (prop_of root ''edges'') ''manifest.edges'') (\<lambda>edges.
         and_then (array_of (prop_of root ''loops'') ''manifest.loops'') (\<lambda>loops.
         and_then (array_of (prop_of root ''ship_claims'') ''manifest.ship_claims'') (\<lambda>claims.
         and_then (parse_nodes 0 [] nodes) (\<lambda>ns.
         if length (filter (\<lambda>n. mn_type n = Qa) ns) \<noteq> 1 then Inl Not_one_qa
         else and_then (parse_edges (map mn_id ns) 0 [] edges) (\<lambda>es.
           and_then (parse_loops (map mn_id ns) 0 (map me_id es) loops) (\<lambda>ls.
           and_then (parse_terminal ns (prop_of root ''terminal_gate'')) (\<lambda>terminal.
           and_then (parse_claims 0 claims) (\<lambda>cs.
           finish_manifest ns es ls terminal cs)))))))))))"

subsection \<open>A manifest as a value\<close>

text \<open>The object the validator returns, as \<open>JSON.stringify\<close> or \<open>structuredClone\<close> see it.\<close>

definition name_in :: "(string \<times> 'a) list \<Rightarrow> 'a \<Rightarrow> json" where
  "name_in table x = JStr (case find (\<lambda>p. snd p = x) table of None \<Rightarrow> [] | Some p \<Rightarrow> fst p)"

definition some_prop :: "string \<Rightarrow> ('a \<Rightarrow> json) \<Rightarrow> 'a option \<Rightarrow> (string \<times> json) list" where
  "some_prop k f v = (case v of None \<Rightarrow> [] | Some x \<Rightarrow> [(k, f x)])"

definition node_json :: "manifest_node \<Rightarrow> json" where
  "node_json n = JObj ([(''id'', JStr (mn_id n)), (''type'', name_in NODE_TYPES (mn_type n))]
     @ some_prop ''vendor'' (name_in VENDORS) (mn_vendor n) @ some_prop ''model'' JStr (mn_model n)
     @ some_prop ''effort'' (name_in EFFORTS) (mn_effort n)
     @ (if mn_handoff n
        then [(''handoff_pointer'', JObj [(''worktree'', JBool True), (''design_doc'', JBool True)])] else []))"

definition edge_json :: "manifest_edge \<Rightarrow> json" where
  "edge_json e = JObj [(''id'', JStr (me_id e)), (''from'', JStr (me_from e)), (''to'', JStr (me_to e)),
     (''condition'', name_in EDGE_CONDITIONS (me_condition e))]"

definition loop_json :: "manifest_loop \<Rightarrow> json" where
  "loop_json l = JObj [(''id'', JStr (ml_id l)), (''from'', JStr (ml_from l)), (''to'', JStr (ml_to l)),
     (''loop_when'', name_in LOOP_CONDITIONS (loop_when l)), (''exit_when'', JStr ''qa_pass''),
     (''max_iterations'', JInt (max_iterations l)), (''on_limit'', JStr ''escalate'')]"

definition manifest_json :: "manifest \<Rightarrow> json" where
  "manifest_json m = JObj [(''schema_version'', JInt 1), (''nodes'', JArr (map node_json (mf_nodes m))),
     (''edges'', JArr (map edge_json (mf_edges m))), (''loops'', JArr (map loop_json (mf_loops m))),
     (''terminal_gate'', JObj [(''node'', JStr (terminal_node m)), (''predicate'', JStr ''founder_approved'')]),
     (''ship_claims'', JArr (map (name_in SHIP_CLAIMS) (ship_claims m)))]"

subsection \<open>Overrides\<close>

definition override_path :: "string \<Rightarrow> string \<Rightarrow> string" where
  "override_path i k = ''override.nodes.'' @ i @ k"

definition set_node :: "string \<Rightarrow> (manifest_node \<Rightarrow> manifest_node) \<Rightarrow> manifest \<Rightarrow> manifest" where
  "set_node i f m = m\<lparr>mf_nodes := map (\<lambda>n. if mn_id n = i then f n else n) (mf_nodes m)\<rparr>"

definition override_model :: "string \<Rightarrow> manifest_node \<Rightarrow> json \<Rightarrow> manifest \<Rightarrow> manifest checked" where
  "override_model i n v m =
     (if v = JUndef then Inr m
      else and_then (nonempty v (override_path i ''.model'')) (\<lambda>model.
        if (case mn_vendor n of None \<Rightarrow> True | Some vd \<Rightarrow> \<not> compatibleModel vd model)
        then Inl (Incompatible_model i model)
        else Inr (set_node i (\<lambda>n. n\<lparr>mn_model := Some model\<rparr>) m)))"

definition override_effort :: "string \<Rightarrow> json \<Rightarrow> manifest \<Rightarrow> manifest checked" where
  "override_effort i v m =
     (if v = JUndef then Inr m
      else and_then (oneOf EFFORTS v (override_path i ''.effort'')) (\<lambda>e.
        Inr (set_node i (\<lambda>n. n\<lparr>mn_effort := Some e\<rparr>) m)))"

text \<open>The neighbours of a skipped node are joined under the condition of its incoming edge.\<close>

definition skip_node :: "string \<Rightarrow> manifest_node \<Rightarrow> manifest \<Rightarrow> manifest checked" where
  "skip_node i n m =
     (if mn_type n = Qa then Inl (Skip_qa i)
      else if list_ex (\<lambda>l. ml_from l = i \<or> ml_to l = i) (mf_loops m) then Inl (Skip_loop i)
      else (let incoming = filter (\<lambda>e. me_to e = i) (mf_edges m);
                outgoing = filter (\<lambda>e. me_from e = i) (mf_edges m) in
        if 1 < length incoming \<or> length outgoing \<noteq> 1 then Inl (Skip_ambiguous i)
        else Inr (m\<lparr>mf_nodes := filter (\<lambda>n. mn_id n \<noteq> i) (mf_nodes m),
          mf_edges := filter (\<lambda>e. me_from e \<noteq> i \<and> me_to e \<noteq> i) (mf_edges m)
            @ (case incoming of [] \<Rightarrow> []
               | e # _ \<Rightarrow> [\<lparr>me_id = ''override_skip_'' @ i, me_from = me_from e, me_to = me_to (hd outgoing),
                           me_condition = me_condition e\<rparr>])\<rparr>)))"

definition override_skip :: "string \<Rightarrow> manifest_node \<Rightarrow> json \<Rightarrow> manifest \<Rightarrow> manifest checked" where
  "override_skip i n v m =
     (case v of JUndef \<Rightarrow> Inr m
      | JBool b \<Rightarrow> if b then skip_node i n m else Inr m
      | _ \<Rightarrow> Inl (Skip_not_boolean i))"

definition override_node :: "string \<times> json \<Rightarrow> manifest \<Rightarrow> manifest checked" where
  "override_node entry m = (let i = fst entry in
     and_then (record_of (snd entry) (override_path i [])) (\<lambda>o'.
     and_then (exactKeys o' [''model'', ''effort'', ''skip''] (override_path i [])) (\<lambda>_.
     case find (\<lambda>n. mn_id n = i) (mf_nodes m) of
       None \<Rightarrow> Inl (Unknown_override i)
     | Some n \<Rightarrow>
         if mn_type n = Gate then Inl (Gate_override i)
         else and_then (override_model i n (prop_of o' ''model'') m) (\<lambda>m1.
           and_then (override_effort i (prop_of o' ''effort'') m1) (\<lambda>m2.
           override_skip i n (prop_of o' ''skip'') m2)))))"

fun override_nodes :: "(string \<times> json) list \<Rightarrow> manifest \<Rightarrow> manifest checked" where
  "override_nodes [] m = Inr m"
| "override_nodes (x # xs) m = and_then (override_node x m) (override_nodes xs)"

record template_override =
  ov_reason :: string
  ov_nodes :: "(string \<times> json) list"

definition applyWorkflowOverride :: "json \<Rightarrow> json \<Rightarrow> (manifest \<times> template_override) checked" where
  "applyWorkflowOverride manifestValue overrideValue =
     and_then (validateWorkflowManifest manifestValue) (\<lambda>m.
     and_then (record_of overrideValue ''override'') (\<lambda>o'.
     and_then (exactKeys o' [''reason'', ''nodes''] ''override'') (\<lambda>_.
     and_then (nonempty (prop_of o' ''reason'') ''override.reason'') (\<lambda>reason.
     and_then (if prop_of o' ''nodes'' = JUndef then Inr [] else record_of (prop_of o' ''nodes'') ''override.nodes'')
       (\<lambda>entries. and_then (override_nodes entries m) (\<lambda>edited.
       and_then (validateWorkflowManifest (manifest_json edited)) (\<lambda>m'.
       Inr (m', \<lparr>ov_reason = reason, ov_nodes = entries\<rparr>))))))))"

end
