(* ===== verification/ManifestGraph.thy ===== *)
theory ManifestGraph
  imports Manifest
begin

section \<open>The graph of an accepted manifest\<close>

text \<open>
  The depth-first check decides acyclicity, the breadth-first queue computes reachability, and a
  graph in which every node but one has exactly one successor is a single route.
\<close>

definition edge_rel :: "manifest_edge list \<Rightarrow> (string \<times> string) set" where
  "edge_rel es = (\<lambda>e. (me_from e, me_to e)) ` set es"

lemma successors_rel: "y \<in> set (successors es x) \<longleftrightarrow> (x, y) \<in> edge_rel es"
  by (force simp: successors_def edge_rel_def)

lemma finite_edge_rel: "finite (edge_rel es)"
  by (simp add: edge_rel_def)

definition closed_rel :: "manifest_edge list \<Rightarrow> string list \<Rightarrow> bool" where
  "closed_rel es ids = (edge_rel es \<subseteq> set ids \<times> set ids)"

subsection \<open>Depth-first search\<close>

text \<open>The finished nodes are closed under edges and no cycle runs through them.\<close>

definition finished_ok :: "manifest_edge list \<Rightarrow> string list \<Rightarrow> bool" where
  "finished_ok es V = ((\<forall>x \<in> set V. set (successors es x) \<subseteq> set V) \<and> acyclic (edge_rel es \<inter> (set V \<times> UNIV)))"

lemma finish_node:
  assumes "finished_ok es V" and "set (successors es n) \<subseteq> set V" and "n \<notin> set V"
  shows "finished_ok es (n # V)"
proof -
  let ?r = "edge_rel es \<inter> (set V \<times> UNIV)"
  have cl: "\<And>x y. x \<in> set V \<Longrightarrow> (x, y) \<in> edge_rel es \<Longrightarrow> y \<in> set V"
    using assms(1) by (auto simp: finished_ok_def successors_rel [symmetric])
  have out: "\<And>y. (n, y) \<in> edge_rel es \<Longrightarrow> y \<in> set V" using assms(2) by (auto simp: successors_rel [symmetric])
  have stay: "(x, y) \<in> (edge_rel es \<inter> (set (n # V) \<times> UNIV))\<^sup>+ \<Longrightarrow> x \<in> set V \<Longrightarrow> y \<in> set V \<and> (x, y) \<in> ?r\<^sup>+" for x y
  proof (induction rule: trancl.induct)
    case (r_into_trancl a b)
    then show ?case using cl by auto
  next
    case (trancl_into_trancl a b c)
    then have "b \<in> set V" "(a, b) \<in> ?r\<^sup>+" by blast+
    moreover have "(b, c) \<in> ?r" using trancl_into_trancl.hyps(2) \<open>b \<in> set V\<close> by auto
    ultimately show ?case using cl by (auto intro: trancl.trancl_into_trancl)
  qed
  have "(x, x) \<notin> (edge_rel es \<inter> (set (n # V) \<times> UNIV))\<^sup>+" for x
  proof
    assume cyc: "(x, x) \<in> (edge_rel es \<inter> (set (n # V) \<times> UNIV))\<^sup>+"
    show False
    proof (cases "x \<in> set V")
      case True
      then show False using stay [OF cyc] assms(1) by (auto simp: finished_ok_def acyclic_def)
    next
      case False
      from cyc obtain y where y: "(x, y) \<in> edge_rel es \<inter> (set (n # V) \<times> UNIV)"
        "(y, x) \<in> (edge_rel es \<inter> (set (n # V) \<times> UNIV))\<^sup>*" by (meson tranclD)
      then have "x = n" using False by auto
      then have yV: "y \<in> set V" using y(1) out by auto
      then show False using y(2) False stay [of y x] by (auto simp: rtrancl_eq_or_trancl)
    qed
  qed
  then show ?thesis using cl out by (auto simp: finished_ok_def acyclic_def successors_rel)
qed

lemma visit_sound:
  assumes "visit ids es visiting V ns = Some V'" and "finished_ok es V" and "set V \<inter> set visiting = {}"
    and "closed_rel es ids"
  shows "finished_ok es V' \<and> set V \<subseteq> set V' \<and> set ns \<subseteq> set V' \<and> set V' \<inter> set visiting = {}"
  using assms
proof (induction ids es visiting V ns arbitrary: V' rule: visit.induct)
  case (2 ids es visiting V n ns)
  show ?case
  proof (cases "n \<in> set V")
    case True
    then show ?thesis using 2 by (auto split: if_splits)
  next
    case False
    then have fresh: "n \<notin> set visiting" using "2.prems"(1) by (auto split: if_splits)
    let ?next = "if n \<in> set ids then successors es n else []"
    obtain V1 where V1: "visit ids es (n # visiting) V ?next = Some V1"
      and rest: "visit ids es visiting (n # V1) ns = Some V'"
      using fresh False "2.prems"(1) by (auto split: option.splits)
    have IH1: "finished_ok es V1 \<and> set V \<subseteq> set V1 \<and> set ?next \<subseteq> set V1 \<and> set V1 \<inter> set (n # visiting) = {}"
      using "2.IH"(2) [OF fresh False V1] "2.prems" False by simp
    have "y \<in> set V1" if "y \<in> set (successors es n)" for y
    proof -
      have "n \<in> set ids" using that "2.prems"(4) by (auto simp: successors_rel closed_rel_def)
      then show ?thesis using IH1 that by auto
    qed
    then have "finished_ok es (n # V1)" using IH1 by (intro finish_node) auto
    then show ?thesis using "2.IH"(3) [OF fresh False V1 rest] IH1 fresh "2.prems"(4) by auto
  qed
qed simp

lemma visit_complete:
  assumes "acyclic (edge_rel es)" and "\<forall>v \<in> set visiting. \<forall>n \<in> set ns. (v, n) \<in> (edge_rel es)\<^sup>+"
  shows "visit ids es visiting V ns \<noteq> None"
  using assms
proof (induction ids es visiting V ns rule: visit.induct)
  case (2 ids es visiting V n ns)
  have fresh: "n \<notin> set visiting" using "2.prems" by (auto simp: acyclic_def)
  show ?case
  proof (cases "n \<in> set V")
    case True
    then show ?thesis using "2.IH"(1) [OF fresh True] "2.prems" fresh by simp
  next
    case False
    let ?next = "if n \<in> set ids then successors es n else []"
    have "(v, y) \<in> (edge_rel es)\<^sup>+" if "v \<in> set (n # visiting)" "y \<in> set ?next" for v y
    proof -
      have "(n, y) \<in> edge_rel es" using that(2) by (auto simp: successors_rel split: if_splits)
      moreover have "v = n \<or> (v, n) \<in> (edge_rel es)\<^sup>+" using that(1) "2.prems"(2) by auto
      ultimately show ?thesis by (auto intro: trancl.trancl_into_trancl)
    qed
    then have "visit ids es (n # visiting) V ?next \<noteq> None" using "2.IH"(2) [OF fresh False] "2.prems"(1) by blast
    then obtain V1 where V1: "visit ids es (n # visiting) V ?next = Some V1" by blast
    show ?thesis using "2.IH"(3) [OF fresh False V1] "2.prems" fresh False V1 by simp
  qed
qed simp

lemma assertAcyclic_iff:
  assumes "closed_rel es ids"
  shows "assertAcyclic ids es \<longleftrightarrow> acyclic (edge_rel es)"
proof
  assume "assertAcyclic ids es"
  then obtain V where V: "visit ids es [] [] ids = Some V" by (auto simp: assertAcyclic_def)
  have "finished_ok es V \<and> set ids \<subseteq> set V"
    using visit_sound [OF V _ _ assms] by (simp add: finished_ok_def acyclic_def)
  moreover have "edge_rel es \<inter> (set V \<times> UNIV) = edge_rel es" if "set ids \<subseteq> set V"
    using assms that by (auto simp: closed_rel_def)
  ultimately show "acyclic (edge_rel es)" by (auto simp: finished_ok_def)
next
  assume "acyclic (edge_rel es)"
  then show "assertAcyclic ids es" using visit_complete [of es "[]" ids ids "[]"] by (simp add: assertAcyclic_def)
qed

subsection \<open>Reachability\<close>

lemma bfs_reach:
  assumes "distinct R" and "\<forall>x \<in> set R. set (successors es x) \<subseteq> set R \<union> set Q"
  shows "distinct (bfs es R Q) \<and> set R \<union> set Q \<subseteq> set (bfs es R Q)
    \<and> (\<forall>x \<in> set (bfs es R Q). set (successors es x) \<subseteq> set (bfs es R Q))
    \<and> set (bfs es R Q) \<subseteq> (edge_rel es)\<^sup>* `` (set R \<union> set Q)"
  using assms
proof (induction es R Q rule: bfs.induct)
  case (1 es R)
  then show ?case by auto
next
  case (2 es R c Q)
  show ?case
  proof (cases "c \<in> set R")
    case True
    then show ?thesis using 2 by (auto simp: insert_absorb)
  next
    case False
    have "(edge_rel es)\<^sup>* `` (set (c # R) \<union> set (Q @ successors es c)) \<subseteq> (edge_rel es)\<^sup>* `` (set R \<union> set (c # Q))"
      by (auto simp: successors_rel) (meson ImageI converse_rtrancl_into_rtrancl insertI1)
    moreover have "\<forall>x \<in> set (c # R). set (successors es x) \<subseteq> set (c # R) \<union> set (Q @ successors es c)"
      using "2.prems"(2) by auto
    ultimately show ?thesis using "2.IH"(2) [OF False] "2.prems"(1) False by auto
  qed
qed

lemma bfs_exact: "distinct (bfs es [] [s]) \<and> set (bfs es [] [s]) = (edge_rel es)\<^sup>* `` {s}"
proof -
  note bfs = bfs_reach [of "[]" es "[s]", simplified list.set ball_empty distinct.simps simp_thms Un_empty_left]
  have "x \<in> set (bfs es [] [s])" if "(s, x) \<in> (edge_rel es)\<^sup>*" for x
    using that
  proof (induction rule: rtrancl_induct)
    case (step y z)
    then have "z \<in> set (successors es y)" by (simp add: successors_rel)
    then show ?case using bfs step.IH by blast
  qed (use bfs in simp)
  then show ?thesis using bfs by (auto simp del: bfs.simps)
qed

subsection \<open>A single route\<close>

text \<open>Follow the first outgoing edge, at most \<open>k\<close> times.\<close>

fun route :: "manifest_edge list \<Rightarrow> nat \<Rightarrow> string \<Rightarrow> string list" where
  "route es 0 n = [n]"
| "route es (Suc k) n = n # (case successors es n of [] \<Rightarrow> [] | x # _ \<Rightarrow> route es k x)"

lemma route_from:
  assumes ac: "acyclic (edge_rel es)" and cl: "closed_rel es ids"
    and one: "\<And>n. n \<in> set ids \<Longrightarrow> n \<noteq> t \<Longrightarrow> length (successors es n) = 1" and stop: "successors es t = []"
    and n: "n \<in> set ids"
  shows "\<exists>l. l \<noteq> [] \<and> distinct l \<and> set l = (edge_rel es)\<^sup>* `` {n} \<and> last l = t
    \<and> (\<forall>k. length l \<le> Suc k \<longrightarrow> route es k n = l)"
proof -
  have "wf ((edge_rel es)\<inverse>)" by (rule finite_acyclic_wf_converse [OF finite_edge_rel ac])
  then show ?thesis using n
  proof (induction n rule: wf_induct_rule)
    case (less n)
    show ?case
    proof (cases "n = t")
      case True
      have "(edge_rel es)\<^sup>* `` {t} = {t}"
        using stop by (auto elim: converse_rtranclE simp: successors_rel [symmetric])
      moreover have "route es k t = [t]" for k using stop by (cases k) simp_all
      ultimately show ?thesis using True by (intro exI [of _ "[t]"]) simp
    next
      case False
      then obtain x where x: "successors es n = [x]" using one [OF less.prems] by (auto simp: length_Suc_conv)
      then have nx: "(n, x) \<in> edge_rel es" by (simp add: successors_rel [symmetric])
      then have "x \<in> set ids" using cl by (auto simp: closed_rel_def)
      then obtain l where l: "l \<noteq> []" "distinct l" "set l = (edge_rel es)\<^sup>* `` {x}" "last l = t"
        "\<And>k. length l \<le> Suc k \<Longrightarrow> route es k x = l" using less.IH [of x] nx by auto
      have only: "(n, y) \<in> edge_rel es \<longleftrightarrow> y = x" for y using x by (simp add: successors_rel [symmetric])
      have reach: "(edge_rel es)\<^sup>* `` {n} = insert n ((edge_rel es)\<^sup>* `` {x})"
        using nx only by (auto elim: converse_rtranclE intro: converse_rtrancl_into_rtrancl)
      have "n \<notin> (edge_rel es)\<^sup>* `` {x}" using nx ac by (auto simp: acyclic_def dest: rtrancl_into_trancl2)
      then have "distinct (n # l)" using l by simp
      moreover have "route es k n = n # l" if "length (n # l) \<le> Suc k" for k
        using that l(1,5) x by (cases k) (auto simp: Suc_le_eq)
      ultimately show ?thesis using l reach by (intro exI [of _ "n # l"]) auto
    qed
  qed
qed

lemma single_route:
  assumes "acyclic (edge_rel es)" and "closed_rel es ids" and "distinct ids"
    and "\<And>n. n \<in> set ids \<Longrightarrow> n \<noteq> t \<Longrightarrow> length (successors es n) = 1" and "successors es t = []"
    and "s \<in> set ids" and reach: "set ids \<subseteq> (edge_rel es)\<^sup>* `` {s}"
  shows "distinct (route es (length ids) s) \<and> set (route es (length ids) s) = set ids \<and> last (route es (length ids) s) = t"
proof -
  obtain l where l: "distinct l" "set l = (edge_rel es)\<^sup>* `` {s}" "last l = t"
    "\<forall>k. length l \<le> Suc k \<longrightarrow> route es k s = l"
    using route_from [OF assms(1,2,4,5,6)] by blast
  have "x \<in> set ids" if "(s, x) \<in> (edge_rel es)\<^sup>*" for x
    using that assms(2,6) by (induction rule: rtrancl_induct) (auto simp: closed_rel_def)
  then have all: "set l = set ids" using l(2) reach by auto
  then have "length l = length ids" using l(1) assms(3) by (metis distinct_card)
  then have "route es (length ids) s = l" using l(4) by simp
  then show ?thesis using l all by simp
qed

end
