(* ===== verification/ManifestWf.thy ===== *)
theory ManifestWf
  imports ManifestGraph
begin

section \<open>What the validator accepts\<close>

text \<open>
  Well-formed manifests, stated without the parser, and the proof that they are exactly the values
  the validator returns, each of them also from its own JSON.
\<close>

subsection \<open>Trimmed strings\<close>

lemma nonempty_clean: "nonempty v p = Inr s \<Longrightarrow> clean s"
  by (cases v) (auto simp: clean_def trim_trim split: if_splits)

lemma clean_nonempty [simp]: "clean s \<Longrightarrow> nonempty (JStr s) p = Inr s"
  by (simp add: clean_def)

subsection \<open>Vocabularies\<close>

lemma oneOf_name [simp]:
  "oneOf NODE_TYPES (name_in NODE_TYPES t) p = Inr t" "oneOf VENDORS (name_in VENDORS v) p = Inr v"
  "oneOf EFFORTS (name_in EFFORTS e) p = Inr e" "oneOf EDGE_CONDITIONS (name_in EDGE_CONDITIONS c) p = Inr c"
  "oneOf LOOP_CONDITIONS (name_in LOOP_CONDITIONS l) p = Inr l" "oneOf SHIP_CLAIMS (name_in SHIP_CLAIMS s) p = Inr s"
  by (cases t; simp add: NODE_TYPES_def name_in_def)
    ((cases v; simp add: VENDORS_def name_in_def), (cases e; simp add: EFFORTS_def name_in_def),
     (cases c; simp add: EDGE_CONDITIONS_def name_in_def), (cases l; simp add: LOOP_CONDITIONS_def name_in_def),
     (cases s; simp add: SHIP_CLAIMS_def name_in_def))

lemma name_in_def' [simp]: "name_in table x \<noteq> JUndef" by (simp add: name_in_def)

lemma optional_some [simp]: "v \<noteq> JUndef \<Longrightarrow> optional v f = and_then (f v) (\<lambda>x. Inr (Some x))"
  by (simp add: optional_def)

lemma optional_none [simp]: "optional JUndef f = Inr None"
  by (simp add: optional_def)

lemma optional_ok: "optional v f = Inr x \<longleftrightarrow> (if v = JUndef then x = None else \<exists>y. f v = Inr y \<and> x = Some y)"
  by (auto simp: optional_def and_then_ok)

subsection \<open>Well-formed manifests\<close>

definition wf_node :: "manifest_node \<Rightarrow> bool" where
  "wf_node n = (clean (mn_id n)
     \<and> (mn_type n = Gate \<longrightarrow> mn_vendor n = None \<and> mn_model n = None \<and> mn_effort n = None \<and> \<not> mn_handoff n)
     \<and> (\<forall>m. mn_model n = Some m \<longrightarrow> clean m \<and> (\<exists>v. mn_vendor n = Some v \<and> compatibleModel v m)))"

definition wf_edge :: "string list \<Rightarrow> manifest_edge \<Rightarrow> bool" where
  "wf_edge ids e = (clean (me_id e) \<and> me_from e \<in> set ids \<and> me_to e \<in> set ids)"

definition wf_loop :: "string list \<Rightarrow> manifest_loop \<Rightarrow> bool" where
  "wf_loop ids l = (clean (ml_id l) \<and> ml_from l \<in> set ids \<and> ml_to l \<in> set ids \<and> 0 < max_iterations l)"

definition wf_manifest :: "manifest \<Rightarrow> bool" where
  "wf_manifest m = (mf_nodes m \<noteq> [] \<and> distinct (map mn_id (mf_nodes m)) \<and> list_all wf_node (mf_nodes m)
     \<and> length (filter (\<lambda>n. mn_type n = Qa) (mf_nodes m)) = 1
     \<and> list_all (wf_edge (map mn_id (mf_nodes m))) (mf_edges m)
     \<and> list_all (wf_loop (map mn_id (mf_nodes m))) (mf_loops m)
     \<and> distinct (map me_id (mf_edges m) @ map ml_id (mf_loops m))
     \<and> map_option mn_type (find (\<lambda>n. mn_id n = terminal_node m) (mf_nodes m)) = Some Gate
     \<and> distinct (ship_claims m) \<and> Qa_passed \<in> set (ship_claims m) \<and> Founder_approved \<in> set (ship_claims m)
     \<and> check_graph (mf_nodes m) (mf_edges m) (mf_loops m) (terminal_node m) = None)"

subsection \<open>Parsed parts are well formed\<close>

lemma parse_agent_node_wf:
  assumes "parse_agent_node path kvs i ty = Inr n" and "clean i" and "ty \<noteq> Gate"
  shows "wf_node n \<and> mn_id n = i"
  using assms
  by (auto simp: parse_agent_node_def and_then_ok optional_ok wf_node_def split: if_splits option.splits
      dest: nonempty_clean)

lemma parse_node_wf: "parse_node k seen v = Inr n \<Longrightarrow> wf_node n \<and> mn_id n \<notin> set seen"
  by (auto simp: parse_node_def Let_def and_then_ok wf_node_def dest: nonempty_clean parse_agent_node_wf
      split: if_splits option.splits)

lemma parse_nodes_wf:
  "parse_nodes k seen vs = Inr ns \<Longrightarrow> list_all wf_node ns \<and> distinct (map mn_id ns)
    \<and> set (map mn_id ns) \<inter> set seen = {} \<and> (vs \<noteq> [] \<longrightarrow> ns \<noteq> [])"
proof (induction k seen vs arbitrary: ns rule: parse_nodes.induct)
  case (2 k seen v vs)
  then show ?case using parse_node_wf [of k seen v] by (fastforce simp: and_then_ok)
qed simp

lemma parse_edge_wf: "parse_edge ids k seen v = Inr e \<Longrightarrow> wf_edge ids e \<and> me_id e \<notin> set seen"
  by (auto simp: parse_edge_def Let_def and_then_ok wf_edge_def dest: nonempty_clean split: if_splits)

lemma parse_edges_wf:
  "parse_edges ids k seen vs = Inr es \<Longrightarrow> list_all (wf_edge ids) es \<and> distinct (map me_id es)
    \<and> set (map me_id es) \<inter> set seen = {}"
proof (induction ids k seen vs arbitrary: es rule: parse_edges.induct)
  case (2 ids k seen v vs)
  then show ?case using parse_edge_wf [of ids k seen v] by (fastforce simp: and_then_ok)
qed simp

lemma positive_json_int: "positive_json v \<Longrightarrow> 0 < json_int v"
  by (cases v) simp_all

lemma parse_loop_wf: "parse_loop ids k seen v = Inr l \<Longrightarrow> wf_loop ids l \<and> ml_id l \<notin> set seen"
  by (auto simp: parse_loop_def Let_def and_then_ok wf_loop_def dest: nonempty_clean positive_json_int
      split: if_splits)

lemma parse_loops_wf:
  "parse_loops ids k seen vs = Inr ls \<Longrightarrow> list_all (wf_loop ids) ls \<and> distinct (map ml_id ls)
    \<and> set (map ml_id ls) \<inter> set seen = {}"
proof (induction ids k seen vs arbitrary: ls rule: parse_loops.induct)
  case (2 ids k seen v vs)
  then show ?case using parse_loop_wf [of ids k seen v] by (fastforce simp: and_then_ok)
qed simp

lemma parse_terminal_gate:
  "parse_terminal ns v = Inr t \<Longrightarrow> map_option mn_type (find (\<lambda>n. mn_id n = t) ns) = Some Gate"
  by (auto simp: parse_terminal_def and_then_ok split: if_splits)

lemma array_ok: "array_of v p = Inr vs \<longleftrightarrow> v = JArr vs"
  by (cases v) auto

lemma record_ok: "record_of v p = Inr kvs \<longleftrightarrow> v = JObj kvs"
  by (cases v) auto

lemma validate_cases:
  assumes "validateWorkflowManifest v = Inr m"
  obtains nodes edges loops claims w ns es ls t cs where "nodes \<noteq> []" "parse_nodes 0 [] nodes = Inr ns"
    "length (filter (\<lambda>n. mn_type n = Qa) ns) = 1" "parse_edges (map mn_id ns) 0 [] edges = Inr es"
    "parse_loops (map mn_id ns) 0 (map me_id es) loops = Inr ls" "parse_terminal ns w = Inr t"
    "parse_claims 0 claims = Inr cs" "finish_manifest ns es ls t cs = Inr m"
  using assms unfolding validateWorkflowManifest_def
  by (auto simp: and_then_ok array_ok record_ok split: if_splits)

lemma validate_wf:
  assumes "validateWorkflowManifest v = Inr m"
  shows "wf_manifest m"
  using assms
proof (cases rule: validate_cases)
  case (1 nodes edges loops claims w ns es ls t cs)
  have m: "m = \<lparr>mf_nodes = ns, mf_edges = es, mf_loops = ls, terminal_node = t, ship_claims = cs\<rparr>"
    "distinct cs" "Qa_passed \<in> set cs" "Founder_approved \<in> set cs" "check_graph ns es ls t = None"
    using 1(8) by (auto simp: finish_manifest_def split: if_splits option.splits)
  show ?thesis
    using parse_nodes_wf [OF 1(2)] parse_edges_wf [OF 1(4)] parse_loops_wf [OF 1(5)] parse_terminal_gate [OF 1(6)] m 1(1,3)
    by (auto simp: wf_manifest_def)
qed

subsection \<open>A well-formed manifest validates to itself\<close>

lemma prop_of_Cons: "prop_of ((k, v) # kvs) q = (if q = k then v else prop_of kvs q)"
  by (simp add: prop_of_def or_else_def)

lemma prop_of_Nil: "prop_of [] q = JUndef"
  by (simp add: prop_of_def or_else_def)

lemma prop_of_some: "prop_of (some_prop k f v @ kvs) q = (if q = k \<and> v \<noteq> None then f (the v) else prop_of kvs q)"
  by (cases v) (simp_all add: some_prop_def prop_of_Cons)

lemma some_prop_keys: "fst ` set (some_prop k f v) \<subseteq> {k}"
  by (cases v) (simp_all add: some_prop_def)

lemma exactKeys_ok: "fst ` set kvs \<subseteq> set allowed \<Longrightarrow> exactKeys kvs allowed p = Inr ()"
proof -
  assume "fst ` set kvs \<subseteq> set allowed"
  then have "find (\<lambda>k. k \<notin> set allowed) (map fst kvs) = None" by (auto simp: find_None_iff)
  then show ?thesis by (simp add: exactKeys_def)
qed

definition node_props :: "manifest_node \<Rightarrow> (string \<times> json) list" where
  "node_props n = [(''id'', JStr (mn_id n)), (''type'', name_in NODE_TYPES (mn_type n))]
     @ some_prop ''vendor'' (name_in VENDORS) (mn_vendor n) @ some_prop ''model'' JStr (mn_model n)
     @ some_prop ''effort'' (name_in EFFORTS) (mn_effort n)
     @ (if mn_handoff n
        then [(''handoff_pointer'', JObj [(''worktree'', JBool True), (''design_doc'', JBool True)])] else [])"

lemma node_json_props: "node_json n = JObj (node_props n)"
  by (simp only: node_json_def node_props_def)

lemma node_props_at:
  "prop_of (node_props n) ''id'' = JStr (mn_id n)" "prop_of (node_props n) ''type'' = name_in NODE_TYPES (mn_type n)"
  "prop_of (node_props n) ''vendor'' = (case mn_vendor n of None \<Rightarrow> JUndef | Some v \<Rightarrow> name_in VENDORS v)"
  "prop_of (node_props n) ''model'' = (case mn_model n of None \<Rightarrow> JUndef | Some v \<Rightarrow> JStr v)"
  "prop_of (node_props n) ''effort'' = (case mn_effort n of None \<Rightarrow> JUndef | Some v \<Rightarrow> name_in EFFORTS v)"
  "prop_of (node_props n) ''handoff_pointer'' = (if mn_handoff n
     then JObj [(''worktree'', JBool True), (''design_doc'', JBool True)] else JUndef)"
  by (simp_all add: node_props_def prop_of_Cons prop_of_some prop_of_Nil split: option.split)

lemma node_props_keys: "exactKeys (node_props n) [''id'', ''type'', ''vendor'', ''model'', ''effort'', ''handoff_pointer''] p = Inr ()"
  by (cases "mn_vendor n"; cases "mn_model n"; cases "mn_effort n"; cases "mn_handoff n")
    (simp_all add: exactKeys_def node_props_def some_prop_def)

lemma parse_handoff_json:
  "parse_handoff p i (if h then JObj [(''worktree'', JBool True), (''design_doc'', JBool True)] else JUndef) = Inr h"
  by (simp add: parse_handoff_def exactKeys_ok prop_of_Cons)

lemma parse_agent_node_json:
  assumes "wf_node n" and "mn_type n \<noteq> Gate"
  shows "parse_agent_node p (node_props n) (mn_id n) (mn_type n) = Inr n"
proof -
  have v: "optional (prop_of (node_props n) ''vendor'') (\<lambda>v. oneOf VENDORS v q) = Inr (mn_vendor n)" for q
    by (simp add: node_props_at split: option.split)
  have m: "optional (prop_of (node_props n) ''model'') (\<lambda>v. nonempty v q) = Inr (mn_model n)" for q
    using assms(1) by (simp add: node_props_at wf_node_def del: nonempty.simps split: option.split)
  have e: "optional (prop_of (node_props n) ''effort'') (\<lambda>v. oneOf EFFORTS v q) = Inr (mn_effort n)" for q
    by (simp add: node_props_at split: option.split)
  show ?thesis
    using assms(1) unfolding parse_agent_node_def v m e and_then_simps node_props_at(6) parse_handoff_json
    by (auto simp: wf_node_def split: option.split)
qed

lemma parse_node_json:
  assumes "wf_node n" and "mn_id n \<notin> set seen"
  shows "parse_node k seen (node_json n) = Inr n"
proof (cases "mn_type n = Gate")
  case False
  then show ?thesis
    using assms parse_agent_node_json [OF assms(1) False]
    by (simp add: parse_node_def node_json_props Let_def node_props_keys node_props_at(1,2) wf_node_def
        del: nonempty.simps)
next
  case True
  then have "mn_vendor n = None" "mn_model n = None" "mn_effort n = None" "\<not> mn_handoff n"
    using assms(1) by (simp_all add: wf_node_def)
  then show ?thesis
    using assms True
    by (cases n) (simp add: parse_node_def node_json_props Let_def node_props_keys node_props_at wf_node_def
        del: nonempty.simps)
qed

lemma parse_nodes_json:
  "list_all wf_node ns \<Longrightarrow> distinct (map mn_id ns) \<Longrightarrow> set (map mn_id ns) \<inter> set seen = {} \<Longrightarrow>
    parse_nodes k seen (map node_json ns) = Inr ns"
  by (induction ns arbitrary: k seen) (simp_all add: parse_node_json)

lemma parse_edge_json:
  assumes "wf_edge ids e" and "me_id e \<notin> set seen" and "list_all clean ids"
  shows "parse_edge ids k seen (edge_json e) = Inr e"
  using assms
  by (simp add: parse_edge_def edge_json_def exactKeys_ok prop_of_Cons wf_edge_def list_all_iff del: nonempty.simps)

lemma parse_edges_json:
  "list_all (wf_edge ids) es \<Longrightarrow> distinct (map me_id es) \<Longrightarrow> set (map me_id es) \<inter> set seen = {} \<Longrightarrow>
    list_all clean ids \<Longrightarrow> parse_edges ids k seen (map edge_json es) = Inr es"
  by (induction es arbitrary: k seen) (simp_all add: parse_edge_json)

lemma parse_loop_json:
  assumes "wf_loop ids l" and "ml_id l \<notin> set seen" and "list_all clean ids"
  shows "parse_loop ids k seen (loop_json l) = Inr l"
  using assms
  by (simp add: parse_loop_def loop_json_def exactKeys_ok prop_of_Cons wf_loop_def list_all_iff del: nonempty.simps)

lemma parse_loops_json:
  "list_all (wf_loop ids) ls \<Longrightarrow> distinct (map ml_id ls) \<Longrightarrow> set (map ml_id ls) \<inter> set seen = {} \<Longrightarrow>
    list_all clean ids \<Longrightarrow> parse_loops ids k seen (map loop_json ls) = Inr ls"
  by (induction ls arbitrary: k seen) (simp_all add: parse_loop_json)

lemma parse_claims_json: "parse_claims k (map (name_in SHIP_CLAIMS) cs) = Inr cs"
  by (induction cs arbitrary: k) simp_all

lemma parse_terminal_json:
  assumes "map_option mn_type (find (\<lambda>n. mn_id n = t) ns) = Some Gate" and "clean t"
  shows "parse_terminal ns (JObj [(''node'', JStr t), (''predicate'', JStr ''founder_approved'')]) = Inr t"
  using assms by (simp add: parse_terminal_def exactKeys_ok prop_of_Cons del: nonempty.simps)

lemma manifest_props:
  "prop_of [(''schema_version'', a), (''nodes'', b), (''edges'', c), (''loops'', d), (''terminal_gate'', e), (''ship_claims'', f)]
     ''schema_version'' = a"
  "prop_of [(''schema_version'', a), (''nodes'', b), (''edges'', c), (''loops'', d), (''terminal_gate'', e), (''ship_claims'', f)]
     ''nodes'' = b"
  "prop_of [(''schema_version'', a), (''nodes'', b), (''edges'', c), (''loops'', d), (''terminal_gate'', e), (''ship_claims'', f)]
     ''edges'' = c"
  "prop_of [(''schema_version'', a), (''nodes'', b), (''edges'', c), (''loops'', d), (''terminal_gate'', e), (''ship_claims'', f)]
     ''loops'' = d"
  "prop_of [(''schema_version'', a), (''nodes'', b), (''edges'', c), (''loops'', d), (''terminal_gate'', e), (''ship_claims'', f)]
     ''terminal_gate'' = e"
  "prop_of [(''schema_version'', a), (''nodes'', b), (''edges'', c), (''loops'', d), (''terminal_gate'', e), (''ship_claims'', f)]
     ''ship_claims'' = f"
  by (simp_all add: prop_of_Cons)

text \<open>Validating the JSON of a manifest is parsing its parts again.\<close>

lemma validate_json:
  "validateWorkflowManifest (manifest_json m) =
    (if mf_nodes m = [] then Inl (Must_be_array ''manifest.nodes'')
     else and_then (parse_nodes 0 [] (map node_json (mf_nodes m))) (\<lambda>ns.
       if length (filter (\<lambda>n. mn_type n = Qa) ns) \<noteq> 1 then Inl Not_one_qa
       else and_then (parse_edges (map mn_id ns) 0 [] (map edge_json (mf_edges m))) (\<lambda>es.
         and_then (parse_loops (map mn_id ns) 0 (map me_id es) (map loop_json (mf_loops m))) (\<lambda>ls.
         and_then (parse_terminal ns (JObj [(''node'', JStr (terminal_node m)), (''predicate'', JStr ''founder_approved'')]))
           (\<lambda>t. finish_manifest ns es ls t (ship_claims m))))))"
proof -
  have keys: "exactKeys [(''schema_version'', a), (''nodes'', b), (''edges'', c), (''loops'', d), (''terminal_gate'', e),
      (''ship_claims'', f)] MANIFEST_KEYS p = Inr ()" for a b c d e f p
    by (rule exactKeys_ok) (simp add: MANIFEST_KEYS_def)
  show ?thesis
    unfolding validateWorkflowManifest_def manifest_json_def record_of.simps and_then_simps keys manifest_props
      array_of.simps parse_claims_json
    by simp
qed

lemma wf_validates:
  assumes "wf_manifest m"
  shows "validateWorkflowManifest (manifest_json m) = Inr m"
proof -
  let ?ids = "map mn_id (mf_nodes m)"
  have wf: "mf_nodes m \<noteq> []" "list_all wf_node (mf_nodes m)" "distinct ?ids"
    "length (filter (\<lambda>n. mn_type n = Qa) (mf_nodes m)) = 1"
    "map_option mn_type (find (\<lambda>n. mn_id n = terminal_node m) (mf_nodes m)) = Some Gate"
    "list_all (wf_edge ?ids) (mf_edges m)" "list_all (wf_loop ?ids) (mf_loops m)"
    "distinct (map me_id (mf_edges m))" "distinct (map ml_id (mf_loops m))"
    "set (map ml_id (mf_loops m)) \<inter> set (map me_id (mf_edges m)) = {}"
    and fin: "finish_manifest (mf_nodes m) (mf_edges m) (mf_loops m) (terminal_node m) (ship_claims m) = Inr m"
    using assms by (auto simp: wf_manifest_def finish_manifest_def)
  have clean: "list_all clean ?ids" using wf(2) by (auto simp: list_all_iff wf_node_def)
  obtain n where "find (\<lambda>n. mn_id n = terminal_node m) (mf_nodes m) = Some n" using wf(5) by auto
  then have "n \<in> set (mf_nodes m)" "mn_id n = terminal_node m" using find_Some_iff' by fast+
  then have "clean (terminal_node m)" using clean by (auto simp: list_all_iff)
  note parts = parse_nodes_json [OF wf(2,3), of "[]" 0] parse_edges_json [OF wf(6,8) _ clean, of "[]" 0]
    parse_loops_json [OF wf(7,9,10) clean, of 0] parse_terminal_json [OF wf(5) this]
  show ?thesis unfolding validate_json using parts wf(1,4) fin by simp
qed

lemma accepted_iff: "(\<exists>v. validateWorkflowManifest v = Inr m) \<longleftrightarrow> wf_manifest m"
  using validate_wf wf_validates by blast

end
