(* ===== verification/ManifestRoute.thy ===== *)
theory ManifestRoute
  imports ManifestWf
begin

section \<open>The route through a manifest\<close>

text \<open>
  The checks of an accepted manifest force its edges into one line: from the only start node through every
  node to the terminal gate. The lemmas give the line, and show that a chain through all the nodes of an
  accepted manifest is that line.
\<close>

definition node_ids :: "manifest \<Rightarrow> string list" where
  "node_ids m = map mn_id (mf_nodes m)"

definition manifest_route :: "manifest \<Rightarrow> string list" where
  "manifest_route m = route (mf_edges m) (length (mf_nodes m)) (hd (starts (mf_nodes m) (mf_edges m)))"

lemma first_error_None: "first_error xs = None \<longleftrightarrow> (\<forall>x \<in> set xs. x = None)"
  by (induction xs rule: first_error.induct) auto

lemma check_graph_None:
  "check_graph ns es ls t = None \<longleftrightarrow> assertAcyclic (map mn_id ns) es \<and> length (starts ns es) = 1
    \<and> length (bfs es [] [hd (starts ns es)]) = length ns \<and> (\<forall>n \<in> set ns. check_node es ls t n = None)"
  by (simp add: check_graph_def first_error_None)

lemma check_node_None:
  "check_node es ls t n = None \<longleftrightarrow>
    (if mn_id n = t then filter (\<lambda>e. me_from e = t) es = [] \<and> filter (\<lambda>l. ml_from l = t) ls = []
     else expected_condition (mn_type n) \<noteq> None
       \<and> map (Some \<circ> me_condition) (filter (\<lambda>e. me_from e = mn_id n) es) = [expected_condition (mn_type n)]
       \<and> map loop_when (filter (\<lambda>l. ml_from l = mn_id n) ls) = (if mn_type n = Qa then [Qa_fail] else []))"
  by (auto simp: check_node_def Let_def split: if_splits)

lemma distinct_filter_one: "distinct xs \<Longrightarrow> x \<in> set xs \<Longrightarrow> filter (\<lambda>y. y = x) xs = [x]"
  by (induction xs) (auto simp: filter_empty_conv)

lemma starts_in: "set (starts ns es) \<subseteq> set (map mn_id ns)"
  by (auto simp: starts_def)

lemma starts_iff: "s \<in> set (starts ns es) \<longleftrightarrow> s \<in> set (map mn_id ns) \<and> (\<forall>x. (x, s) \<notin> edge_rel es)"
  by (force simp: starts_def edge_rel_def)

lemma wf_closed: "wf_manifest m \<Longrightarrow> closed_rel (mf_edges m) (node_ids m)"
  by (auto simp: wf_manifest_def closed_rel_def edge_rel_def node_ids_def wf_edge_def list_all_iff)

lemma terminal_gate_node:
  assumes "wf_manifest m"
  obtains n where "n \<in> set (mf_nodes m)" "mn_id n = terminal_node m" "mn_type n = Gate"
proof -
  obtain n where "find (\<lambda>n. mn_id n = terminal_node m) (mf_nodes m) = Some n" "mn_type n = Gate"
    using assms by (auto simp: wf_manifest_def)
  then show thesis using that [of n] find_Some_iff' by fast
qed

lemma terminal_in: "wf_manifest m \<Longrightarrow> terminal_node m \<in> set (node_ids m)"
  by (erule terminal_gate_node) (auto simp: node_ids_def intro: rev_image_eqI)

text \<open>What the graph checks give.\<close>

lemma wf_graph:
  assumes "wf_manifest m"
  shows "acyclic (edge_rel (mf_edges m))"
    and "\<exists>s. starts (mf_nodes m) (mf_edges m) = [s] \<and> s \<in> set (node_ids m)
      \<and> set (node_ids m) \<subseteq> (edge_rel (mf_edges m))\<^sup>* `` {s}"
    and "\<And>n. n \<in> set (node_ids m) \<Longrightarrow> n \<noteq> terminal_node m \<Longrightarrow> length (successors (mf_edges m) n) = 1"
    and "successors (mf_edges m) (terminal_node m) = []" and "distinct (node_ids m)"
proof -
  let ?es = "mf_edges m" and ?ns = "mf_nodes m"
  have graph: "assertAcyclic (node_ids m) ?es" "length (starts ?ns ?es) = 1"
    "length (bfs ?es [] [hd (starts ?ns ?es)]) = length ?ns"
    and nodes: "\<And>n. n \<in> set ?ns \<Longrightarrow> check_node ?es (mf_loops m) (terminal_node m) n = None"
    using assms by (auto simp: wf_manifest_def check_graph_None node_ids_def)
  have closed: "closed_rel ?es (node_ids m)" by (rule wf_closed [OF assms])
  show "acyclic (edge_rel ?es)" using graph(1) assertAcyclic_iff [OF closed] by simp
  show distinct: "distinct (node_ids m)" using assms by (simp add: wf_manifest_def node_ids_def)
  obtain s where s: "starts ?ns ?es = [s]" using graph(2) by (cases "starts ?ns ?es") auto
  then have "s \<in> set (node_ids m)" using starts_in [of ?ns ?es] by (simp add: node_ids_def)
  then have "(edge_rel ?es)\<^sup>* `` {s} \<subseteq> set (node_ids m)"
    using closed by (auto simp: closed_rel_def elim: rtranclE)
  moreover have "card ((edge_rel ?es)\<^sup>* `` {s}) = card (set (node_ids m))"
    using graph(3) s bfs_exact [of ?es s] distinct by (metis distinct_card length_map list.sel(1) node_ids_def)
  ultimately have "(edge_rel ?es)\<^sup>* `` {s} = set (node_ids m)" by (simp add: card_subset_eq)
  with s \<open>s \<in> set (node_ids m)\<close> show "\<exists>s. starts ?ns ?es = [s] \<and> s \<in> set (node_ids m)
      \<and> set (node_ids m) \<subseteq> (edge_rel ?es)\<^sup>* `` {s}" by auto
  show "length (successors ?es n) = 1" if n: "n \<in> set (node_ids m)" "n \<noteq> terminal_node m" for n
  proof -
    obtain x where "x \<in> set ?ns" "mn_id x = n" using n(1) by (auto simp: node_ids_def)
    then have "length (map (Some \<circ> me_condition) (filter (\<lambda>e. me_from e = n) ?es)) = 1"
      using nodes [of x] n(2) by (simp only: check_node_None) simp
    then show ?thesis by (simp add: successors_def)
  qed
  obtain x where "x \<in> set ?ns" "mn_id x = terminal_node m" by (rule terminal_gate_node [OF assms])
  then show "successors ?es (terminal_node m) = []"
    using nodes [of x] by (simp add: check_node_None successors_def)
qed

lemma wf_route:
  assumes "wf_manifest m"
  shows "distinct (manifest_route m)" and "set (manifest_route m) = set (node_ids m)"
    and "last (manifest_route m) = terminal_node m"
proof -
  obtain s where s: "starts (mf_nodes m) (mf_edges m) = [s]" "s \<in> set (node_ids m)"
    "set (node_ids m) \<subseteq> (edge_rel (mf_edges m))\<^sup>* `` {s}" using wf_graph(2) [OF assms] by blast
  have "distinct (route (mf_edges m) (length (node_ids m)) s)
    \<and> set (route (mf_edges m) (length (node_ids m)) s) = set (node_ids m)
    \<and> last (route (mf_edges m) (length (node_ids m)) s) = terminal_node m"
    using single_route [OF wf_graph(1) [OF assms] wf_closed [OF assms] wf_graph(5,3,4) [OF assms] s(2,3)] by simp
  then show "distinct (manifest_route m)" "set (manifest_route m) = set (node_ids m)"
    "last (manifest_route m) = terminal_node m"
    using s(1) by (simp_all add: manifest_route_def node_ids_def)
qed

text \<open>One QA node, one gate, one loop.\<close>

lemma wf_one_qa: "wf_manifest m \<Longrightarrow> \<exists>q. filter (\<lambda>n. mn_type n = Qa) (mf_nodes m) = [q]"
  by (auto simp: wf_manifest_def length_Suc_conv)

lemma same_node: "distinct (node_ids m) \<Longrightarrow> x \<in> set (mf_nodes m) \<Longrightarrow> y \<in> set (mf_nodes m) \<Longrightarrow> mn_id x = mn_id y \<Longrightarrow> x = y"
  by (auto simp: node_ids_def distinct_map dest: inj_onD)

lemma wf_check_node:
  "wf_manifest m \<Longrightarrow> n \<in> set (mf_nodes m) \<Longrightarrow> check_node (mf_edges m) (mf_loops m) (terminal_node m) n = None"
  by (simp add: wf_manifest_def check_graph_None)

lemma wf_gate: "wf_manifest m \<Longrightarrow> n \<in> set (mf_nodes m) \<Longrightarrow> mn_id n = terminal_node m \<longleftrightarrow> mn_type n = Gate"
proof
  assume wf: "wf_manifest m" and n: "n \<in> set (mf_nodes m)"
  obtain g where g: "g \<in> set (mf_nodes m)" "mn_id g = terminal_node m" "mn_type g = Gate"
    by (rule terminal_gate_node [OF wf])
  show "mn_type n = Gate" if "mn_id n = terminal_node m" using same_node [OF wf_graph(5) [OF wf] n g(1)] that g by simp
  show "mn_id n = terminal_node m" if "mn_type n = Gate"
    using wf_check_node [OF wf n] that by (simp add: check_node_None expected_condition_def split: if_splits)
qed

lemma wf_only_gate:
  assumes wf: "wf_manifest m"
  shows "map mn_id (filter (\<lambda>n. mn_type n = Gate) (mf_nodes m)) = [terminal_node m]"
proof -
  have "filter (\<lambda>n. mn_type n = Gate) (mf_nodes m) = filter (\<lambda>n. mn_id n = terminal_node m) (mf_nodes m)"
    using wf_gate [OF wf] by (auto intro: filter_cong)
  then have "map mn_id (filter (\<lambda>n. mn_type n = Gate) (mf_nodes m)) = filter (\<lambda>i. i = terminal_node m) (node_ids m)"
    by (simp add: node_ids_def filter_map comp_def)
  then show ?thesis using wf_graph(5) [OF wf] terminal_in [OF wf] by (simp add: distinct_filter_one)
qed

lemma wf_one_loop:
  assumes wf: "wf_manifest m" and q: "filter (\<lambda>n. mn_type n = Qa) (mf_nodes m) = [q]"
  shows "\<exists>l. mf_loops m = [l] \<and> ml_from l = mn_id q \<and> loop_when l = Qa_fail"
proof -
  have qm: "q \<in> set (mf_nodes m)" "mn_type q = Qa" using arg_cong [OF q, of set] by auto
  have "ml_from l = mn_id q" if l: "l \<in> set (mf_loops m)" for l
  proof -
    obtain n where n: "n \<in> set (mf_nodes m)" "mn_id n = ml_from l"
      using wf l by (auto simp: wf_manifest_def wf_loop_def list_all_iff)
    then have "filter (\<lambda>l. ml_from l = mn_id n) (mf_loops m) \<noteq> []" using l by (auto simp: filter_empty_conv)
    then have "mn_type n = Qa" using wf_check_node [OF wf n(1)] by (auto simp: check_node_None split: if_splits)
    then have "n \<in> set [q]" using n(1) unfolding q [symmetric] by simp
    then show ?thesis using n(2) by simp
  qed
  then have "filter (\<lambda>l. ml_from l = mn_id q) (mf_loops m) = mf_loops m" by (simp add: filter_id_conv)
  moreover have "mn_id q \<noteq> terminal_node m" using wf_gate [OF wf qm(1)] qm(2) by simp
  ultimately have "map loop_when (mf_loops m) = [Qa_fail]"
    using wf_check_node [OF wf qm(1)] qm(2) by (simp add: check_node_None)
  then show ?thesis using \<open>\<And>l. l \<in> set (mf_loops m) \<Longrightarrow> ml_from l = mn_id q\<close> by auto
qed

subsection \<open>Chains\<close>

definition chain :: "manifest_edge list \<Rightarrow> string list \<Rightarrow> bool" where
  "chain es l = successively (\<lambda>x y. (x, y) \<in> edge_rel es) l"

lemma chain_simps [simp]:
  "chain es []" "chain es [x]" "chain es (x # y # l) \<longleftrightarrow> (x, y) \<in> edge_rel es \<and> chain es (y # l)"
  by (simp_all add: chain_def)

lemma chain_Cons: "chain es (x # l) \<Longrightarrow> chain es l"
  by (cases l) auto

lemma route_chain: "chain es (route es k s)"
proof (induction k arbitrary: s)
  case (Suc k)
  show ?case
  proof (cases "successors es s")
    case (Cons x xs)
    then have "(s, x) \<in> edge_rel es" by (simp flip: successors_rel)
    then show ?thesis using Suc [of x] Cons by (cases k) simp_all
  qed simp
qed simp

text \<open>A chain that ends where no edge leaves, with at most one edge out of each node, is the route from its head.\<close>

lemma chain_route:
  assumes "chain es (x # l)" and "\<And>n. n \<in> set (x # l) \<Longrightarrow> n \<noteq> t \<Longrightarrow> length (successors es n) = 1"
    and "successors es t = []" and "last (x # l) = t" and "length l \<le> k" and "k = 0 \<longrightarrow> l = []"
  shows "route es k x = x # l"
  using assms
proof (induction l arbitrary: x k)
  case Nil
  then show ?case by (cases k) auto
next
  case (Cons y l)
  then obtain k' where k: "k = Suc k'" by (cases k) auto
  have "(x, y) \<in> edge_rel es" using Cons.prems(1) by simp
  then have "y \<in> set (successors es x)" "x \<noteq> t" using Cons.prems(3) by (auto simp flip: successors_rel)
  moreover from this have "length (successors es x) = 1" using Cons.prems(2) [of x] by simp
  ultimately have "successors es x = [y]" by (cases "successors es x") auto
  moreover have "route es k' y = y # l" using Cons.prems k by (intro Cons.IH) auto
  ultimately show ?case using k by simp
qed

lemma chain_pred: "chain es l \<Longrightarrow> y \<in> set (tl l) \<Longrightarrow> \<exists>x. (x, y) \<in> edge_rel es"
proof (induction l rule: induct_list012)
  case (3 a b l)
  then show ?case by (cases "y = b") auto
qed auto

lemma chain_end: "chain es l \<Longrightarrow> t \<in> set l \<Longrightarrow> successors es t = [] \<Longrightarrow> last l = t"
proof (induction l rule: induct_list012)
  case (3 a b l)
  have "b \<in> set (successors es a)" using 3(3) by (simp add: successors_rel)
  then show ?case using 3 by auto
qed auto

lemma chain_is_route:
  assumes "wf_manifest m" and "chain (mf_edges m) l" and "distinct l" and "set l = set (node_ids m)"
  shows "l = manifest_route m"
proof -
  obtain s where s: "starts (mf_nodes m) (mf_edges m) = [s]" "s \<in> set (node_ids m)"
    using wf_graph(2) [OF assms(1)] by blast
  then obtain x l' where l: "l = x # l'" using assms(4) by (cases l) auto
  have "\<nexists>y. (y, s) \<in> edge_rel (mf_edges m)" using starts_iff [of s "mf_nodes m" "mf_edges m"] s(1) by simp
  then have "s \<notin> set l'" using chain_pred [OF assms(2), of s] l by auto
  then have x: "x = s" using s(2) assms(4) l by auto
  have len: "length l = length (mf_nodes m)"
    using assms(3,4) wf_graph(5) [OF assms(1)] by (metis distinct_card length_map node_ids_def)
  have "terminal_node m \<in> set l" using assms(1,4) by (auto simp: terminal_in)
  then have end_node: "last l = terminal_node m" by (rule chain_end [OF assms(2) _ wf_graph(4) [OF assms(1)]])
  have "route (mf_edges m) (length (mf_nodes m)) x = x # l'"
    using assms(2,4) wf_graph(3,4) [OF assms(1)] end_node len l by (intro chain_route) auto
  then show ?thesis using l x s(1) by (simp add: manifest_route_def)
qed

end
