(* ===== verification/ManifestOverride.thy ===== *)
theory ManifestOverride
  imports ManifestRoute
begin

section \<open>Overrides keep the line\<close>

text \<open>
  What each edit of \<open>applyWorkflowOverride\<close> preserves: the identity of the nodes that stay, the loops, the
  terminal gate and the claims, and the order of the nodes on the route.
\<close>

subsection \<open>The invariant of the edits\<close>

text \<open>A node without the two fields an override may set.\<close>

definition phase_of :: "manifest_node \<Rightarrow> manifest_node" where
  "phase_of n = n\<lparr>mn_model := None, mn_effort := None\<rparr>"

definition loop_node :: "manifest \<Rightarrow> string \<Rightarrow> bool" where
  "loop_node m i = list_ex (\<lambda>l. ml_from l = i \<or> ml_to l = i) (mf_loops m)"

definition clean_ends :: "manifest_edge \<Rightarrow> bool" where
  "clean_ends e = (clean (me_from e) \<and> clean (me_to e))"

definition edited :: "manifest \<Rightarrow> manifest \<Rightarrow> bool" where
  "edited m m' = (list_all wf_node (mf_nodes m') \<and> distinct (node_ids m')
     \<and> map phase_of (mf_nodes m') = map phase_of (filter (\<lambda>n. mn_id n \<in> set (node_ids m')) (mf_nodes m))
     \<and> (\<forall>n \<in> set (mf_nodes m). mn_type n = Qa \<or> mn_type n = Gate \<or> loop_node m (mn_id n) \<longrightarrow> mn_id n \<in> set (node_ids m'))
     \<and> mf_loops m' = mf_loops m \<and> terminal_node m' = terminal_node m \<and> ship_claims m' = ship_claims m
     \<and> list_all clean_ends (mf_edges m')
     \<and> chain (mf_edges m') (filter (\<lambda>i. i \<in> set (node_ids m')) (manifest_route m)))"

lemma wf_clean_ends: "wf_manifest m \<Longrightarrow> list_all clean_ends (mf_edges m)"
  by (auto simp: wf_manifest_def wf_edge_def clean_ends_def wf_node_def list_all_iff)

lemma edited_refl: "wf_manifest m \<Longrightarrow> edited m m"
proof -
  assume wf: "wf_manifest m"
  have "filter (\<lambda>n. mn_id n \<in> set (node_ids m)) (mf_nodes m) = mf_nodes m" by (auto simp: node_ids_def filter_id_conv)
  moreover have "filter (\<lambda>i. i \<in> set (node_ids m)) (manifest_route m) = manifest_route m"
    using wf_route(2) [OF wf] by (auto simp: filter_id_conv)
  moreover have "chain (mf_edges m) (manifest_route m)" by (simp add: manifest_route_def route_chain)
  moreover have "list_all wf_node (mf_nodes m)" using wf by (simp add: wf_manifest_def)
  ultimately show "edited m m"
    using wf_clean_ends [OF wf] wf_graph(5) [OF wf] by (auto simp: edited_def node_ids_def)
qed

subsection \<open>Setting a field of a node\<close>

lemma set_node_ids:
  assumes "\<And>n. mn_id (f n) = mn_id n"
  shows "node_ids (set_node i f m) = node_ids m"
  using assms by (simp add: node_ids_def set_node_def)

lemma set_node_edited:
  assumes "edited m m'" and id: "\<And>n. mn_id (f n) = mn_id n" and phase: "\<And>n. phase_of (f n) = phase_of n"
    and wf: "\<And>n. n \<in> set (mf_nodes m') \<Longrightarrow> mn_id n = i \<Longrightarrow> wf_node n \<Longrightarrow> wf_node (f n)"
  shows "edited m (set_node i f m')"
proof -
  have "list_all wf_node (mf_nodes (set_node i f m'))"
    using assms(1) wf by (auto simp: edited_def set_node_def list_all_iff)
  moreover have "map phase_of (mf_nodes (set_node i f m')) = map phase_of (mf_nodes m')"
    by (simp add: set_node_def phase)
  moreover have "mf_loops (set_node i f m') = mf_loops m'" "terminal_node (set_node i f m') = terminal_node m'"
    "ship_claims (set_node i f m') = ship_claims m'" "mf_edges (set_node i f m') = mf_edges m'"
    by (simp_all add: set_node_def)
  ultimately show ?thesis
    using assms(1) by (simp add: edited_def set_node_ids [of f i m', OF id])
qed

lemma find_node:
  assumes "find (\<lambda>n. mn_id n = i) (mf_nodes m) = Some n" and "distinct (node_ids m)"
    and "x \<in> set (mf_nodes m)" and "mn_id x = i"
  shows "x = n"
  using find_Some_iff' [OF assms(1)] assms(2-4) by (auto simp: node_ids_def distinct_map dest: inj_onD)

lemma override_model_edited:
  assumes "override_model i n v m1 = Inr m2" and "edited m m1"
    and "find (\<lambda>n. mn_id n = i) (mf_nodes m1) = Some n" and "mn_type n \<noteq> Gate"
  shows "edited m m2"
proof (cases "v = JUndef")
  case True
  then show ?thesis using assms(1,2) by (simp add: override_model_def)
next
  case False
  then obtain model vd where model: "clean model" "mn_vendor n = Some vd" "compatibleModel vd model"
      "m2 = set_node i (\<lambda>n. n\<lparr>mn_model := Some model\<rparr>) m1"
    using assms(1) by (auto simp: override_model_def and_then_ok split: if_splits option.splits dest: nonempty_clean)
  have "wf_node (x\<lparr>mn_model := Some model\<rparr>)" if "x \<in> set (mf_nodes m1)" "mn_id x = i" "wf_node x" for x
    using that find_node [OF assms(3) _ that(1,2)] assms(2,4) model(1-3) by (auto simp: edited_def wf_node_def)
  then show ?thesis unfolding model(4) using assms(2) by (intro set_node_edited) (simp_all add: phase_of_def)
qed

lemma override_effort_edited:
  assumes "override_effort i v m1 = Inr m2" and "edited m m1"
    and "\<And>x. x \<in> set (mf_nodes m1) \<Longrightarrow> mn_id x = i \<Longrightarrow> mn_type x \<noteq> Gate"
  shows "edited m m2"
proof (cases "v = JUndef")
  case True
  then show ?thesis using assms(1,2) by (simp add: override_effort_def)
next
  case False
  then obtain e where e: "m2 = set_node i (\<lambda>n. n\<lparr>mn_effort := Some e\<rparr>) m1"
    using assms(1) by (auto simp: override_effort_def and_then_ok)
  show ?thesis unfolding e using assms(2,3) by (intro set_node_edited) (simp_all add: phase_of_def wf_node_def)
qed

subsection \<open>Skipping a node\<close>

definition rejoin :: "string \<Rightarrow> manifest_edge list \<Rightarrow> manifest_edge list" where
  "rejoin i es = filter (\<lambda>e. me_from e \<noteq> i \<and> me_to e \<noteq> i) es
     @ (case filter (\<lambda>e. me_to e = i) es of [] \<Rightarrow> []
        | e # _ \<Rightarrow> [\<lparr>me_id = ''override_skip_'' @ i, me_from = me_from e,
             me_to = me_to (hd (filter (\<lambda>e. me_from e = i) es)), me_condition = me_condition e\<rparr>])"

lemma skip_node_ok:
  "skip_node i n m = Inr m' \<longleftrightarrow> mn_type n \<noteq> Qa \<and> \<not> loop_node m i
    \<and> length (filter (\<lambda>e. me_to e = i) (mf_edges m)) \<le> 1 \<and> length (filter (\<lambda>e. me_from e = i) (mf_edges m)) = 1
    \<and> m' = m\<lparr>mf_nodes := filter (\<lambda>n. mn_id n \<noteq> i) (mf_nodes m), mf_edges := rejoin i (mf_edges m)\<rparr>"
  by (auto simp: skip_node_def loop_node_def Let_def rejoin_def)

lemma edge_stays: "(x, y) \<in> edge_rel es \<Longrightarrow> x \<noteq> i \<Longrightarrow> y \<noteq> i \<Longrightarrow> (x, y) \<in> edge_rel (rejoin i es)"
  by (force simp: edge_rel_def rejoin_def)

lemma only_edge: "length (filter P es) \<le> 1 \<Longrightarrow> e \<in> set es \<Longrightarrow> P e \<Longrightarrow> filter P es = [e]"
proof -
  assume "length (filter P es) \<le> 1" "e \<in> set es" "P e"
  moreover from this have "e \<in> set (filter P es)" by simp
  ultimately show "filter P es = [e]" by (cases "filter P es") auto
qed

lemma edge_joined:
  assumes "length (filter (\<lambda>e. me_to e = i) es) \<le> 1" and "length (filter (\<lambda>e. me_from e = i) es) = 1"
    and "(x, i) \<in> edge_rel es" and "(i, z) \<in> edge_rel es"
  shows "(x, z) \<in> edge_rel (rejoin i es)"
proof -
  obtain a b where a: "a \<in> set es" "me_from a = x" "me_to a = i" and b: "b \<in> set es" "me_from b = i" "me_to b = z"
    using assms(3,4) by (auto simp: edge_rel_def)
  have "filter (\<lambda>e. me_to e = i) es = [a]" "filter (\<lambda>e. me_from e = i) es = [b]"
    using only_edge [of _ es] assms(1,2) a b by auto
  then show ?thesis using a b by (simp add: rejoin_def edge_rel_def)
qed

lemma chain_rejoin:
  assumes "chain es l" and "distinct l"
    and "length (filter (\<lambda>e. me_to e = i) es) \<le> 1" and "length (filter (\<lambda>e. me_from e = i) es) = 1"
  shows "chain (rejoin i es) (filter (\<lambda>x. x \<noteq> i) l)"
  using assms(1,2)
proof (induction l rule: induct_list012)
  case (3 x y l)
  have IH: "chain (rejoin i es) (filter (\<lambda>x. x \<noteq> i) (y # l))" using 3 by simp
  consider "x = i" | "x \<noteq> i" "y \<noteq> i" | "x \<noteq> i" "y = i" "l = []" | z l' where "x \<noteq> i" "y = i" "l = z # l'"
    by (cases l) auto
  then show ?case
  proof cases
    case 2
    then show ?thesis using IH 3 edge_stays [of x y es i] by simp
  next
    case 4
    then have "(x, z) \<in> edge_rel (rejoin i es)" using 3 by (intro edge_joined [OF assms(3,4)]) auto
    moreover have "z \<noteq> i" "filter (\<lambda>x. x \<noteq> i) (x # y # l) = x # z # filter (\<lambda>x. x \<noteq> i) l'" using 4 3 by auto
    ultimately show ?thesis using 4 IH by (simp del: filter.simps) simp
  qed (use IH in simp_all)
qed simp_all

lemma rejoin_ends:
  assumes "list_all clean_ends es" and "length (filter (\<lambda>e. me_from e = i) es) = 1"
  shows "list_all clean_ends (rejoin i es)"
proof -
  obtain b where b: "filter (\<lambda>e. me_from e = i) es = [b]" using assms(2) by (auto simp: length_Suc_conv)
  then have "b \<in> set (filter (\<lambda>e. me_from e = i) es)" by simp
  then have b': "clean_ends b" using assms(1) by (auto simp: list_all_iff)
  have "clean_ends a" if "filter (\<lambda>e. me_to e = i) es = a # as" for a as
    using arg_cong [OF that, of set] assms(1) by (auto simp: list_all_iff)
  then show ?thesis using assms(1) b b'
    by (cases "filter (\<lambda>e. me_to e = i) es") (auto simp: rejoin_def list_all_iff clean_ends_def)
qed

lemma skip_edited:
  assumes "skip_node i n m1 = Inr m2" and "edited m m1" and wf: "wf_manifest m"
    and n: "n0 \<in> set (mf_nodes m1)" "mn_id n0 = i" "mn_type n0 = mn_type n" "mn_type n \<noteq> Gate"
  shows "edited m m2"
proof -
  let ?ids = "set (node_ids m1)"
  have skip: "mn_type n \<noteq> Qa" "\<not> loop_node m1 i" "length (filter (\<lambda>e. me_to e = i) (mf_edges m1)) \<le> 1"
    "length (filter (\<lambda>e. me_from e = i) (mf_edges m1)) = 1"
    and m2: "m2 = m1\<lparr>mf_nodes := filter (\<lambda>n. mn_id n \<noteq> i) (mf_nodes m1), mf_edges := rejoin i (mf_edges m1)\<rparr>"
    using assms(1) by (auto simp: skip_node_ok)
  have ids: "set (node_ids m2) = ?ids - {i}" by (auto simp: m2 node_ids_def)
  have phases: "map phase_of (mf_nodes m1) = map phase_of (filter (\<lambda>n. mn_id n \<in> ?ids) (mf_nodes m))"
    using assms(2) by (simp add: edited_def)
  have swap: "map phase_of (filter (\<lambda>n. mn_id n \<noteq> i) xs) = filter (\<lambda>n. mn_id n \<noteq> i) (map phase_of xs)" for xs
    by (simp add: filter_map comp_def phase_of_def)
  have "map phase_of (mf_nodes m2) = map phase_of (filter (\<lambda>n. mn_id n \<noteq> i) (filter (\<lambda>n. mn_id n \<in> ?ids) (mf_nodes m)))"
    unfolding swap phases [symmetric] by (simp add: m2 flip: swap)
  then have "map phase_of (mf_nodes m2) = map phase_of (filter (\<lambda>n. mn_id n \<in> set (node_ids m2)) (mf_nodes m))"
    unfolding ids by (simp add: conj_commute)
  moreover have "chain (mf_edges m2) (filter (\<lambda>i. i \<in> set (node_ids m2)) (manifest_route m))"
  proof -
    have "chain (rejoin i (mf_edges m1)) (filter (\<lambda>x. x \<noteq> i) (filter (\<lambda>x. x \<in> ?ids) (manifest_route m)))"
      using assms(2) wf_route(1) [OF wf] skip(3,4) by (intro chain_rejoin) (simp_all add: edited_def)
    then show ?thesis unfolding ids by (simp add: m2 conj_commute)
  qed
  moreover have "mn_id x \<noteq> i" if x: "x \<in> set (mf_nodes m)" "mn_type x = Qa \<or> mn_type x = Gate \<or> loop_node m (mn_id x)" for x
  proof
    assume "mn_id x = i"
    have "phase_of n0 \<in> set (map phase_of (mf_nodes m1))" using n(1) by simp
    then have "phase_of n0 \<in> set (map phase_of (filter (\<lambda>n. mn_id n \<in> ?ids) (mf_nodes m)))" unfolding phases .
    then obtain y where y: "y \<in> set (mf_nodes m)" "phase_of y = phase_of n0" by auto
    then have "mn_id (phase_of y) = mn_id (phase_of n0)" "mn_type (phase_of y) = mn_type (phase_of n0)" by simp_all
    then have "mn_id y = i" "mn_type y = mn_type n" using n by (simp_all add: phase_of_def)
    moreover have "y = x" using x(1) y(1) \<open>mn_id y = i\<close> \<open>mn_id x = i\<close> wf_graph(5) [OF wf]
      by (auto simp: node_ids_def distinct_map dest: inj_onD)
    moreover have "\<not> loop_node m i" using skip(2) assms(2) by (simp add: edited_def loop_node_def)
    ultimately show False using x(2) skip(1) n(4) by auto
  qed
  moreover have "list_all wf_node (mf_nodes m2)" "distinct (node_ids m2)"
    using assms(2) by (auto simp: edited_def m2 list_all_iff node_ids_def distinct_map_filter)
  ultimately show ?thesis
    using assms(2) rejoin_ends [OF _ skip(4)] ids by (auto simp: edited_def m2)
qed

subsection \<open>All the edits\<close>

lemma phase_of_eqD: "phase_of x = phase_of y \<Longrightarrow> mn_id x = mn_id y \<and> mn_type x = mn_type y"
proof -
  assume "phase_of x = phase_of y"
  then have "mn_id (phase_of x) = mn_id (phase_of y)" "mn_type (phase_of x) = mn_type (phase_of y)" by simp_all
  then show ?thesis by (simp add: phase_of_def)
qed

lemma override_node_edited:
  assumes "override_node entry m1 = Inr m2" and "edited m m1" and wf: "wf_manifest m"
  shows "edited m m2"
proof -
  let ?i = "fst entry"
  obtain kvs n a b where n: "find (\<lambda>n. mn_id n = ?i) (mf_nodes m1) = Some n" "mn_type n \<noteq> Gate"
    and a: "override_model ?i n (prop_of kvs ''model'') m1 = Inr a"
    and b: "override_effort ?i (prop_of kvs ''effort'') a = Inr b"
    and c: "override_skip ?i n (prop_of kvs ''skip'') b = Inr m2"
    using assms(1) by (auto simp: override_node_def Let_def and_then_ok split: option.splits if_splits)
  have same: "\<exists>y \<in> set (mf_nodes m1). phase_of x = phase_of y" if "edited m z" "x \<in> set (mf_nodes z)"
    "set (node_ids z) = set (node_ids m1)" for x z
  proof -
    have "phase_of x \<in> set (map phase_of (mf_nodes z))" using that(2) by simp
    also have "map phase_of (mf_nodes z) = map phase_of (mf_nodes m1)"
      using that(1,3) assms(2) by (simp add: edited_def)
    finally show ?thesis by auto
  qed
  have ea: "edited m a" by (rule override_model_edited [OF a assms(2) n])
  have ids_a: "node_ids a = node_ids m1"
    using a by (auto simp: override_model_def and_then_ok set_node_ids split: if_splits)
  have types: "mn_type x = mn_type n" if x: "x \<in> set (mf_nodes z)" "mn_id x = ?i" and z: "edited m z"
    "node_ids z = node_ids m1" for x z
  proof -
    obtain y where y: "y \<in> set (mf_nodes m1)" "phase_of x = phase_of y" using same [OF z(1) x(1)] z(2) by auto
    then have "mn_id y = ?i" "mn_type y = mn_type x" using phase_of_eqD [of x y] x(2) by simp_all
    then show ?thesis using find_node [OF n(1) _ y(1)] assms(2) by (simp add: edited_def)
  qed
  have eb: "edited m b" using override_effort_edited [OF b ea] types [OF _ _ ea ids_a] n(2) by simp
  have ids_b: "node_ids b = node_ids m1"
    using b ids_a by (auto simp: override_effort_def and_then_ok set_node_ids split: if_splits)
  have here: "?i \<in> set (node_ids m1)" using find_Some_iff' [OF n(1)] by (force simp: node_ids_def)
  show ?thesis
  proof (cases "prop_of kvs ''skip'' = JBool True")
    case True
    have "?i \<in> set (node_ids b)" using here by (simp add: ids_b)
    then obtain x where x: "x \<in> set (mf_nodes b)" "mn_id x = ?i" by (auto simp: node_ids_def)
    show ?thesis
      using True c skip_edited [OF _ eb wf x types [OF x eb ids_b] n(2)] by (simp add: override_skip_def)
  next
    case False
    then show ?thesis using c eb by (auto simp: override_skip_def split: json.splits if_splits)
  qed
qed

lemma override_nodes_edited:
  "override_nodes entries m1 = Inr m2 \<Longrightarrow> edited m m1 \<Longrightarrow> wf_manifest m \<Longrightarrow> edited m m2"
  by (induction entries arbitrary: m1) (auto simp: and_then_ok intro: override_node_edited)

lemma edited_ids: "edited m e \<Longrightarrow> set (node_ids e) \<subseteq> set (node_ids m)"
proof
  fix i
  assume e: "edited m e" and "i \<in> set (node_ids e)"
  then obtain x where "x \<in> set (mf_nodes e)" "mn_id x = i" by (auto simp: node_ids_def)
  then have "phase_of x \<in> set (map phase_of (mf_nodes e))" by simp
  also have "map phase_of (mf_nodes e) = map phase_of (filter (\<lambda>n. mn_id n \<in> set (node_ids e)) (mf_nodes m))"
    using e by (simp add: edited_def)
  finally obtain y where "y \<in> set (mf_nodes m)" "phase_of x = phase_of y" by auto
  then show "i \<in> set (node_ids m)" using phase_of_eqD [of x y] \<open>mn_id x = i\<close> by (force simp: node_ids_def)
qed

subsection \<open>The last validation changes nothing but edge ids\<close>

lemma edge_echo:
  "parse_edge ids k seen (edge_json e) = Inr e' \<Longrightarrow> clean_ends e \<Longrightarrow> me_from e' = me_from e \<and> me_to e' = me_to e"
  by (auto simp: parse_edge_def edge_json_def exactKeys_ok prop_of_Cons Let_def and_then_ok clean_ends_def
      simp del: nonempty.simps split: if_splits)

lemma edges_echo:
  "parse_edges ids k seen (map edge_json es) = Inr es' \<Longrightarrow> list_all clean_ends es \<Longrightarrow> edge_rel es' = edge_rel es"
proof (induction es arbitrary: k seen es')
  case (Cons e es)
  then obtain e' ts where "parse_edge ids k seen (edge_json e) = Inr e'"
    "parse_edges ids (k + 1) (me_id e' # seen) (map edge_json es) = Inr ts" "es' = e' # ts"
    by (auto simp: and_then_ok)
  then show ?case using Cons edge_echo by (fastforce simp: edge_rel_def)
qed simp

lemma loop_echo:
  "parse_loop ids k seen (loop_json l) = Inr l' \<Longrightarrow> wf_loop ids' l \<Longrightarrow> clean (ml_from l) \<Longrightarrow> clean (ml_to l) \<Longrightarrow> l' = l"
  by (auto simp: parse_loop_def loop_json_def exactKeys_ok prop_of_Cons Let_def and_then_ok wf_loop_def
      simp del: nonempty.simps split: if_splits)

lemma loops_echo:
  "parse_loops ids k seen (map loop_json ls) = Inr ls' \<Longrightarrow> list_all (wf_loop ids') ls \<Longrightarrow> list_all clean ids' \<Longrightarrow> ls' = ls"
proof (induction ls arbitrary: k seen ls')
  case (Cons l ls)
  then have "clean (ml_from l)" "clean (ml_to l)" "wf_loop ids' l" by (auto simp: wf_loop_def list_all_iff)
  then show ?case using Cons loop_echo by (fastforce simp: and_then_ok)
qed simp

lemma terminal_echo:
  "parse_terminal ns (JObj [(''node'', JStr t), (''predicate'', JStr ''founder_approved'')]) = Inr t' \<Longrightarrow> clean t \<Longrightarrow> t' = t"
  by (auto simp: parse_terminal_def exactKeys_ok prop_of_Cons and_then_ok simp del: nonempty.simps split: if_splits)

lemma validate_edited:
  assumes "validateWorkflowManifest (manifest_json e) = Inr m'" and "edited m e" and wf: "wf_manifest m"
  shows "mf_nodes m' = mf_nodes e \<and> mf_loops m' = mf_loops e \<and> terminal_node m' = terminal_node e
    \<and> ship_claims m' = ship_claims e \<and> edge_rel (mf_edges m') = edge_rel (mf_edges e)"
proof -
  have ids: "list_all clean (node_ids m)" using wf by (auto simp: wf_manifest_def node_ids_def wf_node_def list_all_iff)
  moreover have "terminal_node e = terminal_node m" using assms(2) by (simp add: edited_def)
  ultimately have t: "clean (terminal_node e)" using terminal_in [OF wf] by (simp add: list_all_iff)
  have "list_all (wf_loop (node_ids m)) (mf_loops m)" using wf by (simp add: wf_manifest_def node_ids_def)
  then have loops: "list_all (wf_loop (node_ids m)) (mf_loops e)" using assms(2) by (simp add: edited_def)
  have nodes: "parse_nodes 0 [] (map node_json (mf_nodes e)) = Inr (mf_nodes e)"
    using assms(2) by (intro parse_nodes_json) (simp_all add: edited_def node_ids_def)
  obtain es ls t where "parse_edges (map mn_id (mf_nodes e)) 0 [] (map edge_json (mf_edges e)) = Inr es"
    "parse_loops (map mn_id (mf_nodes e)) 0 (map me_id es) (map loop_json (mf_loops e)) = Inr ls"
    "parse_terminal (mf_nodes e) (JObj [(''node'', JStr (terminal_node e)), (''predicate'', JStr ''founder_approved'')]) = Inr t"
    "finish_manifest (mf_nodes e) es ls t (ship_claims e) = Inr m'"
    using assms(1) unfolding validate_json nodes by (auto simp: and_then_ok split: if_splits)
  then show ?thesis
    using edges_echo loops_echo [OF _ loops ids] terminal_echo [OF _ t] assms(2)
    by (auto simp: finish_manifest_def edited_def split: if_splits option.splits)
qed

subsection \<open>The whole override\<close>

lemma override_keeps:
  assumes "applyWorkflowOverride v override = Inr (m', ov)"
  shows "validateWorkflowManifest (manifest_json m') = Inr m' \<and> (\<exists>m. validateWorkflowManifest v = Inr m
    \<and> manifest_route m' = filter (\<lambda>i. i \<in> set (node_ids m')) (manifest_route m)
    \<and> map phase_of (mf_nodes m') = map phase_of (filter (\<lambda>n. mn_id n \<in> set (node_ids m')) (mf_nodes m))
    \<and> (\<forall>n \<in> set (mf_nodes m). mn_type n = Qa \<or> mn_type n = Gate \<or> loop_node m (mn_id n) \<longrightarrow> mn_id n \<in> set (node_ids m'))
    \<and> mf_loops m' = mf_loops m \<and> terminal_node m' = terminal_node m \<and> ship_claims m' = ship_claims m)"
proof -
  obtain m entries e where m: "validateWorkflowManifest v = Inr m" "override_nodes entries m = Inr e"
      "validateWorkflowManifest (manifest_json e) = Inr m'"
    using assms by (auto simp: applyWorkflowOverride_def and_then_ok simp del: override_nodes.simps split: if_splits)
  have wf: "wf_manifest m" "wf_manifest m'" using m(1,3) by (simp_all add: validate_wf)
  have e: "edited m e" by (rule override_nodes_edited [OF m(2) edited_refl [OF wf(1)] wf(1)])
  have same: "mf_nodes m' = mf_nodes e" "mf_loops m' = mf_loops e" "terminal_node m' = terminal_node e"
    "ship_claims m' = ship_claims e" "edge_rel (mf_edges m') = edge_rel (mf_edges e)"
    using validate_edited [OF m(3) e wf(1)] by simp_all
  then have "chain (mf_edges m') (filter (\<lambda>i. i \<in> set (node_ids m')) (manifest_route m))"
    using e by (simp add: edited_def chain_def node_ids_def)
  moreover have "set (node_ids m') \<subseteq> set (manifest_route m)"
    using edited_ids [OF e] wf_route(2) [OF wf(1)] same(1) by (simp add: node_ids_def)
  ultimately have "filter (\<lambda>i. i \<in> set (node_ids m')) (manifest_route m) = manifest_route m'"
    using wf_route(1) [OF wf(1)] by (intro chain_is_route [OF wf(2)]) auto
  then show ?thesis using m(1) e same wf_validates [OF wf(2)] by (auto simp: edited_def node_ids_def)
qed

end
