(* ===== verification/Templates.thy ===== *)
theory Templates
  imports ManifestOverride LedgerBase
begin

section \<open>The template store (teamlead/src/StateStore.ts, workflow-template.ts)\<close>

text \<open>
  Templates, their append-only revisions and publications, the category bindings, the audit log, and the
  calls that author, publish, seed, bind and materialise them. A revision's manifest column is held as the
  value whose text the code stores; reading it is \<open>JSON.parse\<close> of that text.
\<close>

subsection \<open>Tables\<close>

record template_row =
  tp_id :: string
  tp_name :: string
  tp_scope :: string
  tp_current :: "int option"
  tp_created_by :: string
  tp_created_at :: string
  tp_seed_owner :: string
  tp_seed_hash :: "string option"

record revision_row =
  tr_template :: string
  tr_revision :: int
  tr_manifest :: json
  tr_digest :: string
  tr_schema_version :: int
  tr_created_by :: string
  tr_created_at :: string

record publication_row =
  pub_template :: string
  pub_revision :: int
  pub_by :: string
  pub_at :: string

record category_row =
  cat_project :: string
  cat_category :: string
  cat_template :: string
  cat_updated_by :: string
  cat_updated_at :: string

record template_audit_row =
  ta_at :: string
  ta_actor :: string
  ta_action :: string
  ta_template :: string
  ta_revision :: "int option"
  ta_run :: "string option"
  ta_detail :: string

text \<open>The AUTOINCREMENT keys of the last two logs are the positions in the lists.\<close>

record template_store =
  templates :: "template_row list"
  revisions :: "revision_row list"
  publications :: "publication_row list"
  categories :: "category_row list"
  template_audit :: "template_audit_row list"

datatype template_error =
    Manifest_rejected manifest_error | Schema_version_mismatch | Digest_mismatch | Template_not_found string
  | Seed_hash_mismatch string | Scope_refused string string | Binding_not_found | Not_published
  | Revision_not_found | Template_constraint string | Ledger_failed ledger_throw

definition checked :: "'a checked \<Rightarrow> (template_error, 'a) result" where
  "checked r = (case r of Inl e \<Rightarrow> Inl (Manifest_rejected e) | Inr x \<Rightarrow> Inr x)"

subsection \<open>Selects\<close>

definition listWorkflowTemplates :: "template_store \<Rightarrow> template_row list" where
  "listWorkflowTemplates st = sort_key tp_id (templates st)"

definition getWorkflowTemplate :: "template_store \<Rightarrow> string \<Rightarrow> template_row option" where
  "getWorkflowTemplate st t = find (\<lambda>x. tp_id x = t) (templates st)"

definition getWorkflowTemplateRevision :: "template_store \<Rightarrow> string \<Rightarrow> int \<Rightarrow> revision_row option" where
  "getWorkflowTemplateRevision st t r = find (\<lambda>x. tr_template x = t \<and> tr_revision x = r) (revisions st)"

definition revisions_of :: "template_store \<Rightarrow> string \<Rightarrow> revision_row list" where
  "revisions_of st t = filter (\<lambda>x. tr_template x = t) (revisions st)"

definition listWorkflowTemplateRevisions :: "template_store \<Rightarrow> string \<Rightarrow> revision_row list" where
  "listWorkflowTemplateRevisions st t = sort_key tr_revision (revisions_of st t)"

definition listWorkflowTemplatePublications :: "template_store \<Rightarrow> string \<Rightarrow> publication_row list" where
  "listWorkflowTemplatePublications st t = filter (\<lambda>x. pub_template x = t) (publications st)"

definition listWorkflowTemplateAudit :: "template_store \<Rightarrow> string option \<Rightarrow> template_audit_row list" where
  "listWorkflowTemplateAudit st t =
     (if truthy t then filter (\<lambda>x. ta_template x = the t) (template_audit st) else template_audit st)"

definition max_revision :: "template_store \<Rightarrow> string \<Rightarrow> int" where
  "max_revision st t = sql_max (map tr_revision (revisions_of st t))"

subsection \<open>Inserts and updates, with the constraints of the schema\<close>

text \<open>SQL \<open>trim\<close> removes spaces only.\<close>

definition scope_ok :: "string \<Rightarrow> bool" where
  "scope_ok s = (s = ''global'' \<or> (\<exists>c \<in> set s. c \<noteq> CHR '' ''))"

definition insert_template :: "template_row \<Rightarrow> template_store \<Rightarrow> (template_error, template_store) result" where
  "insert_template t st =
     (if tp_id t \<in> set (map tp_id (templates st)) then Inl (Template_constraint ''workflow_template.template_id'')
      else if \<not> scope_ok (tp_scope t) then Inl (Template_constraint ''workflow_template.project_scope'')
      else Inr (st\<lparr>templates := templates st @ [t]\<rparr>))"

definition insert_revision :: "revision_row \<Rightarrow> template_store \<Rightarrow> (template_error, template_store) result" where
  "insert_revision r st =
     (if getWorkflowTemplateRevision st (tr_template r) (tr_revision r) \<noteq> None
      then Inl (Template_constraint ''workflow_template_revision is append-only'')
      else if tr_revision r \<le> 0 \<or> getWorkflowTemplate st (tr_template r) = None
        then Inl (Template_constraint ''workflow_template_revision'')
      else Inr (st\<lparr>revisions := revisions st @ [r]\<rparr>))"

definition insert_publication :: "publication_row \<Rightarrow> template_store \<Rightarrow> (template_error, template_store) result" where
  "insert_publication p st =
     (if getWorkflowTemplateRevision st (pub_template p) (pub_revision p) = None
      then Inl (Template_constraint ''workflow_template_publication FOREIGN KEY'')
      else Inr (st\<lparr>publications := publications st @ [p]\<rparr>))"

definition audit_template :: "template_audit_row \<Rightarrow> template_store \<Rightarrow> template_store" where
  "audit_template a st = st\<lparr>template_audit := template_audit st @ [a]\<rparr>"

definition set_template :: "string \<Rightarrow> (template_row \<Rightarrow> template_row) \<Rightarrow> template_store \<Rightarrow> template_store" where
  "set_template t f st = st\<lparr>templates := map (\<lambda>x. if tp_id x = t then f x else x) (templates st)\<rparr>"

definition audit_row :: "run_env \<Rightarrow> string \<Rightarrow> string \<Rightarrow> string \<Rightarrow> int option \<Rightarrow> string option \<Rightarrow> json \<Rightarrow> template_audit_row" where
  "audit_row env actor action t r run detail = \<lparr>ta_at = sql_now env, ta_actor = actor, ta_action = action,
     ta_template = t, ta_revision = r, ta_run = run, ta_detail = json_stringify detail\<rparr>"

definition revision_of :: "run_env \<Rightarrow> string \<Rightarrow> int \<Rightarrow> manifest \<Rightarrow> string \<Rightarrow> revision_row" where
  "revision_of env t r m createdBy = \<lparr>tr_template = t, tr_revision = r, tr_manifest = manifest_json m,
     tr_digest = canonicalSubmissionDigest env (manifest_json m), tr_schema_version = 1,
     tr_created_by = createdBy, tr_created_at = sql_now env\<rparr>"

definition publication_of :: "run_env \<Rightarrow> string \<Rightarrow> int \<Rightarrow> string \<Rightarrow> publication_row" where
  "publication_of env t r by' = \<lparr>pub_template = t, pub_revision = r, pub_by = by', pub_at = sql_now env\<rparr>"

subsection \<open>Authoring\<close>

definition mark_author :: "string \<Rightarrow> string \<Rightarrow> template_store \<Rightarrow> template_store" where
  "mark_author createdBy t st =
     (if createdBy \<noteq> ''system'' then set_template t (\<lambda>x. x\<lparr>tp_seed_owner := ''founder''\<rparr>) st else st)"

definition createWorkflowTemplateRevision ::
    "run_env \<Rightarrow> string \<Rightarrow> json \<Rightarrow> string option \<Rightarrow> int \<Rightarrow> string \<Rightarrow> template_store
     \<Rightarrow> (template_error, int \<times> template_store) result" where
  "createWorkflowTemplateRevision env t manifestValue manifestDigest schemaVersion createdBy st =
     and_then (checked (validateWorkflowManifest manifestValue)) (\<lambda>m.
       let digest = canonicalSubmissionDigest env (manifest_json m) in
       if schemaVersion \<noteq> 1 then Inl Schema_version_mismatch
       else if truthy manifestDigest \<and> the manifestDigest \<noteq> digest then Inl Digest_mismatch
       else if getWorkflowTemplate st t = None then Inl (Template_not_found t)
       else (let revision = max_revision st t + 1 in
         and_then (insert_revision (revision_of env t revision m createdBy) st) (\<lambda>st1.
         let st2 = audit_template (audit_row env createdBy ''create'' t (Some revision) None
                     (JObj [(''manifest_digest'', JStr digest)])) st1 in
         Inr (revision, mark_author createdBy t st2))))"

datatype publish_result = Published int | Publish_conflict "int option" | Publish_not_found

definition published_row :: "int \<Rightarrow> string \<Rightarrow> template_row \<Rightarrow> template_row" where
  "published_row r publishedBy x = x\<lparr>tp_current := Some r,
     tp_seed_owner := if publishedBy = ''system'' then tp_seed_owner x else ''founder''\<rparr>"

text \<open>The conditional update runs after the insert of the publication; a conflict rolls both back.\<close>

definition publishWorkflowTemplate ::
    "run_env \<Rightarrow> string \<Rightarrow> int \<Rightarrow> int option \<Rightarrow> string \<Rightarrow> template_store
     \<Rightarrow> (template_error, publish_result \<times> template_store) result" where
  "publishWorkflowTemplate env t r expected publishedBy st =
     (if getWorkflowTemplateRevision st t r = None then Inr (Publish_not_found, st)
      else and_then (insert_publication (publication_of env t r publishedBy) st) (\<lambda>st1.
        if \<not> list_ex (\<lambda>x. tp_id x = t \<and> tp_current x = expected) (templates st1)
        then Inr (Publish_conflict (case getWorkflowTemplate st t of None \<Rightarrow> None | Some x \<Rightarrow> tp_current x), st)
        else Inr (Published r,
          audit_template (audit_row env publishedBy ''publish'' t (Some r) None
              (JObj [(''expected_revision'', case expected of None \<Rightarrow> JNull | Some i \<Rightarrow> JInt i)]))
            (set_template t (published_row r publishedBy) st1))))"

subsection \<open>Seeds\<close>

record workflow_seed =
  sd_template :: string
  sd_name :: string
  sd_scope :: string
  sd_manifest :: json
  sd_hash :: string

definition workflowSeedContentHash :: "run_env \<Rightarrow> workflow_seed \<Rightarrow> string" where
  "workflowSeedContentHash env s = canonicalSubmissionDigest env (JObj [(''templateId'', JStr (sd_template s)),
     (''name'', JStr (sd_name s)), (''projectScope'', JStr (sd_scope s)), (''manifest'', sd_manifest s)])"

datatype seed_status = Imported | Updated | Unchanged | Refused

definition refused_detail :: "string \<Rightarrow> json" where
  "refused_detail h = JObj [(''status'', JStr ''refused''), (''reason'', JStr ''founder_owned_seed_mismatch''),
     (''incoming_content_hash'', JStr h)]"

definition seed_status_json :: "seed_status \<Rightarrow> json" where
  "seed_status_json s = JObj [(''status'', JStr (if s = Updated then ''updated'' else ''imported''))]"

definition new_template :: "run_env \<Rightarrow> workflow_seed \<Rightarrow> template_row" where
  "new_template env s = \<lparr>tp_id = sd_template s, tp_name = sd_name s, tp_scope = sd_scope s, tp_current = None,
     tp_created_by = ''system'', tp_created_at = sql_now env, tp_seed_owner = ''system'', tp_seed_hash = Some (sd_hash s)\<rparr>"

text \<open>The transaction that adds and publishes the seed's revision.\<close>

definition seed_revision ::
    "run_env \<Rightarrow> workflow_seed \<Rightarrow> manifest \<Rightarrow> int \<Rightarrow> seed_status \<Rightarrow> template_store
     \<Rightarrow> (template_error, template_store) result" where
  "seed_revision env s m revision status st =
     and_then (insert_revision (revision_of env (sd_template s) revision m ''system'') st) (\<lambda>st1.
     and_then (insert_publication (publication_of env (sd_template s) revision ''system'') st1) (\<lambda>st2.
       if \<not> scope_ok (sd_scope s) then Inl (Template_constraint ''workflow_template.project_scope'')
       else Inr (audit_template (audit_row env ''system'' ''seed_import'' (sd_template s) (Some revision) None
                  (seed_status_json status))
         (set_template (sd_template s) (\<lambda>x. x\<lparr>tp_name := sd_name s, tp_scope := sd_scope s,
            tp_current := Some revision, tp_seed_hash := Some (sd_hash s)\<rparr>) st2))))"

definition importWorkflowTemplateSeed ::
    "run_env \<Rightarrow> workflow_seed \<Rightarrow> template_store \<Rightarrow> (template_error, (seed_status \<times> int) \<times> template_store) result" where
  "importWorkflowTemplateSeed env s st =
     and_then (checked (validateWorkflowManifest (sd_manifest s))) (\<lambda>m.
       if sd_hash s \<noteq> workflowSeedContentHash env (s\<lparr>sd_manifest := manifest_json m\<rparr>)
       then Inl (Seed_hash_mismatch (sd_template s))
       else (case getWorkflowTemplate st (sd_template s) of
           None \<Rightarrow>
             and_then (insert_template (new_template env s) st) (\<lambda>st1.
             and_then (seed_revision env s m 1 Imported st1) (\<lambda>st2. Inr ((Imported, 1), st2)))
         | Some t \<Rightarrow>
             if tp_seed_hash t = Some (sd_hash s) then Inr ((Unchanged, or_else (tp_current t) 1), st)
             else if tp_seed_owner t = ''founder'' then
               Inr ((Refused, or_else (tp_current t) 1),
                 audit_template (audit_row env ''system'' ''seed_import'' (sd_template s) (tp_current t) None
                   (refused_detail (sd_hash s))) st)
             else (let revision = max_revision st (sd_template s) + 1 in
               and_then (seed_revision env s m revision Updated st) (\<lambda>st1. Inr ((Updated, revision), st1)))))"

text \<open>One seed file: \<open>raw\<close> is what the YAML parser returns for it.\<close>

definition load_seed :: "run_env \<Rightarrow> string \<Rightarrow> json \<Rightarrow> workflow_seed checked" where
  "load_seed env filename raw =
     and_then (record_of raw (''seed '' @ filename)) (\<lambda>r.
     and_then (exactKeys r [''template_id'', ''name'', ''project_scope'', ''manifest''] (''seed '' @ filename)) (\<lambda>_.
     and_then (validateWorkflowManifest (prop_of r ''manifest'')) (\<lambda>m.
     and_then (nonempty (prop_of r ''template_id'') (filename @ ''.template_id'')) (\<lambda>t.
     and_then (nonempty (prop_of r ''name'') (filename @ ''.name'')) (\<lambda>n.
     and_then (nonempty (prop_of r ''project_scope'') (filename @ ''.project_scope'')) (\<lambda>p.
       let s = \<lparr>sd_template = t, sd_name = n, sd_scope = p, sd_manifest = manifest_json m, sd_hash = []\<rparr> in
       Inr (s\<lparr>sd_hash := workflowSeedContentHash env s\<rparr>)))))))"

definition BUNDLED_SEED_FILES :: "string list" where
  "BUNDLED_SEED_FILES = [''tpl_eng_heavy.yaml'', ''tpl_eng_light.yaml'', ''tpl_eng_trivial.yaml'']"

fun load_seeds :: "run_env \<Rightarrow> (string \<Rightarrow> json) \<Rightarrow> string list \<Rightarrow> workflow_seed list checked" where
  "load_seeds env parsed [] = Inr []"
| "load_seeds env parsed (f # fs) = and_then (load_seed env f (parsed f)) (\<lambda>s.
     and_then (load_seeds env parsed fs) (\<lambda>ss. Inr (s # ss)))"

definition loadBundledWorkflowSeeds :: "run_env \<Rightarrow> (string \<Rightarrow> json) \<Rightarrow> workflow_seed list checked" where
  "loadBundledWorkflowSeeds env parsed = load_seeds env parsed BUNDLED_SEED_FILES"

fun import_seeds :: "run_env \<Rightarrow> workflow_seed list \<Rightarrow> template_store \<Rightarrow> template_error option \<times> template_store" where
  "import_seeds env [] st = (None, st)"
| "import_seeds env (s # ss) st = (case importWorkflowTemplateSeed env s st of
     Inl e \<Rightarrow> (Some e, st) | Inr (_, st') \<Rightarrow> import_seeds env ss st')"

text \<open>Seeds imported before a throw stay imported.\<close>

definition importBundledWorkflowSeeds ::
    "run_env \<Rightarrow> (string \<Rightarrow> json) \<Rightarrow> template_store \<Rightarrow> template_error option \<times> template_store" where
  "importBundledWorkflowSeeds env parsed st = (case loadBundledWorkflowSeeds env parsed of
     Inl e \<Rightarrow> (Some (Manifest_rejected e), st) | Inr seeds \<Rightarrow> import_seeds env seeds st)"

subsection \<open>Category bindings\<close>

definition category_of :: "string option \<Rightarrow> string" where
  "category_of c = (case c of None \<Rightarrow> ''*'' | Some s \<Rightarrow> if trim s = [] then ''*'' else trim s)"

definition same_category :: "string \<Rightarrow> string \<Rightarrow> category_row \<Rightarrow> bool" where
  "same_category p c x = (cat_project x = p \<and> cat_category x = c)"

definition upsert_category :: "category_row \<Rightarrow> template_store \<Rightarrow> template_store" where
  "upsert_category c st =
     (if list_ex (same_category (cat_project c) (cat_category c)) (categories st)
      then st\<lparr>categories := map (\<lambda>x. if same_category (cat_project c) (cat_category c) x then c else x) (categories st)\<rparr>
      else st\<lparr>categories := categories st @ [c]\<rparr>)"

definition scope_allows :: "string \<Rightarrow> string \<Rightarrow> bool" where
  "scope_allows scope project = (scope = ''global'' \<or> scope = project)"

definition bindWorkflowCategory ::
    "run_env \<Rightarrow> string \<Rightarrow> string option \<Rightarrow> string \<Rightarrow> string \<Rightarrow> template_store
     \<Rightarrow> (template_error, template_store) result" where
  "bindWorkflowCategory env project taskCategory t updatedBy st =
     (case getWorkflowTemplate st t of
        None \<Rightarrow> Inl (Template_not_found t)
      | Some x \<Rightarrow>
          if \<not> scope_allows (tp_scope x) project then Inl (Scope_refused (tp_scope x) project)
          else (let c = category_of taskCategory in
            Inr (audit_template (audit_row env updatedBy ''rebind'' t None None
                   (JObj [(''project'', JStr project), (''task_category'', JStr c)]))
              (upsert_category \<lparr>cat_project = project, cat_category = c, cat_template = t,
                 cat_updated_by = updatedBy, cat_updated_at = sql_now env\<rparr> st))))"

text \<open>The exact category before the wildcard.\<close>

definition getWorkflowCategoryBinding :: "template_store \<Rightarrow> string \<Rightarrow> string \<Rightarrow> category_row option" where
  "getWorkflowCategoryBinding st project category =
     (case find (same_category project category) (categories st) of
        Some c \<Rightarrow> Some c | None \<Rightarrow> find (same_category project ''*'') (categories st))"

subsection \<open>Materialising a run\<close>

definition override_json :: "template_override \<Rightarrow> json" where
  "override_json o' = JObj ((''reason'', JStr (ov_reason o'))
     # (if ov_nodes o' = [] then [] else [(''nodes'', JObj (ov_nodes o'))]))"

definition run_snapshot_json :: "run_env \<Rightarrow> string \<Rightarrow> int \<Rightarrow> manifest \<Rightarrow> template_override option \<Rightarrow> json" where
  "run_snapshot_json env t r m ov = JObj ([(''schema_version'', JInt 1),
     (''template'', JObj [(''id'', JStr t), (''revision'', JInt r)]),
     (''manifest_digest'', JStr (canonicalSubmissionDigest env (manifest_json m))), (''manifest'', manifest_json m)]
     @ some_prop ''override'' override_json ov)"

definition apply_optional :: "manifest \<Rightarrow> json option \<Rightarrow> (manifest \<times> template_override option) checked" where
  "apply_optional m ov = (case ov of
     None \<Rightarrow> Inr (m, None)
   | Some v \<Rightarrow> and_then (applyWorkflowOverride (manifest_json m) v) (\<lambda>(m', o'). Inr (m', Some o')))"

text \<open>The template and the revision a run of this project and category starts from.\<close>

definition resolve_template :: "template_store \<Rightarrow> string \<Rightarrow> string \<Rightarrow> (template_error, string \<times> int \<times> manifest) result" where
  "resolve_template st project category =
     (case getWorkflowCategoryBinding st project category of
        None \<Rightarrow> Inl Binding_not_found
      | Some b \<Rightarrow> (case getWorkflowTemplate st (cat_template b) of
          None \<Rightarrow> Inl Not_published
        | Some t \<Rightarrow> (case tp_current t of
            None \<Rightarrow> Inl Not_published
          | Some r \<Rightarrow>
              if r = 0 then Inl Not_published
              else if \<not> scope_allows (tp_scope t) project then Inl (Scope_refused (tp_scope t) project)
              else (case getWorkflowTemplateRevision st (tp_id t) r of
                  None \<Rightarrow> Inl Revision_not_found
                | Some row \<Rightarrow> and_then (checked (validateWorkflowManifest (tr_manifest row)))
                    (\<lambda>m. Inr (tp_id t, r, m))))))"

record run_request =
  rq_run :: string
  rq_issue :: string
  rq_project :: string
  rq_category :: string
  rq_enrolled :: bool
  rq_override :: "json option"
  rq_actor :: string

definition materialized_row :: "run_env \<Rightarrow> run_request \<Rightarrow> string \<Rightarrow> int \<Rightarrow> string \<Rightarrow> run_row" where
  "materialized_row env q t r snapshot = \<lparr>run_id = rq_run q, run_issue_id = rq_issue q, run_project_name = rq_project q,
     run_template_id = Some t, run_template_revision = Some r, run_snapshot = Some snapshot,
     run_current_node_id = None, run_current_qa_attempt = None, run_status = ''active'',
     run_claims_read_enrolled = rq_enrolled q, run_created_at = sql_now env\<rparr>"

definition ledger_call :: "(ledger_throw, 'a) result \<Rightarrow> (template_error, 'a) result" where
  "ledger_call r = (case r of Inl e \<Rightarrow> Inl (Ledger_failed e) | Inr x \<Rightarrow> Inr x)"

definition audit_override ::
    "run_env \<Rightarrow> run_request \<Rightarrow> string \<Rightarrow> int \<Rightarrow> template_override option \<Rightarrow> template_store \<Rightarrow> template_store" where
  "audit_override env q t r ov st = (case ov of None \<Rightarrow> st
     | Some o' \<Rightarrow> audit_template (audit_row env (rq_actor q) ''run_override'' t (Some r) (Some (rq_run q))
         (override_json o')) st)"

definition materializeWorkflowRun ::
    "run_env \<Rightarrow> run_request \<Rightarrow> template_store \<times> ledger
     \<Rightarrow> (template_error, run_row \<times> template_store \<times> ledger) result" where
  "materializeWorkflowRun env q s = (let (st, db) = s in
     and_then (resolve_template st (rq_project q) (rq_category q)) (\<lambda>(t, r, base).
     and_then (checked (apply_optional base (rq_override q))) (\<lambda>(m, ov).
     let snapshot = json_stringify (run_snapshot_json env t r m ov) in
     and_then (ledger_call (insert_run (materialized_row env q t r snapshot) db)) (\<lambda>db'.
     (case getWorkflowRun db' (rq_run q) of
        None \<Rightarrow> Inl (Ledger_failed (Workflow_run_not_found (rq_run q)))
      | Some row \<Rightarrow> Inr (row, audit_override env q t r ov st, db'))))))"

end
