(* ===== verification/TemplateInv.thy ===== *)
theory TemplateInv
  imports Templates
begin

section \<open>The invariant of the template store\<close>

text \<open>
  The step relation of the store's calls, one case per call that returns, and the invariant they keep:
  revision numbers without gaps, valid manifests with their digests, and the published revision of a
  template as the last entry of its publication log.
\<close>

subsection \<open>Effects of the single statements\<close>

lemma get_template_None: "getWorkflowTemplate st t = None \<longleftrightarrow> t \<notin> set (map tp_id (templates st))"
  by (auto simp: getWorkflowTemplate_def find_None_iff')

lemma get_template_Some: "getWorkflowTemplate st t = Some x \<Longrightarrow> x \<in> set (templates st) \<and> tp_id x = t"
  by (auto simp: getWorkflowTemplate_def dest: find_Some_iff')

lemma get_revision_None:
  "getWorkflowTemplateRevision st t r = None \<longleftrightarrow> r \<notin> set (map tr_revision (revisions_of st t))"
  by (auto simp: getWorkflowTemplateRevision_def revisions_of_def find_None_iff')

lemma get_revision_Some:
  "getWorkflowTemplateRevision st t r = Some x \<Longrightarrow> x \<in> set (revisions st) \<and> tr_template x = t \<and> tr_revision x = r"
  by (auto simp: getWorkflowTemplateRevision_def dest: find_Some_iff')

lemma insert_revision_ok:
  "insert_revision r st = Inr st' \<longleftrightarrow> getWorkflowTemplateRevision st (tr_template r) (tr_revision r) = None
    \<and> 0 < tr_revision r \<and> getWorkflowTemplate st (tr_template r) \<noteq> None \<and> st' = st\<lparr>revisions := revisions st @ [r]\<rparr>"
  by (auto simp: insert_revision_def)

lemma insert_publication_ok:
  "insert_publication p st = Inr st' \<longleftrightarrow> getWorkflowTemplateRevision st (pub_template p) (pub_revision p) \<noteq> None
    \<and> st' = st\<lparr>publications := publications st @ [p]\<rparr>"
  by (auto simp: insert_publication_def)

lemma insert_template_ok:
  "insert_template t st = Inr st' \<longleftrightarrow> tp_id t \<notin> set (map tp_id (templates st)) \<and> scope_ok (tp_scope t)
    \<and> st' = st\<lparr>templates := templates st @ [t]\<rparr>"
  by (auto simp: insert_template_def)

lemma checked_ok: "checked r = Inr x \<longleftrightarrow> r = Inr x"
  by (cases r) (simp_all add: checked_def)

subsection \<open>The step relation\<close>

inductive template_step :: "(string \<Rightarrow> string) \<Rightarrow> template_store \<Rightarrow> template_store \<Rightarrow> bool" for h where
  create: "template_step h st st'"
    if "createWorkflowTemplateRevision env t v d n who st = Inr (r, st')" "sha256 env = h"
| publish: "template_step h st st'"
    if "publishWorkflowTemplate env t r expected who st = Inr (result, st')"
| seed: "template_step h st st'"
    if "importWorkflowTemplateSeed env s st = Inr (result, st')" "sha256 env = h"
| bind: "template_step h st st'"
    if "bindWorkflowCategory env project c t who st = Inr st'"
| materialise: "template_step h st st'"
    if "materializeWorkflowRun env q (st, db) = Inr (row, st', db')"

definition empty_templates :: template_store where
  "empty_templates = \<lparr>templates = [], revisions = [], publications = [], categories = [], template_audit = []\<rparr>"

inductive template_reach :: "(string \<Rightarrow> string) \<Rightarrow> template_store \<Rightarrow> bool" for h where
  "template_reach h empty_templates"
| "template_reach h st \<Longrightarrow> template_step h st st' \<Longrightarrow> template_reach h st'"

subsection \<open>The invariant\<close>

definition sound_revision :: "(string \<Rightarrow> string) \<Rightarrow> revision_row \<Rightarrow> bool" where
  "sound_revision h r = (\<exists>m. wf_manifest m \<and> tr_manifest r = manifest_json m
     \<and> tr_digest r = h (canonicalJsonString (manifest_json m)) \<and> tr_schema_version r = 1)"

definition numbered :: "int list \<Rightarrow> bool" where
  "numbered rs = (rs = map int [1 ..< Suc (length rs)])"

definition last_publication :: "template_store \<Rightarrow> string \<Rightarrow> int option" where
  "last_publication st t = (let ps = listWorkflowTemplatePublications st t in
     if ps = [] then None else Some (pub_revision (last ps)))"

definition template_inv :: "(string \<Rightarrow> string) \<Rightarrow> template_store \<Rightarrow> bool" where
  "template_inv h st = (distinct (map tp_id (templates st))
     \<and> (\<forall>r \<in> set (revisions st). sound_revision h r \<and> tr_template r \<in> set (map tp_id (templates st)))
     \<and> (\<forall>t. numbered (map tr_revision (revisions_of st t)))
     \<and> (\<forall>p \<in> set (publications st). getWorkflowTemplateRevision st (pub_template p) (pub_revision p) \<noteq> None)
     \<and> (\<forall>x \<in> set (templates st). tp_current x = last_publication st (tp_id x)))"

lemma numbered_snoc: "numbered rs \<Longrightarrow> numbered (rs @ [int (Suc (length rs))])"
  by (simp add: numbered_def)

lemma numbered_max: "numbered rs \<Longrightarrow> sql_max rs = int (length rs)"
proof (induction rs rule: rev_induct)
  case (snoc r rs)
  then have "rs = map int [1 ..< Suc (length rs)]" "r = int (Suc (length rs))" by (simp_all add: numbered_def)
  then show ?case using snoc.IH by (simp add: numbered_def)
qed (simp add: sql_max_def)

lemma numbered_set: "numbered rs \<Longrightarrow> r \<in> set rs \<longleftrightarrow> 1 \<le> r \<and> r \<le> int (length rs)"
proof -
  assume "numbered rs"
  then have "set rs = int ` {1 ..< Suc (length rs)}" unfolding numbered_def by (metis set_map set_upt)
  then show ?thesis by (auto simp: image_iff intro!: bexI [of _ "nat r"])
qed

lemma max_revision_next:
  "template_inv h st \<Longrightarrow> max_revision st t + 1 = int (Suc (length (revisions_of st t)))"
  using numbered_max [of "map tr_revision (revisions_of st t)"] by (simp add: template_inv_def max_revision_def)

subsection \<open>Preservation by the statements\<close>

lemma inv_audit [simp]: "template_inv h (audit_template a st) = template_inv h st"
  by (simp add: audit_template_def template_inv_def revisions_of_def getWorkflowTemplateRevision_def
      last_publication_def listWorkflowTemplatePublications_def)

lemma inv_category [simp]: "template_inv h (upsert_category c st) = template_inv h st"
  by (simp add: upsert_category_def template_inv_def revisions_of_def getWorkflowTemplateRevision_def
      last_publication_def listWorkflowTemplatePublications_def)

lemma inv_set_template:
  assumes "template_inv h st" and "\<And>x. tp_id (f x) = tp_id x" and "\<And>x. tp_current (f x) = tp_current x"
  shows "template_inv h (set_template t f st)"
proof -
  have "map tp_id (templates (set_template t f st)) = map tp_id (templates st)"
    by (simp add: set_template_def assms(2))
  moreover have "\<forall>x \<in> set (templates (set_template t f st)). tp_current x = last_publication st (tp_id x)"
    using assms by (auto simp: template_inv_def set_template_def)
  ultimately show ?thesis using assms(1)
    by (simp add: template_inv_def revisions_of_def getWorkflowTemplateRevision_def last_publication_def
        listWorkflowTemplatePublications_def) (simp add: set_template_def)
qed

lemma inv_revision:
  assumes "template_inv h st" and "wf_manifest m" and "sha256 env = h"
    and "insert_revision (revision_of env t (max_revision st t + 1) m who) st = Inr st'"
  shows "template_inv h st'"
proof -
  let ?r = "revision_of env t (max_revision st t + 1) m who"
  have st': "st' = st\<lparr>revisions := revisions st @ [?r]\<rparr>" and t: "t \<in> set (map tp_id (templates st))"
    using assms(4) by (simp_all add: insert_revision_ok get_template_None revision_of_def)
  have "sound_revision h ?r" using assms(2,3)
    by (auto simp: sound_revision_def revision_of_def canonicalSubmissionDigest_def)
  moreover have "numbered (map tr_revision (revisions_of st' u))" for u
    using assms(1) numbered_snoc [of "map tr_revision (revisions_of st t)"] max_revision_next [OF assms(1), of t]
    by (auto simp: st' revisions_of_def revision_of_def template_inv_def add.commute)
  moreover have "getWorkflowTemplateRevision st' u n \<noteq> None" if "getWorkflowTemplateRevision st u n \<noteq> None" for u n
    using that by (simp add: get_revision_None st' revisions_of_def)
  moreover have "last_publication st' u = last_publication st u" for u
    by (simp add: st' last_publication_def listWorkflowTemplatePublications_def)
  ultimately show ?thesis using assms(1) t by (simp add: template_inv_def st' revision_of_def)
qed

text \<open>A publication together with the update of the template.\<close>

lemma inv_published:
  assumes "template_inv h st" and "insert_publication (publication_of env t r who) st = Inr st1"
    and "\<And>x. tp_id (f x) = tp_id x" and "\<And>x. tp_current (f x) = Some r"
  shows "template_inv h (set_template t f st1)"
proof -
  let ?st' = "set_template t f st1"
  have st1: "st1 = st\<lparr>publications := publications st @ [publication_of env t r who]\<rparr>"
    and r: "getWorkflowTemplateRevision st t r \<noteq> None"
    using assms(2) by (simp_all add: insert_publication_ok publication_of_def)
  have last: "last_publication ?st' u = (if u = t then Some r else last_publication st u)" for u
    by (simp add: last_publication_def listWorkflowTemplatePublications_def set_template_def st1 publication_of_def
        Let_def)
  have "tp_current x = last_publication ?st' (tp_id x)" if x: "x \<in> set (templates ?st')" for x
  proof -
    obtain y where y: "y \<in> set (templates st)" "x = (if tp_id y = t then f y else y)"
      using x by (auto simp: set_template_def st1)
    then have "tp_current y = last_publication st (tp_id y)" using assms(1) by (simp add: template_inv_def)
    then show ?thesis unfolding last using y(2) assms(3,4) by (cases "tp_id y = t") simp_all
  qed
  moreover have "map tp_id (templates ?st') = map tp_id (templates st)" by (simp add: set_template_def st1 assms(3))
  moreover have "revisions ?st' = revisions st"
    "publications ?st' = publications st @ [publication_of env t r who]" by (simp_all add: set_template_def st1)
  ultimately show ?thesis using assms(1) r
    by (auto simp: template_inv_def revisions_of_def getWorkflowTemplateRevision_def publication_of_def)
qed

subsection \<open>Preservation by the calls\<close>

lemma create_ok:
  assumes "createWorkflowTemplateRevision env t v d n who st = Inr (r, st')"
  obtains m st1 a where "validateWorkflowManifest v = Inr m" "r = max_revision st t + 1"
    "insert_revision (revision_of env t (max_revision st t + 1) m who) st = Inr st1"
    "st' = mark_author who t (audit_template a st1)"
  using assms by (auto simp: createWorkflowTemplateRevision_def Let_def and_then_ok checked_ok split: if_splits)

lemma inv_create:
  assumes "createWorkflowTemplateRevision env t v d n who st = Inr (r, st')" and "template_inv h st" and "sha256 env = h"
  shows "template_inv h st'"
proof -
  obtain m st1 a where m: "validateWorkflowManifest v = Inr m"
      "insert_revision (revision_of env t (max_revision st t + 1) m who) st = Inr st1"
      "st' = mark_author who t (audit_template a st1)" by (rule create_ok [OF assms(1)])
  have "template_inv h st1" by (rule inv_revision [OF assms(2) validate_wf [OF m(1)] assms(3) m(2)])
  then show ?thesis unfolding m(3) by (simp add: inv_set_template mark_author_def)
qed

lemma published_row_simps [simp]:
  "tp_id (published_row r who x) = tp_id x" "tp_current (published_row r who x) = Some r"
  by (simp_all add: published_row_def)

lemma publish_cases:
  assumes "publishWorkflowTemplate env t r expected who st = Inr (result, st')"
  obtains "st' = st" "\<forall>n. result \<noteq> Published n"
  | a st1 where "result = Published r" "insert_publication (publication_of env t r who) st = Inr st1"
      "st' = audit_template a (set_template t (published_row r who) st1)"
      "\<exists>x \<in> set (templates st). tp_id x = t \<and> tp_current x = expected"
proof (cases "getWorkflowTemplateRevision st t r = None")
  case True
  then show thesis using assms that(1) by (simp add: publishWorkflowTemplate_def)
next
  case False
  then obtain st1 where st1: "insert_publication (publication_of env t r who) st = Inr st1"
    "templates st1 = templates st"
    by (simp add: insert_publication_ok publication_of_def)
  show thesis
  proof (cases "list_ex (\<lambda>x. tp_id x = t \<and> tp_current x = expected) (templates st)")
    case True
    then have "\<exists>x \<in> set (templates st). tp_id x = t \<and> tp_current x = expected" by (simp add: list_ex_iff)
    moreover obtain a where "result = Published r" "st' = audit_template a (set_template t (published_row r who) st1)"
      using assms False st1 True by (auto simp: publishWorkflowTemplate_def)
    ultimately show thesis using that(2) st1(1) by blast
  next
    case no: False
    then show thesis using assms False st1 that(1) by (auto simp: publishWorkflowTemplate_def)
  qed
qed

lemma inv_publish:
  assumes "publishWorkflowTemplate env t r expected who st = Inr (result, st')" and "template_inv h st"
  shows "template_inv h st'"
  using assms(1)
proof (cases rule: publish_cases)
  case (2 a st1)
  then show ?thesis using inv_published [OF assms(2) 2(2)] by simp
qed (use assms in simp)

lemma inv_seed_revision:
  assumes "seed_revision env s m (max_revision st (sd_template s) + 1) status st = Inr st'" and "template_inv h st"
    and "wf_manifest m" and "sha256 env = h"
  shows "template_inv h st'"
proof -
  let ?f = "\<lambda>x. x\<lparr>tp_name := sd_name s, tp_scope := sd_scope s,
            tp_current := Some (max_revision st (sd_template s) + 1), tp_seed_hash := Some (sd_hash s)\<rparr>"
  obtain st1 st2 a where ins: "insert_revision (revision_of env (sd_template s) (max_revision st (sd_template s) + 1) m ''system'') st = Inr st1"
      and pub: "insert_publication (publication_of env (sd_template s) (max_revision st (sd_template s) + 1) ''system'') st1 = Inr st2"
      and st': "st' = audit_template a (set_template (sd_template s) ?f st2)"
    using assms(1) by (auto simp: seed_revision_def and_then_ok split: if_splits)
  have "template_inv h st1" by (rule inv_revision [OF assms(2,3,4) ins])
  then show ?thesis unfolding st' using inv_published [OF _ pub] by simp
qed

lemma inv_new_template:
  assumes "insert_template (new_template env s) st = Inr st'" and "template_inv h st"
  shows "template_inv h st' \<and> max_revision st' (sd_template s) = 0"
proof -
  have st': "st' = st\<lparr>templates := templates st @ [new_template env s]\<rparr>"
    and new: "sd_template s \<notin> set (map tp_id (templates st))"
    using assms(1) by (simp_all add: insert_template_ok new_template_def)
  have "revisions_of st (sd_template s) = []"
    using assms(2) new by (force simp: template_inv_def revisions_of_def filter_empty_conv)
  moreover from this have "getWorkflowTemplateRevision st (sd_template s) r = None" for r by (simp add: get_revision_None)
  then have "listWorkflowTemplatePublications st (sd_template s) = []"
    using assms(2) by (auto simp: template_inv_def listWorkflowTemplatePublications_def filter_empty_conv)
  ultimately show ?thesis using assms(2) new
    by (auto simp: template_inv_def st' revisions_of_def getWorkflowTemplateRevision_def last_publication_def
        listWorkflowTemplatePublications_def new_template_def max_revision_def sql_max_def)
qed

lemma inv_seed:
  assumes "importWorkflowTemplateSeed env s st = Inr (result, st')" and "template_inv h st" and "sha256 env = h"
  shows "template_inv h st'"
proof -
  obtain m where m: "validateWorkflowManifest (sd_manifest s) = Inr m"
    using assms(1) by (auto simp: importWorkflowTemplateSeed_def and_then_ok checked_ok)
  show ?thesis
  proof (cases "getWorkflowTemplate st (sd_template s)")
    case None
    then obtain st1 where st1: "insert_template (new_template env s) st = Inr st1"
        "seed_revision env s m 1 Imported st1 = Inr st'"
      using assms(1) m by (auto simp: importWorkflowTemplateSeed_def and_then_ok checked_ok split: if_splits)
    then show ?thesis
      using inv_new_template [OF st1(1) assms(2)] inv_seed_revision [of env s m st1 Imported st' h] validate_wf [OF m] assms(3)
      by simp
  next
    case (Some t)
    then show ?thesis
      using assms m inv_seed_revision [OF _ assms(2) validate_wf [OF m] assms(3)]
      by (auto simp: importWorkflowTemplateSeed_def Let_def and_then_ok checked_ok split: if_splits)
  qed
qed

lemma ledger_call_ok: "ledger_call r = Inr x \<longleftrightarrow> r = Inr x"
  by (cases r) (simp_all add: ledger_call_def)

lemma materialize_ok:
  assumes "materializeWorkflowRun env q (st, db) = Inr (row, st', db')"
  obtains t r base m ov where "resolve_template st (rq_project q) (rq_category q) = Inr (t, r, base)"
    "apply_optional base (rq_override q) = Inr (m, ov)"
    "insert_run (materialized_row env q t r (json_stringify (run_snapshot_json env t r m ov))) db = Inr db'"
    "getWorkflowRun db' (rq_run q) = Some row"
    "st' = audit_override env q t r ov st"
  using assms
  by (auto simp: materializeWorkflowRun_def Let_def and_then_ok checked_ok ledger_call_ok split: option.splits)

lemma resolve_ok:
  assumes "resolve_template st project category = Inr (t, r, base)"
  obtains x rev where "getWorkflowTemplate st t = Some x" "tp_current x = Some r" "scope_allows (tp_scope x) project"
    "getWorkflowTemplateRevision st t r = Some rev" "validateWorkflowManifest (tr_manifest rev) = Inr base"
proof -
  obtain b :: category_row and x rev where "getWorkflowTemplate st (cat_template b) = Some x" "tp_current x = Some r"
    "scope_allows (tp_scope x) project" "t = tp_id x"
    "getWorkflowTemplateRevision st (tp_id x) r = Some rev" "validateWorkflowManifest (tr_manifest rev) = Inr base"
    using assms by (auto simp: resolve_template_def and_then_ok checked_ok split: option.splits if_splits)
  then show thesis using that [of x rev] get_template_Some [of st "cat_template b" x] by simp
qed

lemma inserted_run:
  assumes "insert_run r db = Inr db'" and "run_id r = i" and "getWorkflowRun db' i = Some row"
  shows "row = r \<and> db' = db\<lparr>runs := runs db @ [row]\<rparr>"
proof -
  have "run_id r \<notin> set (map run_id (runs db))" "db' = db\<lparr>runs := runs db @ [r]\<rparr>"
    using assms(1) by (auto simp: insert_run_def split: if_splits)
  moreover from this have "List.find (\<lambda>x. run_id x = i) (runs db) = None"
    using assms(2) unfolding find_None_iff' by (metis image_eqI list.set_map)
  ultimately show ?thesis using assms(2,3) by (simp add: getWorkflowRun_def find_run_def find_append)
qed

text \<open>With or without an override the run's manifest is accepted and keeps the line of the base.\<close>

lemma optional_keeps:
  assumes "apply_optional base v = Inr (m, ov)" and "wf_manifest base"
  shows "validateWorkflowManifest (manifest_json m) = Inr m
    \<and> manifest_route m = filter (\<lambda>i. i \<in> set (node_ids m)) (manifest_route base)
    \<and> (\<forall>n \<in> set (mf_nodes base). mn_type n = Qa \<or> mn_type n = Gate \<longrightarrow> mn_id n \<in> set (node_ids m))
    \<and> mf_loops m = mf_loops base \<and> terminal_node m = terminal_node base \<and> ship_claims m = ship_claims base"
proof (cases v)
  case None
  then have "m = base" using assms(1) by (simp add: apply_optional_def)
  moreover have "filter (\<lambda>i. i \<in> set (node_ids base)) (manifest_route base) = manifest_route base"
    using wf_route(2) [OF assms(2)] by (auto simp: filter_id_conv)
  ultimately show ?thesis using wf_validates [OF assms(2)] by (auto simp: node_ids_def)
next
  case (Some o')
  then obtain ov' where "applyWorkflowOverride (manifest_json base) o' = Inr (m, ov')"
    using assms(1) by (auto simp: apply_optional_def and_then_ok)
  from override_keeps [OF this] show ?thesis using wf_validates [OF assms(2)] by auto
qed

lemma materialize_store:
  assumes "materializeWorkflowRun env q (st, db) = Inr (row, st', db')"
  shows "st' = st \<or> (\<exists>a. st' = audit_template a st)"
  by (rule materialize_ok [OF assms]) (auto simp: audit_override_def split: option.splits)

lemma inv_step: "template_step h st st' \<Longrightarrow> template_inv h st \<Longrightarrow> template_inv h st'"
proof (induction rule: template_step.induct)
  case (bind env project c t who st st')
  then show ?case by (auto simp: bindWorkflowCategory_def Let_def split: option.splits if_splits)
next
  case (materialise env q st db row st' db')
  then show ?case using materialize_store [of env q st db row st' db'] by auto
qed (auto intro: inv_create inv_publish inv_seed)

lemma inv_reach: "template_reach h st \<Longrightarrow> template_inv h st"
proof (induction rule: template_reach.induct)
  case 1
  show ?case
    by (simp add: template_inv_def empty_templates_def revisions_of_def numbered_def)
qed (rule inv_step)

end
