(* ===== verification/TemplateLogs.thy ===== *)
theory TemplateLogs
  imports TemplateInv "HOL-Library.Sublist"
begin

section \<open>The logs of the template store\<close>

text \<open>
  Every call extends the revision, publication and audit tables at the end and leaves a template's author
  and founder ownership in place; the outcomes of a seed import.
\<close>

subsection \<open>Append-only logs\<close>

definition owner_kept :: "template_row \<Rightarrow> template_row \<Rightarrow> bool" where
  "owner_kept x y = (tp_created_by y = tp_created_by x \<and> tp_created_at y = tp_created_at x
     \<and> (tp_seed_owner x = ''founder'' \<longrightarrow> tp_seed_owner y = ''founder''))"

definition logs_kept :: "template_store \<Rightarrow> template_store \<Rightarrow> bool" where
  "logs_kept st st' = (prefix (revisions st) (revisions st') \<and> prefix (publications st) (publications st')
     \<and> prefix (template_audit st) (template_audit st')
     \<and> (\<forall>t x. getWorkflowTemplate st t = Some x \<longrightarrow> (\<exists>y. getWorkflowTemplate st' t = Some y \<and> owner_kept x y)))"

lemma owner_kept_refl [simp]: "owner_kept x x"
  by (simp add: owner_kept_def)

lemma logs_refl [simp]: "logs_kept st st"
  by (auto simp: logs_kept_def)

lemma owner_kept_trans: "owner_kept x y \<Longrightarrow> owner_kept y z \<Longrightarrow> owner_kept x z"
  by (simp add: owner_kept_def)

lemma logs_trans: "logs_kept a b \<Longrightarrow> logs_kept b c \<Longrightarrow> logs_kept a c"
  unfolding logs_kept_def by (meson owner_kept_trans prefix_order.trans)

lemma logs_same_templates:
  "templates st' = templates st \<Longrightarrow> prefix (revisions st) (revisions st') \<Longrightarrow> prefix (publications st) (publications st')
    \<Longrightarrow> prefix (template_audit st) (template_audit st') \<Longrightarrow> logs_kept st st'"
  by (auto simp: logs_kept_def getWorkflowTemplate_def)

lemma logs_audit [simp]: "logs_kept st (audit_template a st)"
  by (rule logs_same_templates) (simp_all add: audit_template_def)

lemma find_set_template:
  assumes "\<And>x. tp_id (f x) = tp_id x"
  shows "getWorkflowTemplate (set_template t f st) u
    = map_option (\<lambda>x. if tp_id x = t then f x else x) (getWorkflowTemplate st u)"
proof -
  have "find (\<lambda>x. tp_id x = u) (map (\<lambda>x. if tp_id x = t then f x else x) xs)
      = map_option (\<lambda>x. if tp_id x = t then f x else x) (find (\<lambda>x. tp_id x = u) xs)" for xs
    by (induction xs) (simp_all add: assms)
  then show ?thesis by (simp add: getWorkflowTemplate_def set_template_def)
qed

lemma logs_set_template:
  assumes "\<And>x. tp_id (f x) = tp_id x" and "\<And>x. owner_kept x (f x)"
  shows "logs_kept st (set_template t f st)"
  using assms by (auto simp: logs_kept_def find_set_template [of f, OF assms(1)]) (simp_all add: set_template_def)

lemma logs_insert_revision: "insert_revision r st = Inr st' \<Longrightarrow> logs_kept st st'"
  by (rule logs_same_templates) (auto simp: insert_revision_ok)

lemma logs_insert_publication: "insert_publication p st = Inr st' \<Longrightarrow> logs_kept st st'"
  by (rule logs_same_templates) (auto simp: insert_publication_ok)

lemma logs_insert_template: "insert_template t st = Inr st' \<Longrightarrow> logs_kept st st'"
  by (auto simp: insert_template_ok logs_kept_def getWorkflowTemplate_def find_append)

lemma logs_create: "createWorkflowTemplateRevision env t v d n who st = Inr (r, st') \<Longrightarrow> logs_kept st st'"
proof (erule create_ok)
  fix m st1 a
  assume "insert_revision (revision_of env t (max_revision st t + 1) m who) st = Inr st1"
    and st': "st' = mark_author who t (audit_template a st1)"
  then have "logs_kept st (audit_template a st1)" using logs_insert_revision logs_audit logs_trans by blast
  moreover have "logs_kept s (mark_author who t s)" for s
    by (auto simp: mark_author_def owner_kept_def intro: logs_set_template)
  ultimately show "logs_kept st st'" unfolding st' using logs_trans by blast
qed

lemma logs_publish: "publishWorkflowTemplate env t r e who st = Inr (result, st') \<Longrightarrow> logs_kept st st'"
proof (erule publish_cases)
  fix a st1
  assume "insert_publication (publication_of env t r who) st = Inr st1"
    and st': "st' = audit_template a (set_template t (published_row r who) st1)"
  then have "logs_kept st st1" using logs_insert_publication by blast
  moreover have "logs_kept st1 (set_template t (published_row r who) st1)"
    by (rule logs_set_template) (auto simp: published_row_def owner_kept_def)
  ultimately show "logs_kept st st'" unfolding st' using logs_trans logs_audit by blast
qed simp

lemma seed_revision_ok:
  assumes "seed_revision env s m n status st = Inr st'"
  obtains st1 st2 a where "insert_revision (revision_of env (sd_template s) n m ''system'') st = Inr st1"
    "insert_publication (publication_of env (sd_template s) n ''system'') st1 = Inr st2"
    "st' = audit_template a (set_template (sd_template s) (\<lambda>x. x\<lparr>tp_name := sd_name s, tp_scope := sd_scope s,
            tp_current := Some n, tp_seed_hash := Some (sd_hash s)\<rparr>) st2)"
  using assms by (auto simp: seed_revision_def and_then_ok split: if_splits)

lemma logs_seed_revision: "seed_revision env s m n status st = Inr st' \<Longrightarrow> logs_kept st st'"
proof (erule seed_revision_ok)
  fix st1 st2 a
  assume "insert_revision (revision_of env (sd_template s) n m ''system'') st = Inr st1"
    "insert_publication (publication_of env (sd_template s) n ''system'') st1 = Inr st2"
  then have "logs_kept st st2" using logs_insert_revision logs_insert_publication logs_trans by blast
  moreover have "logs_kept st2 (set_template (sd_template s) (\<lambda>x. x\<lparr>tp_name := sd_name s, tp_scope := sd_scope s,
            tp_current := Some n, tp_seed_hash := Some (sd_hash s)\<rparr>) st2)"
    by (rule logs_set_template) (auto simp: owner_kept_def)
  moreover assume "st' = audit_template a (set_template (sd_template s) (\<lambda>x. x\<lparr>tp_name := sd_name s,
            tp_scope := sd_scope s, tp_current := Some n, tp_seed_hash := Some (sd_hash s)\<rparr>) st2)"
  ultimately show "logs_kept st st'" using logs_trans logs_audit by blast
qed

text \<open>The three outcomes of an import.\<close>

lemma import_cases:
  assumes "importWorkflowTemplateSeed env s st = Inr ((status, n), st')"
  obtains (fresh) m st1 where "getWorkflowTemplate st (sd_template s) = None" "status = Imported" "n = 1"
      "insert_template (new_template env s) st = Inr st1" "seed_revision env s m 1 Imported st1 = Inr st'"
  | (unchanged) t where "getWorkflowTemplate st (sd_template s) = Some t" "tp_seed_hash t = Some (sd_hash s)"
      "status = Unchanged" "n = or_else (tp_current t) 1" "st' = st"
  | (refused) t a where "getWorkflowTemplate st (sd_template s) = Some t" "tp_seed_hash t \<noteq> Some (sd_hash s)"
      "tp_seed_owner t = ''founder''" "status = Refused" "n = or_else (tp_current t) 1" "st' = audit_template a st"
  | (updated) t m where "getWorkflowTemplate st (sd_template s) = Some t" "tp_seed_hash t \<noteq> Some (sd_hash s)"
      "tp_seed_owner t \<noteq> ''founder''" "status = Updated" "n = max_revision st (sd_template s) + 1"
      "seed_revision env s m n Updated st = Inr st'"
proof -
  obtain m where m: "validateWorkflowManifest (sd_manifest s) = Inr m"
    using assms by (auto simp: importWorkflowTemplateSeed_def and_then_ok checked_ok)
  show thesis
  proof (cases "getWorkflowTemplate st (sd_template s)")
    case None
    then obtain st1 where "insert_template (new_template env s) st = Inr st1"
        "seed_revision env s m 1 Imported st1 = Inr st'" "status = Imported" "n = 1"
      using assms m by (auto simp: importWorkflowTemplateSeed_def and_then_ok checked_ok split: if_splits)
    then show thesis using None fresh by blast
  next
    case (Some t)
    consider "tp_seed_hash t = Some (sd_hash s)"
      | "tp_seed_hash t \<noteq> Some (sd_hash s)" "tp_seed_owner t = ''founder''"
      | "tp_seed_hash t \<noteq> Some (sd_hash s)" "tp_seed_owner t \<noteq> ''founder''" by blast
    then show thesis
    proof cases
      case 1
      then have "status = Unchanged" "n = or_else (tp_current t) 1" "st' = st"
        using assms m Some by (auto simp: importWorkflowTemplateSeed_def checked_def split: if_splits)
      then show thesis using Some 1 unchanged by blast
    next
      case 2
      then obtain a where "status = Refused" "n = or_else (tp_current t) 1" "st' = audit_template a st"
        using assms m Some by (auto simp: importWorkflowTemplateSeed_def checked_def split: if_splits)
      then show thesis using Some 2 refused by blast
    next
      case 3
      then have "status = Updated \<and> n = max_revision st (sd_template s) + 1
          \<and> seed_revision env s m (max_revision st (sd_template s) + 1) Updated st = Inr st'"
        using assms m Some
        by (auto simp: importWorkflowTemplateSeed_def checked_def Let_def and_then_ok split: if_splits)
      then show thesis using Some 3 updated by blast
    qed
  qed
qed

lemma logs_seed: "importWorkflowTemplateSeed env s st = Inr ((status, n), st') \<Longrightarrow> logs_kept st st'"
  by (erule import_cases) (auto intro: logs_trans logs_insert_template logs_seed_revision)

lemma logs_step: "template_step h st st' \<Longrightarrow> logs_kept st st'"
proof (induction rule: template_step.induct)
  case (seed env s st result st')
  then show ?case using logs_seed by (cases result) simp
next
  case (bind env project c t who st st')
  have "logs_kept st (upsert_category x st)" for x
    by (rule logs_same_templates) (simp_all add: upsert_category_def)
  then show ?case using bind logs_trans logs_audit
    by (fastforce simp: bindWorkflowCategory_def Let_def split: option.splits if_splits)
next
  case (materialise env q st db row st' db')
  then show ?case using materialize_store [of env q st db row st' db'] by auto
qed (auto intro: logs_create logs_publish)

lemma logs_steps: "(template_step h)\<^sup>*\<^sup>* st st' \<Longrightarrow> logs_kept st st'"
  by (induction rule: rtranclp_induct) (auto intro: logs_trans logs_step)

text \<open>The template row after the seed's revision is in.\<close>

lemma seed_revision_row:
  assumes "seed_revision env s m n status st = Inr st'" and "getWorkflowTemplate st (sd_template s) \<noteq> None"
  shows "\<exists>x. getWorkflowTemplate st' (sd_template s) = Some x \<and> tp_seed_hash x = Some (sd_hash s) \<and> tp_current x = Some n"
proof -
  let ?f = "\<lambda>x. x\<lparr>tp_name := sd_name s, tp_scope := sd_scope s, tp_current := Some n, tp_seed_hash := Some (sd_hash s)\<rparr>"
  obtain st1 st2 a where ins: "insert_revision (revision_of env (sd_template s) n m ''system'') st = Inr st1"
    "insert_publication (publication_of env (sd_template s) n ''system'') st1 = Inr st2"
    and st': "st' = audit_template a (set_template (sd_template s) ?f st2)" by (rule seed_revision_ok [OF assms(1)])
  have "templates st2 = templates st" using ins by (auto simp: insert_revision_ok insert_publication_ok)
  then obtain x where x: "getWorkflowTemplate st2 (sd_template s) = Some x"
    using assms(2) by (auto simp: getWorkflowTemplate_def)
  then have "getWorkflowTemplate (set_template (sd_template s) ?f st2) (sd_template s) = Some (?f x)"
    using get_template_Some [OF x] by (subst find_set_template) auto
  then show ?thesis by (simp add: st' getWorkflowTemplate_def audit_template_def)
qed

end
