(* ===== verification/ManifestProps.thy ===== *)
theory ManifestProps
  imports ManifestOverride
begin

section \<open>Properties of workflow manifests\<close>

text \<open>
  What acceptance means, that accepted manifests are the fixed points of the validator, and what an
  override can change; the example is the bundled seed \<open>tpl_eng_trivial.yaml\<close>.
\<close>

subsection \<open>The bundled seed\<close>

definition seed_agent :: "string \<Rightarrow> node_type \<Rightarrow> vendor \<Rightarrow> string \<Rightarrow> manifest_node" where
  "seed_agent i ty v model = \<lparr>mn_id = i, mn_type = ty, mn_vendor = Some v, mn_model = Some model,
     mn_effort = None, mn_handoff = True\<rparr>"

definition tpl_eng_trivial :: manifest where
  "tpl_eng_trivial = \<lparr>mf_nodes =
       [seed_agent ''design'' Design Codex ''gpt-5.6-sol'', seed_agent ''implement'' Implement Codex ''gpt-5.6-sol'',
        seed_agent ''qa'' Qa Claude ''claude-fable-5'',
        \<lparr>mn_id = ''founder_gate'', mn_type = Gate, mn_vendor = None, mn_model = None, mn_effort = None, mn_handoff = False\<rparr>],
     mf_edges =
       [\<lparr>me_id = ''design_done'', me_from = ''design'', me_to = ''implement'', me_condition = Design_done\<rparr>,
        \<lparr>me_id = ''implement_done'', me_from = ''implement'', me_to = ''qa'', me_condition = Implement_done\<rparr>,
        \<lparr>me_id = ''qa_pass'', me_from = ''qa'', me_to = ''founder_gate'', me_condition = Qa_pass\<rparr>],
     mf_loops = [\<lparr>ml_id = ''qa_retry'', ml_from = ''qa'', ml_to = ''implement'', loop_when = Qa_fail, max_iterations = 3\<rparr>],
     terminal_node = ''founder_gate'', ship_claims = [Qa_passed, Founder_approved]\<rparr>"

definition seed_value :: json where
  "seed_value = manifest_json tpl_eng_trivial"

definition skip_design :: json where
  "skip_design = JObj [(''reason'', JStr ''smoke''), (''nodes'', JObj [(''design'', JObj [(''skip'', JBool True)])])]"

text \<open>The seed with the design phase skipped.\<close>

definition seed_without_design :: manifest where
  "seed_without_design = tpl_eng_trivial\<lparr>mf_nodes := tl (mf_nodes tpl_eng_trivial),
     mf_edges := tl (mf_edges tpl_eng_trivial)\<rparr>"

lemma clean_code [code]: "clean s \<longleftrightarrow> s \<noteq> [] \<and> (letter (hd s) \<and> letter (last s) \<or> trim s = s)"
  by (auto simp: clean_def trim_code)

lemma seed_graph:
  "check_graph (mf_nodes tpl_eng_trivial) (mf_edges tpl_eng_trivial) (mf_loops tpl_eng_trivial) (terminal_node tpl_eng_trivial) = None"
  by code_simp

lemma shorter_graph:
  "check_graph (mf_nodes seed_without_design) (mf_edges seed_without_design) (mf_loops seed_without_design)
     (terminal_node seed_without_design) = None"
  by code_simp

lemma seed_parts:
  "list_all (wf_edge (node_ids tpl_eng_trivial)) (mf_edges tpl_eng_trivial)"
  "list_all (wf_loop (node_ids tpl_eng_trivial)) (mf_loops tpl_eng_trivial)"
  "distinct (map me_id (mf_edges tpl_eng_trivial) @ map ml_id (mf_loops tpl_eng_trivial))"
  by code_simp+

lemma shorter_parts:
  "list_all (wf_edge (node_ids seed_without_design)) (mf_edges seed_without_design)"
  "list_all (wf_loop (node_ids seed_without_design)) (mf_loops seed_without_design)"
  "distinct (map me_id (mf_edges seed_without_design) @ map ml_id (mf_loops seed_without_design))"
  by code_simp+

lemma seed_nodes: "list_all wf_node (mf_nodes tpl_eng_trivial)"
proof -
  have "clean ''design''" "clean ''implement''" "clean ''qa''" "clean ''founder_gate''" "clean ''gpt-5.6-sol''"
    "clean ''claude-fable-5''" "compatibleModel Codex ''gpt-5.6-sol''" "compatibleModel Claude ''claude-fable-5''"
    by code_simp+
  then show ?thesis by (simp add: tpl_eng_trivial_def seed_agent_def wf_node_def)
qed

lemma seed_wf: "wf_manifest tpl_eng_trivial"
proof -
  have "distinct (map mn_id (mf_nodes tpl_eng_trivial))"
    "length (filter (\<lambda>n. mn_type n = Qa) (mf_nodes tpl_eng_trivial)) = 1"
    "map_option mn_type (find (\<lambda>n. mn_id n = terminal_node tpl_eng_trivial) (mf_nodes tpl_eng_trivial)) = Some Gate"
    "distinct (ship_claims tpl_eng_trivial)" "Qa_passed \<in> set (ship_claims tpl_eng_trivial)"
    "Founder_approved \<in> set (ship_claims tpl_eng_trivial)" "mf_nodes tpl_eng_trivial \<noteq> []"
    by code_simp+
  then show ?thesis using seed_parts seed_graph seed_nodes by (simp add: wf_manifest_def node_ids_def)
qed

lemma shorter_wf: "wf_manifest seed_without_design"
proof -
  have "distinct (map mn_id (mf_nodes seed_without_design))"
    "length (filter (\<lambda>n. mn_type n = Qa) (mf_nodes seed_without_design)) = 1"
    "map_option mn_type (find (\<lambda>n. mn_id n = terminal_node seed_without_design) (mf_nodes seed_without_design)) = Some Gate"
    "distinct (ship_claims seed_without_design)" "Qa_passed \<in> set (ship_claims seed_without_design)"
    "Founder_approved \<in> set (ship_claims seed_without_design)" "mf_nodes seed_without_design \<noteq> []"
    by code_simp+
  moreover have "mf_nodes seed_without_design = tl (mf_nodes tpl_eng_trivial)" by (simp add: seed_without_design_def)
  then have "list_all wf_node (mf_nodes seed_without_design)"
    using seed_nodes by (cases "mf_nodes tpl_eng_trivial") simp_all
  ultimately show ?thesis using shorter_parts shorter_graph by (simp add: wf_manifest_def node_ids_def)
qed

lemma seed_valid: "validateWorkflowManifest seed_value = Inr tpl_eng_trivial"
  unfolding seed_value_def by (rule wf_validates [OF seed_wf])

lemma seed_edits: "override_nodes [(''design'', JObj [(''skip'', JBool True)])] tpl_eng_trivial = Inr seed_without_design"
  by code_simp

subsection \<open>What acceptance means\<close>

text \<open>C11: An accepted manifest is one line of phases: from its only start node, following the edges visits
  every node exactly once and ends at the terminal gate. There is exactly one QA node, it comes before the
  gate, the terminal gate is the only gate, and the only loop is the QA node's \<open>qa_fail\<close> loop.\<close>

theorem accepted_manifest_is_one_line:
  assumes "validateWorkflowManifest v = Inr m"
  shows "distinct (manifest_route m) \<and> set (manifest_route m) = set (node_ids m)
    \<and> last (manifest_route m) = terminal_node m
    \<and> map mn_id (filter (\<lambda>n. mn_type n = Gate) (mf_nodes m)) = [terminal_node m]
    \<and> (\<exists>q l. filter (\<lambda>n. mn_type n = Qa) (mf_nodes m) = [q] \<and> mn_id q \<in> set (butlast (manifest_route m))
        \<and> mf_loops m = [l] \<and> ml_from l = mn_id q \<and> loop_when l = Qa_fail)"
proof -
  have wf: "wf_manifest m" by (rule validate_wf [OF assms])
  obtain q where q: "filter (\<lambda>n. mn_type n = Qa) (mf_nodes m) = [q]" using wf_one_qa [OF wf] by blast
  obtain l where l: "mf_loops m = [l]" "ml_from l = mn_id q" "loop_when l = Qa_fail"
    using wf_one_loop [OF wf q] by blast
  have "q \<in> set (mf_nodes m)" "mn_type q = Qa" using arg_cong [OF q, of set] by auto
  then have "mn_id q \<in> set (manifest_route m)" "mn_id q \<noteq> last (manifest_route m)"
    using wf_route(2,3) [OF wf] wf_gate [OF wf] by (auto simp: node_ids_def)
  then have "mn_id q \<in> set (butlast (manifest_route m))" by (cases "manifest_route m" rule: rev_cases) auto
  then show ?thesis using wf_route [OF wf] wf_only_gate [OF wf] q l by blast
qed

theorem accepted_manifest_is_one_line_witness:
  "distinct (manifest_route tpl_eng_trivial) \<and> last (manifest_route tpl_eng_trivial) = ''founder_gate''"
  using accepted_manifest_is_one_line [OF seed_valid] by (simp add: tpl_eng_trivial_def)

text \<open>C29: The values the validator accepts are exactly the JSON forms of well-formed manifests, up to the white
  space around names: a manifest is returned for some value just when it is returned for its own JSON.\<close>

theorem accepted_manifests_are_fixed_points:
  "((\<exists>v. validateWorkflowManifest v = Inr m) \<longleftrightarrow> validateWorkflowManifest (manifest_json m) = Inr m)
    \<and> (wf_manifest m \<longleftrightarrow> validateWorkflowManifest (manifest_json m) = Inr m)"
  using accepted_iff [of m] wf_validates [of m] by blast

text \<open>The cycle check is exact: for edges between declared nodes the depth-first search throws just when the
  edges contain a cycle.\<close>

theorem cycle_check_exact:
  assumes "\<forall>e \<in> set es. me_from e \<in> set ids \<and> me_to e \<in> set ids"
  shows "assertAcyclic ids es \<longleftrightarrow> acyclic {(me_from e, me_to e) | e. e \<in> set es}"
proof -
  have "{(me_from e, me_to e) | e. e \<in> set es} = edge_rel es" by (auto simp: edge_rel_def)
  then show ?thesis using assms assertAcyclic_iff [of es ids] by (auto simp: closed_rel_def edge_rel_def)
qed

definition back_edge :: manifest_edge where
  "back_edge = \<lparr>me_id = ''again'', me_from = ''qa'', me_to = ''design'', me_condition = Qa_pass\<rparr>"

theorem cycle_check_exact_witness:
  "\<not> acyclic {(me_from e, me_to e) | e. e \<in> set (back_edge # mf_edges tpl_eng_trivial)}"
proof -
  have "\<forall>e \<in> set (back_edge # mf_edges tpl_eng_trivial). me_from e \<in> set (node_ids tpl_eng_trivial)
      \<and> me_to e \<in> set (node_ids tpl_eng_trivial)"
    "\<not> assertAcyclic (node_ids tpl_eng_trivial) (back_edge # mf_edges tpl_eng_trivial)" by code_simp+
  then show ?thesis using cycle_check_exact by blast
qed

subsection \<open>What an override can change\<close>

text \<open>C18: An accepted override yields an accepted manifest with the phases of the original in the original
  order, less the skipped ones: nodes keep all but model and effort, QA, gates and the nodes of a loop stay,
  and the loops, the terminal gate and the ship claims do not change.\<close>

theorem override_keeps_route:
  assumes "applyWorkflowOverride v override = Inr (m', ov)"
  shows "validateWorkflowManifest (manifest_json m') = Inr m' \<and> (\<exists>m. validateWorkflowManifest v = Inr m
    \<and> manifest_route m' = filter (\<lambda>i. i \<in> set (node_ids m')) (manifest_route m)
    \<and> map phase_of (mf_nodes m') = map phase_of (filter (\<lambda>n. mn_id n \<in> set (node_ids m')) (mf_nodes m))
    \<and> (\<forall>n \<in> set (mf_nodes m). mn_type n = Qa \<or> mn_type n = Gate \<or> loop_node m (mn_id n) \<longrightarrow> mn_id n \<in> set (node_ids m'))
    \<and> mf_loops m' = mf_loops m \<and> terminal_node m' = terminal_node m \<and> ship_claims m' = ship_claims m)"
  by (rule override_keeps [OF assms])

lemma seed_override:
  "applyWorkflowOverride seed_value skip_design = Inr (seed_without_design,
     \<lparr>ov_reason = ''smoke'', ov_nodes = [(''design'', JObj [(''skip'', JBool True)])]\<rparr>)"
proof -
  have parts: "nonempty (JStr ''smoke'') p = Inr ''smoke''" for p
  proof -
    have "trim ''smoke'' = ''smoke''" by code_simp
    then show ?thesis by simp
  qed
  show ?thesis
    unfolding applyWorkflowOverride_def seed_valid skip_design_def and_then_simps record_of.simps
    by (simp add: exactKeys_ok prop_of_Cons parts seed_edits wf_validates [OF shorter_wf]
        del: nonempty.simps override_nodes.simps)
qed

theorem override_keeps_route_witness:
  "manifest_route seed_without_design
    = filter (\<lambda>i. i \<in> set (node_ids seed_without_design)) (manifest_route tpl_eng_trivial)"
  using override_keeps_route [OF seed_override] seed_valid by auto

end
