(* ===== verification/TemplateProps.thy ===== *)
theory TemplateProps
  imports TemplateLogs ManifestProps
begin

section \<open>Properties of the template store\<close>

text \<open>
  The store over its whole life, the compare-and-set of a publication, what the seed import leaves alone,
  and what a materialised run pins.
\<close>

subsection \<open>A store with one seed\<close>

definition plain_env :: run_env where
  "plain_env = \<lparr>now_iso = ''now'', sql_now = ''now'', fresh_token = ''t'', sha256 = (\<lambda>s. s), other_date = (\<lambda>_. None)\<rparr>"

definition demo_seed :: workflow_seed where
  "demo_seed = (let s = \<lparr>sd_template = ''tpl'', sd_name = ''Engineering'', sd_scope = ''global'',
     sd_manifest = seed_value, sd_hash = []\<rparr> in s\<lparr>sd_hash := workflowSeedContentHash plain_env s\<rparr>)"

definition seeded_row :: template_row where
  "seeded_row = \<lparr>tp_id = ''tpl'', tp_name = ''Engineering'', tp_scope = ''global'', tp_current = Some 1,
     tp_created_by = ''system'', tp_created_at = ''now'', tp_seed_owner = ''system'', tp_seed_hash = Some (sd_hash demo_seed)\<rparr>"

definition seeded :: template_store where
  "seeded = \<lparr>templates = [seeded_row], revisions = [revision_of plain_env ''tpl'' 1 tpl_eng_trivial ''system''],
     publications = [publication_of plain_env ''tpl'' 1 ''system''], categories = [],
     template_audit = [audit_row plain_env ''system'' ''seed_import'' ''tpl'' (Some 1) None (seed_status_json Imported)]\<rparr>"

lemma demo_hash: "sd_hash demo_seed = workflowSeedContentHash plain_env (demo_seed\<lparr>sd_manifest := manifest_json tpl_eng_trivial\<rparr>)"
  by (simp add: demo_seed_def Let_def workflowSeedContentHash_def seed_value_def)

lemma demo_parts: "sd_template demo_seed = ''tpl''" "sd_name demo_seed = ''Engineering''" "sd_scope demo_seed = ''global''"
  "sd_manifest demo_seed = seed_value"
  by (simp_all add: demo_seed_def Let_def)

lemma demo_env: "sql_now plain_env = ''now''" "sha256 plain_env = (\<lambda>s. s)"
  by (simp_all add: plain_env_def)

lemma demo_import: "importWorkflowTemplateSeed plain_env demo_seed empty_templates = Inr ((Imported, 1), seeded)"
  unfolding importWorkflowTemplateSeed_def demo_parts seed_valid checked_def sum.case and_then_simps
  by (simp flip: demo_hash)
    (simp add: getWorkflowTemplate_def empty_templates_def insert_template_def new_template_def demo_parts demo_env
      scope_ok_def seed_revision_def insert_revision_def getWorkflowTemplateRevision_def revision_of_def
      insert_publication_def publication_of_def audit_template_def set_template_def seeded_def seeded_row_def)

lemma seeded_reach: "template_reach (\<lambda>s. s) seeded"
  by (rule template_reach.intros(2) [OF template_reach.intros(1) template_step.seed [OF demo_import]])
    (simp add: plain_env_def)

subsection \<open>The store over its whole life\<close>

text \<open>C19: Whatever calls are made, the revisions of a template are numbered 1, 2, 3, ... without a gap, each
  holds an accepted manifest with its digest, and the published revision of a template is an existing one,
  the last in its publication log.\<close>

theorem template_store_sound:
  assumes "template_reach h st"
  shows "map tr_revision (revisions_of st t) = map int [1 ..< Suc (length (revisions_of st t))]
    \<and> (\<forall>r \<in> set (revisions st). \<exists>m. validateWorkflowManifest (tr_manifest r) = Inr m
        \<and> tr_digest r = h (canonicalJsonString (manifest_json m)))
    \<and> (\<forall>x \<in> set (templates st). tp_current x
        = (let ps = listWorkflowTemplatePublications st (tp_id x) in if ps = [] then None else Some (pub_revision (last ps))))
    \<and> (\<forall>p \<in> set (publications st). getWorkflowTemplateRevision st (pub_template p) (pub_revision p) \<noteq> None)"
proof -
  have inv: "template_inv h st" by (rule inv_reach [OF assms])
  then have "numbered (map tr_revision (revisions_of st t))" by (simp add: template_inv_def)
  moreover have "\<exists>m. validateWorkflowManifest (tr_manifest r) = Inr m \<and> tr_digest r = h (canonicalJsonString (manifest_json m))"
    if "r \<in> set (revisions st)" for r
    using inv that wf_validates by (fastforce simp: template_inv_def sound_revision_def)
  ultimately show ?thesis using inv by (simp add: template_inv_def numbered_def last_publication_def)
qed

theorem template_store_sound_witness:
  "map tr_revision (revisions_of seeded ''tpl'') = map int [1 ..< Suc (length (revisions_of seeded ''tpl''))]"
  using template_store_sound [OF seeded_reach] by blast

subsection \<open>Append-only history and founder ownership\<close>

text \<open>C28: Through any sequence of calls the revision, publication and audit tables only grow at the end, no
  template disappears, and a template a founder has taken over stays the founder's; a seed import then
  leaves every template, revision and publication as it was and reports the published revision.\<close>

theorem founder_owned_seed_never_moves:
  assumes "(template_step h)\<^sup>*\<^sup>* st st'" and "getWorkflowTemplate st t = Some x" and "tp_seed_owner x = ''founder''"
    and "importWorkflowTemplateSeed env s st' = Inr ((status, n), st'')" and "sd_template s = t"
  shows "prefix (revisions st) (revisions st'') \<and> prefix (publications st) (publications st'')
    \<and> prefix (template_audit st) (template_audit st'')
    \<and> (\<exists>y. getWorkflowTemplate st'' t = Some y \<and> tp_seed_owner y = ''founder'' \<and> n = or_else (tp_current y) 1)
    \<and> (status = Unchanged \<or> status = Refused)
    \<and> templates st'' = templates st' \<and> revisions st'' = revisions st' \<and> publications st'' = publications st'"
proof -
  have kept: "logs_kept st st'" by (rule logs_steps [OF assms(1)])
  then obtain y where y: "getWorkflowTemplate st' t = Some y" "tp_seed_owner y = ''founder''"
    using assms(2,3) by (auto simp: logs_kept_def owner_kept_def)
  have "(st'' = st' \<and> status = Unchanged \<or> (\<exists>a. st'' = audit_template a st') \<and> status = Refused)
      \<and> n = or_else (tp_current y) 1"
    using assms(4)
  proof (cases rule: import_cases)
    case (unchanged z)
    then show ?thesis using y(1) assms(5) by simp
  next
    case (refused z a)
    moreover have "z = y" using refused(1) y(1) assms(5) by simp
    ultimately show ?thesis by blast
  next
    case (updated z m)
    then have "z = y" using y(1) assms(5) by simp
    then show ?thesis using updated(3) y(2) by blast
  qed (use y(1) assms(5) in simp)
  then have n: "n = or_else (tp_current y) 1" and "templates st'' = templates st'" "revisions st'' = revisions st'" "publications st'' = publications st'"
    "status = Unchanged \<or> status = Refused" by (auto simp: audit_template_def)
  then show ?thesis using kept y n logs_trans [OF kept logs_seed [OF assms(4)]] by (auto simp: logs_kept_def getWorkflowTemplate_def)
qed

definition founder_store :: template_store where
  "founder_store = set_template ''tpl'' (\<lambda>x. x\<lparr>tp_seed_owner := ''founder''\<rparr>) seeded"

lemma founder_import: "importWorkflowTemplateSeed plain_env demo_seed founder_store = Inr ((Unchanged, 1), founder_store)"
  unfolding importWorkflowTemplateSeed_def demo_parts seed_valid checked_def sum.case and_then_simps
  by (simp flip: demo_hash) (simp add: founder_store_def getWorkflowTemplate_def set_template_def seeded_def seeded_row_def)

theorem founder_owned_seed_never_moves_witness:
  "\<exists>y. getWorkflowTemplate founder_store ''tpl'' = Some y \<and> tp_seed_owner y = ''founder'' \<and> 1 = or_else (tp_current y) 1"
proof -
  have "getWorkflowTemplate founder_store ''tpl'' = Some (seeded_row\<lparr>tp_seed_owner := ''founder''\<rparr>)"
    by (simp add: founder_store_def getWorkflowTemplate_def set_template_def seeded_def seeded_row_def)
  then show ?thesis
    using founder_owned_seed_never_moves [OF rtranclp.rtrancl_refl _ _ founder_import demo_parts(1)] by simp
qed

subsection \<open>Importing a seed twice\<close>

text \<open>Importing the same seed again right after an import that was not refused changes nothing, and
  reports the revision of the first import.\<close>

theorem seed_import_idempotent:
  assumes "importWorkflowTemplateSeed env s st = Inr ((status, n), st')" and "status \<noteq> Refused"
    and "sha256 env' = sha256 env"
  shows "importWorkflowTemplateSeed env' s st' = Inr ((Unchanged, n), st')"
proof -
  obtain m where m: "validateWorkflowManifest (sd_manifest s) = Inr m"
      "sd_hash s = workflowSeedContentHash env (s\<lparr>sd_manifest := manifest_json m\<rparr>)"
    using assms(1) by (auto simp: importWorkflowTemplateSeed_def and_then_ok checked_ok split: if_splits)
  have row: "\<exists>x. getWorkflowTemplate st' (sd_template s) = Some x \<and> tp_seed_hash x = Some (sd_hash s) \<and> or_else (tp_current x) 1 = n"
    using assms(1)
  proof (cases rule: import_cases)
    case (fresh m' st1)
    have "getWorkflowTemplate st1 (sd_template s) \<noteq> None"
      using fresh(4) by (auto simp: get_template_None insert_template_ok new_template_def)
    then show ?thesis using seed_revision_row [OF fresh(5)] fresh(3) by (auto simp: or_else_def)
  next
    case (updated t m')
    then show ?thesis using seed_revision_row [OF updated(6)] by (auto simp: or_else_def)
  qed (use assms(2) in simp_all)
  have "workflowSeedContentHash env' u = workflowSeedContentHash env u" for u
    by (simp add: workflowSeedContentHash_def canonicalSubmissionDigest_def assms(3))
  then show ?thesis using row m(2) by (auto simp: importWorkflowTemplateSeed_def m(1) checked_def)
qed

theorem seed_import_idempotent_witness:
  "importWorkflowTemplateSeed plain_env demo_seed seeded = Inr ((Unchanged, 1), seeded)"
  by (rule seed_import_idempotent [OF demo_import]) simp_all

subsection \<open>Publishing\<close>

text \<open>Publication is a compare-and-set: a call that publishes found its expected revision in place and
  leaves its own there, and a second caller with the same expectation gets a conflict that names the
  winner's revision, with the store as it was.\<close>

theorem publish_is_compare_and_set:
  assumes "template_reach h st" and "publishWorkflowTemplate env t r expected who st = Inr (Published n, st')"
    and "expected \<noteq> Some r" and "getWorkflowTemplateRevision st t r' \<noteq> None"
  shows "n = r \<and> (\<exists>x y. getWorkflowTemplate st t = Some x \<and> tp_current x = expected
      \<and> getWorkflowTemplate st' t = Some y \<and> tp_current y = Some r)
    \<and> publishWorkflowTemplate env' t r' expected who' st' = Inr (Publish_conflict (Some r), st')"
proof -
  have inv: "template_inv h st" "template_inv h st'"
    using inv_reach [OF assms(1)] inv_publish [OF assms(2)] by simp_all
  obtain st1 a where st1: "n = r" "insert_publication (publication_of env t r who) st = Inr st1"
      "st' = audit_template a (set_template t (published_row r who) st1)"
      and ex: "\<exists>x \<in> set (templates st). tp_id x = t \<and> tp_current x = expected"
    by (cases rule: publish_cases [OF assms(2)]) auto
  obtain x where x: "getWorkflowTemplate st t = Some x" "tp_current x = expected"
    using ex inv(1) find_unique [of tp_id "templates st"] by (auto simp: template_inv_def getWorkflowTemplate_def)
  have same: "templates st1 = templates st" "revisions st1 = revisions st" using st1(2) by (auto simp: insert_publication_ok)
  then have y: "getWorkflowTemplate st' t = Some (published_row r who x)"
    using x(1) get_template_Some [OF x(1)] find_set_template [of "published_row r who" t st1 t] st1(3)
    by (simp add: getWorkflowTemplate_def audit_template_def)
  have r': "getWorkflowTemplateRevision st' t r' \<noteq> None"
    using assms(4) same(2) st1(3) by (simp add: getWorkflowTemplateRevision_def audit_template_def set_template_def)
  have "\<not> list_ex (\<lambda>x. tp_id x = t \<and> tp_current x = expected) (templates st')"
  proof -
    have "tp_current z = Some r" if "z \<in> set (templates st')" "tp_id z = t" for z
      using that y inv(2) find_unique [of tp_id "templates st'" z] by (auto simp: template_inv_def getWorkflowTemplate_def)
    then show ?thesis using assms(3) by (auto simp: list_ex_iff)
  qed
  then have "publishWorkflowTemplate env' t r' expected who' st' = Inr (Publish_conflict (Some r), st')"
    using r' y by (auto simp: publishWorkflowTemplate_def insert_publication_def publication_of_def)
  then show ?thesis using st1(1) x y by simp
qed

definition second_revision :: template_store where
  "second_revision = seeded\<lparr>revisions := revisions seeded @ [revision_of plain_env ''tpl'' 2 tpl_eng_trivial ''founder'']\<rparr>"

definition twice :: template_store where
  "twice = mark_author ''founder'' ''tpl'' (audit_template (audit_row plain_env ''founder'' ''create'' ''tpl'' (Some 2) None
     (JObj [(''manifest_digest'', JStr (canonicalSubmissionDigest plain_env (manifest_json tpl_eng_trivial)))])) second_revision)"

lemma create_twice: "createWorkflowTemplateRevision plain_env ''tpl'' seed_value None 1 ''founder'' seeded = Inr (2, twice)"
proof -
  have max: "max_revision seeded ''tpl'' = 1"
    by (simp add: max_revision_def revisions_of_def seeded_def revision_of_def sql_max_def)
  have "insert_revision (revision_of plain_env ''tpl'' 2 tpl_eng_trivial ''founder'') seeded = Inr second_revision"
    by (simp add: insert_revision_def getWorkflowTemplateRevision_def getWorkflowTemplate_def seeded_def seeded_row_def
        revision_of_def second_revision_def)
  moreover have "getWorkflowTemplate seeded ''tpl'' \<noteq> None" by (simp add: getWorkflowTemplate_def seeded_def seeded_row_def)
  ultimately show ?thesis
    unfolding createWorkflowTemplateRevision_def seed_valid checked_def sum.case and_then_simps
    by (simp add: Let_def max twice_def)
qed

lemma twice_reach: "template_reach (\<lambda>s. s) twice"
  by (rule template_reach.intros(2) [OF seeded_reach template_step.create [OF create_twice]]) (simp add: plain_env_def)

lemma twice_rows: "templates twice = [seeded_row\<lparr>tp_seed_owner := ''founder''\<rparr>]"
  "revisions twice = [revision_of plain_env ''tpl'' 1 tpl_eng_trivial ''system'', revision_of plain_env ''tpl'' 2 tpl_eng_trivial ''founder'']"
  by (simp_all add: twice_def mark_author_def set_template_def audit_template_def second_revision_def seeded_def seeded_row_def)

lemma publish_second:
  "\<exists>st'. publishWorkflowTemplate plain_env ''tpl'' 2 (Some 1) ''founder'' twice = Inr (Published 2, st')"
  by (simp add: publishWorkflowTemplate_def getWorkflowTemplateRevision_def insert_publication_def twice_rows
      publication_of_def revision_of_def seeded_row_def)

theorem publish_is_compare_and_set_witness:
  "\<exists>st'. publishWorkflowTemplate plain_env ''tpl'' 2 (Some 1) ''founder'' twice = Inr (Published 2, st')
    \<and> publishWorkflowTemplate plain_env ''tpl'' 1 (Some 1) ''founder'' st' = Inr (Publish_conflict (Some 2), st')"
proof -
  have one: "getWorkflowTemplateRevision twice ''tpl'' 1 \<noteq> None"
    by (simp add: getWorkflowTemplateRevision_def twice_rows revision_of_def)
  obtain st' where p: "publishWorkflowTemplate plain_env ''tpl'' 2 (Some 1) ''founder'' twice = Inr (Published 2, st')"
    using publish_second by blast
  have "publishWorkflowTemplate plain_env ''tpl'' 1 (Some 1) ''founder'' st' = Inr (Publish_conflict (Some 2), st')"
    using publish_is_compare_and_set [OF twice_reach p _ one, of plain_env "''founder''"] by simp
  with p show ?thesis by blast
qed

subsection \<open>What a run pins\<close>

text \<open>C12: A materialised run records the template and the revision that is published at that moment and a
  snapshot of an accepted manifest: the phases of that revision in their order, less those an override may
  skip, with the QA node, the loop, the gate and the ship claims of the revision; the run's row is the only
  change to the ledger.\<close>

theorem materialised_run_pins_manifest:
  assumes "template_reach h st" and "materializeWorkflowRun env q (st, db) = Inr (row, st', db')"
  shows "\<exists>t r x rev base m ov. run_template_id row = Some t \<and> run_template_revision row = Some r
    \<and> run_snapshot row = Some (json_stringify (run_snapshot_json env t r m ov)) \<and> db' = db\<lparr>runs := runs db @ [row]\<rparr>
    \<and> getWorkflowTemplate st t = Some x \<and> tp_current x = Some r \<and> scope_allows (tp_scope x) (rq_project q)
    \<and> getWorkflowTemplateRevision st t r = Some rev \<and> tr_manifest rev = manifest_json base
    \<and> validateWorkflowManifest (manifest_json m) = Inr m
    \<and> manifest_route m = filter (\<lambda>i. i \<in> set (node_ids m)) (manifest_route base)
    \<and> (\<forall>n \<in> set (mf_nodes base). mn_type n = Qa \<or> mn_type n = Gate \<longrightarrow> mn_id n \<in> set (node_ids m))
    \<and> mf_loops m = mf_loops base \<and> terminal_node m = terminal_node base \<and> ship_claims m = ship_claims base"
proof -
  obtain t r base m ov where res: "resolve_template st (rq_project q) (rq_category q) = Inr (t, r, base)"
    and ov: "apply_optional base (rq_override q) = Inr (m, ov)"
    and ins: "insert_run (materialized_row env q t r (json_stringify (run_snapshot_json env t r m ov))) db = Inr db'"
    and row: "getWorkflowRun db' (rq_run q) = Some row"
    by (rule materialize_ok [OF assms(2)])
  obtain x rev where x: "getWorkflowTemplate st t = Some x" "tp_current x = Some r" "scope_allows (tp_scope x) (rq_project q)"
    and rev: "getWorkflowTemplateRevision st t r = Some rev" "validateWorkflowManifest (tr_manifest rev) = Inr base"
    by (rule resolve_ok [OF res])
  have "sound_revision h rev"
    using inv_reach [OF assms(1)] get_revision_Some [OF rev(1)] by (simp add: template_inv_def)
  then have base: "tr_manifest rev = manifest_json base" "wf_manifest base"
    using rev(2) wf_validates by (auto simp: sound_revision_def)
  have "row = materialized_row env q t r (json_stringify (run_snapshot_json env t r m ov)) \<and> db' = db\<lparr>runs := runs db @ [row]\<rparr>"
    by (rule inserted_run [OF ins _ row]) (simp add: materialized_row_def)
  moreover have "validateWorkflowManifest (manifest_json m) = Inr m
      \<and> manifest_route m = filter (\<lambda>i. i \<in> set (node_ids m)) (manifest_route base)
      \<and> (\<forall>n \<in> set (mf_nodes base). mn_type n = Qa \<or> mn_type n = Gate \<longrightarrow> mn_id n \<in> set (node_ids m))
      \<and> mf_loops m = mf_loops base \<and> terminal_node m = terminal_node base \<and> ship_claims m = ship_claims base"
    by (rule optional_keeps [OF ov base(2)])
  ultimately show ?thesis using x rev(1) base(1)
    by (intro exI [of _ t] exI [of _ r] exI [of _ x] exI [of _ rev] exI [of _ base] exI [of _ m] exI [of _ ov])
      (simp add: materialized_row_def)
qed

definition demo_request :: run_request where
  "demo_request = \<lparr>rq_run = ''run-1'', rq_issue = ''FLY-1'', rq_project = ''flywheel'', rq_category = ''smoke'',
     rq_enrolled = True, rq_override = Some skip_design, rq_actor = ''founder''\<rparr>"

definition bound_store :: template_store where
  "bound_store = audit_template (audit_row plain_env ''founder'' ''rebind'' ''tpl'' None None
     (JObj [(''project'', JStr ''flywheel''), (''task_category'', JStr ''*'')]))
     (seeded\<lparr>categories := [\<lparr>cat_project = ''flywheel'', cat_category = ''*'', cat_template = ''tpl'',
        cat_updated_by = ''founder'', cat_updated_at = ''now''\<rparr>]\<rparr>)"

lemma bound_reach: "template_reach (\<lambda>s. s) bound_store"
proof (rule template_reach.intros(2) [OF seeded_reach template_step.bind])
  show "bindWorkflowCategory plain_env ''flywheel'' None ''tpl'' ''founder'' seeded = Inr bound_store"
    by (simp add: bindWorkflowCategory_def getWorkflowTemplate_def seeded_def seeded_row_def scope_allows_def category_of_def
        upsert_category_def bound_store_def plain_env_def Let_def)
qed

lemma demo_resolve: "resolve_template bound_store ''flywheel'' ''smoke'' = Inr (''tpl'', 1, tpl_eng_trivial)"
proof -
  have "getWorkflowCategoryBinding bound_store ''flywheel'' ''smoke'' = Some (hd (categories bound_store))"
    "cat_template (hd (categories bound_store)) = ''tpl''"
    by (simp_all add: getWorkflowCategoryBinding_def bound_store_def audit_template_def same_category_def)
  moreover have "getWorkflowTemplate bound_store ''tpl'' = Some seeded_row"
    by (simp add: getWorkflowTemplate_def bound_store_def audit_template_def seeded_def seeded_row_def)
  moreover have "getWorkflowTemplateRevision bound_store ''tpl'' 1 = Some (revision_of plain_env ''tpl'' 1 tpl_eng_trivial ''system'')"
    by (simp add: getWorkflowTemplateRevision_def bound_store_def audit_template_def seeded_def revision_of_def)
  ultimately show ?thesis
    using seed_valid
    by (simp add: resolve_template_def seeded_row_def scope_allows_def revision_of_def seed_value_def checked_def)
qed

lemma demo_materialise: "\<exists>row st' db'. materializeWorkflowRun plain_env demo_request (bound_store, empty_ledger) = Inr (row, st', db')"
proof -
  have "apply_optional tpl_eng_trivial (Some skip_design) = Inr (seed_without_design,
      Some \<lparr>ov_reason = ''smoke'', ov_nodes = [(''design'', JObj [(''skip'', JBool True)])]\<rparr>)"
    using seed_override by (simp add: apply_optional_def seed_value_def)
  then show ?thesis using demo_resolve
    by (simp add: materializeWorkflowRun_def demo_request_def checked_def insert_run_def materialized_row_def
        ledger_call_def empty_ledger_def getWorkflowRun_def find_run_def Let_def)
qed

theorem materialised_run_pins_manifest_witness:
  "\<exists>row st' db' t m. materializeWorkflowRun plain_env demo_request (bound_store, empty_ledger) = Inr (row, st', db')
    \<and> run_template_id row = Some t \<and> validateWorkflowManifest (manifest_json m) = Inr m"
  using demo_materialise materialised_run_pins_manifest [OF bound_reach] by blast

end
