(* ===== verification/Reviews.thy ===== *)
theory Reviews
  imports Sessions JsText
begin

section \<open>Review records, review jobs and QA records (StateStore.ts, codex-gate.ts, auto-qa-held.ts)\<close>

text \<open>
  The three tables behind the review gates: one QA record per reviewed head (\<open>auto_qa_record\<close>), one
  code-review record per head (\<open>codex_review_record\<close>) and the review jobs of the Codex author lane
  (\<open>codex_review_job\<close>), with every statement of the store that writes them; the rule that a reviewer
  comes from another family than the author (config/src/review-family.ts); and the founder hold of the
  bridge. A table is its rows in rowid order. The environment gives \<open>datetime('now')\<close> and the nonce.
\<close>

subsection \<open>Rows\<close>

datatype qa_status = Qa_running | Qa_awaiting_retest | Qa_passed | Qa_failed | Qa_superseded | Qa_stuck

record qa_row =
  aq_parent :: string
  aq_head :: string
  aq_issue :: string
  aq_project :: string
  aq_qa_execution :: "string option"
  aq_qa_issue_id :: "string option"
  aq_qa_issue_identifier :: "string option"
  aq_qa_issue_title :: "string option"
  aq_qa_issue_url :: "string option"
  aq_status :: qa_status
  aq_verdict_event :: "string option"
  aq_started_at :: string
  aq_completed_at :: "string option"
  aq_notified_at :: "string option"
  aq_retest_wake_pending_at :: "string option"

datatype review_status = Rv_pending | Rv_approved | Rv_skipped

text \<open>The evidence group: the columns a verdict writes together.\<close>

record evidence =
  er_verdict_event :: "string option"
  er_target :: "string option"
  er_thread :: "string option"
  er_rounds :: "string option"
  er_author_family :: "string option"
  er_reviewer_family :: "string option"
  er_request :: "string option"

record review_row =
  cr_execution :: string
  cr_head :: string
  cr_issue :: string
  cr_project :: string
  cr_status :: review_status
  cr_evidence :: evidence
  cr_created_at :: string
  cr_approved_at :: "string option"
  cr_hold_notified_at :: "string option"
  cr_stuck_notified_at :: "string option"

datatype review_type = Design_review | Code_review

datatype job_status = Job_pending | Job_running | Job_done | Job_failed | Job_skipped

record job_row =
  rj_request :: string
  rj_execution :: string
  rj_issue :: "string option"
  rj_project :: string
  rj_type :: review_type
  rj_round :: int
  rj_question :: string
  rj_target_path :: "string option"
  rj_frozen_head :: "string option"
  rj_status :: job_status
  rj_reviewer_session :: "string option"
  rj_verdict :: "string option"
  rj_findings :: "string option"
  rj_failure_reason :: "string option"
  rj_failure_raw :: "string option"
  rj_author_family :: "string option"
  rj_created_at :: string
  rj_updated_at :: "string option"
  rj_responded_at :: "string option"
  rj_delivery_nonce :: "string option"

record review_store =
  qa_records :: "qa_row list"
  review_records :: "review_row list"
  review_jobs :: "job_row list"

definition empty_review_store :: review_store where
  "empty_review_store = \<lparr>qa_records = [], review_records = [], review_jobs = []\<rparr>"

text \<open>\<open>ORDER BY c ASC\<close>, rows of equal \<open>c\<close> in rowid order; and \<open>ORDER BY c DESC LIMIT 1\<close>, whose tie
  goes to the lowest rowid, or with \<open>rowid DESC\<close> to the highest.\<close>

definition oldest_first :: "('a \<Rightarrow> string) \<Rightarrow> 'a list \<Rightarrow> 'a list" where
  "oldest_first f xs = sort_key f xs"

definition newest :: "('a \<Rightarrow> string) \<Rightarrow> 'a list \<Rightarrow> 'a option" where
  "newest f xs = fold (\<lambda>x b. case b of None \<Rightarrow> Some x | Some y \<Rightarrow> if f y < f x then Some x else b) xs None"

definition newest_row :: "('a \<Rightarrow> string) \<Rightarrow> 'a list \<Rightarrow> 'a option" where
  "newest_row f xs = fold (\<lambda>x b. case b of None \<Rightarrow> Some x | Some y \<Rightarrow> if f y \<le> f x then Some x else b) xs None"

subsection \<open>QA records\<close>

definition qa_at :: "string \<Rightarrow> string \<Rightarrow> qa_row \<Rightarrow> bool" where
  "qa_at parent head r = (aq_parent r = parent \<and> aq_head r = head)"

definition getAutoQaRecord :: "review_store \<Rightarrow> string \<Rightarrow> string \<Rightarrow> qa_row option" where
  "getAutoQaRecord s parent head = find (qa_at parent head) (qa_records s)"

text \<open>\<open>UPDATE auto_qa_record SET ... WHERE P\<close>.\<close>

definition update_qa :: "(qa_row \<Rightarrow> bool) \<Rightarrow> (qa_row \<Rightarrow> qa_row) \<Rightarrow> review_store \<Rightarrow> review_store" where
  "update_qa P f s = s\<lparr>qa_records := map (\<lambda>r. if P r then f r else r) (qa_records s)\<rparr>"

definition claimAutoQaRecord :: "run_env \<Rightarrow> string \<Rightarrow> string \<Rightarrow> string \<Rightarrow> string \<Rightarrow> review_store \<Rightarrow> bool \<times> review_store" where
  "claimAutoQaRecord env parent head issue project s =
     (if getAutoQaRecord s parent head \<noteq> None then (False, s)
      else (True, s\<lparr>qa_records := qa_records s @ [\<lparr>aq_parent = parent, aq_head = head, aq_issue = issue,
        aq_project = project, aq_qa_execution = None, aq_qa_issue_id = None, aq_qa_issue_identifier = None,
        aq_qa_issue_title = None, aq_qa_issue_url = None, aq_status = Qa_running, aq_verdict_event = None,
        aq_started_at = sql_now env, aq_completed_at = None, aq_notified_at = None,
        aq_retest_wake_pending_at = None\<rparr>]\<rparr>))"

definition setAutoQaQaExecutionId :: "string \<Rightarrow> string \<Rightarrow> string \<Rightarrow> review_store \<Rightarrow> review_store" where
  "setAutoQaQaExecutionId parent head e = update_qa (qa_at parent head) (\<lambda>r. r\<lparr>aq_qa_execution := Some e\<rparr>)"

definition setAutoQaIssue :: "string \<Rightarrow> string \<Rightarrow> string \<Rightarrow> string option \<Rightarrow> string option \<Rightarrow> string option
    \<Rightarrow> review_store \<Rightarrow> review_store" where
  "setAutoQaIssue parent head qaIssue qaIdentifier qaTitle qaUrl = update_qa (qa_at parent head)
     (\<lambda>r. r\<lparr>aq_qa_issue_id := Some qaIssue, aq_qa_issue_identifier := qaIdentifier,
        aq_qa_issue_title := qaTitle, aq_qa_issue_url := qaUrl\<rparr>)"

definition setAutoQaStatus :: "run_env \<Rightarrow> string \<Rightarrow> string \<Rightarrow> qa_status \<Rightarrow> string option \<Rightarrow> bool
    \<Rightarrow> review_store \<Rightarrow> review_store" where
  "setAutoQaStatus env parent head st verdictEventId notifiedAt =
     (let terminal = st \<in> {Qa_passed, Qa_failed, Qa_stuck} in
      update_qa (qa_at parent head) (\<lambda>r. r\<lparr>aq_status := st,
        aq_verdict_event := coalesce verdictEventId (aq_verdict_event r),
        aq_completed_at := (if terminal then Some (sql_now env) else aq_completed_at r),
        aq_notified_at := (if notifiedAt then Some (sql_now env) else aq_notified_at r)\<rparr>))"

definition supersedeOtherAutoQaRecords :: "string \<Rightarrow> string \<Rightarrow> review_store \<Rightarrow> review_store" where
  "supersedeOtherAutoQaRecords parent keepSha =
     update_qa (\<lambda>r. aq_parent r = parent \<and> aq_head r \<noteq> keepSha \<and> aq_status r = Qa_running)
       (\<lambda>r. r\<lparr>aq_status := Qa_superseded\<rparr>)"

text \<open>\<open>retargetAutoQaRecord\<close>: a stale row of the new head is deleted before the owner row moves there.\<close>

definition delete_qa :: "string \<Rightarrow> string \<Rightarrow> review_store \<Rightarrow> review_store" where
  "delete_qa parent head s = s\<lparr>qa_records := filter (\<lambda>r. \<not> qa_at parent head r) (qa_records s)\<rparr>"

definition move_qa :: "run_env \<Rightarrow> string \<Rightarrow> string \<Rightarrow> string \<Rightarrow> review_store \<Rightarrow> review_store" where
  "move_qa env parent oldSha newSha = update_qa (qa_at parent oldSha) (\<lambda>r. r\<lparr>aq_head := newSha,
     aq_status := Qa_running, aq_verdict_event := None, aq_completed_at := None, aq_notified_at := None,
     aq_retest_wake_pending_at := Some (sql_now env)\<rparr>)"

definition retargetAutoQaRecord :: "run_env \<Rightarrow> string \<Rightarrow> string \<Rightarrow> string \<Rightarrow> qa_status list
    \<Rightarrow> review_store \<Rightarrow> bool \<times> review_store" where
  "retargetAutoQaRecord env parent oldSha newSha expectStatuses s =
     (if newSha = oldSha then (False, s)
      else case getAutoQaRecord s parent oldSha of
          None \<Rightarrow> (False, s)
        | Some cur \<Rightarrow>
            if aq_status cur \<notin> set expectStatuses then (False, s)
            else (case getAutoQaRecord s parent newSha of
                None \<Rightarrow> (True, move_qa env parent oldSha newSha s)
              | Some conflicting \<Rightarrow>
                  if aq_status conflicting \<in> {Qa_running, Qa_awaiting_retest} then (False, s)
                  else (True, move_qa env parent oldSha newSha (delete_qa parent newSha s))))"

definition clearRetestWakePending :: "string \<Rightarrow> string \<Rightarrow> review_store \<Rightarrow> review_store" where
  "clearRetestWakePending parent head = update_qa (qa_at parent head) (\<lambda>r. r\<lparr>aq_retest_wake_pending_at := None\<rparr>)"

definition reopenAutoQaRecordForRespawn :: "string \<Rightarrow> string \<Rightarrow> review_store \<Rightarrow> bool \<times> review_store" where
  "reopenAutoQaRecordForRespawn parent head s =
     (getAutoQaRecord s parent head \<noteq> None,
      update_qa (qa_at parent head) (\<lambda>r. r\<lparr>aq_status := Qa_running, aq_qa_execution := None,
        aq_verdict_event := None, aq_completed_at := None, aq_notified_at := None,
        aq_retest_wake_pending_at := None\<rparr>) s)"

definition getAutoQaRecordByQaExec :: "review_store \<Rightarrow> string \<Rightarrow> qa_row option" where
  "getAutoQaRecordByQaExec s e = find (\<lambda>r. aq_qa_execution r = Some e) (qa_records s)"

definition select_qa :: "(qa_row \<Rightarrow> bool) \<Rightarrow> review_store \<Rightarrow> qa_row list" where
  "select_qa P s = oldest_first aq_started_at (filter P (qa_records s))"

definition listAutoQaRecordsByQaExec :: "review_store \<Rightarrow> string \<Rightarrow> qa_row list" where
  "listAutoQaRecordsByQaExec s e = select_qa (\<lambda>r. aq_qa_execution r = Some e) s"

definition listAutoQaRecordsByParent :: "review_store \<Rightarrow> string \<Rightarrow> qa_row list" where
  "listAutoQaRecordsByParent s parent = select_qa (\<lambda>r. aq_parent r = parent) s"

definition listRunningAutoQaRecords :: "review_store \<Rightarrow> qa_row list" where
  "listRunningAutoQaRecords s = select_qa (\<lambda>r. aq_status r = Qa_running) s"

definition listPassedUnnotifiedAutoQaRecords :: "review_store \<Rightarrow> qa_row list" where
  "listPassedUnnotifiedAutoQaRecords s = select_qa (\<lambda>r. aq_status r = Qa_passed \<and> aq_notified_at r = None) s"

definition listPassedAutoQaRecords :: "review_store \<Rightarrow> qa_row list" where
  "listPassedAutoQaRecords s = select_qa (\<lambda>r. aq_status r = Qa_passed) s"

definition listAutoQaRecordsByStatus :: "review_store \<Rightarrow> qa_status \<Rightarrow> qa_row list" where
  "listAutoQaRecordsByStatus s st = select_qa (\<lambda>r. aq_status r = st) s"

definition listAutoQaRecordsAwaitingRetestWake :: "review_store \<Rightarrow> qa_row list" where
  "listAutoQaRecordsAwaitingRetestWake s =
     select_qa (\<lambda>r. aq_retest_wake_pending_at r \<noteq> None \<and> aq_status r \<noteq> Qa_superseded) s"

definition getLatestAutoQaRecordByParent :: "review_store \<Rightarrow> string \<Rightarrow> qa_row option" where
  "getLatestAutoQaRecordByParent s parent =
     newest_row aq_started_at (filter (\<lambda>r. aq_parent r = parent \<and> aq_status r \<noteq> Qa_superseded) (qa_records s))"

definition first_occurrences :: "'a list \<Rightarrow> 'a list" where
  "first_occurrences xs = rev (remdups (rev xs))"

definition normalizeIssueKeys :: "string list \<Rightarrow> string list" where
  "normalizeIssueKeys ks = first_occurrences (filter (\<lambda>k. k \<noteq> []) (map trim ks))"

text \<open>\<open>column IN (...)\<close>; NULL is in no list.\<close>

definition sql_in :: "string option \<Rightarrow> string list \<Rightarrow> bool" where
  "sql_in v ks = (case v of None \<Rightarrow> False | Some x \<Rightarrow> x \<in> set ks)"

definition isAutoQaIssue :: "review_store \<Rightarrow> string list \<Rightarrow> bool" where
  "isAutoQaIssue s issueKeys = (let ks = normalizeIssueKeys issueKeys in
     ks \<noteq> [] \<and> list_ex (\<lambda>r. sql_in (aq_qa_issue_id r) ks \<or> sql_in (aq_qa_issue_identifier r) ks) (qa_records s))"

definition listActiveAutoQaRecordsForIssue :: "review_store \<Rightarrow> string list \<Rightarrow> string \<Rightarrow> qa_row list" where
  "listActiveAutoQaRecordsForIssue s issueKeys excludeParent = (let ks = normalizeIssueKeys issueKeys in
     if ks = [] then []
     else select_qa (\<lambda>r. aq_status r \<in> {Qa_running, Qa_awaiting_retest, Qa_stuck}
       \<and> aq_issue r \<in> set ks \<and> aq_parent r \<noteq> excludeParent) s)"

definition findAutoQaRecordsByQaIssueKeys :: "review_store \<Rightarrow> string list \<Rightarrow> (string \<times> string) list" where
  "findAutoQaRecordsByQaIssueKeys s keys = (let ks = normalizeIssueKeys keys in
     if ks = [] then []
     else map (\<lambda>r. (aq_parent r, aq_issue r))
       (filter (\<lambda>r. sql_in (aq_qa_issue_id r) ks \<or> sql_in (aq_qa_issue_identifier r) ks) (qa_records s)))"

definition findAutoQaRecordsByParentIssueKeys :: "review_store \<Rightarrow> string list \<Rightarrow> qa_row list" where
  "findAutoQaRecordsByParentIssueKeys s keys = (let ks = normalizeIssueKeys keys in
     if ks = [] then [] else filter (\<lambda>r. aq_issue r \<in> set ks) (qa_records s))"

subsection \<open>The reviewer comes from another family (review-family.ts)\<close>

definition drop_tmux :: "string \<Rightarrow> string" where
  "drop_tmux s = (if drop (length s - 5) s = ''-tmux'' then take (length s - 5) s else s)"

definition claude_family :: string where "claude_family = ''claude''"
definition codex_family :: string where "codex_family = ''codex''"

definition adapterTypeToFamily :: "string option \<Rightarrow> string" where
  "adapterTypeToFamily adapterType =
     (if \<not> truthy adapterType \<or> adapterType = Some ''claude-tmux'' then claude_family
      else if adapterType = Some ''codex-tmux'' then codex_family
      else drop_tmux (the adapterType))"

definition manifestReviewFamilyOk :: "string option \<Rightarrow> string option \<Rightarrow> bool" where
  "manifestReviewFamilyOk author reviewer = (truthy author \<and> truthy reviewer \<and> author \<noteq> reviewer)"

definition crossFamilyReviewSatisfied :: "review_status option \<Rightarrow> string option \<Rightarrow> string option \<Rightarrow> string option \<Rightarrow> bool" where
  "crossFamilyReviewSatisfied st authorFamily reviewerFamily sessionAdapterType =
     (if st = Some Rv_skipped then True
      else if st \<noteq> Some Rv_approved then False
      else if truthy authorFamily \<and> truthy reviewerFamily then authorFamily \<noteq> reviewerFamily
      else adapterTypeToFamily sessionAdapterType = claude_family)"

subsection \<open>Code-review records\<close>

definition review_at :: "string \<Rightarrow> string \<Rightarrow> review_row \<Rightarrow> bool" where
  "review_at e sha r = (cr_execution r = e \<and> cr_head r = sha)"

definition getCodexReviewRecord :: "review_store \<Rightarrow> string \<Rightarrow> string \<Rightarrow> review_row option" where
  "getCodexReviewRecord s e sha = find (review_at e (ascii_lower sha)) (review_records s)"

definition update_review :: "(review_row \<Rightarrow> bool) \<Rightarrow> (review_row \<Rightarrow> review_row) \<Rightarrow> review_store \<Rightarrow> review_store" where
  "update_review P f s = s\<lparr>review_records := map (\<lambda>r. if P r then f r else r) (review_records s)\<rparr>"

definition adapter_of :: "session_store \<Rightarrow> string \<Rightarrow> string option" where
  "adapter_of ss e = (case getSession ss e of None \<Rightarrow> None | Some r \<Rightarrow> map_option value_text (cells r ''adapter_type''))"

definition isCodexCodeReviewApproved :: "session_store \<Rightarrow> review_store \<Rightarrow> string \<Rightarrow> string \<Rightarrow> bool" where
  "isCodexCodeReviewApproved ss s e sha =
     (case getCodexReviewRecord s e (ascii_lower sha) of
        None \<Rightarrow> False
      | Some r \<Rightarrow> crossFamilyReviewSatisfied (Some (cr_status r)) (er_author_family (cr_evidence r))
          (er_reviewer_family (cr_evidence r)) (adapter_of ss e))"

definition no_evidence :: evidence where
  "no_evidence = \<lparr>er_verdict_event = None, er_target = None, er_thread = None, er_rounds = None,
     er_author_family = None, er_reviewer_family = None, er_request = None\<rparr>"

definition bare_review :: "run_env \<Rightarrow> review_status \<Rightarrow> string \<Rightarrow> string \<Rightarrow> string \<Rightarrow> string \<Rightarrow> review_row" where
  "bare_review env st e sha issue project = \<lparr>cr_execution = e, cr_head = sha, cr_issue = issue, cr_project = project,
     cr_status = st, cr_evidence = no_evidence, cr_created_at = sql_now env, cr_approved_at = None,
     cr_hold_notified_at = None, cr_stuck_notified_at = None\<rparr>"

text \<open>\<open>INSERT OR IGNORE\<close> of a pending row.\<close>

definition ensure_pending :: "run_env \<Rightarrow> string \<Rightarrow> string \<Rightarrow> string \<Rightarrow> string \<Rightarrow> review_store \<Rightarrow> review_store" where
  "ensure_pending env e sha issue project s =
     (if list_ex (review_at e sha) (review_records s) then s
      else s\<lparr>review_records := review_records s @ [bare_review env Rv_pending e sha issue project]\<rparr>)"

definition upsertCodexReviewPending :: "run_env \<Rightarrow> string \<Rightarrow> string \<Rightarrow> string \<Rightarrow> string \<Rightarrow> review_store \<Rightarrow> review_store" where
  "upsertCodexReviewPending env e sha issue project = ensure_pending env e (ascii_lower sha) issue project"

definition claimCodexHoldNotify :: "run_env \<Rightarrow> string \<Rightarrow> string \<Rightarrow> string \<Rightarrow> string \<Rightarrow> review_store \<Rightarrow> bool \<times> review_store" where
  "claimCodexHoldNotify env e sha0 issue project s =
     (let sha = ascii_lower sha0; s1 = ensure_pending env e sha issue project s;
          P = (\<lambda>r. review_at e sha r \<and> cr_hold_notified_at r = None)
      in (list_ex P (review_records s1), update_review P (\<lambda>r. r\<lparr>cr_hold_notified_at := Some (sql_now env)\<rparr>) s1))"

definition claimCodexHoldStuckNotify :: "run_env \<Rightarrow> string \<Rightarrow> string \<Rightarrow> review_store \<Rightarrow> bool \<times> review_store" where
  "claimCodexHoldStuckNotify env e sha s =
     (let P = (\<lambda>r. review_at e (ascii_lower sha) r \<and> cr_stuck_notified_at r = None)
      in (list_ex P (review_records s), update_review P (\<lambda>r. r\<lparr>cr_stuck_notified_at := Some (sql_now env)\<rparr>) s))"

definition markCodexReviewSkipped :: "run_env \<Rightarrow> string \<Rightarrow> string \<Rightarrow> string \<Rightarrow> string \<Rightarrow> review_store \<Rightarrow> review_store" where
  "markCodexReviewSkipped env e sha0 issue project s =
     (let sha = ascii_lower sha0 in
      if list_ex (review_at e sha) (review_records s)
      then update_review (review_at e sha) (\<lambda>r. r\<lparr>cr_status := Rv_skipped\<rparr>) s
      else s\<lparr>review_records := review_records s @ [bare_review env Rv_skipped e sha issue project]\<rparr>)"

record approval_input =
  ai_execution :: string
  ai_head :: string
  ai_issue :: string
  ai_project :: string
  ai_evidence :: evidence

text \<open>\<open>COALESCE\<close> of every column of the evidence group.\<close>

definition fill_gaps :: "evidence \<Rightarrow> evidence \<Rightarrow> evidence" where
  "fill_gaps new old = \<lparr>er_verdict_event = coalesce (er_verdict_event old) (er_verdict_event new),
     er_target = coalesce (er_target old) (er_target new),
     er_thread = coalesce (er_thread old) (er_thread new),
     er_rounds = coalesce (er_rounds old) (er_rounds new),
     er_author_family = coalesce (er_author_family old) (er_author_family new),
     er_reviewer_family = coalesce (er_reviewer_family old) (er_reviewer_family new),
     er_request = coalesce (er_request old) (er_request new)\<rparr>"

definition replace_verdict :: "run_env \<Rightarrow> evidence \<Rightarrow> review_row \<Rightarrow> review_row" where
  "replace_verdict env ev r = r\<lparr>cr_status := Rv_approved, cr_approved_at := Some (sql_now env), cr_evidence := ev\<rparr>"

definition fill_verdict :: "run_env \<Rightarrow> evidence \<Rightarrow> review_row \<Rightarrow> review_row" where
  "fill_verdict env ev r = r\<lparr>cr_status := Rv_approved,
     cr_approved_at := coalesce (cr_approved_at r) (Some (sql_now env)), cr_evidence := fill_gaps ev (cr_evidence r)\<rparr>"

definition approved_row :: "run_env \<Rightarrow> approval_input \<Rightarrow> review_row" where
  "approved_row env i = (bare_review env Rv_approved (ai_execution i) (ascii_lower (ai_head i)) (ai_issue i) (ai_project i))
     \<lparr>cr_evidence := ai_evidence i, cr_approved_at := Some (sql_now env)\<rparr>"

definition write_approval :: "run_env \<Rightarrow> approval_input \<Rightarrow> review_store \<Rightarrow> review_store" where
  "write_approval env i s =
     (let sha = ascii_lower (ai_head i); ev = ai_evidence i in
      case getCodexReviewRecord s (ai_execution i) sha of
        None \<Rightarrow> s\<lparr>review_records := review_records s @ [approved_row env i]\<rparr>
      | Some existing \<Rightarrow>
          (let isNewAuthoritativeRequest = er_request ev \<noteq> None \<and> er_request (cr_evidence existing) \<noteq> er_request ev;
               isLegacyLaneOnRequestBoundRow = er_request ev = None \<and> er_request (cr_evidence existing) \<noteq> None
           in if cr_status existing = Rv_skipped then s
              else if isLegacyLaneOnRequestBoundRow then s
              else if isNewAuthoritativeRequest
                \<and> (cr_status existing = Rv_approved \<or> er_request (cr_evidence existing) \<noteq> None)
              then update_review (review_at (ai_execution i) sha) (replace_verdict env ev) s
              else update_review (review_at (ai_execution i) sha) (fill_verdict env ev) s))"

definition recordCodexReviewApproved :: "run_env \<Rightarrow> session_store \<Rightarrow> approval_input \<Rightarrow> review_store \<Rightarrow> bool \<times> review_store" where
  "recordCodexReviewApproved env ss i s = (let s' = write_approval env i s in
     (isCodexCodeReviewApproved ss s' (ai_execution i) (ascii_lower (ai_head i)), s'))"

text \<open>\<open>hold_notified_at.replace(" ", "T")\<close> replaces the first blank.\<close>

fun replace_first :: "char \<Rightarrow> char \<Rightarrow> string \<Rightarrow> string" where
  "replace_first a b [] = []"
| "replace_first a b (c # cs) = (if c = a then b # cs else c # replace_first a b cs)"

definition held_since :: "run_env \<Rightarrow> review_row \<Rightarrow> int option" where
  "held_since env r = (if truthy (cr_hold_notified_at r)
     then date_parse env (replace_first CHR '' '' CHR ''T'' (the (cr_hold_notified_at r)) @ ''Z'') else None)"

definition listCodexHoldsPendingOlderThan :: "run_env \<Rightarrow> int \<Rightarrow> int \<Rightarrow> review_store \<Rightarrow> review_row list" where
  "listCodexHoldsPendingOlderThan env nowMs thresholdMs s =
     filter (\<lambda>r. cr_status r = Rv_pending \<and> cr_hold_notified_at r \<noteq> None \<and> cr_stuck_notified_at r = None
        \<and> (case held_since env r of None \<Rightarrow> False | Some t \<Rightarrow> nowMs - t \<ge> thresholdMs)) (review_records s)"

subsection \<open>Review jobs\<close>

record job_input =
  ji_request :: string
  ji_execution :: string
  ji_issue :: "string option"
  ji_project :: string
  ji_type :: review_type
  ji_round :: "int option"
  ji_question :: string
  ji_target_path :: "string option"
  ji_frozen_head :: "string option"
  ji_reviewer_session :: "string option"
  ji_author_family :: "string option"
  ji_skipped :: bool

datatype review_error = Job_vanished

definition getCodexReviewJob :: "review_store \<Rightarrow> string \<Rightarrow> job_row option" where
  "getCodexReviewJob s q = find (\<lambda>j. rj_request j = q) (review_jobs s)"

definition new_job :: "run_env \<Rightarrow> job_input \<Rightarrow> job_row" where
  "new_job env i = \<lparr>rj_request = ji_request i, rj_execution = ji_execution i, rj_issue = ji_issue i,
     rj_project = ji_project i, rj_type = ji_type i, rj_round = or_else (ji_round i) 1, rj_question = ji_question i,
     rj_target_path = ji_target_path i, rj_frozen_head = ji_frozen_head i,
     rj_status = (if ji_skipped i then Job_skipped else Job_pending), rj_reviewer_session = ji_reviewer_session i,
     rj_verdict = None, rj_findings = None, rj_failure_reason = None, rj_failure_raw = None,
     rj_author_family = ji_author_family i, rj_created_at = sql_now env, rj_updated_at = None,
     rj_responded_at = None, rj_delivery_nonce = Some (fresh_token env)\<rparr>"

definition add_job :: "run_env \<Rightarrow> job_input \<Rightarrow> review_store \<Rightarrow> bool \<times> review_store" where
  "add_job env i s = (if getCodexReviewJob s (ji_request i) \<noteq> None then (False, s)
     else (True, s\<lparr>review_jobs := review_jobs s @ [new_job env i]\<rparr>))"

definition insertCodexReviewJob :: "run_env \<Rightarrow> job_input \<Rightarrow> review_store
    \<Rightarrow> (review_error, (bool \<times> job_row) \<times> review_store) result" where
  "insertCodexReviewJob env i s = (let (inserted, s') = add_job env i s in
     case getCodexReviewJob s' (ji_request i) of None \<Rightarrow> Inl Job_vanished | Some j \<Rightarrow> Inr ((inserted, j), s'))"

definition update_jobs :: "(job_row \<Rightarrow> bool) \<Rightarrow> (job_row \<Rightarrow> job_row) \<Rightarrow> review_store \<Rightarrow> review_store" where
  "update_jobs P f s = s\<lparr>review_jobs := map (\<lambda>j. if P j then f j else j) (review_jobs s)\<rparr>"

definition claimCodexReviewJobRunning :: "run_env \<Rightarrow> string \<Rightarrow> review_store \<Rightarrow> bool \<times> review_store" where
  "claimCodexReviewJobRunning env q s =
     (let P = (\<lambda>j. rj_request j = q \<and> rj_status j \<in> {Job_pending, Job_failed}) in
      (list_ex P (review_jobs s), update_jobs P (\<lambda>j. j\<lparr>rj_status := Job_running, rj_failure_reason := None,
         rj_failure_raw := None, rj_updated_at := Some (sql_now env)\<rparr>) s))"

definition completeCodexReviewJob :: "run_env \<Rightarrow> string \<Rightarrow> string \<Rightarrow> string option \<Rightarrow> review_store \<Rightarrow> review_store" where
  "completeCodexReviewJob env q verdict findings = update_jobs (\<lambda>j. rj_request j = q)
     (\<lambda>j. j\<lparr>rj_status := Job_done, rj_verdict := Some verdict, rj_findings := findings, rj_failure_reason := None,
        rj_failure_raw := None, rj_updated_at := Some (sql_now env)\<rparr>)"

definition failCodexReviewJob :: "run_env \<Rightarrow> string \<Rightarrow> string \<Rightarrow> string option \<Rightarrow> review_store \<Rightarrow> review_store" where
  "failCodexReviewJob env q reason raw =
     update_jobs (\<lambda>j. rj_request j = q \<and> rj_status j \<notin> {Job_done, Job_skipped})
       (\<lambda>j. j\<lparr>rj_status := Job_failed, rj_failure_reason := Some reason, rj_failure_raw := raw,
          rj_updated_at := Some (sql_now env)\<rparr>)"

definition setCodexReviewJobReviewerSession :: "run_env \<Rightarrow> string \<Rightarrow> string \<Rightarrow> review_store \<Rightarrow> review_store" where
  "setCodexReviewJobReviewerSession env q uuid = update_jobs (\<lambda>j. rj_request j = q)
     (\<lambda>j. j\<lparr>rj_reviewer_session := Some uuid, rj_updated_at := Some (sql_now env)\<rparr>)"

definition stampCodexReviewJobResponded :: "run_env \<Rightarrow> string \<Rightarrow> review_store \<Rightarrow> review_store" where
  "stampCodexReviewJobResponded env q = update_jobs (\<lambda>j. rj_request j = q)
     (\<lambda>j. j\<lparr>rj_responded_at := Some (sql_now env)\<rparr>)"

definition resetRunningCodexReviewJobs :: "run_env \<Rightarrow> review_store \<Rightarrow> nat \<times> review_store" where
  "resetRunningCodexReviewJobs env s = (let P = (\<lambda>j. rj_status j = Job_running) in
     (length (filter P (review_jobs s)),
      update_jobs P (\<lambda>j. j\<lparr>rj_status := Job_pending, rj_updated_at := Some (sql_now env)\<rparr>) s))"

definition listRedrivableCodexReviewJobs :: "review_store \<Rightarrow> job_row list" where
  "listRedrivableCodexReviewJobs s =
     oldest_first rj_created_at (filter (\<lambda>j. rj_status j \<in> {Job_pending, Job_running}) (review_jobs s))"

definition listUndeliveredCodexReviewJobs :: "review_store \<Rightarrow> job_row list" where
  "listUndeliveredCodexReviewJobs s = oldest_first rj_created_at
     (filter (\<lambda>j. rj_status j \<in> {Job_done, Job_skipped} \<and> rj_responded_at j = None) (review_jobs s))"

definition countCodexReviewJobs :: "review_store \<Rightarrow> string \<Rightarrow> review_type \<Rightarrow> nat" where
  "countCodexReviewJobs s e t = length (filter (\<lambda>j. rj_execution j = e \<and> rj_type j = t) (review_jobs s))"

definition latestDoneCodexReviewJob :: "review_store \<Rightarrow> string \<Rightarrow> review_type \<Rightarrow> job_row option" where
  "latestDoneCodexReviewJob s e t =
     newest rj_created_at (filter (\<lambda>j. rj_execution j = e \<and> rj_type j = t \<and> rj_status j = Job_done) (review_jobs s))"

definition latestCodexReviewerSessionUuid :: "review_store \<Rightarrow> string \<Rightarrow> review_type \<Rightarrow> string option" where
  "latestCodexReviewerSessionUuid s e t = (case newest rj_created_at
       (filter (\<lambda>j. rj_execution j = e \<and> rj_type j = t \<and> rj_reviewer_session j \<noteq> None) (review_jobs s))
     of None \<Rightarrow> None | Some j \<Rightarrow> rj_reviewer_session j)"

subsection \<open>The gates of the bridge\<close>

type_synonym env_vars = "string \<Rightarrow> string option"

definition zero_text :: string where "zero_text = ''0''"
definition one_text :: string where "one_text = ''1''"

definition HARD_GATE_ENV :: string where "HARD_GATE_ENV = ''FLYWHEEL_CODEX_HARD_GATE''"

definition codexHardGateEnabled :: "env_vars \<Rightarrow> bool" where
  "codexHardGateEnabled vars = (vars HARD_GATE_ENV \<noteq> Some zero_text)"

definition implement_role :: string where "implement_role = ''implement''"

definition isReviewableRole :: "string option \<Rightarrow> bool" where
  "isReviewableRole role = (let r = or_else role main_role in r = main_role \<or> r = implement_role)"

text \<open>A column in a condition: NULL, \<open>0\<close> and the empty text are falsy.\<close>

definition column_on :: "sql_value option \<Rightarrow> bool" where
  "column_on v = (case v of None \<Rightarrow> False | Some (Num n) \<Rightarrow> n \<noteq> zero_text | Some (Txt t) \<Rightarrow> t \<noteq> [])"

definition text_cell :: "session_row \<Rightarrow> session_column \<Rightarrow> string option" where
  "text_cell r c = map_option value_text (cells r c)"

definition isCodexGateSatisfied :: "session_store \<Rightarrow> review_store \<Rightarrow> string \<Rightarrow> session_row \<Rightarrow> string \<Rightarrow> env_vars \<Rightarrow> bool" where
  "isCodexGateSatisfied ss s e r sha vars =
     (if \<not> codexHardGateEnabled vars then True
      else if column_on (cells r ''codex_skip'') then True
      else isCodexCodeReviewApproved ss s e sha)"

definition is_hex :: "char \<Rightarrow> bool" where
  "is_hex c = (let n = of_char c :: nat in 48 \<le> n \<and> n \<le> 57 \<or> 97 \<le> n \<and> n \<le> 102)"

text \<open>\<open>/^[0-9a-f]{40}$/\<close>.\<close>

definition full_sha :: "string \<Rightarrow> bool" where
  "full_sha s = (length s = 40 \<and> list_all is_hex s)"

definition isQaHeld :: "review_store \<Rightarrow> string \<Rightarrow> session_row \<Rightarrow> bool" where
  "isQaHeld s e r =
     (if or_else (text_cell r ''session_role'') main_role \<noteq> main_role then False
      else if status r \<noteq> awaiting_review then False
      else if \<not> truthy (text_cell r ''pr_head_sha'') then False
      else case getAutoQaRecord s e (the (text_cell r ''pr_head_sha'')) of
          None \<Rightarrow> False
        | Some q \<Rightarrow> aq_status q \<noteq> Qa_passed)"

datatype hold_reason = Merge_block | Codex_pending | Qa_not_green | Qa_evidence_missing | Qa_evidence_unknown
  | No_qualified_reviewer

definition reviewHoldReason :: "session_store \<Rightarrow> review_store \<Rightarrow> string \<Rightarrow> env_vars \<Rightarrow> hold_reason option" where
  "reviewHoldReason ss s e vars =
     (case getSession ss e of
        None \<Rightarrow> None
      | Some r \<Rightarrow>
          if column_on (cells r ''merge_block_reason'') then Some Merge_block
          else if \<not> isReviewableRole (text_cell r ''session_role'') then None
          else if status r \<noteq> awaiting_review then None
          else (case map_option ascii_lower (text_cell r ''pr_head_sha'') of
              None \<Rightarrow> (if codexHardGateEnabled vars \<and> \<not> column_on (cells r ''codex_skip'') then Some Codex_pending else None)
            | Some sha \<Rightarrow>
                if \<not> full_sha sha
                then (if codexHardGateEnabled vars \<and> \<not> column_on (cells r ''codex_skip'') then Some Codex_pending else None)
                else if \<not> isCodexGateSatisfied ss s e r sha vars then Some Codex_pending
                else if isQaHeld s e r then Some Qa_not_green else None))"

definition isReviewHeld :: "session_store \<Rightarrow> review_store \<Rightarrow> string \<Rightarrow> env_vars \<Rightarrow> bool" where
  "isReviewHeld ss s e vars = (reviewHoldReason ss s e vars \<noteq> None)"

definition isDeferrableReviewHoldReason :: "hold_reason \<Rightarrow> bool" where
  "isDeferrableReviewHoldReason h = (h = Codex_pending \<or> h = Qa_not_green)"

definition HOLD_ALIGN_ENV :: string where "HOLD_ALIGN_ENV = ''FLYWHEEL_ATTRIBUTION_HOLD_ALIGN''"

definition founderApprovalHoldGuard :: "session_store \<Rightarrow> review_store \<Rightarrow> string \<Rightarrow> env_vars \<Rightarrow> bool" where
  "founderApprovalHoldGuard ss s e vars = (vars HOLD_ALIGN_ENV \<noteq> Some zero_text \<and> isReviewHeld ss s e vars)"

end
