(* ===== verification/ReviewRun.thy ===== *)
theory ReviewRun
  imports Reviews
begin

section \<open>Runs of the review store\<close>

text \<open>
  The calls of the review store as data, a run as the trace of the calls made on an empty store with
  their answers, and what one call does to each table.
\<close>

subsection \<open>Calls and traces\<close>

datatype review_call =
    Claim_qa string string string string
  | Set_qa_execution string string string
  | Set_qa_issue string string string "string option" "string option" "string option"
  | Set_qa_status string string qa_status "string option" bool
  | Supersede_qa string string
  | Retarget_qa string string string "qa_status list"
  | Clear_wake string string
  | Reopen_qa string string
  | Hold_notify string string string string
  | Stuck_notify string string
  | Pending_review string string string string
  | Skip_review string string string string
  | Approve_review approval_input
  | Insert_job job_input
  | Claim_job string
  | Complete_job string string "string option"
  | Fail_job string string "string option"
  | Set_reviewer_session string string
  | Stamp_responded string
  | Reset_jobs

text \<open>A call that answers nothing answers \<open>True\<close>.\<close>

fun review_do :: "run_env \<Rightarrow> session_store \<Rightarrow> review_call \<Rightarrow> review_store \<Rightarrow> bool \<times> review_store" where
  "review_do env ss (Claim_qa p h i pr) s = claimAutoQaRecord env p h i pr s"
| "review_do env ss (Set_qa_execution p h e) s = (True, setAutoQaQaExecutionId p h e s)"
| "review_do env ss (Set_qa_issue p h a b c d) s = (True, setAutoQaIssue p h a b c d s)"
| "review_do env ss (Set_qa_status p h st v n) s = (True, setAutoQaStatus env p h st v n s)"
| "review_do env ss (Supersede_qa p k) s = (True, supersedeOtherAutoQaRecords p k s)"
| "review_do env ss (Retarget_qa p old h ex) s = retargetAutoQaRecord env p old h ex s"
| "review_do env ss (Clear_wake p h) s = (True, clearRetestWakePending p h s)"
| "review_do env ss (Reopen_qa p h) s = reopenAutoQaRecordForRespawn p h s"
| "review_do env ss (Hold_notify e h i p) s = claimCodexHoldNotify env e h i p s"
| "review_do env ss (Stuck_notify e h) s = claimCodexHoldStuckNotify env e h s"
| "review_do env ss (Pending_review e h i p) s = (True, upsertCodexReviewPending env e h i p s)"
| "review_do env ss (Skip_review e h i p) s = (True, markCodexReviewSkipped env e h i p s)"
| "review_do env ss (Approve_review i) s = recordCodexReviewApproved env ss i s"
| "review_do env ss (Insert_job i) s =
     (case insertCodexReviewJob env i s of Inl _ \<Rightarrow> (False, s) | Inr ((b, _), s') \<Rightarrow> (b, s'))"
| "review_do env ss (Claim_job q) s = claimCodexReviewJobRunning env q s"
| "review_do env ss (Complete_job q v f) s = (True, completeCodexReviewJob env q v f s)"
| "review_do env ss (Fail_job q r raw) s = (True, failCodexReviewJob env q r raw s)"
| "review_do env ss (Set_reviewer_session q u) s = (True, setCodexReviewJobReviewerSession env q u s)"
| "review_do env ss (Stamp_responded q) s = (True, stampCodexReviewJobResponded env q s)"
| "review_do env ss Reset_jobs s = (True, snd (resetRunningCodexReviewJobs env s))"

type_synonym review_trace = "(review_call \<times> bool) list"

inductive review_steps :: "review_store \<Rightarrow> review_trace \<Rightarrow> review_store \<Rightarrow> bool" where
  idle: "review_steps s [] s"
| act: "review_steps s tr s1 \<Longrightarrow> review_do env ss c s1 = (b, s2) \<Longrightarrow> review_steps s (tr @ [(c, b)]) s2"

definition review_run :: "review_trace \<Rightarrow> review_store \<Rightarrow> bool" where
  "review_run tr s = review_steps empty_review_store tr s"

lemma steps_append: "review_steps s tr s1 \<Longrightarrow> review_steps s1 tr' s2 \<Longrightarrow> review_steps s (tr @ tr') s2"
  by (rotate_tac, induction rule: review_steps.induct) (auto simp flip: append_assoc intro: review_steps.intros)

lemma run_steps: "review_run tr s \<Longrightarrow> review_steps s tr' s' \<Longrightarrow> review_run (tr @ tr') s'"
  by (simp add: review_run_def steps_append)

text \<open>An invariant over the trace: it holds at the start and every call keeps it.\<close>

lemma run_invariant [consumes 1, case_names start call]:
  assumes "review_run tr s" and "I [] empty_review_store"
    and "\<And>tr s env ss c b s'. review_run tr s \<Longrightarrow> I tr s \<Longrightarrow> review_do env ss c s = (b, s') \<Longrightarrow> I (tr @ [(c, b)]) s'"
  shows "I tr s"
proof -
  have "s0 = empty_review_store \<longrightarrow> I tr s" if "review_steps s0 tr s" for s0
    using that
  proof induction
    case (act s0 tr s1 env ss c b s2)
    then show ?case using assms(3) by (auto simp: review_run_def)
  qed (simp add: assms(2))
  then show ?thesis using assms(1) by (simp add: review_run_def)
qed

subsection \<open>Rows that stay\<close>

lemma other_tables [row_simps]:
  "qa_records (update_review P f s) = qa_records s" "qa_records (update_jobs P' f' s) = qa_records s"
  "review_records (update_qa Q g s) = review_records s" "review_records (update_jobs P' f' s) = review_records s"
  "review_jobs (update_qa Q g s) = review_jobs s" "review_jobs (update_review P f s) = review_jobs s"
  "review_records (delete_qa p h s) = review_records s" "review_jobs (delete_qa p h s) = review_jobs s"
  by (simp_all add: update_review_def update_jobs_def update_qa_def delete_qa_def)

lemma own_table [row_simps]:
  "qa_records (update_qa Q g s) = map (\<lambda>r. if Q r then g r else r) (qa_records s)"
  "review_records (update_review P f s) = map (\<lambda>r. if P r then f r else r) (review_records s)"
  "review_jobs (update_jobs P' f' s) = map (\<lambda>r. if P' r then f' r else r) (review_jobs s)"
  "qa_records (delete_qa p h s) = filter (\<lambda>r. \<not> qa_at p h r) (qa_records s)"
  by (simp_all add: update_review_def update_jobs_def update_qa_def delete_qa_def)

lemma find_at: "find (review_at e h) xs = None \<longleftrightarrow> \<not> list_ex (review_at e h) xs"
  by (auto simp: find_None_iff list_ex_iff)

lemma lower_lower [simp]: "ascii_lower (ascii_lower x) = ascii_lower x"
proof -
  have "(65 + k \<le> 90 \<longrightarrow> k \<le> 25) \<and> (k \<le> 25 \<longrightarrow> of_char (char_of (65 + k + 32 :: nat) :: char) = 65 + k + 32)" for k :: nat
    by simp
  then show ?thesis by (auto simp: ascii_lower_def lower_char_def)
qed

text \<open>What a call does to the review record of one head: it stays, or is written by exactly one of
  these.\<close>

definition review_key :: "review_row \<Rightarrow> string \<times> string" where
  "review_key r = (cr_execution r, cr_head r)"

lemma review_at_key: "review_at e h r \<longleftrightarrow> review_key r = (e, h)"
  by (auto simp: review_at_def review_key_def)

inductive review_write :: "run_env \<Rightarrow> review_call \<Rightarrow> bool \<Rightarrow> review_row \<Rightarrow> review_row \<Rightarrow> bool" where
  same: "\<forall>e h i p. c = Hold_notify e h i p \<and> review_key r = (e, ascii_lower h) \<longrightarrow> \<not> b \<and> cr_hold_notified_at r \<noteq> None \<Longrightarrow>
     \<forall>e h. c = Stuck_notify e h \<and> review_key r = (e, ascii_lower h) \<longrightarrow> \<not> b \<and> cr_stuck_notified_at r \<noteq> None \<Longrightarrow>
     review_write env c b r r"
| held: "c = Hold_notify e h i p \<Longrightarrow> review_key r = (e, ascii_lower h) \<Longrightarrow> b \<Longrightarrow> cr_hold_notified_at r = None \<Longrightarrow>
     review_write env c b r (r\<lparr>cr_hold_notified_at := Some (sql_now env)\<rparr>)"
| stuck: "c = Stuck_notify e h \<Longrightarrow> review_key r = (e, ascii_lower h) \<Longrightarrow> b \<Longrightarrow> cr_stuck_notified_at r = None \<Longrightarrow>
     review_write env c b r (r\<lparr>cr_stuck_notified_at := Some (sql_now env)\<rparr>)"
| skipped: "c = Skip_review e h i p \<Longrightarrow> review_key r = (e, ascii_lower h) \<Longrightarrow>
     review_write env c b r (r\<lparr>cr_status := Rv_skipped\<rparr>)"
| replaced: "c = Approve_review a \<Longrightarrow> review_key r = (ai_execution a, ascii_lower (ai_head a)) \<Longrightarrow>
     cr_status r \<noteq> Rv_skipped \<Longrightarrow> er_request (ai_evidence a) \<noteq> None \<Longrightarrow>
     er_request (cr_evidence r) \<noteq> er_request (ai_evidence a) \<Longrightarrow>
     review_write env c b r (replace_verdict env (ai_evidence a) r)"
| filled: "c = Approve_review a \<Longrightarrow> review_key r = (ai_execution a, ascii_lower (ai_head a)) \<Longrightarrow>
     cr_status r \<noteq> Rv_skipped \<Longrightarrow>
     er_request (cr_evidence r) = er_request (ai_evidence a) \<or> er_request (cr_evidence r) = None \<and> cr_status r = Rv_pending \<Longrightarrow>
     review_write env c b r (fill_verdict env (ai_evidence a) r)"

text \<open>The row a call adds: none for a known head.\<close>

fun new_review :: "run_env \<Rightarrow> review_call \<Rightarrow> review_row option" where
  "new_review env (Hold_notify e h i p) = Some ((bare_review env Rv_pending e (ascii_lower h) i p)\<lparr>cr_hold_notified_at := Some (sql_now env)\<rparr>)"
| "new_review env (Pending_review e h i p) = Some (bare_review env Rv_pending e (ascii_lower h) i p)"
| "new_review env (Skip_review e h i p) = Some (bare_review env Rv_skipped e (ascii_lower h) i p)"
| "new_review env (Approve_review a) = Some (approved_row env a)"
| "new_review env _ = None"

definition added :: "run_env \<Rightarrow> review_call \<Rightarrow> review_row list \<Rightarrow> review_row list" where
  "added env c rows = (case new_review env c of None \<Rightarrow> []
     | Some n \<Rightarrow> if review_key n \<in> review_key ` set rows then [] else [n])"

lemma keys_known: "list_ex (review_at e h) rows \<longleftrightarrow> (e, h) \<in> review_key ` set rows"
  by (force simp: list_ex_iff review_at_key)

lemma key_unique: "distinct (map review_key rows) \<Longrightarrow> r \<in> set rows \<Longrightarrow> r' \<in> set rows \<Longrightarrow>
    review_key r = review_key r' \<Longrightarrow> r = r'"
  by (simp add: distinct_map inj_on_def)

lemma bare_key [simp]: "review_key (bare_review env st e h i p) = (e, h)"
    "review_key (r\<lparr>cr_hold_notified_at := t\<rparr>) = review_key r"
    "review_key (r\<lparr>cr_stuck_notified_at := t\<rparr>) = review_key r"
    "review_key (r\<lparr>cr_status := st\<rparr>) = review_key r"
    "review_key (replace_verdict env ev r) = review_key r" "review_key (fill_verdict env ev r) = review_key r"
    "review_key (approved_row env a) = (ai_execution a, ascii_lower (ai_head a))"
  by (simp_all add: review_key_def bare_review_def replace_verdict_def fill_verdict_def approved_row_def)

lemma bare_fields [simp]:
  "cr_hold_notified_at (bare_review env st e h i p) = None" "cr_stuck_notified_at (bare_review env st e h i p) = None"
  "cr_evidence (bare_review env st e h i p) = no_evidence" "cr_status (bare_review env st e h i p) = st"
  by (simp_all add: bare_review_def)

lemma write_key: "review_write env c b r r' \<Longrightarrow> review_key r' = review_key r"
  by (erule review_write.cases) simp_all

definition writes_rows :: "run_env \<Rightarrow> review_call \<Rightarrow> bool \<Rightarrow> review_store \<Rightarrow> review_store \<Rightarrow> bool" where
  "writes_rows env c b s s' = (\<exists>g. review_records s' = map g (review_records s) @ added env c (review_records s)
     \<and> (\<forall>r \<in> set (review_records s). review_write env c b r (g r)))"

lemma writes_map:
  assumes "review_records s' = map g (review_records s)"
    and "\<And>r. r \<in> set (review_records s) \<Longrightarrow> review_write env c b r (g r)"
    and "added env c (review_records s) = []"
  shows "writes_rows env c b s s'"
  using assms unfolding writes_rows_def by (intro exI [of _ g]) simp

lemma writes_new:
  assumes "review_records s' = review_records s @ [n]" and "new_review env c = Some n"
    and "review_key n \<notin> review_key ` set (review_records s)"
    and "\<And>r. r \<in> set (review_records s) \<Longrightarrow> review_write env c b r r"
  shows "writes_rows env c b s s'"
  using assms unfolding writes_rows_def by (intro exI [of _ id]) (simp add: added_def)

lemma do_hold:
  assumes "distinct (map review_key (review_records s))" and "claimCodexHoldNotify env e h i p s = (b, s')"
  shows "writes_rows env (Hold_notify e h i p) b s s'"
proof (cases "list_ex (review_at e (ascii_lower h)) (review_records s)")
  case True
  let ?P = "\<lambda>r. review_at e (ascii_lower h) r \<and> cr_hold_notified_at r = None"
  have b: "b = list_ex ?P (review_records s)"
    and rows: "review_records s' = map (\<lambda>r. if ?P r then r\<lparr>cr_hold_notified_at := Some (sql_now env)\<rparr> else r) (review_records s)"
    using assms(2) True by (auto simp: claimCodexHoldNotify_def ensure_pending_def Let_def row_simps)
  show ?thesis
  proof (rule writes_map [OF rows])
    fix r assume r: "r \<in> set (review_records s)"
    show "review_write env (Hold_notify e h i p) b r (if ?P r then r\<lparr>cr_hold_notified_at := Some (sql_now env)\<rparr> else r)"
    proof (cases "?P r")
      case True
      then show ?thesis using r by (auto simp: b list_ex_iff review_at_key intro!: review_write.held)
    next
      case False
      have "\<not> b \<and> cr_hold_notified_at r \<noteq> None" if "review_key r = (e, ascii_lower h)"
        using that False key_unique [OF assms(1) r] by (auto simp: b list_ex_iff review_at_key)
      then show ?thesis using False by (auto intro!: review_write.same)
    qed
  qed (use True in \<open>auto simp: added_def keys_known\<close>)
next
  case False
  then have fresh: "review_key r \<noteq> (e, ascii_lower h)" if "r \<in> set (review_records s)" for r
    using that by (force simp: keys_known)
  let ?P = "\<lambda>r. review_at e (ascii_lower h) r \<and> cr_hold_notified_at r = None"
  have old: "map (\<lambda>r. if ?P r then r\<lparr>cr_hold_notified_at := Some (sql_now env)\<rparr> else r) (review_records s) = review_records s"
    using fresh by (auto simp: review_at_key intro!: map_idI)
  have b: "b" and rows: "review_records s' = review_records s
      @ [(bare_review env Rv_pending e (ascii_lower h) i p)\<lparr>cr_hold_notified_at := Some (sql_now env)\<rparr>]"
    using assms(2) False old by (simp_all add: claimCodexHoldNotify_def ensure_pending_def Let_def row_simps review_at_key)
      (auto simp: list_ex_iff row_simps)
  show ?thesis
    by (rule writes_new [OF rows])
      (use fresh in \<open>force simp: image_iff intro!: review_write.same\<close>)+
qed

lemma do_stuck:
  assumes "distinct (map review_key (review_records s))" and "claimCodexHoldStuckNotify env e h s = (b, s')"
  shows "writes_rows env (Stuck_notify e h) b s s'"
proof -
  let ?P = "\<lambda>r. review_at e (ascii_lower h) r \<and> cr_stuck_notified_at r = None"
  have b: "b = list_ex ?P (review_records s)"
    and rows: "review_records s' = map (\<lambda>r. if ?P r then r\<lparr>cr_stuck_notified_at := Some (sql_now env)\<rparr> else r) (review_records s)"
    using assms(2) by (auto simp: claimCodexHoldStuckNotify_def Let_def row_simps)
  show ?thesis
  proof (rule writes_map [OF rows])
    fix r assume r: "r \<in> set (review_records s)"
    show "review_write env (Stuck_notify e h) b r (if ?P r then r\<lparr>cr_stuck_notified_at := Some (sql_now env)\<rparr> else r)"
    proof (cases "?P r")
      case True
      then show ?thesis using r by (auto simp: b list_ex_iff review_at_key intro!: review_write.stuck)
    next
      case False
      have "\<not> b \<and> cr_stuck_notified_at r \<noteq> None" if "review_key r = (e, ascii_lower h)"
        using that False key_unique [OF assms(1) r] by (auto simp: b list_ex_iff review_at_key)
      then show ?thesis using False by (auto intro!: review_write.same)
    qed
  qed (simp add: added_def)
qed

lemma do_approve:
  assumes "distinct (map review_key (review_records s))"
  shows "writes_rows env (Approve_review a) b s (write_approval env a s)"
proof (cases "find (review_at (ai_execution a) (ascii_lower (ai_head a))) (review_records s)")
  case None
  then have "\<not> list_ex (review_at (ai_execution a) (ascii_lower (ai_head a))) (review_records s)" by (simp add: find_at)
  then show ?thesis using None
    by (intro writes_new [of _ _ "approved_row env a"])
      (auto simp: write_approval_def getCodexReviewRecord_def keys_known intro!: review_write.same)
next
  case (Some r0)
  let ?K = "review_at (ai_execution a) (ascii_lower (ai_head a))" and ?ev = "ai_evidence a"
  have k: "r0 \<in> set (review_records s)" "?K r0" using find_Some_iff' [OF Some] by auto
  then have known: "added env (Approve_review a) (review_records s) = []"
    by (force simp: added_def review_at_key)
  let ?new = "er_request ?ev \<noteq> None \<and> er_request (cr_evidence r0) \<noteq> er_request ?ev"
  let ?legacy = "er_request ?ev = None \<and> er_request (cr_evidence r0) \<noteq> None"
  let ?sealed = "cr_status r0 = Rv_approved \<or> er_request (cr_evidence r0) \<noteq> None"
  define f where "f = (if cr_status r0 = Rv_skipped \<or> ?legacy then id
    else if ?new \<and> ?sealed then replace_verdict env ?ev else fill_verdict env ?ev)"
  have rows: "review_records (write_approval env a s) = map (\<lambda>r. if ?K r then f r else r) (review_records s)"
  proof -
    have w: "write_approval env a s = (if cr_status r0 = Rv_skipped \<or> ?legacy then s else update_review ?K f s)"
      using Some by (simp add: write_approval_def getCodexReviewRecord_def Let_def f_def) auto
    have "map (\<lambda>r. if ?K r then f r else r) (review_records s) = review_records s" if "cr_status r0 = Rv_skipped \<or> ?legacy"
      using that by (simp only: f_def if_True id_apply if_cancel) simp
    then show ?thesis by (auto simp: w row_simps)
  qed
  show ?thesis
  proof (rule writes_map [OF rows _ known])
    fix r assume r: "r \<in> set (review_records s)"
    show "review_write env (Approve_review a) b r (if ?K r then f r else r)"
    proof (cases "?K r")
      case True
      then have "r = r0" using key_unique [OF assms r k(1)] k(2) by (simp add: review_at_key)
      moreover have "review_key r0 = (ai_execution a, ascii_lower (ai_head a))" using k(2) by (simp add: review_at_key)
      moreover have "er_request (cr_evidence r0) = er_request ?ev \<or> er_request (cr_evidence r0) = None \<and> cr_status r0 = Rv_pending"
        if "cr_status r0 \<noteq> Rv_skipped" "\<not> ?legacy" "\<not> (?new \<and> ?sealed)"
        using that by (cases "cr_status r0") auto
      ultimately show ?thesis using True
        by (cases "cr_status r0 = Rv_skipped \<or> ?legacy"; cases "?new \<and> ?sealed")
          (auto simp: f_def intro: review_write.same review_write.replaced [OF refl] review_write.filled [OF refl])
    qed (simp add: review_write.same)
  qed
qed

lemma do_skip: "writes_rows env (Skip_review e h i p) b s (markCodexReviewSkipped env e h i p s)"
proof (cases "list_ex (review_at e (ascii_lower h)) (review_records s)")
  case True
  then show ?thesis
    by (intro writes_map [of _ "\<lambda>r. if review_at e (ascii_lower h) r then r\<lparr>cr_status := Rv_skipped\<rparr> else r"])
      (auto simp: markCodexReviewSkipped_def Let_def row_simps added_def keys_known review_at_key
        intro: review_write.same review_write.skipped [OF refl])
next
  case False
  then show ?thesis
    by (intro writes_new [of _ _ "bare_review env Rv_skipped e (ascii_lower h) i p"])
      (auto simp: markCodexReviewSkipped_def Let_def keys_known intro: review_write.same)
qed

lemma do_pending: "writes_rows env (Pending_review e h i p) b s (upsertCodexReviewPending env e h i p s)"
proof (cases "list_ex (review_at e (ascii_lower h)) (review_records s)")
  case True
  then show ?thesis
    by (intro writes_map [of _ id])
      (auto simp: upsertCodexReviewPending_def ensure_pending_def added_def keys_known intro: review_write.same)
next
  case False
  then show ?thesis
    by (intro writes_new [of _ _ "bare_review env Rv_pending e (ascii_lower h) i p"])
      (auto simp: upsertCodexReviewPending_def ensure_pending_def keys_known intro: review_write.same)
qed

lemma do_other: "review_records s' = review_records s \<Longrightarrow> new_review env c = None \<Longrightarrow>
    (\<And>e h. c \<noteq> Stuck_notify e h) \<Longrightarrow> (\<And>e h i p. c \<noteq> Hold_notify e h i p) \<Longrightarrow> writes_rows env c b s s'"
  by (rule writes_map [of _ id]) (auto simp: added_def intro!: review_write.same)

text \<open>Every call, on the review records.\<close>

lemma insert_job_eq: "insertCodexReviewJob env i s =
    (let (b, s') = add_job env i s in Inr ((b, the (getCodexReviewJob s' (ji_request i))), s'))"
  by (auto simp: insertCodexReviewJob_def add_job_def Let_def getCodexReviewJob_def find_append new_job_def
      split: option.splits)

lemma do_records:
  assumes "distinct (map review_key (review_records s))" and "review_do env ss c s = (b, s')"
  shows "writes_rows env c b s s'"
proof (cases c)
  case (Insert_job i)
  then show ?thesis using assms(2)
    by (intro do_other) (auto simp: insert_job_eq add_job_def Let_def split: if_splits)
next
  case (Retarget_qa p old h ex)
  then show ?thesis using assms(2)
    by (intro do_other) (auto simp: retargetAutoQaRecord_def move_qa_def row_simps split: if_splits option.splits)
next
  case (Hold_notify e h i p)
  then show ?thesis using assms do_hold by simp
next
  case (Stuck_notify e h)
  then show ?thesis using assms do_stuck by simp
next
  case (Approve_review a)
  then have "s' = write_approval env a s" using assms(2) by (auto simp: recordCodexReviewApproved_def Let_def)
  then show ?thesis using do_approve [OF assms(1)] Approve_review by simp
next
  case (Skip_review e h i p)
  then show ?thesis using assms(2) do_skip by auto
next
  case (Pending_review e h i p)
  then show ?thesis using assms(2) do_pending by auto
qed (use assms(2) in \<open>auto intro!: do_other simp: row_simps claimAutoQaRecord_def setAutoQaQaExecutionId_def
   setAutoQaIssue_def setAutoQaStatus_def supersedeOtherAutoQaRecords_def clearRetestWakePending_def
   reopenAutoQaRecordForRespawn_def claimCodexReviewJobRunning_def completeCodexReviewJob_def failCodexReviewJob_def
   setCodexReviewJobReviewerSession_def stampCodexReviewJobResponded_def resetRunningCodexReviewJobs_def Let_def
   split: if_splits\<close>)

end
