(* ===== verification/ReviewInv.thy ===== *)
theory ReviewInv
  imports ReviewRun
begin

section \<open>What every run of the review store keeps\<close>

text \<open>
  The trace names the call behind everything a row says: the verdict calls behind the evidence of a
  review record, the verdict behind a passed QA record, the one call a notification was granted to.
\<close>

subsection \<open>Review records\<close>

lemma writes_set:
  assumes "writes_rows env c b s s'" and "r' \<in> set (review_records s')"
  shows "(\<exists>r \<in> set (review_records s). review_write env c b r r')
    \<or> new_review env c = Some r' \<and> review_key r' \<notin> review_key ` set (review_records s)"
proof -
  obtain g where "review_records s' = map g (review_records s) @ added env c (review_records s)"
    and "\<forall>r \<in> set (review_records s). review_write env c b r (g r)" using assms(1) by (auto simp: writes_rows_def)
  then show ?thesis using assms(2) by (auto simp: added_def split: option.splits if_splits)
qed

lemma writes_stay:
  assumes "writes_rows env c b s s'" and "r \<in> set (review_records s)"
  shows "\<exists>r' \<in> set (review_records s'). review_write env c b r r'"
  using assms by (auto simp: writes_rows_def)

lemma writes_keys:
  assumes "writes_rows env c b s s'"
  shows "map review_key (review_records s') = map review_key (review_records s)
      @ map review_key (added env c (review_records s))"
proof -
  obtain g where g: "review_records s' = map g (review_records s) @ added env c (review_records s)"
    and w: "\<forall>r \<in> set (review_records s). review_write env c b r (g r)" using assms by (auto simp: writes_rows_def)
  have "review_key (g r) = review_key r" if "r \<in> set (review_records s)" for r using write_key w that by blast
  then show ?thesis by (simp add: g)
qed

lemma writes_distinct:
  "writes_rows env c b s s' \<Longrightarrow> distinct (map review_key (review_records s)) \<Longrightarrow> distinct (map review_key (review_records s'))"
  by (auto simp: writes_keys added_def split: option.splits)

lemma run_distinct: "review_run tr s \<Longrightarrow> distinct (map review_key (review_records s))"
  by (induction rule: run_invariant) (auto simp: empty_review_store_def intro: writes_distinct do_records)

lemma run_writes: "review_run tr s \<Longrightarrow> review_do env ss c s = (b, s') \<Longrightarrow> writes_rows env c b s s'"
  by (rule do_records [OF run_distinct])

lemma find_record:
  "distinct (map review_key (review_records s)) \<Longrightarrow>
    getCodexReviewRecord s e sha = Some r \<longleftrightarrow> r \<in> set (review_records s) \<and> review_key r = (e, ascii_lower sha)"
proof -
  assume d: "distinct (map review_key (review_records s))"
  show ?thesis
  proof
    assume "getCodexReviewRecord s e sha = Some r"
    then show "r \<in> set (review_records s) \<and> review_key r = (e, ascii_lower sha)"
      by (auto simp: getCodexReviewRecord_def review_at_key dest: find_Some_iff')
  next
    assume r: "r \<in> set (review_records s) \<and> review_key r = (e, ascii_lower sha)"
    then have "find (\<lambda>x. review_key x = review_key r) (review_records s) = Some r" using find_unique [OF d] by blast
    then show "getCodexReviewRecord s e sha = Some r"
      using r by (simp add: getCodexReviewRecord_def review_at_key [abs_def])
  qed
qed

subsection \<open>The call behind a record\<close>

definition EVIDENCE_COLUMNS :: "(evidence \<Rightarrow> string option) list" where
  "EVIDENCE_COLUMNS = [er_verdict_event, er_target, er_thread, er_rounds, er_author_family, er_reviewer_family, er_request]"

definition approves :: "review_call \<times> bool \<Rightarrow> string \<times> string \<Rightarrow> string option \<Rightarrow> (evidence \<Rightarrow> bool) \<Rightarrow> bool" where
  "approves x k q P = (case fst x of
     Approve_review a \<Rightarrow> (ai_execution a, ascii_lower (ai_head a)) = k \<and> er_request (ai_evidence a) = q \<and> P (ai_evidence a)
   | _ \<Rightarrow> False)"

definition skips :: "review_call \<times> bool \<Rightarrow> string \<times> string \<Rightarrow> bool" where
  "skips x k = (case fst x of Skip_review e h i p \<Rightarrow> (e, ascii_lower h) = k | _ \<Rightarrow> False)"

text \<open>A column is empty, or a verdict of the same request wrote the value there.\<close>

definition cited :: "review_trace \<Rightarrow> review_row \<Rightarrow> (evidence \<Rightarrow> string option) \<Rightarrow> bool" where
  "cited tr r f = (f (cr_evidence r) = None
     \<or> list_ex (\<lambda>x. approves x (review_key r) (er_request (cr_evidence r)) (\<lambda>ev. f ev = f (cr_evidence r))) tr)"

definition row_traced :: "review_trace \<Rightarrow> review_row \<Rightarrow> bool" where
  "row_traced tr r = (ascii_lower (cr_head r) = cr_head r \<and> list_all (cited tr r) EVIDENCE_COLUMNS
     \<and> (case cr_status r of
          Rv_pending \<Rightarrow> cr_evidence r = no_evidence
        | Rv_approved \<Rightarrow> list_ex (\<lambda>x. approves x (review_key r) (er_request (cr_evidence r)) (\<lambda>_. True)) tr
        | Rv_skipped \<Rightarrow> list_ex (\<lambda>x. skips x (review_key r)) tr))"

lemma cited_more: "cited tr r f \<Longrightarrow> cited (tr @ [x]) r f"
  by (auto simp: cited_def)

lemma traced_more: "row_traced tr r \<Longrightarrow> row_traced (tr @ [x]) r"
  by (auto simp: row_traced_def EVIDENCE_COLUMNS_def intro: cited_more split: review_status.splits)

lemma traced_same:
  "row_traced tr r \<Longrightarrow> cr_execution r' = cr_execution r \<Longrightarrow> cr_head r' = cr_head r \<Longrightarrow> cr_status r' = cr_status r \<Longrightarrow>
    cr_evidence r' = cr_evidence r \<Longrightarrow> row_traced tr r'"
proof -
  assume *: "row_traced tr r" "cr_execution r' = cr_execution r" "cr_head r' = cr_head r" "cr_status r' = cr_status r"
    "cr_evidence r' = cr_evidence r"
  then have "review_key r' = review_key r" by (simp add: review_key_def)
  moreover from this have "cited tr r' = cited tr r" by (simp add: cited_def [abs_def] *(5))
  ultimately show ?thesis using *(1) by (simp only: row_traced_def *(3-5))
qed

lemma cited_none: "cr_evidence r = no_evidence \<Longrightarrow> list_all (cited tr r) EVIDENCE_COLUMNS"
  by (simp add: EVIDENCE_COLUMNS_def cited_def no_evidence_def)

lemma cited_here:
  "cr_evidence r = ai_evidence a \<Longrightarrow> review_key r = (ai_execution a, ascii_lower (ai_head a)) \<Longrightarrow>
    list_all (cited (tr @ [(Approve_review a, b)]) r) EVIDENCE_COLUMNS"
  by (simp add: EVIDENCE_COLUMNS_def cited_def approves_def)

lemma fill_column: "f \<in> set EVIDENCE_COLUMNS \<Longrightarrow> f (fill_gaps new old) = coalesce (f old) (f new)"
  by (auto simp: EVIDENCE_COLUMNS_def fill_gaps_def)

lemma filled_cited:
  assumes "cited tr r f" and "er_request (cr_evidence r') = er_request (cr_evidence r)"
    and "er_request (cr_evidence r) = er_request (ai_evidence a)"
    and "review_key r = (ai_execution a, ascii_lower (ai_head a))" and "review_key r' = review_key r"
    and "f (cr_evidence r') = coalesce (f (cr_evidence r)) (f (ai_evidence a))"
  shows "cited (tr @ [(Approve_review a, b)]) r' f"
  using assms by (cases "f (cr_evidence r)") (auto simp: cited_def approves_def)

lemma write_traced:
  assumes "row_traced tr r" and "review_write env c b r r'"
  shows "row_traced (tr @ [(c, b)]) r'"
  using assms(2)
proof cases
  case same
  then show ?thesis using traced_more [OF assms(1)] by simp
next
  case (held e h i p)
  then show ?thesis using traced_same [OF traced_more [OF assms(1)], of r'] by simp
next
  case (stuck e h)
  then show ?thesis using traced_same [OF traced_more [OF assms(1)], of r'] by simp
next
  case (skipped e h i p)
  have "cited (tr @ [(c, b)]) r f \<Longrightarrow> cited (tr @ [(c, b)]) r' f" for f by (simp add: skipped cited_def review_key_def)
  then show ?thesis using assms(1) traced_more [OF assms(1), of "(c, b)"] skipped(2,3)
    by (auto simp: skipped(1) row_traced_def list_all_iff skips_def)
next
  case (replaced a)
  have "cr_evidence r' = ai_evidence a" by (simp add: replaced replace_verdict_def)
  moreover have "review_key r' = (ai_execution a, ascii_lower (ai_head a))" using replaced by simp
  moreover have "cr_status r' = Rv_approved" "cr_head r' = cr_head r" by (simp_all add: replaced replace_verdict_def)
  ultimately show ?thesis using assms(1) cited_here [of r' a tr b]
    by (simp add: replaced(2) row_traced_def approves_def)
next
  case (filled a)
  have k: "review_key r' = (ai_execution a, ascii_lower (ai_head a))" using filled by simp
  have f: "cr_status r' = Rv_approved" "cr_head r' = cr_head r" "cr_evidence r' = fill_gaps (ai_evidence a) (cr_evidence r)"
    by (simp_all add: filled fill_verdict_def)
  have q: "er_request (cr_evidence r') = er_request (ai_evidence a)"
    using filled(5) by (auto simp: f(3) fill_gaps_def coalesce_def split: option.splits)
  have "list_all (cited (tr @ [(c, b)]) r') EVIDENCE_COLUMNS"
  proof (cases "cr_evidence r = no_evidence")
    case True
    then have "cr_evidence r' = ai_evidence a" by (simp add: f(3) fill_gaps_def no_evidence_def)
    then show ?thesis using cited_here [OF _ k] by (simp add: filled(2))
  next
    case False
    then have "cr_status r \<noteq> Rv_pending" using assms(1) by (auto simp: row_traced_def)
    then have same: "er_request (cr_evidence r) = er_request (ai_evidence a)" using filled(5) by blast
    have "cited tr r f" if "f \<in> set EVIDENCE_COLUMNS" for f using assms(1) that by (simp add: row_traced_def list_all_iff)
    moreover have "er_request (cr_evidence r') = er_request (cr_evidence r)" "review_key r' = review_key r"
      using q same k filled(3) by simp_all
    ultimately have "cited (tr @ [(Approve_review a, b)]) r' f" if "f \<in> set EVIDENCE_COLUMNS" for f
      using that same filled(3) by (intro filled_cited [of tr r]) (simp_all add: f(3) fill_column)
    then show ?thesis by (simp add: list_all_iff filled(2))
  qed
  then show ?thesis using assms(1) k f q by (simp add: row_traced_def approves_def filled(2))
qed

lemma new_traced: "new_review env c = Some r \<Longrightarrow> row_traced (tr @ [(c, b)]) r"
proof (cases c)
  case (Approve_review a)
  moreover assume "new_review env c = Some r"
  ultimately show ?thesis using cited_here [of r a tr b]
    by (auto simp: row_traced_def approved_row_def bare_review_def approves_def review_key_def)
qed (auto simp: row_traced_def cited_none bare_review_def skips_def review_key_def)

lemma run_traced: "review_run tr s \<Longrightarrow> list_all (row_traced tr) (review_records s)"
proof (induction rule: run_invariant)
  case start
  show ?case by (simp add: empty_review_store_def)
next
  case (call tr s env ss c b s')
  then show ?case using writes_set [OF run_writes [OF call(1,2)]] write_traced new_traced
    by (fastforce simp: list_all_iff)
qed

subsection \<open>A satisfied gate stays satisfied\<close>

text \<open>The verdict of another request for the same head.\<close>

definition overrides :: "string \<times> string \<Rightarrow> string \<Rightarrow> review_call \<times> bool \<Rightarrow> bool" where
  "overrides k q x = (case fst x of
     Approve_review a \<Rightarrow> (ai_execution a, ascii_lower (ai_head a)) = k \<and> er_request (ai_evidence a) \<notin> {None, Some q}
   | _ \<Rightarrow> False)"

definition cross_family :: "string \<times> string \<Rightarrow> string \<Rightarrow> review_row \<Rightarrow> bool" where
  "cross_family k q r = (review_key r = k \<and> cr_status r \<noteq> Rv_pending \<and> er_request (cr_evidence r) = Some q
     \<and> truthy (er_author_family (cr_evidence r)) \<and> truthy (er_reviewer_family (cr_evidence r))
     \<and> er_author_family (cr_evidence r) \<noteq> er_reviewer_family (cr_evidence r))"

lemma truthy_coalesce [simp]: "truthy a \<Longrightarrow> coalesce a b = a"
  by (cases a) simp_all

lemma cross_family_write:
  assumes "review_write env c b r r'" and "cross_family k q r" and "\<not> overrides k q (c, b)"
  shows "cross_family k q r'"
  using assms
  by cases (auto simp: cross_family_def overrides_def fill_verdict_def fill_gaps_def replace_verdict_def review_key_def)

lemma cross_family_gate:
  assumes "distinct (map review_key (review_records s))" and "r \<in> set (review_records s)"
    and "cross_family (e, ascii_lower sha) q r"
  shows "isCodexCodeReviewApproved ss s e sha"
proof -
  have "getCodexReviewRecord s e (ascii_lower sha) = Some r"
    using find_record [OF assms(1)] assms(2,3) by (simp add: cross_family_def)
  then show ?thesis using assms(3)
    by (cases "cr_status r") (auto simp: isCodexCodeReviewApproved_def crossFamilyReviewSatisfied_def cross_family_def)
qed

lemma cross_family_steps:
  assumes "review_steps s tr' s'" and "review_run tr s" and "r \<in> set (review_records s)" and "cross_family k q r"
    and "\<not> list_ex (overrides k q) tr'"
  shows "\<exists>r' \<in> set (review_records s'). cross_family k q r'"
  using assms
proof (induction arbitrary: r)
  case (act s tr1 s1 env ss c b s2)
  then obtain r1 where "r1 \<in> set (review_records s1)" "cross_family k q r1" by auto
  then show ?case
    using writes_stay [OF run_writes [OF run_steps [OF act.prems(1) act.hyps(1)] act.hyps(2)]]
      cross_family_write act.prems(4) by fastforce
qed auto

subsection \<open>Notifications\<close>

text \<open>The notification a call claims.\<close>

fun notifies :: "review_call \<Rightarrow> (bool \<times> string \<times> string) option" where
  "notifies (Hold_notify e h i p) = Some (False, e, ascii_lower h)"
| "notifies (Stuck_notify e h) = Some (True, e, ascii_lower h)"
| "notifies _ = None"

definition granted :: "bool \<times> string \<times> string \<Rightarrow> review_trace \<Rightarrow> nat" where
  "granted k tr = length (filter (\<lambda>(c, b). b \<and> notifies c = Some k) tr)"

definition stamped :: "bool \<times> string \<times> string \<Rightarrow> review_row \<Rightarrow> bool" where
  "stamped k r = (review_key r = snd k \<and> (if fst k then cr_stuck_notified_at r else cr_hold_notified_at r) \<noteq> None)"

lemma stamped_simps [simp]:
  "stamped k (fill_verdict env ev r) = stamped k r" "stamped k (replace_verdict env ev r) = stamped k r"
  "stamped k (r\<lparr>cr_status := st\<rparr>) = stamped k r"
  "stamped (kind, x) (r\<lparr>cr_hold_notified_at := Some t\<rparr>) = (if kind then stamped (True, x) r else review_key r = x)"
  "stamped (kind, x) (r\<lparr>cr_stuck_notified_at := Some t\<rparr>) = (if kind then review_key r = x else stamped (False, x) r)"
  by (simp_all add: stamped_def fill_verdict_def replace_verdict_def review_key_def)

lemma notifies_cases:
  assumes "notifies c = Some k"
  obtains e h i p where "c = Hold_notify e h i p" "k = (False, e, ascii_lower h)"
  | e h where "c = Stuck_notify e h" "k = (True, e, ascii_lower h)"
  using assms by (cases c) auto

lemma granted_stamps:
  assumes "review_write env c True r r'" and "notifies c = Some k" and "review_key r = snd k"
  shows "\<not> stamped k r \<and> stamped k r'"
  using assms(2)
proof (cases rule: notifies_cases)
  case 1
  with assms(1,3) show ?thesis by cases (auto simp: stamped_def)
next
  case 2
  with assms(1,3) show ?thesis by cases (auto simp: stamped_def)
qed

lemma stamp_stays: "review_write env c b r r' \<Longrightarrow> stamped k r \<Longrightarrow> stamped k r'"
  by (cases k) (erule review_write.cases; auto simp: stamped_def fill_verdict_def replace_verdict_def review_key_def)

lemma update_review_at:
  assumes "list_ex (\<lambda>r. review_at e h r \<and> Q r) (review_records s)" and "\<And>r. review_key (f r) = review_key r"
  shows "\<exists>r \<in> set (review_records (update_review (\<lambda>r. review_at e h r \<and> Q r) f s)). review_key r = (e, h)"
proof -
  obtain r where "r \<in> set (review_records s)" "review_at e h r \<and> Q r" using assms(1) by (auto simp: list_ex_iff)
  then have "f r \<in> set (review_records (update_review (\<lambda>r. review_at e h r \<and> Q r) f s))" "review_key (f r) = (e, h)"
    by (auto simp: row_simps assms(2) review_at_key)
  then show ?thesis by blast
qed

lemma granted_row:
  assumes "review_do env ss c s = (True, s')" and "notifies c = Some k"
  shows "\<exists>r \<in> set (review_records s'). review_key r = snd k"
  using assms(2)
proof (cases rule: notifies_cases)
  case (1 e h i p)
  then show ?thesis using assms(1)
    by (auto simp: claimCodexHoldNotify_def Let_def intro!: update_review_at)
next
  case (2 e h)
  then show ?thesis using assms(1)
    by (auto simp: claimCodexHoldStuckNotify_def Let_def intro!: update_review_at)
qed

lemma run_granted: "review_run tr s \<Longrightarrow> granted k tr \<le> (if list_ex (stamped k) (review_records s) then 1 else 0)"
proof (induction rule: run_invariant)
  case start
  show ?case by (simp add: granted_def)
next
  case (call tr s env ss c b s')
  note w = run_writes [OF call(1,2)]
  have d: "distinct (map review_key (review_records s))" using run_distinct [OF call(1)] .
  show ?case
  proof (cases "b \<and> notifies c = Some k")
    case False
    have "list_ex (stamped k) (review_records s')" if "list_ex (stamped k) (review_records s)"
      using that writes_stay [OF w] stamp_stays unfolding list_ex_iff by blast
    then show ?thesis using False call(3) by (auto simp: granted_def split: if_splits)
  next
    case True
    then obtain r' where r': "r' \<in> set (review_records s')" "review_key r' = snd k" using granted_row [of env ss c s s' k] call(2) by auto
    from writes_set [OF w r'(1)] show ?thesis
    proof
      assume "\<exists>r \<in> set (review_records s). review_write env c b r r'"
      then obtain r where r: "r \<in> set (review_records s)" "review_write env c True r r'" using True by auto
      then have st: "\<not> stamped k r" "stamped k r'" using granted_stamps [OF r(2)] True r'(2) write_key [OF r(2)] by auto
      have "\<not> stamped k x" if "x \<in> set (review_records s)" for x
        using that st(1) key_unique [OF d that r(1)] r'(2) write_key [OF r(2)] by (auto simp: stamped_def)
      then have "granted k tr = 0" using call(3) by (auto simp: list_ex_iff split: if_splits)
      then show ?thesis using True st(2) r'(1) by (auto simp: granted_def list_ex_iff)
    next
      assume new: "new_review env c = Some r' \<and> review_key r' \<notin> review_key ` set (review_records s)"
      then have "\<not> stamped k x" if "x \<in> set (review_records s)" for x
        using that r'(2) by (force simp: stamped_def)
      then have "granted k tr = 0" using call(3) by (auto simp: list_ex_iff split: if_splits)
      moreover have "stamped k r'" using True new r'(2) by (cases c) (auto simp: stamped_def)
      ultimately show ?thesis using True r'(1) by (auto simp: granted_def list_ex_iff)
    qed
  qed
qed

subsection \<open>QA records\<close>

text \<open>The calls that write the status of the QA record of a head, or move that record.\<close>

fun qa_writes :: "string \<times> string \<Rightarrow> review_call \<times> bool \<Rightarrow> bool" where
  "qa_writes k (Claim_qa p h i pr, b) = (b \<and> (p, h) = k)"
| "qa_writes k (Set_qa_status p h st v n, b) = ((p, h) = k)"
| "qa_writes k (Retarget_qa p old h ex, b) = (b \<and> ((p, old) = k \<or> (p, h) = k))"
| "qa_writes k (Reopen_qa p h, b) = ((p, h) = k)"
| "qa_writes k _ = False"

definition qa_key :: "qa_row \<Rightarrow> string \<times> string" where
  "qa_key r = (aq_parent r, aq_head r)"

lemma qa_at_key: "qa_at p h r \<longleftrightarrow> qa_key r = (p, h)"
  by (auto simp: qa_at_def qa_key_def)

definition last_passed :: "review_trace \<Rightarrow> qa_row \<Rightarrow> bool" where
  "last_passed tr r = (\<exists>v n tr1 tr2. tr = tr1 @ (Set_qa_status (aq_parent r) (aq_head r) Qa_passed v n, True) # tr2
     \<and> \<not> list_ex (qa_writes (qa_key r)) tr2)"

lemma last_passed_more: "last_passed tr r \<Longrightarrow> \<not> qa_writes (qa_key r) x \<Longrightarrow> last_passed (tr @ [x]) r"
proof -
  assume "last_passed tr r" and x: "\<not> qa_writes (qa_key r) x"
  then obtain v n tr1 tr2 where "tr = tr1 @ (Set_qa_status (aq_parent r) (aq_head r) Qa_passed v n, True) # tr2"
    and "\<not> list_ex (qa_writes (qa_key r)) tr2" by (auto simp: last_passed_def)
  then show ?thesis using x unfolding last_passed_def
    by (intro exI [of _ v] exI [of _ n] exI [of _ tr1] exI [of _ "tr2 @ [x]"]) simp
qed

lemma last_passed_here: "last_passed (tr @ [(Set_qa_status (aq_parent r) (aq_head r) Qa_passed v n, True)]) r"
  unfolding last_passed_def by (intro exI [of _ v] exI [of _ n] exI [of _ tr] exI [of _ "[]"]) simp

lemma last_passed_key: "qa_key r' = qa_key r \<Longrightarrow> last_passed tr r' = last_passed tr r"
  by (auto simp: last_passed_def qa_key_def)

definition was_passed :: "review_store \<Rightarrow> review_call \<times> bool \<Rightarrow> qa_row \<Rightarrow> bool" where
  "was_passed s x r' = ((\<exists>r \<in> set (qa_records s). qa_key r = qa_key r' \<and> aq_status r = Qa_passed) \<and> \<not> qa_writes (qa_key r') x
     \<or> (\<exists>v n. x = (Set_qa_status (aq_parent r') (aq_head r') Qa_passed v n, True)))"

lemma was_passed_same:
  "qa_records s' = qa_records s \<Longrightarrow> r' \<in> set (qa_records s') \<Longrightarrow> aq_status r' = Qa_passed \<Longrightarrow> \<not> qa_writes (qa_key r') x \<Longrightarrow>
    was_passed s x r'"
  by (auto simp: was_passed_def)

lemma was_passed_map:
  assumes "r' \<in> set (qa_records (update_qa P f s))" and "aq_status r' = Qa_passed"
    and "\<And>r. P r \<Longrightarrow> qa_key (f r) = qa_key r" and "\<And>r. P r \<Longrightarrow> aq_status (f r) = Qa_passed \<Longrightarrow> aq_status r = Qa_passed"
    and "\<not> qa_writes (qa_key r') x"
  shows "was_passed s x r'"
proof -
  obtain r where r: "r \<in> set (qa_records s)" "r' = (if P r then f r else r)" using assms(1) by (auto simp: row_simps)
  then have "qa_key r = qa_key r'" "aq_status r = Qa_passed" using assms(2-4) by (auto split: if_splits)
  then show ?thesis using r(1) assms(5) by (auto simp: was_passed_def)
qed

lemma was_passed_reset:
  assumes "r' \<in> set (qa_records (update_qa (qa_at p h) f s))" and "aq_status r' = Qa_passed"
    and "\<And>r. aq_status (f r) \<noteq> Qa_passed" and "\<And>k. k \<noteq> (p, h) \<Longrightarrow> \<not> qa_writes k x"
  shows "was_passed s x r'"
proof -
  obtain r where r: "r \<in> set (qa_records s)" "r' = (if qa_at p h r then f r else r)" using assms(1) by (auto simp: row_simps)
  then have "\<not> qa_at p h r" "r' = r" using assms(2,3) by (auto split: if_splits)
  then show ?thesis using r(1) assms(2,4) by (auto simp: was_passed_def qa_at_key)
qed

lemma find_qa_None: "find (qa_at p h) xs = None \<Longrightarrow> r \<in> set xs \<Longrightarrow> qa_key r \<noteq> (p, h)"
  by (auto simp: find_None_iff qa_at_key)

lemma retarget_passed:
  assumes "retargetAutoQaRecord env p old h ex s = (b, s')" and "r' \<in> set (qa_records s')" and "aq_status r' = Qa_passed"
  shows "was_passed s (Retarget_qa p old h ex, b) r'"
proof (cases b)
  case False
  then have "s' = s" using assms(1) by (auto simp: retargetAutoQaRecord_def split: if_splits option.splits)
  then show ?thesis using False assms(2,3) by (auto intro: was_passed_same)
next
  case True
  have ne: "h \<noteq> old" using assms(1) True by (auto simp: retargetAutoQaRecord_def split: if_splits)
  obtain s1 where s': "s' = move_qa env p old h s1" and sub: "set (qa_records s1) \<subseteq> set (qa_records s)"
    and gone: "\<And>r. r \<in> set (qa_records s1) \<Longrightarrow> qa_key r \<noteq> (p, h)"
  proof (cases "getAutoQaRecord s p h")
    case None
    then show ?thesis using that [of s] assms(1) True find_qa_None
      by (fastforce simp: retargetAutoQaRecord_def getAutoQaRecord_def split: if_splits option.splits)
  next
    case (Some x)
    then have "s' = move_qa env p old h (delete_qa p h s)"
      using assms(1) True by (auto simp: retargetAutoQaRecord_def split: if_splits option.splits)
    then show ?thesis by (rule that) (auto simp: row_simps qa_at_key)
  qed
  obtain r where r: "r \<in> set (qa_records s1)" "\<not> qa_at p old r" "r' = r"
    using assms(2,3) by (auto simp: s' move_qa_def row_simps split: if_splits)
  then show ?thesis using sub gone [OF r(1)] assms(3) by (auto simp: was_passed_def qa_at_key)
qed

lemma approval_qa: "qa_records (write_approval env a s) = qa_records s"
  by (simp add: write_approval_def Let_def row_simps split: option.split)

lemma do_passed:
  assumes "review_do env ss c s = (b, s')" and "r' \<in> set (qa_records s')" and "aq_status r' = Qa_passed"
  shows "was_passed s (c, b) r'"
proof (cases c)
  case (Claim_qa p h i pr)
  show ?thesis
  proof (cases b)
    case True
    then have none: "find (qa_at p h) (qa_records s) = None" and r': "r' \<in> set (qa_records s)"
      using assms Claim_qa by (auto simp: claimAutoQaRecord_def getAutoQaRecord_def split: if_splits)
    then show ?thesis using find_qa_None [OF none r'] r' assms(3) Claim_qa by (auto simp: was_passed_def)
  next
    case False
    then show ?thesis using assms Claim_qa by (auto simp: claimAutoQaRecord_def was_passed_def split: if_splits)
  qed
next
  case (Set_qa_status p h st v n)
  obtain f where s': "s' = update_qa (qa_at p h) f s" and b: b and f: "\<And>r. qa_key (f r) = qa_key r" "\<And>r. aq_status (f r) = st"
    using assms(1) Set_qa_status by (auto simp: setAutoQaStatus_def Let_def qa_key_def)
  obtain r where r: "r \<in> set (qa_records s)" "r' = (if qa_at p h r then f r else r)"
    using assms(2) by (auto simp: s' row_simps)
  show ?thesis
  proof (cases "qa_at p h r")
    case True
    then have "qa_key r' = (p, h)" "st = Qa_passed" using r(2) f assms(3) by (simp_all add: qa_at_key)
    then show ?thesis using Set_qa_status b by (auto simp: was_passed_def qa_key_def)
  next
    case False
    then show ?thesis using r assms(3) Set_qa_status by (auto simp: was_passed_def qa_at_key)
  qed
next
  case (Retarget_qa p old h ex)
  then show ?thesis using assms retarget_passed by simp
next
  case (Reopen_qa p h)
  then show ?thesis using assms by (auto simp: reopenAutoQaRecordForRespawn_def intro!: was_passed_reset)
next
  case (Insert_job i)
  then show ?thesis using assms
    by (intro was_passed_same) (auto simp: insert_job_eq add_job_def Let_def split: if_splits)
next
  case (Approve_review a)
  then show ?thesis using assms
    by (intro was_passed_same) (auto simp: recordCodexReviewApproved_def Let_def approval_qa)
next
  case (Set_qa_execution p h e)
  then have "r' \<in> set (qa_records (setAutoQaQaExecutionId p h e s))" using assms(1,2) by auto
  then show ?thesis unfolding setAutoQaQaExecutionId_def
    by (rule was_passed_map [OF _ assms(3)]) (auto simp: Set_qa_execution qa_key_def)
next
  case (Set_qa_issue p h a1 a2 a3 a4)
  then have "r' \<in> set (qa_records (setAutoQaIssue p h a1 a2 a3 a4 s))" using assms(1,2) by auto
  then show ?thesis unfolding setAutoQaIssue_def
    by (rule was_passed_map [OF _ assms(3)]) (auto simp: Set_qa_issue qa_key_def)
next
  case (Supersede_qa p k)
  then have "r' \<in> set (qa_records (supersedeOtherAutoQaRecords p k s))" using assms(1,2) by auto
  then show ?thesis unfolding supersedeOtherAutoQaRecords_def
    by (rule was_passed_map [OF _ assms(3)]) (auto simp: Supersede_qa qa_key_def)
next
  case (Clear_wake p h)
  then have "r' \<in> set (qa_records (clearRetestWakePending p h s))" using assms(1,2) by auto
  then show ?thesis unfolding clearRetestWakePending_def
    by (rule was_passed_map [OF _ assms(3)]) (auto simp: Clear_wake qa_key_def)
qed (use assms in \<open>auto simp: row_simps claimCodexReviewJobRunning_def completeCodexReviewJob_def failCodexReviewJob_def
    setCodexReviewJobReviewerSession_def stampCodexReviewJobResponded_def resetRunningCodexReviewJobs_def
    claimCodexHoldNotify_def claimCodexHoldStuckNotify_def markCodexReviewSkipped_def upsertCodexReviewPending_def
    ensure_pending_def Let_def split: if_splits intro: was_passed_same\<close>)

lemma run_passed: "review_run tr s \<Longrightarrow> \<forall>r \<in> set (qa_records s). aq_status r = Qa_passed \<longrightarrow> last_passed tr r"
proof (induction rule: run_invariant)
  case start
  show ?case by (simp add: empty_review_store_def)
next
  case (call tr s env ss c b s')
  show ?case
  proof (intro ballI impI)
    fix r' assume "r' \<in> set (qa_records s')" "aq_status r' = Qa_passed"
    from do_passed [OF call(2) this] show "last_passed (tr @ [(c, b)]) r'"
      using call(3) last_passed_more last_passed_here last_passed_key unfolding was_passed_def by metis
  qed
qed

subsection \<open>Review jobs\<close>

text \<open>What a call does to the job of a request.\<close>

fun job_step :: "run_env \<Rightarrow> review_call \<Rightarrow> job_row \<Rightarrow> job_row" where
  "job_step env (Claim_job q) j = (if rj_request j = q \<and> rj_status j \<in> {Job_pending, Job_failed}
     then j\<lparr>rj_status := Job_running, rj_failure_reason := None, rj_failure_raw := None,
        rj_updated_at := Some (sql_now env)\<rparr> else j)"
| "job_step env (Complete_job q v f) j = (if rj_request j = q
     then j\<lparr>rj_status := Job_done, rj_verdict := Some v, rj_findings := f, rj_failure_reason := None,
        rj_failure_raw := None, rj_updated_at := Some (sql_now env)\<rparr> else j)"
| "job_step env (Fail_job q r raw) j = (if rj_request j = q \<and> rj_status j \<notin> {Job_done, Job_skipped}
     then j\<lparr>rj_status := Job_failed, rj_failure_reason := Some r, rj_failure_raw := raw,
        rj_updated_at := Some (sql_now env)\<rparr> else j)"
| "job_step env (Set_reviewer_session q u) j = (if rj_request j = q
     then j\<lparr>rj_reviewer_session := Some u, rj_updated_at := Some (sql_now env)\<rparr> else j)"
| "job_step env (Stamp_responded q) j = (if rj_request j = q then j\<lparr>rj_responded_at := Some (sql_now env)\<rparr> else j)"
| "job_step env Reset_jobs j = (if rj_status j = Job_running
     then j\<lparr>rj_status := Job_pending, rj_updated_at := Some (sql_now env)\<rparr> else j)"
| "job_step env _ j = j"

lemma job_step_id:
  assumes "\<And>q. c \<noteq> Claim_job q" "\<And>q v f. c \<noteq> Complete_job q v f" "\<And>q r raw. c \<noteq> Fail_job q r raw"
    "\<And>q u. c \<noteq> Set_reviewer_session q u" "\<And>q. c \<noteq> Stamp_responded q" "c \<noteq> Reset_jobs"
  shows "job_step env c = (\<lambda>j. j)"
  using assms by (cases c) auto

lemma do_jobs:
  assumes "review_do env ss c s = (b, s')"
  shows "review_jobs s' = map (job_step env c) (review_jobs s)
      @ (case c of Insert_job i \<Rightarrow> if b then [new_job env i] else [] | _ \<Rightarrow> [])"
    and "c = Insert_job i \<Longrightarrow> b \<Longrightarrow> ji_request i \<notin> rj_request ` set (review_jobs s)"
proof -
  show "review_jobs s' = map (job_step env c) (review_jobs s)
      @ (case c of Insert_job i \<Rightarrow> if b then [new_job env i] else [] | _ \<Rightarrow> [])"
  proof (cases c)
    case (Insert_job i)
    then show ?thesis using assms by (auto simp: insert_job_eq add_job_def Let_def job_step_id split: if_splits)
  next
    case (Retarget_qa p old h ex)
    then show ?thesis using assms
      by (auto simp: retargetAutoQaRecord_def move_qa_def row_simps job_step_id split: if_splits option.splits)
  next
    case (Approve_review a)
    then show ?thesis using assms
      by (auto simp: recordCodexReviewApproved_def write_approval_def Let_def row_simps job_step_id split: if_splits option.splits)
  qed (use assms in \<open>auto simp: row_simps job_step_id setAutoQaQaExecutionId_def setAutoQaIssue_def setAutoQaStatus_def
      supersedeOtherAutoQaRecords_def claimAutoQaRecord_def reopenAutoQaRecordForRespawn_def
      clearRetestWakePending_def claimCodexReviewJobRunning_def completeCodexReviewJob_def failCodexReviewJob_def
      setCodexReviewJobReviewerSession_def stampCodexReviewJobResponded_def resetRunningCodexReviewJobs_def
      claimCodexHoldNotify_def claimCodexHoldStuckNotify_def markCodexReviewSkipped_def upsertCodexReviewPending_def
      ensure_pending_def Let_def split: if_splits\<close>)
  show "c = Insert_job i \<Longrightarrow> b \<Longrightarrow> ji_request i \<notin> rj_request ` set (review_jobs s)"
    using assms by (auto simp: insert_job_eq add_job_def Let_def getCodexReviewJob_def find_None_iff split: if_splits)
qed

lemma job_stays: "review_do env ss c s = (b, s') \<Longrightarrow> j \<in> set (review_jobs s) \<Longrightarrow> job_step env c j \<in> set (review_jobs s')"
  by (simp add: do_jobs(1))

lemma job_step_request [simp]: "rj_request (job_step env c j) = rj_request j"
  by (cases c) auto

text \<open>A job whose answer is still to be delivered, and the verdict it holds.\<close>

definition undelivered :: "string \<Rightarrow> job_row \<Rightarrow> bool" where
  "undelivered q j = (rj_request j = q \<and> rj_status j \<in> {Job_done, Job_skipped} \<and> rj_responded_at j = None)"

lemma undelivered_listed: "(\<exists>q. undelivered q j \<and> j \<in> set (review_jobs s)) \<longleftrightarrow> j \<in> set (listUndeliveredCodexReviewJobs s)"
  by (auto simp: undelivered_def listUndeliveredCodexReviewJobs_def oldest_first_def)

definition completes :: "string \<Rightarrow> review_call \<times> bool \<Rightarrow> bool" where
  "completes q x = (case fst x of Complete_job q' v f \<Rightarrow> q' = q | _ \<Rightarrow> False)"

lemma undelivered_step:
  assumes "undelivered q j" and "c \<noteq> Stamp_responded q"
  shows "undelivered q (job_step env c j)"
    and "\<not> completes q (c, b) \<Longrightarrow> rj_verdict (job_step env c j) = rj_verdict j \<and> rj_findings (job_step env c j) = rj_findings j"
  using assms by (cases c; auto simp: undelivered_def completes_def)+

lemma undelivered_steps:
  assumes "review_steps s tr s'" and "j \<in> set (review_jobs s)" and "undelivered q j"
    and "\<not> list_ex (\<lambda>x. fst x = Stamp_responded q) tr"
  shows "\<exists>j' \<in> set (review_jobs s'). undelivered q j'
    \<and> (list_ex (completes q) tr \<or> rj_verdict j' = rj_verdict j \<and> rj_findings j' = rj_findings j)"
  using assms
proof (induction arbitrary: j)
  case (act s tr s1 env ss c b s2)
  then obtain j1 where j1: "j1 \<in> set (review_jobs s1)" "undelivered q j1"
    "list_ex (completes q) tr \<or> rj_verdict j1 = rj_verdict j \<and> rj_findings j1 = rj_findings j" by fastforce
  show ?case
    using job_stays [OF act.hyps(2) j1(1)] undelivered_step(1) [OF j1(2), of c env] undelivered_step(2) [OF j1(2), of c b env] act.prems(3) j1(3)
    by (intro bexI [of _ "job_step env c j1"]) auto
qed auto

text \<open>A claimed job stays out of reach of another claim until it fails or the bridge restarts.\<close>

definition releases :: "string \<Rightarrow> review_call \<times> bool \<Rightarrow> bool" where
  "releases q x = (case fst x of Fail_job q' r raw \<Rightarrow> q' = q | Reset_jobs \<Rightarrow> True | _ \<Rightarrow> False)"

definition taken :: "string \<Rightarrow> review_store \<Rightarrow> bool" where
  "taken q s = (q \<in> rj_request ` set (review_jobs s)
     \<and> (\<forall>j \<in> set (review_jobs s). rj_request j = q \<longrightarrow> rj_status j \<notin> {Job_pending, Job_failed}))"

lemma taken_step:
  assumes "review_do env ss c s = (b, s')" and "taken q s" and "\<not> releases q (c, b)"
  shows "taken q s'"
proof -
  have st: "rj_status (job_step env c j) \<notin> {Job_pending, Job_failed}" if "rj_request j = q" "j \<in> set (review_jobs s)" for j
    using that assms(2,3) by (cases c) (auto simp: taken_def releases_def)
  have fresh: "ji_request i \<noteq> q" if "c = Insert_job i" "b" for i
    using do_jobs(2) [OF assms(1) that] assms(2) by (auto simp: taken_def)
  have "rj_status j \<notin> {Job_pending, Job_failed}" if "j \<in> set (review_jobs s')" "rj_request j = q" for j
    using that st fresh by (auto simp: do_jobs(1) [OF assms(1)] new_job_def split: review_call.splits if_splits)
  moreover obtain j where "j \<in> set (review_jobs s)" "rj_request j = q" using assms(2) by (auto simp: taken_def)
  then have "q \<in> rj_request ` set (review_jobs s')" using job_stays [OF assms(1), of j] by (intro image_eqI) auto
  ultimately show ?thesis by (simp add: taken_def)
qed

lemma taken_map:
  assumes "review_jobs s' = map f js" and "\<And>j. rj_request (f j) = rj_request j"
    and "\<And>j. rj_request j = q \<Longrightarrow> rj_status (f j) \<notin> {Job_pending, Job_failed}" and "q \<in> rj_request ` set js"
  shows "taken q s'"
  using assms by (auto simp: taken_def image_image)

lemma claim_takes:
  assumes "claimCodexReviewJobRunning env q s = (True, s')"
  shows "taken q s'"
proof (rule taken_map)
  show "review_jobs s' = map (job_step env (Claim_job q)) (review_jobs s)"
    using do_jobs(1) [of env empty_session_store "Claim_job q" s True s'] assms by simp
  show "q \<in> rj_request ` set (review_jobs s)"
    using assms by (auto simp: claimCodexReviewJobRunning_def Let_def list_ex_iff)
  fix j
  show "rj_request (job_step env (Claim_job q) j) = rj_request j" by (rule job_step_request)
  show "rj_request j = q \<Longrightarrow> rj_status (job_step env (Claim_job q) j) \<notin> {Job_pending, Job_failed}"
    by (cases "rj_status j") simp_all
qed

lemma taken_refused: "taken q s \<Longrightarrow> claimCodexReviewJobRunning env q s = (False, s)"
  by (auto simp: claimCodexReviewJobRunning_def taken_def Let_def list_ex_iff update_jobs_def intro!: map_idI)
    (auto intro!: review_store.equality map_idI)

end
