(* ===== verification/ReviewProps.thy ===== *)
theory ReviewProps
  imports ReviewInv
begin

section \<open>What the review gates guarantee\<close>

text \<open>
  Over every run of the review store: a satisfied gate has verdicts behind it, a verdict of another
  family keeps the gate satisfied, a lead is told of a hold once, a verdict waits in the outbox until it
  is delivered, a job has one worker, and a passed QA record rests on the verdict for its head.
\<close>

subsection \<open>Verdicts behind a gate\<close>

text \<open>What a satisfied code-review gate rests on: a skip recorded for the head; or verdicts of one
  request for the head, whose families differ, or of an author of the Claude family.\<close>

definition verdicts_behind :: "review_trace \<Rightarrow> session_store \<Rightarrow> string \<Rightarrow> string \<Rightarrow> bool" where
  "verdicts_behind tr ss e sha = (let k = (e, ascii_lower sha) in
     list_ex (\<lambda>x. skips x k) tr
     \<or> (\<exists>q. list_ex (\<lambda>x. approves x k q (\<lambda>_. True)) tr
         \<and> (adapterTypeToFamily (adapter_of ss e) = claude_family
            \<or> (\<exists>a b. truthy a \<and> truthy b \<and> a \<noteq> b
                 \<and> list_ex (\<lambda>x. approves x k q (\<lambda>ev. er_author_family ev = a)) tr
                 \<and> list_ex (\<lambda>x. approves x k q (\<lambda>ev. er_reviewer_family ev = b)) tr))))"

lemma traced_family:
  assumes "row_traced tr r" and "f \<in> {er_author_family, er_reviewer_family}" and "truthy (f (cr_evidence r))"
  shows "list_ex (\<lambda>x. approves x (review_key r) (er_request (cr_evidence r)) (\<lambda>ev. f ev = f (cr_evidence r))) tr"
proof -
  have "cited tr r f" using assms(1,2) by (auto simp: row_traced_def EVIDENCE_COLUMNS_def)
  then show ?thesis using assms(3) by (auto simp: cited_def)
qed

lemma gate_record:
  assumes "review_run tr s" and "isCodexCodeReviewApproved ss s e sha"
  obtains r where "row_traced tr r" "review_key r = (e, ascii_lower sha)"
    "crossFamilyReviewSatisfied (Some (cr_status r)) (er_author_family (cr_evidence r))
       (er_reviewer_family (cr_evidence r)) (adapter_of ss e)"
proof -
  obtain r where get: "getCodexReviewRecord s e (ascii_lower sha) = Some r"
    and c: "crossFamilyReviewSatisfied (Some (cr_status r)) (er_author_family (cr_evidence r))
       (er_reviewer_family (cr_evidence r)) (adapter_of ss e)"
    using assms(2) by (auto simp: isCodexCodeReviewApproved_def split: option.splits)
  have "r \<in> set (review_records s)" "review_key r = (e, ascii_lower sha)"
    using get find_record [OF run_distinct [OF assms(1)]] by auto
  then show thesis using that c run_traced [OF assms(1)] by (auto simp: list_all_iff)
qed

lemma gate_verdicts:
  assumes "review_run tr s" and "isCodexCodeReviewApproved ss s e sha"
  shows "verdicts_behind tr ss e sha"
proof -
  obtain r where r: "row_traced tr r" "review_key r = (e, ascii_lower sha)"
    and c: "crossFamilyReviewSatisfied (Some (cr_status r)) (er_author_family (cr_evidence r))
       (er_reviewer_family (cr_evidence r)) (adapter_of ss e)"
    using gate_record [OF assms] .
  note fam = traced_family [OF r(1), unfolded r(2)]
  show ?thesis
  proof (cases "cr_status r")
    case Rv_pending
    then show ?thesis using c by (simp add: crossFamilyReviewSatisfied_def)
  next
    case Rv_skipped
    then show ?thesis using r by (simp add: verdicts_behind_def row_traced_def)
  next
    case Rv_approved
    then have "list_ex (\<lambda>x. approves x (e, ascii_lower sha) (er_request (cr_evidence r)) (\<lambda>_. True)) tr"
      using r by (simp add: row_traced_def)
    moreover have "truthy (er_author_family (cr_evidence r)) \<and> truthy (er_reviewer_family (cr_evidence r))
        \<and> er_author_family (cr_evidence r) \<noteq> er_reviewer_family (cr_evidence r)
        \<or> adapterTypeToFamily (adapter_of ss e) = claude_family"
      using c Rv_approved by (simp add: crossFamilyReviewSatisfied_def split: if_splits)
    ultimately show ?thesis using fam unfolding verdicts_behind_def Let_def by blast
  qed
qed


text \<open>C13: once the verdict of a reviewer of another family stands on a head, the code-review gate of
  that head stays satisfied whatever the bridge does next, a change of the author's adapter included;
  only the verdict of another request for the same head can change it.\<close>

theorem cross_family_review_sticks:
  assumes "review_run tr s" and "getCodexReviewRecord s e sha = Some r" and "cr_status r \<noteq> Rv_pending"
    and "er_request (cr_evidence r) = Some q"
    and "manifestReviewFamilyOk (er_author_family (cr_evidence r)) (er_reviewer_family (cr_evidence r))"
    and "review_steps s tr' s'" and "\<not> list_ex (overrides (e, ascii_lower sha) q) tr'"
  shows "isCodexCodeReviewApproved ss s' e sha"
proof -
  have "r \<in> set (review_records s)" "review_key r = (e, ascii_lower sha)"
    using assms(2) find_record [OF run_distinct [OF assms(1)]] by auto
  then have "cross_family (e, ascii_lower sha) q r" using assms(3-5)
    by (auto simp: cross_family_def manifestReviewFamilyOk_def)
  then obtain r' where "r' \<in> set (review_records s')" "cross_family (e, ascii_lower sha) q r'"
    using cross_family_steps [OF assms(6,1)] \<open>r \<in> set (review_records s)\<close> assms(7) by blast
  then show ?thesis using cross_family_gate run_distinct [OF run_steps [OF assms(1,6)]] by blast
qed

subsection \<open>Notifications and jobs\<close>

text \<open>The lead of a session is told of a hold once per head: however often the pollers of the
  bridge ask, and whatever runs between, at most one request for the notification of a head is granted;
  the same holds for the notice of a stuck hold.\<close>

theorem hold_notified_once:
  assumes "review_run tr s"
  shows "length (filter (\<lambda>(c, b). b \<and> notifies c = Some k) tr) \<le> 1"
  using run_granted [OF assms, of k] by (simp add: granted_def split: if_splits)

text \<open>C35: a review verdict waits in the outbox until it is delivered. A job the bridge listed as
  undelivered is listed after every further run without the stamp of its delivery, restarts included,
  and holds the same verdict and findings unless the job is completed again.\<close>

theorem verdict_stays_in_outbox:
  assumes "review_steps s tr s'" and "j \<in> set (listUndeliveredCodexReviewJobs s)"
    and "\<not> list_ex (\<lambda>x. fst x = Stamp_responded (rj_request j)) tr"
  shows "\<exists>j' \<in> set (listUndeliveredCodexReviewJobs s'). rj_request j' = rj_request j
    \<and> (list_ex (completes (rj_request j)) tr \<or> rj_verdict j' = rj_verdict j \<and> rj_findings j' = rj_findings j)"
proof -
  have j: "undelivered (rj_request j) j" "j \<in> set (review_jobs s)"
    using assms(2) undelivered_listed [of j s] by (auto simp: undelivered_def)
  from undelivered_steps [OF assms(1) j(2,1) assms(3)] obtain j' where
    "undelivered (rj_request j) j'" "j' \<in> set (review_jobs s')"
    "list_ex (completes (rj_request j)) tr \<or> rj_verdict j' = rj_verdict j \<and> rj_findings j' = rj_findings j" by blast
  then show ?thesis using undelivered_listed [of j' s'] by (auto simp: undelivered_def)
qed

text \<open>A review job has one worker. After a claim that succeeded, every later claim of the same
  request is refused and writes nothing, until the job fails or a restart resets the running jobs.\<close>

theorem review_job_claimed_once:
  assumes "claimCodexReviewJobRunning env q s = (True, s1)" and "review_steps s1 tr s2"
    and "\<not> list_ex (releases q) tr"
  shows "claimCodexReviewJobRunning env' q s2 = (False, s2)"
proof -
  have "taken q s2" using assms(2) claim_takes [OF assms(1)] assms(3)
  proof induction
    case (act s tr s1 env ss c b s2)
    then show ?case using taken_step [OF act.hyps(2)] by auto
  qed
  then show ?thesis by (rule taken_refused)
qed

subsection \<open>QA records\<close>

text \<open>C21: a passed QA record rests on the verdict for its head. The last write to the status of that
  head in the trace is the pass verdict: the record was not claimed, retargeted, reopened or given
  another status afterwards, so a pass is never carried over to a new head.\<close>

theorem qa_pass_rests_on_verdict:
  assumes "review_run tr s" and "getAutoQaRecord s parent head = Some r" and "aq_status r = Qa_passed"
  shows "\<exists>v n tr1 tr2. tr = tr1 @ (Set_qa_status parent head Qa_passed v n, True) # tr2
    \<and> \<not> list_ex (qa_writes (parent, head)) tr2"
proof -
  have "r \<in> set (qa_records s)" "qa_key r = (parent, head)"
    using assms(2) by (auto simp: getAutoQaRecord_def qa_at_key dest: find_Some_iff')
  then show ?thesis using run_passed [OF assms(1)] assms(3) by (auto simp: last_passed_def qa_key_def)
qed

subsection \<open>A run\<close>

text \<open>A list of calls made one after the other: the trace and the store it ends in.\<close>

fun review_play :: "run_env \<Rightarrow> session_store \<Rightarrow> review_call list \<Rightarrow> review_store \<Rightarrow> review_trace \<times> review_store" where
  "review_play env ss [] s = ([], s)"
| "review_play env ss (c # cs) s = (let (b, s1) = review_do env ss c s; (tr, s2) = review_play env ss cs s1
     in ((c, b) # tr, s2))"

lemma play_steps: "review_steps s (fst (review_play env ss cs s)) (snd (review_play env ss cs s))"
proof (induction cs arbitrary: s)
  case (Cons c cs)
  obtain b s1 where c: "review_do env ss c s = (b, s1)" by fastforce
  have "review_steps s [(c, b)] s1" using review_steps.act [OF review_steps.idle c] by simp
  from steps_append [OF this Cons.IH [of s1]] show ?case by (auto simp: c split: prod.splits)
qed (simp add: review_steps.idle)

lemmas play_run = play_steps [of empty_review_store, folded review_run_def]

definition play_env :: run_env where
  "play_env = \<lparr>now_iso = ''t'', sql_now = ''t'', fresh_token = ''u'', sha256 = id, other_date = (\<lambda>_. None)\<rparr>"

definition play_head :: string where "play_head = concat (replicate 20 ''Ab'')"

definition play_cells :: "session_column \<Rightarrow> sql_value option" where
  "play_cells c = (if c = ''pr_head_sha'' then Some (Txt play_head)
     else if c = ''adapter_type'' then Some (Txt ''codex-tmux'') else None)"

definition play_row :: session_row where
  "play_row = \<lparr>status = awaiting_review, lifecycle_revision = 1, awaiting_review_entered_at = None,
     gate_timeout_notified_at = None, review_question_id = None, binding = None, cells = play_cells\<rparr>"

definition play_sessions :: session_store where
  "play_sessions = \<lparr>sessions = [(''e'', play_row)], session_events = [], retry_dispatch_intents = []\<rparr>"

definition play_verdict :: "string \<Rightarrow> evidence" where
  "play_verdict q = \<lparr>er_verdict_event = Some ''v'', er_target = None, er_thread = None, er_rounds = None,
     er_author_family = Some ''codex'', er_reviewer_family = Some ''claude'', er_request = Some q\<rparr>"

definition play_approve :: "string \<Rightarrow> review_call" where
  "play_approve q = Approve_review \<lparr>ai_execution = ''e'', ai_head = play_head, ai_issue = ''i'', ai_project = ''p'',
     ai_evidence = play_verdict q\<rparr>"

definition play_job :: review_call where
  "play_job = Insert_job \<lparr>ji_request = ''q'', ji_execution = ''e'', ji_issue = None, ji_project = ''p'',
     ji_type = Code_review, ji_round = None, ji_question = ''x'', ji_target_path = None, ji_frozen_head = None,
     ji_reviewer_session = None, ji_author_family = None, ji_skipped = False\<rparr>"

text \<open>Held and announced, claimed by a reviewer, approved; QA passes and its record moves on; the verdict
  goes undelivered.\<close>

definition play_calls :: "review_call list" where
  "play_calls = [Hold_notify ''e'' play_head ''i'' ''p'', Hold_notify ''e'' play_head ''i'' ''p'', play_job,
     Claim_job ''q'', Complete_job ''q'' ''approved'' None, play_approve ''q'',
     Claim_qa ''e'' ''h'' ''i'' ''p'', Set_qa_status ''e'' ''h'' Qa_passed None True]"

definition play_store :: review_store where
  "play_store = snd (review_play play_env play_sessions play_calls empty_review_store)"

definition play_trace :: review_trace where
  "play_trace = fst (review_play play_env play_sessions play_calls empty_review_store)"

lemma played: "review_run play_trace play_store"
  unfolding play_trace_def play_store_def by (rule play_run)

lemma played_again: "review_steps s (fst (review_play play_env play_sessions cs s)) (snd (review_play play_env play_sessions cs s))"
  by (rule play_steps)


theorem cross_family_review_sticks_witness:
  "isCodexCodeReviewApproved empty_session_store
     (snd (review_play play_env play_sessions [play_approve ''q'', Reset_jobs] play_store)) ''e'' play_head"
proof -
  obtain r where r: "getCodexReviewRecord play_store ''e'' play_head = Some r"
  proof -
    have "getCodexReviewRecord play_store ''e'' play_head \<noteq> None" by code_simp
    then show thesis using that by blast
  qed
  have "map_option (\<lambda>r. (cr_status r, cr_evidence r)) (getCodexReviewRecord play_store ''e'' play_head)
      = Some (Rv_approved, play_verdict ''q'')" by code_simp
  then have "cr_status r = Rv_approved" "cr_evidence r = play_verdict ''q''" using r by simp_all
  then show ?thesis
    by (intro cross_family_review_sticks [OF played r, where q = "''q''" and tr' = "fst (review_play play_env play_sessions [play_approve ''q'', Reset_jobs] play_store)"] play_steps)
      (simp_all add: play_verdict_def manifestReviewFamilyOk_def overrides_def play_approve_def split: prod.split)
qed

theorem hold_notified_once_witness:
  "length (filter (\<lambda>(c, b). b \<and> notifies c = Some (False, ''e'', ascii_lower play_head)) play_trace) = 1"
proof -
  have "0 < length (filter (\<lambda>(c, b). b \<and> notifies c = Some (False, ''e'', ascii_lower play_head)) play_trace)" by code_simp
  then show ?thesis using hold_notified_once [OF played, of "(False, ''e'', ascii_lower play_head)"] by linarith
qed

theorem verdict_stays_in_outbox_witness:
  "\<exists>j \<in> set (listUndeliveredCodexReviewJobs (snd (review_play play_env play_sessions [Reset_jobs, Claim_job ''q''] play_store))).
     rj_request j = ''q'' \<and> rj_verdict j = Some ''approved''"
proof -
  have "map (\<lambda>j. (rj_request j, rj_verdict j)) (listUndeliveredCodexReviewJobs play_store) = [(''q'', Some ''approved'')]"
    by code_simp
  then obtain j where j: "j \<in> set (listUndeliveredCodexReviewJobs play_store)" "rj_request j = ''q''"
    "rj_verdict j = Some ''approved''" by (auto simp: map_eq_Cons_conv)
  show ?thesis
    using verdict_stays_in_outbox [OF played_again j(1), of "[Reset_jobs, Claim_job ''q'']"] j(2,3)
    by (auto simp: completes_def split: prod.splits)
qed

definition play_claimed :: review_store where
  "play_claimed = snd (claimCodexReviewJobRunning play_env ''q'' (snd (review_play play_env play_sessions [play_job] empty_review_store)))"

definition play_later :: "review_trace \<times> review_store" where
  "play_later = review_play play_env play_sessions [Hold_notify ''e'' play_head ''i'' ''p'', play_job] play_claimed"

theorem review_job_claimed_once_witness:
  "review_jobs play_claimed \<noteq> [] \<and> claimCodexReviewJobRunning play_env ''q'' (snd play_later) = (False, snd play_later)"
proof
  show "review_jobs play_claimed \<noteq> []" by code_simp
  let ?s = "snd (review_play play_env play_sessions [play_job] empty_review_store)"
  have "fst (claimCodexReviewJobRunning play_env ''q'' ?s)" by code_simp
  then have claimed: "claimCodexReviewJobRunning play_env ''q'' ?s = (True, play_claimed)"
    by (simp add: play_claimed_def prod_eq_iff del: review_play.simps)
  have "review_steps play_claimed (fst play_later) (snd play_later)" unfolding play_later_def by (rule play_steps)
  moreover have "\<not> list_ex (releases ''q'') (fst play_later)" by code_simp
  ultimately show "claimCodexReviewJobRunning play_env ''q'' (snd play_later) = (False, snd play_later)"
    by (rule review_job_claimed_once [OF claimed])
qed

theorem qa_pass_rests_on_verdict_witness:
  "\<exists>v n tr1 tr2. play_trace = tr1 @ (Set_qa_status ''e'' ''h'' Qa_passed v n, True) # tr2"
proof -
  have "map_option aq_status (getAutoQaRecord play_store ''e'' ''h'') = Some Qa_passed" by code_simp
  then obtain r where "getAutoQaRecord play_store ''e'' ''h'' = Some r" "aq_status r = Qa_passed" by auto
  then show ?thesis using qa_pass_rests_on_verdict [OF played] by blast
qed

end
