(* ===== verification/CommDb.thy ===== *)
theory CommDb
  imports Runtime
begin

section \<open>Messages and gates (flywheel-comm/src/db.ts)\<close>

text \<open>
  The database runners and leads talk through: questions and their answers, instructions, the
  approval gates with the source events written beside an approval, and the tables of the runner
  lifecycle. Every table is its rows in rowid order. Times of \<open>messages\<close> are whole seconds (the text
  \<open>datetime\<close> prints orders as the number does), times the caller passes are milliseconds. The JSON
  payload of a source event is kept as the value it encodes. A call that throws leaves the store as it
  was: its statements are one transaction, or one statement.
\<close>

subsection \<open>Rows\<close>

datatype message_type = Question | Response | Instruction | Progress

datatype content_type = Text_content | Ref_content | Artifact_content

record message =
  m_id :: string
  m_from :: string
  m_to :: string
  m_type :: message_type
  m_content :: string
  m_parent :: "string option"
  m_read_at :: "int option"
  m_created_at :: int
  m_expires_at :: int
  m_checkpoint :: "string option"
  m_content_ref :: "string option"
  m_content_type :: content_type
  m_resolved_at :: "int option"
  m_delivered_at :: "int option"
  m_attachments :: "string option"
  m_kind :: "string option"

datatype source_kind = Founder_approval | Turn_grant

record source_event =
  ws_project :: string
  ws_id :: string
  ws_kind :: source_kind
  ws_payload :: json
  ws_digest :: string
  ws_schema_version :: int
  ws_at :: string

record turn_history =
  th_id :: int
  th_issue :: string
  th_from_role :: "string option"
  th_to_role :: string
  th_epoch :: int
  th_target_run :: "string option"
  th_source_event :: string
  th_at :: string

record turn =
  t_issue :: string
  t_holder :: string
  t_phase :: string
  t_epoch :: int
  t_granted_at :: int

datatype wake_state = Wake_pending | Wake_started | Wake_finished

record phase_wake =
  pw_seq :: int
  pw_execution :: string
  pw_message :: string
  pw_content :: string
  pw_metadata :: "string option"
  pw_source_instruction :: "string option"
  pw_state :: wake_state
  pw_queued_at :: int
  pw_started_at :: "int option"
  pw_finished_at :: "int option"

datatype shutdown_state = Shutdown_requested | Shutdown_acked | Shutdown_failed

record shutdown_control =
  sd_execution :: string
  sd_request :: string
  sd_state :: shutdown_state
  sd_requested_at :: int
  sd_finished_at :: "int option"
  sd_error :: "string option"

datatype declared_kind = Parked | Long_task

record declared_state =
  ds_execution :: string
  ds_kind :: declared_kind
  ds_reason :: "string option"
  ds_created_at :: int
  ds_expires_at :: "int option"
  ds_updated_at :: int

datatype registry_status = Reg_running | Reg_completed | Reg_timeout

record registry_row =
  rs_execution :: string
  rs_tmux_window :: string
  rs_project :: string
  rs_issue :: "string option"
  rs_lead :: "string option"
  rs_vendor :: "string option"
  rs_started_at :: int
  rs_ended_at :: "int option"
  rs_status :: registry_status

record comm_db =
  messages :: "message list"
  source_events :: "source_event list"
  turn_log :: "turn_history list"
  turns :: "turn list"
  wakes :: "phase_wake list"
  last_wake_seq :: int
  shutdowns :: "shutdown_control list"
  declared :: "declared_state list"
  registry :: "registry_row list"

definition empty_comm_db :: comm_db where
  "empty_comm_db = \<lparr>messages = [], source_events = [], turn_log = [], turns = [], wakes = [], last_wake_seq = 0,
     shutdowns = [], declared = [], registry = []\<rparr>"

datatype comm_error = Question_not_found | Constraint_unique | Constraint_foreign_key | Source_poison
  | Wake_incomplete | Wake_exec_mismatch | Instruction_not_found | Instruction_foreign
  | Shutdown_incomplete | Shutdown_bound_elsewhere

text \<open>\<open>datetime('now')\<close> in seconds, the draw of \<open>randomUUID\<close>, \<open>toISOString\<close> of an instant; SHA-256 and
  the ISO time of the call are those of \<open>run_env\<close>.\<close>

record comm_env = run_env +
  now_seconds :: int
  iso_of :: "int \<Rightarrow> string"

definition HOUR :: int where "HOUR = 3600"
definition DEFAULT_TTL :: int where "DEFAULT_TTL = 72 * HOUR"

definition approve_to_ship :: string where "approve_to_ship = ''approve_to_ship''"

subsection \<open>Writing messages\<close>

definition find_message :: "comm_db \<Rightarrow> string \<Rightarrow> message option" where
  "find_message s i = find (\<lambda>m. m_id m = i) (messages s)"

definition new_message :: "comm_env \<Rightarrow> string \<Rightarrow> string \<Rightarrow> string \<Rightarrow> message_type \<Rightarrow> string \<Rightarrow> message" where
  "new_message env i sender to ty content = \<lparr>m_id = i, m_from = sender, m_to = to, m_type = ty, m_content = content,
     m_parent = None, m_read_at = None, m_created_at = now_seconds env, m_expires_at = now_seconds env + DEFAULT_TTL,
     m_checkpoint = None, m_content_ref = None, m_content_type = Text_content, m_resolved_at = None,
     m_delivered_at = None, m_attachments = None, m_kind = None\<rparr>"

text \<open>An answer to \<open>q\<close>; \<open>idx_unique_response\<close> allows one per question.\<close>

definition is_response_to :: "string \<Rightarrow> message \<Rightarrow> bool" where
  "is_response_to q m = (m_parent m = Some q \<and> m_type m = Response)"

definition answered :: "comm_db \<Rightarrow> string \<Rightarrow> bool" where
  "answered s q = list_ex (is_response_to q) (messages s)"

definition insert_message :: "message \<Rightarrow> comm_db \<Rightarrow> (comm_error, comm_db) result" where
  "insert_message m s =
     (if find_message s (m_id m) \<noteq> None then Inl Constraint_unique
      else if (case m_parent m of None \<Rightarrow> False | Some p \<Rightarrow> m_type m = Response \<and> answered s p) then Inl Constraint_unique
      else if (case m_parent m of None \<Rightarrow> False | Some p \<Rightarrow> find_message s p = None) then Inl Constraint_foreign_key
      else Inr (s\<lparr>messages := messages s @ [m]\<rparr>))"

definition update_messages :: "(message \<Rightarrow> bool) \<Rightarrow> (message \<Rightarrow> message) \<Rightarrow> comm_db \<Rightarrow> comm_db" where
  "update_messages P f s = s\<lparr>messages := map (\<lambda>m. if P m then f m else m) (messages s)\<rparr>"

text \<open>\<open>DELETE FROM messages WHERE P\<close> under \<open>foreign_keys = ON\<close>, with the number of rows.\<close>

definition delete_messages :: "(message \<Rightarrow> bool) \<Rightarrow> comm_db \<Rightarrow> (comm_error, nat \<times> comm_db) result" where
  "delete_messages P s =
     (let kept = filter (\<lambda>m. \<not> P m) (messages s) in
      if list_ex (\<lambda>m. case m_parent m of None \<Rightarrow> False
           | Some p \<Rightarrow> \<not> list_ex (\<lambda>k. m_id k = p) kept) kept
      then Inl Constraint_foreign_key
      else Inr (length (filter P (messages s)), s\<lparr>messages := kept\<rparr>))"

text \<open>The messages of a condition and their answers; children are deleted first. The first
  component lists the content files removed.\<close>

definition child_of :: "(message \<Rightarrow> bool) \<Rightarrow> comm_db \<Rightarrow> message \<Rightarrow> bool" where
  "child_of P s m = (case m_parent m of None \<Rightarrow> False | Some p \<Rightarrow> list_ex (\<lambda>k. m_id k = p \<and> P k) (messages s))"

definition delete_with_children :: "(message \<Rightarrow> bool) \<Rightarrow> comm_db \<Rightarrow> (comm_error, string list \<times> nat \<times> comm_db) result" where
  "delete_with_children P s =
     (let refs = List.map_filter m_content_ref (filter (\<lambda>m. P m \<or> child_of P s m) (messages s)) in
      and_then (delete_messages (child_of P s) s) (\<lambda>(n1, s1).
        and_then (delete_messages P s1) (\<lambda>(n2, s2). Inr (refs, n1 + n2, s2))))"

definition expired_at :: "int \<Rightarrow> message \<Rightarrow> bool" where
  "expired_at now m = (m_expires_at m < now)"

definition purgeExpiredWithRefs :: "comm_env \<Rightarrow> comm_db \<Rightarrow> (comm_error, string list \<times> nat \<times> comm_db) result" where
  "purgeExpiredWithRefs env = delete_with_children (expired_at (now_seconds env))"

definition read_before :: "int \<Rightarrow> message \<Rightarrow> bool" where
  "read_before t m = (m_read_at m \<noteq> None \<and> m_created_at m < t)"

definition cleanupReadMessagesWithRefs :: "comm_env \<Rightarrow> int \<Rightarrow> comm_db \<Rightarrow> (comm_error, string list \<times> nat \<times> comm_db) result" where
  "cleanupReadMessagesWithRefs env ttlHours = delete_with_children (read_before (now_seconds env - ttlHours * HOUR))"

record question_opts =
  qo_checkpoint :: "string option"
  qo_content_ref :: "string option"
  qo_ref_content :: bool
  qo_ttl_seconds :: "int option"
  qo_report :: bool

definition report_kind :: string where "report_kind = ''report''"

definition question_row :: "comm_env \<Rightarrow> string \<Rightarrow> string \<Rightarrow> string \<Rightarrow> question_opts \<Rightarrow> message" where
  "question_row env sender to content qopts = (new_message env (fresh_token env) sender to Question content)
     \<lparr>m_checkpoint := qo_checkpoint qopts, m_content_ref := qo_content_ref qopts,
      m_content_type := (if qo_ref_content qopts then Ref_content else Text_content),
      m_kind := (if qo_report qopts then Some report_kind else None),
      m_expires_at := (case qo_ttl_seconds qopts of
          Some ttl \<Rightarrow> if 0 < ttl then now_seconds env + ttl else now_seconds env + DEFAULT_TTL
        | None \<Rightarrow> now_seconds env + DEFAULT_TTL)\<rparr>"

definition insertQuestion :: "comm_env \<Rightarrow> string \<Rightarrow> string \<Rightarrow> string \<Rightarrow> question_opts \<Rightarrow> comm_db
    \<Rightarrow> (comm_error, string \<times> comm_db) result" where
  "insertQuestion env sender to content qopts s =
     and_then (insert_message (question_row env sender to content qopts) s) (\<lambda>s'. Inr (fresh_token env, s'))"

subsection \<open>Retiring and answering\<close>

definition question_is :: "string \<Rightarrow> message \<Rightarrow> bool" where
  "question_is q m = (m_id m = q \<and> m_type m = Question)"

definition live_at :: "int \<Rightarrow> message \<Rightarrow> bool" where
  "live_at now m = (now < m_expires_at m)"

definition claimLifecycleConsent :: "comm_env \<Rightarrow> string \<Rightarrow> string \<Rightarrow> comm_db \<Rightarrow> bool \<times> comm_db" where
  "claimLifecycleConsent env q checkpoint s =
     (let P = (\<lambda>m. question_is q m \<and> m_checkpoint m = Some checkpoint \<and> m_resolved_at m = None
                   \<and> live_at (now_seconds env) m)
      in (length (filter P (messages s)) = 1, update_messages P (\<lambda>m. m\<lparr>m_resolved_at := Some (now_seconds env)\<rparr>) s))"

definition retire_row :: "comm_env \<Rightarrow> message \<Rightarrow> message" where
  "retire_row env m = m\<lparr>m_resolved_at := Some (now_seconds env),
     m_read_at := coalesce (m_read_at m) (Some (now_seconds env)), m_expires_at := now_seconds env\<rparr>"

definition retireShipGate :: "comm_env \<Rightarrow> string \<Rightarrow> comm_db \<Rightarrow> bool \<times> comm_db" where
  "retireShipGate env q s =
     (let P = (\<lambda>m. question_is q m \<and> m_checkpoint m = Some approve_to_ship \<and> live_at (now_seconds env) m
                   \<and> \<not> answered s (m_id m))
      in (list_ex P (messages s), update_messages P (retire_row env) s))"

definition retireQuestionGuarded :: "comm_env \<Rightarrow> string \<Rightarrow> string \<Rightarrow> comm_db \<Rightarrow> bool \<times> comm_db" where
  "retireQuestionGuarded env q expectedFromAgent s =
     (let P = (\<lambda>m. question_is q m \<and> m_from m = expectedFromAgent \<and> live_at (now_seconds env) m
                   \<and> \<not> answered s (m_id m))
      in (list_ex P (messages s), update_messages P (retire_row env) s))"

definition pending_question :: "int \<Rightarrow> comm_db \<Rightarrow> message \<Rightarrow> bool" where
  "pending_question now s m = (m_type m = Question \<and> \<not> answered s (m_id m) \<and> live_at now m)"

definition isQuestionPending :: "comm_env \<Rightarrow> comm_db \<Rightarrow> string \<Rightarrow> bool" where
  "isQuestionPending env s q = list_ex (\<lambda>m. m_id m = q \<and> pending_question (now_seconds env) s m) (messages s)"

definition settle_row :: "comm_env \<Rightarrow> int \<Rightarrow> message \<Rightarrow> message" where
  "settle_row env hours m = m\<lparr>m_resolved_at := Some (now_seconds env),
     m_read_at := coalesce (m_read_at m) (Some (now_seconds env)), m_expires_at := now_seconds env + hours * HOUR\<rparr>"

definition resolveGate :: "comm_env \<Rightarrow> string \<Rightarrow> int \<Rightarrow> comm_db \<Rightarrow> comm_db" where
  "resolveGate env q cleanupTtlHours = update_messages (question_is q) (settle_row env cleanupTtlHours)"

definition response_row :: "comm_env \<Rightarrow> string \<Rightarrow> string \<Rightarrow> message \<Rightarrow> message" where
  "response_row env sender content q = (new_message env (fresh_token env) sender (m_from q) Response content)
     \<lparr>m_parent := Some (m_id q)\<rparr>"

definition insertResponse :: "comm_env \<Rightarrow> string \<Rightarrow> string \<Rightarrow> string \<Rightarrow> comm_db \<Rightarrow> (comm_error, comm_db) result" where
  "insertResponse env parentId sender content s =
     (case find (question_is parentId) (messages s) of
        None \<Rightarrow> Inl Question_not_found
      | Some q \<Rightarrow> insert_message (response_row env sender content q) s)"

text \<open>\<open>INSERT ... SELECT ... FROM messages q WHERE P q\<close>: \<open>P\<close> fixes the id, so at most one row.\<close>

definition answer_where :: "comm_env \<Rightarrow> (message \<Rightarrow> bool) \<Rightarrow> string \<Rightarrow> string \<Rightarrow> comm_db \<Rightarrow> (comm_error, bool \<times> comm_db) result" where
  "answer_where env P sender content s =
     (case find P (messages s) of
        None \<Rightarrow> Inr (False, s)
      | Some q \<Rightarrow> and_then (insert_message (response_row env sender content q) s) (\<lambda>s'. Inr (True, s')))"

text \<open>The conditions of an answer: the gate of this owner, unresolved and unanswered.\<close>

definition open_gate :: "comm_db \<Rightarrow> string \<Rightarrow> string \<Rightarrow> string \<Rightarrow> message \<Rightarrow> bool" where
  "open_gate s q owner checkpoint m = (question_is q m \<and> m_from m = owner \<and> m_checkpoint m = Some checkpoint
     \<and> m_resolved_at m = None \<and> \<not> answered s (m_id m))"

definition insertResponseIfGateOpen :: "comm_env \<Rightarrow> string \<Rightarrow> string \<Rightarrow> string \<Rightarrow> string \<Rightarrow> string \<Rightarrow> comm_db
    \<Rightarrow> (comm_error, bool \<times> comm_db) result" where
  "insertResponseIfGateOpen env q sender content owner checkpoint s =
     answer_where env (\<lambda>m. open_gate s q owner checkpoint m \<and> live_at (now_seconds env) m) sender content s"

definition insert_source_event :: "source_event \<Rightarrow> comm_db \<Rightarrow> (comm_error, comm_db) result" where
  "insert_source_event e s =
     (if list_ex (\<lambda>x. ws_project x = ws_project e \<and> ws_id x = ws_id e) (source_events s) then Inl Constraint_unique
      else Inr (s\<lparr>source_events := source_events s @ [e]\<rparr>))"

definition approval_event :: "comm_env \<Rightarrow> string \<Rightarrow> string \<Rightarrow> json \<Rightarrow> source_event" where
  "approval_event env project sourceEventId payload = \<lparr>ws_project = project, ws_id = sourceEventId,
     ws_kind = Founder_approval, ws_payload = payload,
     ws_digest = canonicalSubmissionDigest (run_env.truncate env) payload, ws_schema_version = 1, ws_at = now_iso env\<rparr>"

definition insertFounderApprovalResponseWithSource :: "comm_env \<Rightarrow> string \<Rightarrow> string \<Rightarrow> string \<Rightarrow> string \<Rightarrow> string
    \<Rightarrow> string \<Rightarrow> json \<Rightarrow> comm_db \<Rightarrow> (comm_error, bool \<times> comm_db) result" where
  "insertFounderApprovalResponseWithSource env project sourceEventId q sender content owner payload s =
     and_then (answer_where env (\<lambda>m. open_gate s q owner approve_to_ship m \<and> live_at (now_seconds env) m) sender content s)
       (\<lambda>(written, s1). if \<not> written then Inr (False, s1)
          else and_then (insert_source_event (approval_event env project sourceEventId payload) s1) (\<lambda>s2. Inr (True, s2)))"

definition insertTimeoutResponse :: "comm_env \<Rightarrow> string \<Rightarrow> string \<Rightarrow> string \<Rightarrow> string \<Rightarrow> string \<Rightarrow> int option \<Rightarrow> comm_db
    \<Rightarrow> (comm_error, bool \<times> comm_db) result" where
  "insertTimeoutResponse env q sender content owner checkpoint graceHours s =
     (let grace = (case graceHours of Some g \<Rightarrow> if 0 < g then g else 24 | None \<Rightarrow> 24) in
      and_then (answer_where env (open_gate s q owner checkpoint) sender content s)
        (\<lambda>(written, s1). if \<not> written then Inr (False, s1)
           else Inr (True, update_messages (question_is q) (settle_row env grace) s1)))"

subsection \<open>Reading\<close>

definition getResponse :: "comm_db \<Rightarrow> string \<Rightarrow> message option" where
  "getResponse s q = find (is_response_to q) (messages s)"

definition getMessageById :: "comm_db \<Rightarrow> string \<Rightarrow> message option" where
  "getMessageById s i = find_message s i"

definition oldest_messages :: "message list \<Rightarrow> message list" where
  "oldest_messages ms = sort_key m_created_at ms"

definition getPendingQuestions :: "comm_env \<Rightarrow> comm_db \<Rightarrow> string \<Rightarrow> message list" where
  "getPendingQuestions env s lead =
     oldest_messages (filter (\<lambda>m. m_to m = lead \<and> pending_question (now_seconds env) s m) (messages s))"

text \<open>\<open>ORDER BY created_at DESC LIMIT 1\<close>, the lowest rowid among equals.\<close>

definition latest_message :: "message list \<Rightarrow> message option" where
  "latest_message ms = fold (\<lambda>m b. case b of None \<Rightarrow> Some m
     | Some x \<Rightarrow> if m_created_at x < m_created_at m then Some m else b) ms None"

definition getPendingGateByRunner :: "comm_env \<Rightarrow> comm_db \<Rightarrow> string \<Rightarrow> string \<Rightarrow> message option" where
  "getPendingGateByRunner env s runner checkpoint =
     latest_message (filter (\<lambda>m. m_from m = runner \<and> m_checkpoint m = Some checkpoint
       \<and> pending_question (now_seconds env) s m) (messages s))"

definition hasPendingQuestionsFrom :: "comm_env \<Rightarrow> comm_db \<Rightarrow> string \<Rightarrow> bool" where
  "hasPendingQuestionsFrom env s e =
     (0 < length (filter (\<lambda>m. m_from m = e \<and> pending_question (now_seconds env) s m) (messages s)))"

definition hasPendingBlockingGateFrom :: "comm_env \<Rightarrow> comm_db \<Rightarrow> string \<Rightarrow> bool" where
  "hasPendingBlockingGateFrom env s e =
     (0 < length (filter (\<lambda>m. m_from m = e \<and> m_checkpoint m \<noteq> None \<and> pending_question (now_seconds env) s m) (messages s)))"

definition hasRecentMessagesFrom :: "comm_env \<Rightarrow> comm_db \<Rightarrow> string \<Rightarrow> int \<Rightarrow> bool" where
  "hasRecentMessagesFrom env s e windowSeconds =
     (let seconds = max 0 windowSeconds in
      list_ex (\<lambda>m. m_from m = e \<and> now_seconds env - seconds < m_created_at m) (messages s))"

subsection \<open>Instructions\<close>

text \<open>\<open>INSERT OR IGNORE\<close> of a message without a parent.\<close>

definition insert_or_ignore :: "message \<Rightarrow> comm_db \<Rightarrow> bool \<times> comm_db" where
  "insert_or_ignore m s = (if find_message s (m_id m) \<noteq> None then (False, s) else (True, s\<lparr>messages := messages s @ [m]\<rparr>))"

definition insertInstruction :: "comm_env \<Rightarrow> string \<Rightarrow> string \<Rightarrow> string \<Rightarrow> string option \<Rightarrow> comm_db
    \<Rightarrow> (comm_error, string \<times> comm_db) result" where
  "insertInstruction env sender to content dedupeId s =
     (let i = or_else dedupeId (fresh_token env); m = new_message env i sender to Instruction content in
      if truthy dedupeId then Inr (i, snd (insert_or_ignore m s))
      else and_then (insert_message m s) (\<lambda>s'. Inr (i, s')))"

definition insertInstructionWithId :: "comm_env \<Rightarrow> string \<Rightarrow> string \<Rightarrow> string \<Rightarrow> string \<Rightarrow> comm_db \<Rightarrow> bool \<times> comm_db" where
  "insertInstructionWithId env i sender to content s =
     insert_or_ignore (new_message env i sender to Instruction content) s"

definition insertArtifactProgress :: "comm_env \<Rightarrow> string \<Rightarrow> string \<Rightarrow> string list \<Rightarrow> comm_db
    \<Rightarrow> (comm_error, string \<times> comm_db) result" where
  "insertArtifactProgress env sender to paths s =
     and_then (insert_message ((new_message env (fresh_token env) sender to Progress
         (''artifact_emitted: '' @ string_of_int (int (length paths)) @ '' file(s)''))
         \<lparr>m_content_type := Artifact_content, m_attachments := Some (json_stringify (JArr (map JStr paths)))\<rparr>) s)
       (\<lambda>s'. Inr (fresh_token env, s'))"

definition unread_instruction :: "comm_env \<Rightarrow> string \<Rightarrow> message \<Rightarrow> bool" where
  "unread_instruction env agent m = (m_to m = agent \<and> m_type m = Instruction \<and> m_read_at m = None
     \<and> live_at (now_seconds env) m)"

definition getUnreadInstructions :: "comm_env \<Rightarrow> comm_db \<Rightarrow> string \<Rightarrow> message list" where
  "getUnreadInstructions env s agent = oldest_messages (filter (unread_instruction env agent) (messages s))"

definition markInstructionRead :: "comm_env \<Rightarrow> string \<Rightarrow> comm_db \<Rightarrow> comm_db" where
  "markInstructionRead env i = update_messages (\<lambda>m. m_id m = i) (\<lambda>m. m\<lparr>m_read_at := Some (now_seconds env)\<rparr>)"

definition getPendingPushInstructions :: "comm_env \<Rightarrow> comm_db \<Rightarrow> string \<Rightarrow> int \<Rightarrow> message list" where
  "getPendingPushInstructions env s agent retryWindowSec =
     oldest_messages (filter (\<lambda>m. unread_instruction env agent m
       \<and> (case m_delivered_at m of None \<Rightarrow> True | Some t \<Rightarrow> t < now_seconds env - retryWindowSec)) (messages s))"

definition markInstructionDelivered :: "comm_env \<Rightarrow> string \<Rightarrow> comm_db \<Rightarrow> comm_db" where
  "markInstructionDelivered env i = update_messages (\<lambda>m. m_id m = i) (\<lambda>m. m\<lparr>m_delivered_at := Some (now_seconds env)\<rparr>)"

definition ackInstructionRead :: "comm_env \<Rightarrow> string \<Rightarrow> comm_db \<Rightarrow> comm_db" where
  "ackInstructionRead env i = update_messages (\<lambda>m. m_id m = i \<and> m_read_at m = None)
     (\<lambda>m. m\<lparr>m_read_at := Some (now_seconds env)\<rparr>)"

end
