(* ===== verification/CommTurns.thy ===== *)
theory CommTurns
  imports CommDb Sessions
begin

section \<open>Turns, phase wakes, shutdowns and the runner registry (flywheel-comm/src/db.ts)\<close>

text \<open>
  The other tables of the communication database: who holds the turn of an issue and the source events
  written with each grant, the durable queue of phase wakes, shutdown requests, declared states, and
  the registry of runner sessions.
\<close>

subsection \<open>Phase wakes\<close>

record wake_input =
  wi_id :: string
  wi_content :: string
  wi_metadata :: "(string \<times> json) list option"

text \<open>\<open>message.metadata?.key\<close>.\<close>

definition metadata_prop :: "wake_input \<Rightarrow> string \<Rightarrow> json" where
  "metadata_prop i k = (case wi_metadata i of None \<Rightarrow> JUndef
     | Some kvs \<Rightarrow> (case map_of kvs k of None \<Rightarrow> JUndef | Some v \<Rightarrow> v))"

definition source_instruction :: "wake_input \<Rightarrow> string option" where
  "source_instruction i = (case metadata_prop i ''flywheelId'' of
     JStr f \<Rightarrow> (case metadata_prop i ''execId'' of JStr _ \<Rightarrow> Some f | _ \<Rightarrow> None)
   | _ \<Rightarrow> None)"

definition same_wake :: "string \<Rightarrow> wake_input \<Rightarrow> phase_wake \<Rightarrow> bool" where
  "same_wake e i w = (pw_execution w = e \<and> (pw_message w = wi_id i
     \<or> source_instruction i \<noteq> None \<and> pw_source_instruction w = source_instruction i))"

text \<open>Rows are in the order of \<open>queue_seq\<close>.\<close>

definition new_wake :: "string \<Rightarrow> wake_input \<Rightarrow> int \<Rightarrow> int \<Rightarrow> phase_wake" where
  "new_wake e i nowMs q = \<lparr>pw_seq = q, pw_execution = e, pw_message = wi_id i, pw_content = wi_content i,
     pw_metadata = map_option (\<lambda>kvs. json_stringify (JObj kvs)) (wi_metadata i),
     pw_source_instruction = source_instruction i, pw_state = Wake_pending, pw_queued_at = nowMs,
     pw_started_at = None, pw_finished_at = None\<rparr>"

definition bound_instruction :: "comm_db \<Rightarrow> string \<Rightarrow> wake_input \<Rightarrow> (comm_error, unit) result" where
  "bound_instruction s e i = (case source_instruction i of None \<Rightarrow> Inr ()
     | Some f \<Rightarrow> (case find_message s f of
         None \<Rightarrow> Inl Instruction_not_found
       | Some m \<Rightarrow> if m_type m \<noteq> Instruction then Inl Instruction_not_found
                   else if m_to m \<noteq> e then Inl Instruction_foreign else Inr ()))"

definition claim_instruction :: "comm_env \<Rightarrow> string \<Rightarrow> wake_input \<Rightarrow> comm_db \<Rightarrow> comm_db" where
  "claim_instruction env e i s = (if truthy (source_instruction i)
     then update_messages (\<lambda>m. Some (m_id m) = source_instruction i \<and> m_to m = e \<and> m_type m = Instruction)
       (\<lambda>m. m\<lparr>m_read_at := coalesce (m_read_at m) (Some (now_seconds env))\<rparr>) s
     else s)"

definition enqueueRunnerPhaseWake :: "comm_env \<Rightarrow> string \<Rightarrow> wake_input \<Rightarrow> int \<Rightarrow> comm_db
    \<Rightarrow> (comm_error, (bool \<times> phase_wake) \<times> comm_db) result" where
  "enqueueRunnerPhaseWake env e i nowMs s =
     (if e = [] \<or> wi_id i = [] \<or> wi_content i = [] then Inl Wake_incomplete
      else if metadata_prop i ''execId'' \<noteq> JUndef \<and> metadata_prop i ''execId'' \<noteq> JStr e then Inl Wake_exec_mismatch
      else case find (same_wake e i) (wakes s) of
          Some w \<Rightarrow> Inr ((False, w), s)
        | None \<Rightarrow>
            and_then (if truthy (source_instruction i) then bound_instruction s e i else Inr ()) (\<lambda>_.
              (let w = new_wake e i nowMs (last_wake_seq s + 1);
                   s1 = s\<lparr>wakes := wakes s @ [w], last_wake_seq := last_wake_seq s + 1\<rparr>
               in Inr ((True, w), claim_instruction env e i s1))))"

definition listRunnerPhaseWakes :: "comm_db \<Rightarrow> string \<Rightarrow> phase_wake list" where
  "listRunnerPhaseWakes s e = filter (\<lambda>w. pw_execution w = e) (wakes s)"

definition update_wakes :: "(phase_wake \<Rightarrow> bool) \<Rightarrow> (phase_wake \<Rightarrow> phase_wake) \<Rightarrow> comm_db \<Rightarrow> comm_db" where
  "update_wakes P f s = s\<lparr>wakes := map (\<lambda>w. if P w then f w else w) (wakes s)\<rparr>"

definition wake_is :: "string \<Rightarrow> string \<Rightarrow> wake_state \<Rightarrow> phase_wake \<Rightarrow> bool" where
  "wake_is e i st w = (pw_execution w = e \<and> pw_message w = i \<and> pw_state w = st)"

definition markRunnerPhaseWakeStarted :: "string \<Rightarrow> string \<Rightarrow> int \<Rightarrow> comm_db \<Rightarrow> bool \<times> comm_db" where
  "markRunnerPhaseWakeStarted e i nowMs s = (length (filter (wake_is e i Wake_pending) (wakes s)) = 1,
     update_wakes (wake_is e i Wake_pending) (\<lambda>w. w\<lparr>pw_state := Wake_started, pw_started_at := Some nowMs\<rparr>) s)"

definition finishRunnerPhaseWake :: "string \<Rightarrow> string \<Rightarrow> int \<Rightarrow> comm_db \<Rightarrow> bool \<times> comm_db" where
  "finishRunnerPhaseWake e i nowMs s = (length (filter (wake_is e i Wake_started) (wakes s)) = 1,
     update_wakes (wake_is e i Wake_started) (\<lambda>w. w\<lparr>pw_state := Wake_finished, pw_finished_at := Some nowMs\<rparr>) s)"

subsection \<open>Shutdown requests\<close>

definition getRunnerShutdown :: "comm_db \<Rightarrow> string \<Rightarrow> shutdown_control option" where
  "getRunnerShutdown s e = find (\<lambda>d. sd_execution d = e) (shutdowns s)"

definition requestRunnerShutdown :: "string \<Rightarrow> string \<Rightarrow> int \<Rightarrow> comm_db
    \<Rightarrow> (comm_error, shutdown_control \<times> comm_db) result" where
  "requestRunnerShutdown e q nowMs s =
     (if e = [] \<or> q = [] then Inl Shutdown_incomplete
      else (let known = list_ex (\<lambda>d. sd_execution d = e \<or> sd_request d = q) (shutdowns s);
                s1 = (if known then s else s\<lparr>shutdowns := shutdowns s @ [\<lparr>sd_execution = e, sd_request = q,
                   sd_state = Shutdown_requested, sd_requested_at = nowMs, sd_finished_at = None, sd_error = None\<rparr>]\<rparr>)
            in case getRunnerShutdown s1 e of None \<Rightarrow> Inl Shutdown_bound_elsewhere | Some d \<Rightarrow> Inr (d, s1)))"

definition finishRunnerShutdown :: "string \<Rightarrow> string \<Rightarrow> string option \<Rightarrow> int \<Rightarrow> comm_db \<Rightarrow> bool \<times> comm_db" where
  "finishRunnerShutdown e q failure nowMs s =
     (let P = (\<lambda>d. sd_execution d = e \<and> sd_request d = q \<and> sd_state d = Shutdown_requested) in
      (length (filter P (shutdowns s)) = 1,
       s\<lparr>shutdowns := map (\<lambda>d. if P d then d\<lparr>sd_state := (if failure = None then Shutdown_acked else Shutdown_failed),
          sd_finished_at := Some nowMs, sd_error := failure\<rparr> else d) (shutdowns s)\<rparr>))"

subsection \<open>Declared states\<close>

definition upsertDeclaredState :: "string \<Rightarrow> declared_kind \<Rightarrow> string option \<Rightarrow> int \<Rightarrow> int option \<Rightarrow> comm_db \<Rightarrow> comm_db" where
  "upsertDeclaredState e kind reason nowMs expiresAtMs s =
     (if list_ex (\<lambda>d. ds_execution d = e) (declared s)
      then s\<lparr>declared := map (\<lambda>d. if ds_execution d = e then d\<lparr>ds_kind := kind, ds_reason := reason,
         ds_expires_at := expiresAtMs, ds_updated_at := nowMs\<rparr> else d) (declared s)\<rparr>
      else s\<lparr>declared := declared s @ [\<lparr>ds_execution = e, ds_kind = kind, ds_reason = reason, ds_created_at = nowMs,
         ds_expires_at = expiresAtMs, ds_updated_at = nowMs\<rparr>]\<rparr>)"

definition clearDeclaredState :: "string \<Rightarrow> comm_db \<Rightarrow> comm_db" where
  "clearDeclaredState e s = s\<lparr>declared := filter (\<lambda>d. ds_execution d \<noteq> e) (declared s)\<rparr>"

definition getEffectiveDeclaredState :: "comm_db \<Rightarrow> string \<Rightarrow> int \<Rightarrow> declared_state option" where
  "getEffectiveDeclaredState s e nowMs = (case find (\<lambda>d. ds_execution d = e) (declared s) of
      None \<Rightarrow> None
    | Some d \<Rightarrow> (case ds_expires_at d of Some t \<Rightarrow> if t \<le> nowMs then None else Some d | None \<Rightarrow> Some d))"

subsection \<open>The turn of an issue\<close>

definition getTurn :: "comm_db \<Rightarrow> string \<Rightarrow> turn option" where
  "getTurn s issue = find (\<lambda>t. t_issue t = issue) (turns s)"

definition listTurns :: "comm_db \<Rightarrow> turn list" where
  "listTurns s = turns s"

definition deleteTurn :: "string \<Rightarrow> comm_db \<Rightarrow> comm_db" where
  "deleteTurn issue s = s\<lparr>turns := filter (\<lambda>t. t_issue t \<noteq> issue) (turns s)\<rparr>"

text \<open>\<open>INSERT INTO three_stage_turn ... ON CONFLICT(issue_id) DO UPDATE\<close>.\<close>

definition put_turn :: "turn \<Rightarrow> comm_db \<Rightarrow> comm_db" where
  "put_turn t s = (if getTurn s (t_issue t) \<noteq> None
     then s\<lparr>turns := map (\<lambda>x. if t_issue x = t_issue t then t else x) (turns s)\<rparr>
     else s\<lparr>turns := turns s @ [t]\<rparr>)"

definition current_epoch :: "comm_db \<Rightarrow> string \<Rightarrow> int" where
  "current_epoch s issue = (case getTurn s issue of None \<Rightarrow> 0 | Some t \<Rightarrow> t_epoch t)"

definition next_turn :: "comm_db \<Rightarrow> string \<Rightarrow> string \<Rightarrow> string \<Rightarrow> int \<Rightarrow> turn" where
  "next_turn s issue holder phase grantedAtMs = \<lparr>t_issue = issue, t_holder = holder, t_phase = phase,
     t_epoch = current_epoch s issue + 1, t_granted_at = grantedAtMs\<rparr>"

definition json_prop :: "json \<Rightarrow> string \<Rightarrow> json" where
  "json_prop v k = (case v of JObj kvs \<Rightarrow> (case map_of kvs k of None \<Rightarrow> JUndef | Some x \<Rightarrow> x) | _ \<Rightarrow> JUndef)"

definition turn_payload :: "comm_db \<Rightarrow> string \<Rightarrow> string \<Rightarrow> string \<Rightarrow> json" where
  "turn_payload s issue holder phase = JObj
     [(''schema_version'', JInt 1), (''issue_id'', JStr issue),
      (''old_holder'', jstr_or_null (map_option t_holder (getTurn s issue))), (''new_holder'', JStr holder),
      (''from_role'', jstr_or_null (map_option t_phase (getTurn s issue))), (''to_role'', JStr phase),
      (''resulting_epoch'', JInt (current_epoch s issue + 1)), (''target_run_id'', JNull)]"

text \<open>The replay check; a payload that is no object fails it too (the read of a property throws).\<close>

definition replay_matches :: "json \<Rightarrow> string \<Rightarrow> string \<Rightarrow> string \<Rightarrow> bool" where
  "replay_matches frozen issue holder phase = (json_prop frozen ''issue_id'' = JStr issue
     \<and> json_prop frozen ''new_holder'' = JStr holder \<and> json_prop frozen ''to_role'' = JStr phase
     \<and> json_prop frozen ''target_run_id'' = JNull)"

definition find_source :: "comm_db \<Rightarrow> string \<Rightarrow> string \<Rightarrow> source_event option" where
  "find_source s project i = find (\<lambda>x. ws_project x = project \<and> ws_id x = i) (source_events s)"

definition grant_event :: "comm_env \<Rightarrow> string \<Rightarrow> string \<Rightarrow> json \<Rightarrow> int \<Rightarrow> source_event" where
  "grant_event env project i payload grantedAtMs = \<lparr>ws_project = project, ws_id = i, ws_kind = Turn_grant,
     ws_payload = payload, ws_digest = canonicalSubmissionDigest (run_env.truncate env) payload,
     ws_schema_version = 1, ws_at = iso_of env grantedAtMs\<rparr>"

definition grant_with_source :: "comm_env \<Rightarrow> string \<Rightarrow> string \<Rightarrow> string \<Rightarrow> int \<Rightarrow> string \<Rightarrow> string \<Rightarrow> comm_db
    \<Rightarrow> (comm_error, comm_db) result" where
  "grant_with_source env issue holder phase grantedAtMs project i s =
     (case find_source s project i of
        Some prior \<Rightarrow> if replay_matches (ws_payload prior) issue holder phase then Inr s else Inl Source_poison
      | None \<Rightarrow>
          if list_ex (\<lambda>h. th_source_event h = i) (turn_log s) then Inl Constraint_unique
          else (let s1 = put_turn (next_turn s issue holder phase grantedAtMs) s;
                    s2 = s1\<lparr>turn_log := turn_log s1 @ [\<lparr>th_id = int (length (turn_log s1)) + 1, th_issue = issue,
                       th_from_role = map_option t_phase (getTurn s issue), th_to_role = phase,
                       th_epoch = current_epoch s issue + 1, th_target_run = None, th_source_event = i,
                       th_at = iso_of env grantedAtMs\<rparr>]\<rparr>
                in insert_source_event (grant_event env project i (turn_payload s issue holder phase) grantedAtMs) s2))"

definition grantTurn :: "comm_env \<Rightarrow> string \<Rightarrow> string \<Rightarrow> string \<Rightarrow> int \<Rightarrow> (string \<times> string) option \<Rightarrow> comm_db
    \<Rightarrow> (comm_error, comm_db) result" where
  "grantTurn env issue holder phase grantedAtMs source s =
     (case source of
        Some (project, i) \<Rightarrow> grant_with_source env issue holder phase grantedAtMs project i s
      | None \<Rightarrow> Inr (put_turn (next_turn s issue holder phase grantedAtMs) s))"

definition listWorkflowSourceEvents :: "comm_db \<Rightarrow> source_event list" where
  "listWorkflowSourceEvents s = sort_key ws_at (sort_key ws_id (source_events s))"

text \<open>No row is deleted, so the rowid of an event is its position.\<close>

definition listWorkflowSourceEventsAfter :: "comm_db \<Rightarrow> int \<Rightarrow> int \<Rightarrow> (int \<times> source_event) list" where
  "listWorkflowSourceEventsAfter s afterRowId limit =
     (let rows = filter (\<lambda>(k, _). afterRowId < k) (map (\<lambda>(k, e). (int k, e)) (enumerate 1 (source_events s)))
      in if limit < 0 then rows else take (nat limit) rows)"

definition listTurnSourceHistory :: "comm_db \<Rightarrow> string option \<Rightarrow> turn_history list" where
  "listTurnSourceHistory s issue =
     (if truthy issue then filter (\<lambda>h. Some (th_issue h) = issue) (turn_log s) else turn_log s)"

subsection \<open>The runner registry\<close>

text \<open>\<open>INSERT OR REPLACE\<close>: the old row goes, the new one has the defaults of the schema.\<close>

definition registerSession :: "comm_env \<Rightarrow> string \<Rightarrow> string \<Rightarrow> string \<Rightarrow> string option \<Rightarrow> string option \<Rightarrow> string option
    \<Rightarrow> comm_db \<Rightarrow> comm_db" where
  "registerSession env e window project issue lead vendor s =
     s\<lparr>registry := filter (\<lambda>r. rs_execution r \<noteq> e) (registry s) @ [\<lparr>rs_execution = e, rs_tmux_window = window,
        rs_project = project, rs_issue = issue, rs_lead = lead, rs_vendor = vendor, rs_started_at = now_seconds env,
        rs_ended_at = None, rs_status = Reg_running\<rparr>]\<rparr>"

text \<open>\<open>LIKE '%:pending'\<close> ignores the case of ASCII letters.\<close>

definition pending_window :: "string \<Rightarrow> bool" where
  "pending_window w = (ascii_lower (drop (length w - 8) w) = '':pending'')"

definition unregisterPendingSession :: "string \<Rightarrow> comm_db \<Rightarrow> comm_db" where
  "unregisterPendingSession e s =
     s\<lparr>registry := filter (\<lambda>r. \<not> (rs_execution r = e \<and> pending_window (rs_tmux_window r))) (registry s)\<rparr>"

definition updateSessionStatus :: "comm_env \<Rightarrow> string \<Rightarrow> registry_status \<Rightarrow> comm_db \<Rightarrow> comm_db" where
  "updateSessionStatus env e st s = s\<lparr>registry := map (\<lambda>r. if rs_execution r = e
     then r\<lparr>rs_status := st, rs_ended_at := Some (now_seconds env)\<rparr> else r) (registry s)\<rparr>"

definition getRegistered :: "comm_db \<Rightarrow> string \<Rightarrow> registry_row option" where
  "getRegistered s e = find (\<lambda>r. rs_execution r = e) (registry s)"

definition delete_lifecycle :: "string \<Rightarrow> comm_db \<Rightarrow> nat \<times> comm_db" where
  "delete_lifecycle e s = (length (filter (\<lambda>r. rs_execution r = e) (registry s)),
     s\<lparr>wakes := filter (\<lambda>w. pw_execution w \<noteq> e) (wakes s), shutdowns := filter (\<lambda>d. sd_execution d \<noteq> e) (shutdowns s),
       registry := filter (\<lambda>r. rs_execution r \<noteq> e) (registry s)\<rparr>)"

text \<open>\<open>finalizeSession\<close>: the gates retired and the registry rows deleted.\<close>

definition open_checkpoint :: "comm_db \<Rightarrow> string \<Rightarrow> message \<Rightarrow> bool" where
  "open_checkpoint s e m = (m_from m = e \<and> m_type m = Question \<and> m_checkpoint m \<noteq> None \<and> m_resolved_at m = None
     \<and> \<not> answered s (m_id m))"

definition finalizeSession :: "comm_env \<Rightarrow> string \<Rightarrow> comm_db \<Rightarrow> (nat \<times> nat) \<times> comm_db" where
  "finalizeSession env e s =
     (let n = length (filter (open_checkpoint s e) (messages s));
          s1 = update_messages (open_checkpoint s e) (retire_row env) s;
          (deleted, s2) = delete_lifecycle e s1
      in ((n, deleted), s2))"

definition deleteRegistered :: "string \<Rightarrow> comm_db \<Rightarrow> nat \<times> comm_db" where
  "deleteRegistered e s = (length (filter (\<lambda>r. rs_execution r = e) (registry s)),
     s\<lparr>registry := filter (\<lambda>r. rs_execution r \<noteq> e) (registry s)\<rparr>)"

definition deleteSessionAndRunnerPhaseLifecycle :: "string \<Rightarrow> comm_db \<Rightarrow> nat \<times> comm_db" where
  "deleteSessionAndRunnerPhaseLifecycle e s = delete_lifecycle e s"

definition getActiveSessions :: "comm_db \<Rightarrow> string option \<Rightarrow> registry_row list" where
  "getActiveSessions s project = sort_key rs_started_at (filter (\<lambda>r. rs_status r = Reg_running
     \<and> (\<not> truthy project \<or> Some (rs_project r) = project)) (registry s))"

text \<open>Descending orders keep equal rows in rowid order.\<close>

definition listSessions :: "comm_db \<Rightarrow> string option \<Rightarrow> registry_status list option \<Rightarrow> registry_row list" where
  "listSessions s project statuses = sort_key (\<lambda>r. - rs_started_at r) (filter (\<lambda>r.
     (\<not> truthy project \<or> Some (rs_project r) = project)
     \<and> (case statuses of None \<Rightarrow> True | Some sts \<Rightarrow> sts = [] \<or> rs_status r \<in> set sts)) (registry s))"

definition terminal_in_scope :: "string \<Rightarrow> string option \<Rightarrow> registry_row \<Rightarrow> bool" where
  "terminal_in_scope project lead r = (rs_project r = project \<and> rs_status r \<in> {Reg_completed, Reg_timeout}
     \<and> (lead = None \<or> rs_lead r = lead \<or> rs_lead r = None))"

definition getRecentTerminalSessions :: "comm_db \<Rightarrow> string \<Rightarrow> string option \<Rightarrow> int \<Rightarrow> registry_row list" where
  "getRecentTerminalSessions s project lead limit =
     (let rows = sort_key (\<lambda>r. - or_else (rs_ended_at r) (rs_started_at r)) (filter (terminal_in_scope project lead) (registry s))
      in if limit < 0 then rows else take (nat limit) rows)"

definition countTerminalSessions :: "comm_db \<Rightarrow> string \<Rightarrow> string option \<Rightarrow> nat" where
  "countTerminalSessions s project lead = length (filter (terminal_in_scope project lead) (registry s))"

end
