(* ===== verification/CommRun.thy ===== *)
theory CommRun
  imports CommTurns
begin

section \<open>Runs of the communication database\<close>

text \<open>
  The calls of the database as data, runs as their sequences, and what one call does to the messages:
  what a message says never changes, an answer is added only to an unanswered question, and only a
  purge removes rows.
\<close>

datatype comm_call =
    Purge
  | Cleanup int
  | Ask string string string question_opts
  | Claim_consent string string
  | Retire_ship string
  | Retire_question string string
  | Resolve string int
  | Respond string string string
  | Respond_if_open string string string string string
  | Approve_with_source string string string string string string json
  | Timeout string string string string string "int option"
  | Instruct string string string "string option"
  | Instruct_with_id string string string string
  | Report_artifacts string string "string list"
  | Mark_read string
  | Mark_delivered string
  | Ack_read string
  | Enqueue_wake string wake_input int
  | Start_wake string string int
  | Finish_wake string string int
  | Request_shutdown string string int
  | Finish_shutdown string string "string option" int
  | Declare_state string declared_kind "string option" int "int option"
  | Clear_state string
  | Grant string string string int "(string \<times> string) option"
  | Delete_turn string
  | Register string string string "string option" "string option" "string option"
  | Unregister_pending string
  | Set_registry_status string registry_status
  | Finalize string
  | Delete_registered string
  | Delete_lifecycle string

definition third :: "(comm_error, 'a \<times> 'b \<times> comm_db) result \<Rightarrow> (comm_error, comm_db) result" where
  "third r = and_then r (\<lambda>(_, _, s). Inr s)"

definition second :: "(comm_error, 'a \<times> comm_db) result \<Rightarrow> (comm_error, comm_db) result" where
  "second r = and_then r (\<lambda>(_, s). Inr s)"

fun comm_do :: "comm_env \<Rightarrow> comm_call \<Rightarrow> comm_db \<Rightarrow> (comm_error, comm_db) result" where
  "comm_do env Purge s = third (purgeExpiredWithRefs env s)"
| "comm_do env (Cleanup ttl) s = third (cleanupReadMessagesWithRefs env ttl s)"
| "comm_do env (Ask sender to content opts) s = second (insertQuestion env sender to content opts s)"
| "comm_do env (Claim_consent q cp) s = Inr (snd (claimLifecycleConsent env q cp s))"
| "comm_do env (Retire_ship q) s = Inr (snd (retireShipGate env q s))"
| "comm_do env (Retire_question q e) s = Inr (snd (retireQuestionGuarded env q e s))"
| "comm_do env (Resolve q h) s = Inr (resolveGate env q h s)"
| "comm_do env (Respond q sender content) s = insertResponse env q sender content s"
| "comm_do env (Respond_if_open q sender content owner cp) s =
     second (insertResponseIfGateOpen env q sender content owner cp s)"
| "comm_do env (Approve_with_source project i q sender content owner payload) s =
     second (insertFounderApprovalResponseWithSource env project i q sender content owner payload s)"
| "comm_do env (Timeout q sender content owner cp grace) s =
     second (insertTimeoutResponse env q sender content owner cp grace s)"
| "comm_do env (Instruct sender to content dedupe) s = second (insertInstruction env sender to content dedupe s)"
| "comm_do env (Instruct_with_id i sender to content) s = Inr (snd (insertInstructionWithId env i sender to content s))"
| "comm_do env (Report_artifacts sender to paths) s = second (insertArtifactProgress env sender to paths s)"
| "comm_do env (Mark_read i) s = Inr (markInstructionRead env i s)"
| "comm_do env (Mark_delivered i) s = Inr (markInstructionDelivered env i s)"
| "comm_do env (Ack_read i) s = Inr (ackInstructionRead env i s)"
| "comm_do env (Enqueue_wake e i ms) s = second (enqueueRunnerPhaseWake env e i ms s)"
| "comm_do env (Start_wake e i ms) s = Inr (snd (markRunnerPhaseWakeStarted e i ms s))"
| "comm_do env (Finish_wake e i ms) s = Inr (snd (finishRunnerPhaseWake e i ms s))"
| "comm_do env (Request_shutdown e q ms) s = second (requestRunnerShutdown e q ms s)"
| "comm_do env (Finish_shutdown e q f ms) s = Inr (snd (finishRunnerShutdown e q f ms s))"
| "comm_do env (Declare_state e k r ms x) s = Inr (upsertDeclaredState e k r ms x s)"
| "comm_do env (Clear_state e) s = Inr (clearDeclaredState e s)"
| "comm_do env (Grant issue holder phase ms source) s = grantTurn env issue holder phase ms source s"
| "comm_do env (Delete_turn issue) s = Inr (deleteTurn issue s)"
| "comm_do env (Register e w p issue lead vendor) s = Inr (registerSession env e w p issue lead vendor s)"
| "comm_do env (Unregister_pending e) s = Inr (unregisterPendingSession e s)"
| "comm_do env (Set_registry_status e st) s = Inr (updateSessionStatus env e st s)"
| "comm_do env (Finalize e) s = Inr (snd (finalizeSession env e s))"
| "comm_do env (Delete_registered e) s = Inr (snd (deleteRegistered e s))"
| "comm_do env (Delete_lifecycle e) s = Inr (snd (deleteSessionAndRunnerPhaseLifecycle e s))"

inductive comm_steps :: "comm_db \<Rightarrow> comm_call list \<Rightarrow> comm_db \<Rightarrow> bool" where
  no_call: "comm_steps s [] s"
| made: "comm_steps s cs s1 \<Longrightarrow> comm_do env c s1 = Inr s2 \<Longrightarrow> comm_steps s (cs @ [c]) s2"

definition comm_reach :: "comm_db \<Rightarrow> bool" where
  "comm_reach s = (\<exists>cs. comm_steps empty_comm_db cs s)"

lemma comm_steps_append: "comm_steps s cs s1 \<Longrightarrow> comm_steps s1 cs' s2 \<Longrightarrow> comm_steps s (cs @ cs') s2"
  by (rotate_tac, induction rule: comm_steps.induct) (auto simp flip: append_assoc intro: comm_steps.intros)

lemma comm_reach_steps: "comm_reach s \<Longrightarrow> comm_steps s cs s' \<Longrightarrow> comm_reach s'"
  unfolding comm_reach_def using comm_steps_append by blast

lemma comm_reach_induct [consumes 1, case_names start call]:
  assumes "comm_reach s" and "I empty_comm_db"
    and "\<And>s env c s'. comm_reach s \<Longrightarrow> I s \<Longrightarrow> comm_do env c s = Inr s' \<Longrightarrow> I s'"
  shows "I s"
proof -
  have "s0 = empty_comm_db \<longrightarrow> I s" if "comm_steps s0 cs s" for s0 cs
    using that
  proof induction
    case (made s0 cs s1 env c s2)
    then have "comm_reach s1" if "s0 = empty_comm_db" using that by (auto simp: comm_reach_def)
    then show ?case using assms(3) made by blast
  qed (simp add: assms(2))
  then show ?thesis using assms(1) by (auto simp: comm_reach_def)
qed

subsection \<open>What a message says\<close>

text \<open>A message without the columns that record its handling.\<close>

definition said :: "message \<Rightarrow> message" where
  "said m = m\<lparr>m_read_at := None, m_expires_at := 0, m_resolved_at := None, m_delivered_at := None\<rparr>"

lemma said_fields [simp]: "m_id (said m) = m_id m" "m_from (said m) = m_from m" "m_to (said m) = m_to m"
  "m_type (said m) = m_type m" "m_content (said m) = m_content m" "m_parent (said m) = m_parent m"
  "m_checkpoint (said m) = m_checkpoint m" "said (said m) = said m"
  "is_response_to q (said m) = is_response_to q m" "question_is q (said m) = question_is q m"
  by (simp_all add: said_def is_response_to_def question_is_def)

lemma said_updates [simp]: "said (retire_row env m) = said m" "said (settle_row env h m) = said m"
  "said (m\<lparr>m_resolved_at := a\<rparr>) = said m" "said (m\<lparr>m_read_at := a\<rparr>) = said m" "said (m\<lparr>m_delivered_at := a\<rparr>) = said m"
  by (simp_all add: said_def retire_row_def settle_row_def)

lemma said_map: "(\<And>m. said (f m) = said m) \<Longrightarrow> map said (messages (update_messages P f s)) = map said (messages s)"
  by (auto simp: update_messages_def)

text \<open>A message that may be added: fresh, and an answer only to an unanswered question.\<close>

definition answers :: "comm_db \<Rightarrow> message \<Rightarrow> bool" where
  "answers s m = (m_type m = Response \<and> (\<exists>q \<in> set (messages s). m_type q = Question \<and> m_parent m = Some (m_id q)
     \<and> m_to m = m_from q \<and> \<not> answered s (m_id q)))"

definition addable :: "comm_db \<Rightarrow> message \<Rightarrow> bool" where
  "addable s m = (m_id m \<notin> m_id ` set (messages s) \<and> (m_type m \<noteq> Response \<and> m_parent m = None \<or> answers s m))"

definition kept :: "comm_db \<Rightarrow> comm_db \<Rightarrow> bool" where
  "kept s s' = (map said (messages s') = map said (messages s))"

definition grown :: "comm_db \<Rightarrow> comm_db \<Rightarrow> bool" where
  "grown s s' = (\<exists>m. map said (messages s') = map said (messages s @ [m]) \<and> addable s m)"

definition removed :: "comm_db \<Rightarrow> comm_db \<Rightarrow> bool" where
  "removed s s' = (\<exists>P refs n. delete_with_children P s = Inr (refs, n, s'))"

fun removes :: "comm_call \<Rightarrow> bool" where
  "removes Purge = True"
| "removes (Cleanup t) = True"
| "removes _ = False"

lemma kept_same: "messages s' = messages s \<Longrightarrow> kept s s'"
  by (simp add: kept_def)

lemma kept_update: "(\<And>m. said (f m) = said m) \<Longrightarrow> kept s (update_messages P f s)"
  by (simp add: kept_def said_map)

lemma find_message_None: "find_message s i = None \<longleftrightarrow> i \<notin> m_id ` set (messages s)"
  by (auto simp: find_message_def find_None_iff)

lemma new_message_fields [simp]:
  "m_id (new_message env i sender to ty content) = i" "m_type (new_message env i sender to ty content) = ty"
  "m_parent (new_message env i sender to ty content) = None" "m_from (new_message env i sender to ty content) = sender"
  "m_to (new_message env i sender to ty content) = to" "m_content (new_message env i sender to ty content) = content"
  by (simp_all add: new_message_def)

lemma response_fields [simp]:
  "m_id (response_row env sender content q) = fresh_token env" "m_type (response_row env sender content q) = Response"
  "m_parent (response_row env sender content q) = Some (m_id q)" "m_from (response_row env sender content q) = sender"
  "m_to (response_row env sender content q) = m_from q" "m_content (response_row env sender content q) = content"
  by (simp_all add: response_row_def)

lemma insert_plain:
  assumes "insert_message m s = Inr s'" and "m_type m \<noteq> Response" and "m_parent m = None"
  shows "grown s s'"
  using assms unfolding grown_def addable_def
  by (intro exI [of _ m]) (auto simp: insert_message_def find_message_None split: if_splits)

lemma ignore_plain:
  assumes "m_type m \<noteq> Response" and "m_parent m = None"
  shows "kept s (snd (insert_or_ignore m s)) \<or> grown s (snd (insert_or_ignore m s))"
  using assms unfolding grown_def addable_def kept_def
  by (auto simp: insert_or_ignore_def find_message_None intro!: exI [of _ m])

lemma insert_answer:
  assumes "insert_message (response_row env sender content q) s = Inr s'" and "q \<in> set (messages s)" and "m_type q = Question"
  shows "grown s s'" and "messages s' = messages s @ [response_row env sender content q]"
proof -
  show "messages s' = messages s @ [response_row env sender content q]"
    using assms(1) by (auto simp: insert_message_def split: if_splits)
  show "grown s s'"
    using assms unfolding grown_def addable_def answers_def
    by (intro exI [of _ "response_row env sender content q"])
      (auto simp: insert_message_def find_message_None split: if_splits)
qed

lemma answer_where_cases:
  assumes "answer_where env P sender content s = Inr (b, s')" and "\<And>m. P m \<Longrightarrow> m_type m = Question"
  obtains "\<not> b" "s' = s"
  | q where "b" "q \<in> set (messages s)" "P q" "messages s' = messages s @ [response_row env sender content q]" "grown s s'"
      "source_events s' = source_events s"
proof (cases "find P (messages s)")
  case None
  then show ?thesis using assms(1) that(1) by (simp add: answer_where_def)
next
  case (Some q)
  then have q: "q \<in> set (messages s)" "P q" using find_Some_iff' by fast+
  have ins: "insert_message (response_row env sender content q) s = Inr s'" and b
    using assms(1) Some by (auto simp: answer_where_def and_then_ok)
  moreover have "source_events s' = source_events s" using ins by (auto simp: insert_message_def split: if_splits)
  ultimately show ?thesis using that(2) q insert_answer [OF ins q(1) assms(2) [OF q(2)]] by blast
qed

lemma grown_more: "grown s s1 \<Longrightarrow> kept s1 s' \<Longrightarrow> grown s s'"
  by (auto simp: grown_def kept_def)

lemma open_gate_question: "open_gate s q owner cp m \<Longrightarrow> m_type m = Question"
  by (simp add: open_gate_def question_is_def)

lemma put_turn_messages [simp]: "messages (put_turn t s) = messages s" "source_events (put_turn t s) = source_events s"
    "turn_log (put_turn t s) = turn_log s"
  by (simp_all add: put_turn_def)

lemma do_messages:
  assumes "comm_do env c s = Inr s'"
  shows "kept s s' \<or> grown s s' \<or> removes c \<and> removed s s'"
proof (cases c)
  case Purge
  then show ?thesis using assms by (auto simp: third_def and_then_ok purgeExpiredWithRefs_def removed_def)
next
  case (Cleanup t)
  then show ?thesis using assms by (auto simp: third_def and_then_ok cleanupReadMessagesWithRefs_def removed_def)
next
  case (Ask sender to content opts)
  then have "insert_message (question_row env sender to content opts) s = Inr s'"
    using assms by (auto simp: second_def and_then_ok insertQuestion_def)
  then have "grown s s'" by (rule insert_plain) (simp_all add: question_row_def)
  then show ?thesis by blast
next
  case (Instruct sender to content dedupe)
  then show ?thesis using assms ignore_plain [of "new_message env (or_else dedupe (fresh_token env)) sender to Instruction content" s]
    by (auto simp: second_def and_then_ok insertInstruction_def Let_def split: if_splits intro: insert_plain)
next
  case (Report_artifacts sender to paths)
  then have "grown s s'" using assms
    by (auto simp: second_def and_then_ok insertArtifactProgress_def intro!: insert_plain)
  then show ?thesis by blast
next
  case (Respond q sender content)
  then show ?thesis using assms insert_answer(1) find_Some_iff'
    by (fastforce simp: insertResponse_def question_is_def split: option.splits)
next
  case (Respond_if_open q sender content owner cp)
  then obtain b where "insertResponseIfGateOpen env q sender content owner cp s = Inr (b, s')"
    using assms by (auto simp: second_def and_then_ok)
  then show ?thesis unfolding insertResponseIfGateOpen_def
    by (cases rule: answer_where_cases) (auto simp: open_gate_question kept_same)
next
  case (Approve_with_source project i q sender content owner payload)
  then obtain b where b: "insertFounderApprovalResponseWithSource env project i q sender content owner payload s = Inr (b, s')"
    using assms by (auto simp: second_def and_then_ok)
  then obtain w s1 where w: "answer_where env (\<lambda>m. open_gate s q owner approve_to_ship m \<and> live_at (now_seconds env) m)
      sender content s = Inr (w, s1)" and s': "s' = s1 \<or> (\<exists>e. insert_source_event e s1 = Inr s')"
    by (auto simp: insertFounderApprovalResponseWithSource_def and_then_ok split: if_splits)
  from s' have k: "kept s1 s'" by (auto simp: insert_source_event_def kept_def split: if_splits)
  from w show ?thesis
    by (cases rule: answer_where_cases) (use k in \<open>auto simp: open_gate_question intro: grown_more\<close>)
next
  case (Timeout q sender content owner cp grace)
  then obtain w s1 h where w: "answer_where env (open_gate s q owner cp) sender content s = Inr (w, s1)"
    and s': "s' = s1 \<or> s' = update_messages (question_is q) (settle_row env h) s1"
    using assms by (auto simp: second_def and_then_ok insertTimeoutResponse_def Let_def split: if_splits)
  from s' have k: "kept s1 s'" by (auto simp: kept_update kept_same)
  from w show ?thesis
    by (cases rule: answer_where_cases) (use k in \<open>auto simp: open_gate_question intro: grown_more\<close>)
next
  case (Enqueue_wake e i ms)
  then have "kept s s'" using assms
    by (auto simp: second_def and_then_ok enqueueRunnerPhaseWake_def claim_instruction_def Let_def kept_def said_map
      split: if_splits option.splits)
  then show ?thesis ..
next
  case (Grant issue holder phase ms source)
  then have "kept s s'" using assms
    by (auto simp: grantTurn_def grant_with_source_def insert_source_event_def Let_def intro!: kept_same
      split: if_splits option.splits)
  then show ?thesis ..
next
  case (Request_shutdown e q ms)
  then have "kept s s'" using assms
    by (auto simp: second_def and_then_ok requestRunnerShutdown_def Let_def intro!: kept_same split: if_splits option.splits)
  then show ?thesis ..
next
  case (Instruct_with_id i sender to content)
  then show ?thesis using assms ignore_plain [of "new_message env i sender to Instruction content" s]
    by (auto simp: insertInstructionWithId_def)
next
  case (Finalize e)
  then have "s' = snd (delete_lifecycle e (update_messages (open_checkpoint s e) (retire_row env) s))"
    using assms by (auto simp: finalizeSession_def Let_def split: prod.splits)
  then have "kept s s'" by (simp add: kept_def delete_lifecycle_def said_map)
  then show ?thesis ..
qed (use assms in \<open>auto simp: claimLifecycleConsent_def retireShipGate_def retireQuestionGuarded_def resolveGate_def
    markInstructionRead_def markInstructionDelivered_def ackInstructionRead_def Let_def kept_update
    markRunnerPhaseWakeStarted_def finishRunnerPhaseWake_def update_wakes_def finishRunnerShutdown_def
    upsertDeclaredState_def clearDeclaredState_def deleteTurn_def registerSession_def unregisterPendingSession_def
    updateSessionStatus_def deleteRegistered_def deleteSessionAndRunnerPhaseLifecycle_def delete_lifecycle_def kept_same\<close>)

end
