(* ===== verification/CommInv.thy ===== *)
theory CommInv
  imports CommRun
begin

section \<open>What every run of the communication database keeps\<close>

text \<open>
  The integrity of questions and answers, which makes the deletes of a purge succeed; the append-only
  source events; the epochs of a turn; and the queue of phase wakes.
\<close>

subsection \<open>Questions and answers\<close>

definition message_ok :: "message list \<Rightarrow> message \<Rightarrow> bool" where
  "message_ok ms m = ((m_type m = Response) = (m_parent m \<noteq> None)
     \<and> (case m_parent m of None \<Rightarrow> True
        | Some p \<Rightarrow> list_ex (\<lambda>q. m_id q = p \<and> m_type q = Question \<and> m_to m = m_from q) ms
            \<and> list_all (\<lambda>x. m_parent x = Some p \<longrightarrow> m_id x = m_id m) ms))"

definition messages_ok :: "message list \<Rightarrow> bool" where
  "messages_ok ms = (distinct (map m_id ms) \<and> list_all (message_ok ms) ms)"

lemma messages_ok_said: "messages_ok (map said ms) = messages_ok ms"
proof -
  have "message_ok (map said ms) (said m) = message_ok ms m" for m
    by (simp add: message_ok_def list_all_iff list_ex_iff split: option.split)
  then show ?thesis by (simp add: messages_ok_def list_all_iff o_def)
qed

lemma answered_iff: "answered s q \<longleftrightarrow> (\<exists>m \<in> set (messages s). m_parent m = Some q \<and> m_type m = Response)"
  by (simp add: answered_def list_ex_iff is_response_to_def)

lemma messages_ok_add:
  assumes "messages_ok (messages s)" and "addable s m"
  shows "messages_ok (messages s @ [m])"
proof -
  have id: "m_id m \<notin> m_id ` set (messages s)" using assms(2) by (simp add: addable_def)
  have ok: "message_ok (messages s) x" if "x \<in> set (messages s)" for x
    using assms(1) that by (simp add: messages_ok_def list_all_iff)
  show ?thesis
  proof (cases "answers s m")
    case True
    then obtain q where q: "q \<in> set (messages s)" "m_type m = Response" "m_type q = Question" "m_parent m = Some (m_id q)"
      "m_to m = m_from q" "\<not> answered s (m_id q)" by (auto simp: answers_def)
    have none: "m_parent x \<noteq> Some (m_id q)" if "x \<in> set (messages s)" for x
      using ok [OF that] q(6) that by (auto simp: message_ok_def answered_iff)
    have "message_ok (messages s @ [m]) m" using q none by (auto simp: message_ok_def list_ex_iff list_all_iff)
    moreover have "message_ok (messages s @ [m]) x" if "x \<in> set (messages s)" for x
      using ok [OF that] none [OF that] q(4) by (auto simp: message_ok_def split: option.splits)
    ultimately show ?thesis using assms(1) id by (auto simp: messages_ok_def list_all_iff)
  next
    case False
    then have "m_type m \<noteq> Response" "m_parent m = None" using assms(2) by (auto simp: addable_def)
    then have "message_ok (messages s @ [m]) m" by (simp add: message_ok_def)
    moreover have "message_ok (messages s @ [m]) x" if "x \<in> set (messages s)" for x
      using ok [OF that] \<open>m_parent m = None\<close> by (auto simp: message_ok_def split: option.splits)
    ultimately show ?thesis using assms(1) id by (auto simp: messages_ok_def list_all_iff)
  qed
qed

text \<open>A purge deletes answers before questions, so no foreign key is hurt.\<close>

definition survivors :: "(message \<Rightarrow> bool) \<Rightarrow> comm_db \<Rightarrow> message list" where
  "survivors P s = filter (\<lambda>m. \<not> P m \<and> \<not> child_of P s m) (messages s)"

lemma parent_there:
  assumes "messages_ok (messages s)" and "m \<in> set (messages s)" and "m_parent m = Some p"
  obtains q where "q \<in> set (messages s)" "m_id q = p" "m_type q = Question" "m_parent q = None" "m_to m = m_from q"
    "\<And>x. x \<in> set (messages s) \<Longrightarrow> m_parent x = Some p \<Longrightarrow> m_id x = m_id m"
proof -
  have "message_ok (messages s) m" using assms(1,2) by (simp add: messages_ok_def list_all_iff)
  then obtain q where q: "q \<in> set (messages s)" "m_id q = p" "m_type q = Question" "m_to m = m_from q"
    and u: "\<And>x. x \<in> set (messages s) \<Longrightarrow> m_parent x = Some p \<Longrightarrow> m_id x = m_id m"
    using assms(3) by (auto simp: message_ok_def list_ex_iff list_all_iff)
  have "message_ok (messages s) q" using assms(1) q(1) by (simp add: messages_ok_def list_all_iff)
  then have "m_parent q = None" using q(3) by (simp add: message_ok_def)
  then show thesis using that q u by blast
qed

lemma child_of_parent: "q \<in> set (messages s) \<Longrightarrow> P q \<Longrightarrow> m_parent m = Some (m_id q) \<Longrightarrow> child_of P s m"
  by (auto simp: child_of_def list_ex_iff)

lemma no_orphan:
  assumes "\<And>m p. m \<in> set (messages s) \<Longrightarrow> \<not> P m \<Longrightarrow> m_parent m = Some p \<Longrightarrow>
      \<exists>q \<in> set (messages s). m_id q = p \<and> \<not> P q"
  shows "delete_messages P s = Inr (length (filter P (messages s)), s\<lparr>messages := filter (\<lambda>m. \<not> P m) (messages s)\<rparr>)"
proof -
  have "\<not> (case m_parent m of None \<Rightarrow> False
      | Some p \<Rightarrow> \<not> list_ex (\<lambda>k. m_id k = p) (filter (\<lambda>m. \<not> P m) (messages s)))"
    if "m \<in> set (filter (\<lambda>m. \<not> P m) (messages s))" for m
    using assms [of m] that by (cases "m_parent m") (auto simp: list_ex_iff)
  then show ?thesis by (simp add: delete_messages_def Let_def list_ex_iff)
qed

lemma delete_succeeds:
  assumes "messages_ok (messages s)"
  shows "\<exists>refs n. delete_with_children P s = Inr (refs, n, s\<lparr>messages := survivors P s\<rparr>)"
proof -
  let ?C = "child_of P s"
  define s1 where "s1 = s\<lparr>messages := filter (\<lambda>m. \<not> ?C m) (messages s)\<rparr>"
  have stays: "\<exists>q \<in> set (messages s). m_id q = p \<and> \<not> ?C q \<and> \<not> P q"
    if m: "m \<in> set (messages s)" "\<not> ?C m" "m_parent m = Some p" for m p
  proof -
    obtain q where q: "q \<in> set (messages s)" "m_id q = p" "m_parent q = None" using parent_there [OF assms m(1,3)] by blast
    then have "\<not> P q" using m(2,3) child_of_parent [of q s P m] by auto
    then show ?thesis using q by (auto simp: child_of_def)
  qed
  have "delete_messages ?C s = Inr (length (filter ?C (messages s)), s1)"
    unfolding s1_def by (rule no_orphan) (use stays in blast)
  moreover have "delete_messages P s1 = Inr (length (filter P (messages s1)),
      s1\<lparr>messages := filter (\<lambda>m. \<not> P m) (messages s1)\<rparr>)"
    by (rule no_orphan) (use stays in \<open>auto simp: s1_def\<close>)
  moreover have "s1\<lparr>messages := filter (\<lambda>m. \<not> P m) (messages s1)\<rparr> = s\<lparr>messages := survivors P s\<rparr>"
    by (simp add: s1_def survivors_def conj_commute)
  ultimately show ?thesis by (simp add: delete_with_children_def Let_def)
qed

lemma messages_ok_survivors:
  assumes "messages_ok (messages s)"
  shows "messages_ok (survivors P s)"
proof -
  have "message_ok (survivors P s) m" if m: "m \<in> set (survivors P s)" for m
  proof (cases "m_parent m")
    case None
    have "message_ok (messages s) m" using assms m by (auto simp: messages_ok_def list_all_iff survivors_def)
    then show ?thesis using None by (simp add: message_ok_def)
  next
    case (Some p)
    have m': "m \<in> set (messages s)" "\<not> child_of P s m" using m by (auto simp: survivors_def)
    obtain q where q: "q \<in> set (messages s)" "m_id q = p" "m_type q = Question" "m_parent q = None" "m_to m = m_from q"
      and u: "\<And>x. x \<in> set (messages s) \<Longrightarrow> m_parent x = Some p \<Longrightarrow> m_id x = m_id m"
      using parent_there [OF assms m'(1) Some] by blast
    have "\<not> P q" using m'(2) Some q(2) child_of_parent [OF q(1)] by auto
    then have "q \<in> set (survivors P s)" using q(1,4) by (auto simp: survivors_def child_of_def)
    moreover have "message_ok (messages s) m" using assms m'(1) by (simp add: messages_ok_def list_all_iff)
    ultimately show ?thesis using Some q u by (auto simp: message_ok_def list_ex_iff list_all_iff survivors_def)
  qed
  then show ?thesis using assms by (auto simp: messages_ok_def list_all_iff survivors_def distinct_map inj_on_def)
qed

lemma step_messages_ok:
  assumes "comm_do env c s = Inr s'" and "messages_ok (messages s)"
  shows "messages_ok (messages s')"
proof -
  consider "kept s s'" | "grown s s'" | "removed s s'" using do_messages [OF assms(1)] by blast
  then show ?thesis
  proof cases
    case 1
    then have "messages_ok (map said (messages s')) = messages_ok (map said (messages s))" by (simp add: kept_def)
    then show ?thesis using assms(2) by (simp add: messages_ok_said)
  next
    case 2
    then obtain m where m: "map said (messages s') = map said (messages s @ [m])" "addable s m" by (auto simp: grown_def)
    have "messages_ok (map said (messages s'))"
      unfolding m(1) messages_ok_said by (rule messages_ok_add [OF assms(2) m(2)])
    then show ?thesis by (simp add: messages_ok_said)
  next
    case 3
    then obtain P refs n where P: "delete_with_children P s = Inr (refs, n, s')" by (auto simp: removed_def)
    then have "messages s' = survivors P s" using delete_succeeds [OF assms(2), of P] by auto
    then show ?thesis using messages_ok_survivors [OF assms(2)] by simp
  qed
qed

lemma reach_messages_ok: "comm_reach s \<Longrightarrow> messages_ok (messages s)"
proof (induction rule: comm_reach_induct)
  case start
  show ?case by (simp add: messages_ok_def empty_comm_db_def)
qed (rule step_messages_ok)

subsection \<open>Answers do not change\<close>

lemma find_said:
  assumes "\<And>m. P (said m) = P m"
  shows "map_option said (find P ms) = find P (map said ms)"
  using assms by (induction ms) auto

lemma response_kept:
  assumes "kept s s' \<or> grown s s'" and "getResponse s q = Some r"
  shows "\<exists>r'. getResponse s' q = Some r' \<and> said r' = said r"
proof -
  have said: "map_option said (getResponse x q) = find (is_response_to q) (map said (messages x))" for x
    unfolding getResponse_def by (rule find_said) simp
  have "find (is_response_to q) (map said (messages s)) = Some (said r)" using said [of s] assms(2) by simp
  then have "find (is_response_to q) (map said (messages s')) = Some (said r)"
    using assms(1) by (auto simp: kept_def grown_def find_append)
  then show ?thesis using said [of s'] by (cases "getResponse s' q") auto
qed

lemma response_steps:
  assumes "comm_steps s cs s'" and "getResponse s q = Some r" and "\<not> list_ex removes cs"
  shows "\<exists>r'. getResponse s' q = Some r' \<and> said r' = said r"
  using assms
proof induction
  case (made s cs s1 env c s2)
  then obtain r1 where "getResponse s1 q = Some r1" "said r1 = said r" by auto
  then show ?case using response_kept [of s1 s2 q r1] do_messages [OF made(2)] made.prems(2) by auto
qed auto

subsection \<open>Source events and turns\<close>

lemma answer_where_sources: "answer_where env P sender content s = Inr (b, s') \<Longrightarrow>
    source_events s' = source_events s \<and> turn_log s' = turn_log s \<and> turns s' = turns s \<and> wakes s' = wakes s"
  by (auto simp: answer_where_def and_then_ok insert_message_def split: option.splits if_splits)

lemma update_messages_other [simp]: "source_events (update_messages P f s) = source_events s"
    "turn_log (update_messages P f s) = turn_log s" "turns (update_messages P f s) = turns s"
    "wakes (update_messages P f s) = wakes s"
  by (simp_all add: update_messages_def)

lemma insert_message_other: "insert_message m s = Inr s' \<Longrightarrow>
    source_events s' = source_events s \<and> turn_log s' = turn_log s \<and> turns s' = turns s \<and> wakes s' = wakes s"
  by (auto simp: insert_message_def split: if_splits option.splits)

lemma ignore_other: "source_events (snd (insert_or_ignore m s)) = source_events s"
    "turn_log (snd (insert_or_ignore m s)) = turn_log s" "turns (snd (insert_or_ignore m s)) = turns s"
    "wakes (snd (insert_or_ignore m s)) = wakes s"
  by (simp_all add: insert_or_ignore_def)

lemma delete_other: "delete_with_children P s = Inr (refs, n, s') \<Longrightarrow>
    source_events s' = source_events s \<and> turn_log s' = turn_log s \<and> turns s' = turns s \<and> wakes s' = wakes s"
  by (auto simp: delete_with_children_def delete_messages_def Let_def and_then_ok split: if_splits)

lemma delete_lifecycle_other [simp]: "source_events (snd (delete_lifecycle e s)) = source_events s"
    "turn_log (snd (delete_lifecycle e s)) = turn_log s" "turns (snd (delete_lifecycle e s)) = turns s"
    "wakes (snd (delete_lifecycle e s)) = filter (\<lambda>w. pw_execution w \<noteq> e) (wakes s)"
  by (simp_all add: delete_lifecycle_def)

lemma finalize_eq: "snd (finalizeSession env e s) =
    snd (delete_lifecycle e (update_messages (open_checkpoint s e) (retire_row env) s))"
  by (simp add: finalizeSession_def Let_def split: prod.split)

lemma claim_instruction_other [simp]: "source_events (claim_instruction env e i s) = source_events s"
    "turn_log (claim_instruction env e i s) = turn_log s" "turns (claim_instruction env e i s) = turns s"
    "wakes (claim_instruction env e i s) = wakes s"
  by (simp_all add: claim_instruction_def)

lemma enqueue_other: "enqueueRunnerPhaseWake env e i ms s = Inr ((b, w), s') \<Longrightarrow>
    source_events s' = source_events s \<and> turn_log s' = turn_log s \<and> turns s' = turns s"
  by (auto simp: enqueueRunnerPhaseWake_def and_then_ok Let_def split: if_splits option.splits)

lemma shutdown_other: "requestRunnerShutdown e q ms s = Inr (d, s') \<Longrightarrow>
    source_events s' = source_events s \<and> turn_log s' = turn_log s \<and> turns s' = turns s \<and> wakes s' = wakes s"
  by (auto simp: requestRunnerShutdown_def Let_def split: if_splits option.splits)

lemmas simple_calls = claimLifecycleConsent_def retireShipGate_def retireQuestionGuarded_def resolveGate_def
  markInstructionRead_def markInstructionDelivered_def ackInstructionRead_def markRunnerPhaseWakeStarted_def
  finishRunnerPhaseWake_def update_wakes_def finishRunnerShutdown_def upsertDeclaredState_def clearDeclaredState_def
  deleteTurn_def registerSession_def unregisterPendingSession_def updateSessionStatus_def deleteRegistered_def
  deleteSessionAndRunnerPhaseLifecycle_def insertInstructionWithId_def ignore_other finalize_eq

text \<open>Which calls touch the turns.\<close>

fun turn_call :: "comm_call \<Rightarrow> bool" where
  "turn_call (Grant issue holder phase ms source) = True"
| "turn_call (Delete_turn issue) = True"
| "turn_call _ = False"

lemma comm_do_other:
  assumes "comm_do env c s = Inr s'" and "\<not> turn_call c"
  shows "turn_log s' = turn_log s \<and> turns s' = turns s \<and> (\<exists>ys. source_events s' = source_events s @ ys)"
  using assms
proof (cases c)
  case (Approve_with_source project i q sender content owner payload)
  then show ?thesis using assms
    by (auto simp: second_def and_then_ok insertFounderApprovalResponseWithSource_def insert_source_event_def
      dest!: answer_where_sources split: if_splits)
next
  case (Timeout q sender content owner cp grace)
  then show ?thesis using assms
    by (auto simp: second_def and_then_ok insertTimeoutResponse_def Let_def dest!: answer_where_sources split: if_splits)
next
  case (Instruct sender to content dedupe)
  then show ?thesis using assms
    by (auto simp: second_def and_then_ok insertInstruction_def Let_def ignore_other dest!: insert_message_other split: if_splits)
next
  case (Respond q sender content)
  then show ?thesis using assms
    by (auto simp: insertResponse_def dest!: insert_message_other split: option.splits)
qed (use assms in \<open>auto simp: third_def second_def and_then_ok purgeExpiredWithRefs_def cleanupReadMessagesWithRefs_def
    insertQuestion_def insertResponseIfGateOpen_def insertArtifactProgress_def simple_calls Let_def
    dest!: delete_other insert_message_other answer_where_sources enqueue_other shutdown_other\<close>)

lemma find_replaced: "find (\<lambda>x. key x = k) (map (\<lambda>x. if key x = key t then t else x) ts) =
    (if k = key t \<and> find (\<lambda>x. key x = k) ts \<noteq> None then Some t else find (\<lambda>x. key x = k) ts)"
  by (induction ts) auto

lemma get_put_turn: "getTurn (put_turn t s) issue = (if issue = t_issue t then Some t else getTurn s issue)"
  by (auto simp: getTurn_def put_turn_def find_append find_replaced split: option.split)

lemma grant_cases:
  assumes "grantTurn env issue holder phase ms source s = Inr s'"
  obtains "s' = s" "source \<noteq> None"
  | "turns s' = turns (put_turn (next_turn s issue holder phase ms) s)" "turn_log s' = turn_log s"
      "source_events s' = source_events s" "source = None"
  | h x where "turns s' = turns (put_turn (next_turn s issue holder phase ms) s)" "turn_log s' = turn_log s @ [h]"
      "th_issue h = issue" "th_epoch h = current_epoch s issue + 1" "source_events s' = source_events s @ [x]"
      "ws_payload x = turn_payload s issue holder phase" "source = Some (ws_project x, ws_id x)"
proof (cases source)
  case None
  then show ?thesis using assms that(2) by (auto simp: grantTurn_def)
next
  case (Some pi)
  obtain project i where pi: "pi = (project, i)" by (cases pi)
  have g: "grant_with_source env issue holder phase ms project i s = Inr s'" using assms Some pi by (simp add: grantTurn_def)
  show ?thesis
  proof (cases "find_source s project i")
    case None
    with g show ?thesis using Some pi
      by (intro that(3)) (auto simp: grant_with_source_def grant_event_def insert_source_event_def Let_def split: if_splits)
  next
    case (Some x)
    with g show ?thesis using \<open>source = Some pi\<close>
      by (intro that(1)) (auto simp: grant_with_source_def split: if_splits)
  qed
qed

lemma sources_grow: "comm_do env c s = Inr s' \<Longrightarrow> \<exists>ys. source_events s' = source_events s @ ys"
proof (cases "turn_call c")
  case True
  assume a: "comm_do env c s = Inr s'"
  show ?thesis
  proof (cases c)
    case (Grant issue holder phase ms source)
    then have "grantTurn env issue holder phase ms source s = Inr s'" using a by simp
    then show ?thesis by (cases rule: grant_cases) auto
  qed (use a True in \<open>auto simp: deleteTurn_def\<close>)
qed (use comm_do_other in blast)

lemma sources_grow_steps: "comm_steps s cs s' \<Longrightarrow> \<exists>ys. source_events s' = source_events s @ ys"
proof (induction rule: comm_steps.induct)
  case (made s cs s1 env c s2)
  then show ?case using sources_grow [OF made(2)] by auto
qed simp

lemma find_source_grows: "find_source s p i = Some x \<Longrightarrow> source_events s' = source_events s @ ys \<Longrightarrow> find_source s' p i = Some x"
  by (simp add: find_source_def find_append)

definition epochs_of :: "comm_db \<Rightarrow> string \<Rightarrow> int list" where
  "epochs_of s issue = map th_epoch (filter (\<lambda>h. th_issue h = issue) (turn_log s))"

definition epochs_ok :: "string \<Rightarrow> comm_db \<Rightarrow> bool" where
  "epochs_ok issue s = (sorted_wrt (<) (epochs_of s issue) \<and> (\<forall>e \<in> set (epochs_of s issue). 1 \<le> e \<and> e \<le> current_epoch s issue)
     \<and> 0 \<le> current_epoch s issue)"

lemma current_epoch_turns: "turns s' = turns s \<Longrightarrow> current_epoch s' issue = current_epoch s issue"
  by (simp add: current_epoch_def getTurn_def)

lemma current_epoch_put: "turns s' = turns (put_turn t s) \<Longrightarrow>
    current_epoch s' issue = (if issue = t_issue t then t_epoch t else current_epoch s issue)"
proof -
  assume "turns s' = turns (put_turn t s)"
  then have "getTurn s' issue = getTurn (put_turn t s) issue" by (simp add: getTurn_def)
  then show ?thesis by (simp add: current_epoch_def get_put_turn)
qed

lemma get_other_turn: "issue \<noteq> issue' \<Longrightarrow> getTurn (deleteTurn issue' s) issue = getTurn s issue"
proof -
  assume "issue \<noteq> issue'"
  then have "find (\<lambda>t. t_issue t = issue) (filter (\<lambda>t. t_issue t \<noteq> issue') ts) = find (\<lambda>t. t_issue t = issue) ts" for ts
    by (induction ts) auto
  then show ?thesis by (simp add: getTurn_def deleteTurn_def)
qed

lemma epochs_step:
  assumes "comm_do env c s = Inr s'" and "epochs_ok issue s" and "c \<noteq> Delete_turn issue"
  shows "epochs_ok issue s'"
proof (cases "turn_call c")
  case False
  then have "turn_log s' = turn_log s" "turns s' = turns s" using comm_do_other [OF assms(1)] by auto
  then show ?thesis using assms(2) current_epoch_turns [of s' s issue] by (simp add: epochs_ok_def epochs_of_def)
next
  case True
  show ?thesis
  proof (cases c)
    case (Delete_turn issue')
    then have "turn_log s' = turn_log s" "getTurn s' issue = getTurn s issue"
      using assms(1,3) Delete_turn get_other_turn [of issue issue'] by (auto simp: deleteTurn_def)
    then show ?thesis using assms(2) by (simp add: epochs_ok_def epochs_of_def current_epoch_def)
  next
    case (Grant issue' holder phase ms source)
    then have "grantTurn env issue' holder phase ms source s = Inr s'" using assms(1) by simp
    then show ?thesis
    proof (cases rule: grant_cases)
      case 1
      then show ?thesis using assms(2) by simp
    next
      case 2
      then show ?thesis using assms(2) current_epoch_put [OF 2(1), of issue]
        by (auto simp: epochs_ok_def epochs_of_def next_turn_def)
    next
      case (3 h x)
      then show ?thesis using assms(2) current_epoch_put [OF 3(1), of issue]
        by (auto simp: epochs_ok_def epochs_of_def next_turn_def sorted_wrt_append)
    qed
  qed (use True in simp_all)
qed

lemma epochs_steps: "comm_steps s cs s' \<Longrightarrow> epochs_ok issue s \<Longrightarrow> Delete_turn issue \<notin> set cs \<Longrightarrow> epochs_ok issue s'"
  by (induction rule: comm_steps.induct) (auto intro: epochs_step)

lemma grant_frozen:
  assumes "grantTurn env issue holder phase ms (Some (project, i)) s = Inr s1"
  shows "\<exists>x. find_source s1 project i = Some x \<and> replay_matches (ws_payload x) issue holder phase"
proof (cases "find_source s project i")
  case None
  have "replay_matches (turn_payload s issue holder phase) issue holder phase"
    by (simp add: replay_matches_def json_prop_def turn_payload_def)
  moreover define x where "x = grant_event env project i (turn_payload s issue holder phase) ms"
  have "source_events s1 = source_events s @ [x]"
    using assms None unfolding grantTurn_def grant_with_source_def insert_source_event_def Let_def x_def
    by (auto split: if_splits)
  then have "find_source s1 project i = Some x"
    using None by (simp add: find_source_def find_append x_def grant_event_def)
  moreover have "ws_payload x = turn_payload s issue holder phase" by (simp add: x_def grant_event_def)
  ultimately show ?thesis by simp
next
  case (Some x)
  then show ?thesis using assms by (auto simp: grantTurn_def grant_with_source_def split: if_splits)
qed

subsection \<open>Phase wakes\<close>

definition wake_same :: "phase_wake \<Rightarrow> phase_wake \<Rightarrow> bool" where
  "wake_same w' w = (pw_seq w' = pw_seq w \<and> pw_execution w' = pw_execution w \<and> pw_message w' = pw_message w
     \<and> pw_content w' = pw_content w \<and> pw_metadata w' = pw_metadata w
     \<and> pw_source_instruction w' = pw_source_instruction w \<and> pw_queued_at w' = pw_queued_at w)"

fun ends_lifecycle :: "string \<Rightarrow> comm_call \<Rightarrow> bool" where
  "ends_lifecycle e (Finalize x) = (x = e)"
| "ends_lifecycle e (Delete_lifecycle x) = (x = e)"
| "ends_lifecycle e _ = False"

definition wakes_from :: "(phase_wake \<Rightarrow> phase_wake) \<Rightarrow> string set \<Rightarrow> phase_wake list \<Rightarrow> comm_db \<Rightarrow> comm_db \<Rightarrow> bool" where
  "wakes_from f gone new s s' = (wakes s' = map f (filter (\<lambda>w. pw_execution w \<notin> gone) (wakes s)) @ new)"

lemma find_wake_kept:
  assumes "wakes_from f gone new s s'" and "\<And>w. wake_same (f w) w" and "e \<notin> gone"
    and "find (same_wake e i) (wakes s) = Some w"
  shows "find (same_wake e i) (wakes s') = Some (f w)"
proof -
  have p: "same_wake e i (f w) = same_wake e i w" for w
    using assms(2) [of w] by (simp add: wake_same_def same_wake_def)
  have q: "same_wake e i w \<Longrightarrow> pw_execution w \<notin> gone" for w using assms(3) by (simp add: same_wake_def)
  have "find (same_wake e i) (map f (filter (\<lambda>w. pw_execution w \<notin> gone) ws)) = map_option f (find (same_wake e i) ws)" for ws
    by (induction ws) (use q in \<open>auto simp: p\<close>)
  then show ?thesis using assms(1,4) by (simp add: wakes_from_def find_append)
qed

lemma do_wakes:
  assumes "comm_do env c s = Inr s'"
  shows "\<exists>f gone new. wakes_from f gone new s s' \<and> (\<forall>w. wake_same (f w) w) \<and> (\<forall>e. e \<in> gone \<longrightarrow> ends_lifecycle e c)"
proof -
  have kept: ?thesis if "wakes s' = wakes s"
    using that by (intro exI [of _ id] exI [of _ "{}"] exI [of _ "[]"]) (simp add: wakes_from_def wake_same_def)
  have mapped: ?thesis if "wakes s' = map f (wakes s)" "\<And>w. wake_same (f w) w" for f
    using that by (intro exI [of _ f] exI [of _ "{}"] exI [of _ "[]"]) (simp add: wakes_from_def)
  have deleted: ?thesis if "wakes s' = filter (\<lambda>w. pw_execution w \<noteq> e) (wakes s)" "ends_lifecycle e c" for e
    using that by (intro exI [of _ id] exI [of _ "{e}"] exI [of _ "[]"]) (simp add: wakes_from_def wake_same_def)
  show ?thesis
  proof (cases c)
    case (Enqueue_wake e i ms)
    then obtain new where "wakes s' = wakes s @ new" using assms
      by (auto simp: second_def and_then_ok enqueueRunnerPhaseWake_def Let_def split: if_splits option.splits)
    then show ?thesis
      by (intro exI [of _ id] exI [of _ "{}"] exI [of _ new]) (simp add: wakes_from_def wake_same_def)
  next
    case (Start_wake e i ms)
    show ?thesis
      by (rule mapped [of "\<lambda>w. if wake_is e i Wake_pending w then w\<lparr>pw_state := Wake_started, pw_started_at := Some ms\<rparr> else w"])
        (use assms Start_wake in \<open>auto simp: markRunnerPhaseWakeStarted_def update_wakes_def wake_same_def\<close>)
  next
    case (Finish_wake e i ms)
    show ?thesis
      by (rule mapped [of "\<lambda>w. if wake_is e i Wake_started w then w\<lparr>pw_state := Wake_finished, pw_finished_at := Some ms\<rparr> else w"])
        (use assms Finish_wake in \<open>auto simp: finishRunnerPhaseWake_def update_wakes_def wake_same_def\<close>)
  next
    case (Finalize e)
    show ?thesis by (rule deleted [of e]) (use assms Finalize in \<open>auto simp: finalize_eq\<close>)
  next
    case (Delete_lifecycle e)
    show ?thesis
      by (rule deleted [of e]) (use assms Delete_lifecycle in \<open>auto simp: deleteSessionAndRunnerPhaseLifecycle_def\<close>)
  next
    case (Grant issue holder phase ms source)
    show ?thesis by (rule kept) (use assms Grant in \<open>auto simp: grantTurn_def grant_with_source_def insert_source_event_def
      put_turn_def Let_def split: if_splits option.splits\<close>)
  next
    case (Approve_with_source project i q sender content owner payload)
    show ?thesis by (rule kept) (use assms Approve_with_source in \<open>auto simp: second_def and_then_ok
      insertFounderApprovalResponseWithSource_def insert_source_event_def dest!: answer_where_sources split: if_splits\<close>)
  next
    case (Timeout q sender content owner cp grace)
    show ?thesis by (rule kept) (use assms Timeout in \<open>auto simp: second_def and_then_ok insertTimeoutResponse_def Let_def
      dest!: answer_where_sources split: if_splits\<close>)
  next
    case (Instruct sender to content dedupe)
    show ?thesis by (rule kept) (use assms Instruct in \<open>auto simp: second_def and_then_ok insertInstruction_def Let_def
      ignore_other dest!: insert_message_other split: if_splits\<close>)
  next
    case (Respond q sender content)
    show ?thesis by (rule kept) (use assms Respond in \<open>auto simp: insertResponse_def dest!: insert_message_other
      split: option.splits\<close>)
  qed (rule kept; use assms in \<open>auto simp: third_def second_def and_then_ok purgeExpiredWithRefs_def
      cleanupReadMessagesWithRefs_def insertQuestion_def insertResponseIfGateOpen_def insertArtifactProgress_def
      simple_calls Let_def dest!: delete_other insert_message_other answer_where_sources shutdown_other\<close>)+
qed

lemma wake_steps:
  assumes "comm_steps s cs s'" and "find (same_wake e i) (wakes s) = Some w" and "\<not> list_ex (ends_lifecycle e) cs"
  shows "\<exists>w'. find (same_wake e i) (wakes s') = Some w' \<and> wake_same w' w"
  using assms
proof induction
  case (made s cs s1 env c s2)
  then obtain w1 where w1: "find (same_wake e i) (wakes s1) = Some w1" "wake_same w1 w" by auto
  obtain f gone new where f: "wakes_from f gone new s1 s2" "\<And>w. wake_same (f w) w" "\<And>e. e \<in> gone \<Longrightarrow> ends_lifecycle e c"
    using do_wakes [OF made(2)] by blast
  have "e \<notin> gone" using f(3) made.prems(2) by auto
  then show ?case using find_wake_kept [OF f(1,2) _ w1(1)] f(2) [of w1] w1(2) by (auto simp: wake_same_def)
qed (simp add: wake_same_def)

end
