(* ===== verification/CommProps.thy ===== *)
theory CommProps
  imports CommInv
begin

section \<open>What the communication database guarantees\<close>

text \<open>
  Over every run: deletes never break a foreign key or separate an answer from its question, an answer
  is final, an approval and its source event are one write, a grant is replayed and not repeated, epochs
  grow, and a phase wake is queued once.
\<close>

subsection \<open>Questions and answers\<close>


lemma answer_refused:
  assumes "getResponse s q = Some r"
  shows "insertResponse env q sender content s \<in> {Inl Question_not_found, Inl Constraint_unique}"
    and "insertResponseIfGateOpen env q sender content owner cp s = Inr (False, s)"
    and "insertTimeoutResponse env q sender content owner cp grace s = Inr (False, s)"
    and "insertFounderApprovalResponseWithSource env project i q sender content owner payload s = Inr (False, s)"
proof -
  have "r \<in> set (messages s) \<and> is_response_to q r" using assms by (auto simp: getResponse_def dest: find_Some_iff')
  then have a: "answered s q" by (auto simp: answered_def list_ex_iff)
  have shut: "\<not> open_gate s q owner cp m" for owner cp m using a by (auto simp: open_gate_def question_is_def)
  then have none: "answer_where env (\<lambda>m. open_gate s q owner cp m \<and> Q m) sender content s = Inr (False, s)" for owner cp Q
  proof -
    have "find (\<lambda>m. open_gate s q owner cp m \<and> Q m) (messages s) = None" using shut by (simp only: find_None_iff) blast
    then show ?thesis by (simp add: answer_where_def)
  qed
  show "insertResponse env q sender content s \<in> {Inl Question_not_found, Inl Constraint_unique}"
  proof (cases "find (question_is q) (messages s)")
    case (Some m)
    then have "m_id m = q" by (auto simp: question_is_def dest: find_Some_iff')
    then show ?thesis using a Some by (simp add: insertResponse_def insert_message_def)
  qed (simp add: insertResponse_def)
  show "insertResponseIfGateOpen env q sender content owner cp s = Inr (False, s)"
    by (simp add: insertResponseIfGateOpen_def none)
  show "insertTimeoutResponse env q sender content owner cp grace s = Inr (False, s)"
    using none [of owner cp "\<lambda>_. True"] by (simp add: insertTimeoutResponse_def Let_def and_then_def)
  show "insertFounderApprovalResponseWithSource env project i q sender content owner payload s = Inr (False, s)"
    by (simp add: insertFounderApprovalResponseWithSource_def none and_then_def)
qed

text \<open>C9: an answer is final. Until a purge, whatever the runners and the bridge do, the question keeps
  the answer it got, with the same words, from the same sender; and no further answer is written, whether
  by a lead, by a gate that times out, or by an approval of the founder.\<close>

theorem answer_is_final:
  assumes "comm_steps s cs s'" and "getResponse s q = Some r" and "\<not> list_ex removes cs"
  shows "(\<exists>r'. getResponse s' q = Some r' \<and> m_id r' = m_id r \<and> m_content r' = m_content r \<and> m_from r' = m_from r)
    \<and> insertResponseIfGateOpen env q sender content owner cp s' = Inr (False, s')
    \<and> insertTimeoutResponse env q sender content owner cp grace s' = Inr (False, s')
    \<and> insertFounderApprovalResponseWithSource env project i q sender content owner payload s' = Inr (False, s')
    \<and> insertResponse env q sender content s' \<in> {Inl Question_not_found, Inl Constraint_unique}"
proof -
  obtain r' where r: "getResponse s' q = Some r'" "said r' = said r" using response_steps [OF assms] by blast
  then have "m_id r' = m_id r \<and> m_content r' = m_content r \<and> m_from r' = m_from r" by (metis said_fields)
  then show ?thesis using r(1) answer_refused [OF r(1)] by simp
qed

text \<open>C37: the approval of a founder and its source event are one write. Either both rows are added, and
  then the gate was the owner's ship gate, live, unresolved and unanswered; or the call answers that
  nothing was written and the database is unchanged; or it fails, because the id of the new row or of the
  source event is taken, and neither row is written.\<close>

theorem founder_approval_is_atomic:
  "(case insertFounderApprovalResponseWithSource env project i q sender content owner payload s of
      Inr (True, s') \<Rightarrow> (\<exists>m. m \<in> set (messages s) \<and> open_gate s q owner approve_to_ship m \<and> live_at (now_seconds env) m
         \<and> s' = s\<lparr>messages := messages s @ [response_row env sender content m],
              source_events := source_events s @ [approval_event env project i payload]\<rparr>)
    | Inr (False, s') \<Rightarrow> s' = s
        \<and> list_all (\<lambda>m. \<not> (open_gate s q owner approve_to_ship m \<and> live_at (now_seconds env) m)) (messages s)
    | Inl e \<Rightarrow> e = Constraint_unique \<and> (find_message s (fresh_token env) \<noteq> None \<or> find_source s project i \<noteq> None))"
proof (cases "find (\<lambda>m. open_gate s q owner approve_to_ship m \<and> live_at (now_seconds env) m) (messages s)")
  case None
  then have "list_all (\<lambda>m. \<not> (open_gate s q owner approve_to_ship m \<and> live_at (now_seconds env) m)) (messages s)"
    by (simp add: find_None_iff list_all_iff)
  then show ?thesis using None
    by (simp add: insertFounderApprovalResponseWithSource_def answer_where_def and_then_def)
next
  case (Some m)
  note find_Some_iff' [OF Some]
  then have m: "m \<in> set (messages s)" "open_gate s q owner approve_to_ship m" "live_at (now_seconds env) m" by auto
  have "\<not> answered s (m_id m)" using m(2) by (simp add: open_gate_def)
  moreover have "find_message s (m_id m) \<noteq> None" using m(1) by (auto simp: find_message_def find_None_iff)
  then have "(find_message s (m_id m) = None) = False" by blast
  ultimately have ins: "insert_message (response_row env sender content m) s =
      (if find_message s (fresh_token env) \<noteq> None then Inl Constraint_unique
       else Inr (s\<lparr>messages := messages s @ [response_row env sender content m]\<rparr>))"
    by (simp add: insert_message_def del: not_None_eq)
  have "list_ex (\<lambda>x. ws_project x = project \<and> ws_id x = i) (source_events s) = (find_source s project i \<noteq> None)"
    by (auto simp: find_source_def find_None_iff list_ex_iff)
  then show ?thesis using Some ins m
    by (auto simp: insertFounderApprovalResponseWithSource_def answer_where_def and_then_def insert_source_event_def
        approval_event_def)
qed

subsection \<open>Turns\<close>

text \<open>C14: a grant is replayed, not repeated. After a grant with a source event, the same grant is
  answered without a change whatever happened since, later grants to others included; the same source
  event with another issue, holder or phase is refused as poison.\<close>

theorem turn_grant_replay:
  assumes "grantTurn env issue holder phase ms (Some (project, i)) s = Inr s1" and "comm_steps s1 cs s2"
  shows "grantTurn env' issue' holder' phase' ms' (Some (project, i)) s2 =
    (if (issue', holder', phase') = (issue, holder, phase) then Inr s2 else Inl Source_poison)"
proof -
  obtain x where x: "find_source s1 project i = Some x" "replay_matches (ws_payload x) issue holder phase"
    using grant_frozen [OF assms(1)] by blast
  have "find_source s2 project i = Some x" using sources_grow_steps [OF assms(2)] find_source_grows [OF x(1)] by blast
  moreover have "replay_matches (ws_payload x) issue' holder' phase' = ((issue', holder', phase') = (issue, holder, phase))"
    using x(2) by (auto simp: replay_matches_def)
  ultimately show ?thesis by (simp add: grantTurn_def grant_with_source_def)
qed

text \<open>The epochs of an issue only grow. In a run that never deletes its turn, the grants recorded in
  the history of an issue carry strictly increasing epochs, all positive, and none beyond the epoch of the
  turn that stands.\<close>

theorem turn_epochs_grow:
  assumes "comm_steps empty_comm_db cs s" and "Delete_turn issue \<notin> set cs"
  shows "sorted_wrt (<) (map th_epoch (filter (\<lambda>h. th_issue h = issue) (turn_log s)))
    \<and> (\<forall>h \<in> set (turn_log s). th_issue h = issue \<longrightarrow> 1 \<le> th_epoch h \<and> th_epoch h \<le> current_epoch s issue)"
proof -
  have "epochs_ok issue empty_comm_db"
    by (simp add: epochs_ok_def epochs_of_def empty_comm_db_def current_epoch_def getTurn_def)
  from epochs_steps [OF assms(1) this assms(2)] show ?thesis
    by (auto simp: epochs_ok_def epochs_of_def)
qed

subsection \<open>Phase wakes\<close>

text \<open>C36: a phase wake is queued once. Until the lifecycle of the session ends, sending a wake again
  (after a crash, or when the same instruction comes by another path) finds the row already queued, at
  whatever state it has reached, and changes nothing.\<close>

theorem wake_queued_once:
  assumes "enqueueRunnerPhaseWake env e i ms s = Inr ((new, w), s1)" and "comm_steps s1 cs s2"
    and "\<not> list_ex (ends_lifecycle e) cs"
  shows "\<exists>w'. enqueueRunnerPhaseWake env' e i ms' s2 = Inr ((False, w'), s2) \<and> pw_seq w' = pw_seq w
    \<and> pw_content w' = pw_content w \<and> pw_queued_at w' = pw_queued_at w"
proof -
  have here: "find (same_wake e i) (wakes s1) = Some w" and ok: "\<not> (e = [] \<or> wi_id i = [] \<or> wi_content i = [])"
    "\<not> (metadata_prop i ''execId'' \<noteq> JUndef \<and> metadata_prop i ''execId'' \<noteq> JStr e)"
  proof -
    have w: "same_wake e i (new_wake e i ms k)" for k by (simp add: same_wake_def new_wake_def)
    have "wakes (claim_instruction env e i x) = wakes x" for x by (simp add: claim_instruction_def update_messages_def)
    then show "find (same_wake e i) (wakes s1) = Some w" using assms(1) w
      by (auto simp: enqueueRunnerPhaseWake_def Let_def and_then_ok find_append split: if_splits option.splits)
    show "\<not> (e = [] \<or> wi_id i = [] \<or> wi_content i = [])"
      "\<not> (metadata_prop i ''execId'' \<noteq> JUndef \<and> metadata_prop i ''execId'' \<noteq> JStr e)"
      using assms(1) by (auto simp: enqueueRunnerPhaseWake_def split: if_splits)
  qed
  obtain w' where w': "find (same_wake e i) (wakes s2) = Some w'" "wake_same w' w"
    using wake_steps [OF assms(2) here assms(3)] by blast
  have "enqueueRunnerPhaseWake env' e i ms' s2 = Inr ((False, w'), s2)"
    unfolding enqueueRunnerPhaseWake_def by (simp only: ok if_False w'(1) option.case)
  then show ?thesis using w'(2) by (simp add: wake_same_def)
qed

subsection \<open>A run\<close>

text \<open>The calls of a list made one after the other.\<close>

fun comm_play :: "(comm_env \<times> comm_call) list \<Rightarrow> comm_db \<Rightarrow> (comm_error, comm_db) result" where
  "comm_play [] s = Inr s"
| "comm_play ((env, c) # cs) s = and_then (comm_do env c s) (comm_play cs)"

lemma comm_play_steps: "comm_play cs s = Inr s' \<Longrightarrow> comm_steps s (map snd cs) s'"
proof (induction cs arbitrary: s)
  case (Cons ec cs)
  obtain env c where ec: "ec = (env, c)" by (cases ec)
  then obtain s1 where c: "comm_do env c s = Inr s1" "comm_play cs s1 = Inr s'" using Cons.prems by (auto simp: and_then_ok)
  have "comm_steps s [c] s1" using comm_steps.made [OF comm_steps.no_call c(1)] by simp
  from comm_steps_append [OF this Cons.IH [OF c(2)]] show ?case by (simp add: ec)
qed (simp add: comm_steps.no_call)

definition played_db :: "(comm_env \<times> comm_call) list \<Rightarrow> comm_db \<Rightarrow> comm_db" where
  "played_db cs s = (case comm_play cs s of Inr s' \<Rightarrow> s' | Inl _ \<Rightarrow> s)"

fun played_ok :: "(comm_error, 'a) result \<Rightarrow> bool" where
  "played_ok (Inr _) = True"
| "played_ok (Inl _) = False"

lemma played_db_steps: "played_ok (comm_play cs s) \<Longrightarrow> comm_steps s (map snd cs) (played_db cs s)"
  by (cases "comm_play cs s") (auto simp: played_db_def intro: comm_play_steps)

definition at_second :: "int \<Rightarrow> string \<Rightarrow> comm_env" where
  "at_second t i = \<lparr>now_iso = ''t'', sql_now = ''t'', fresh_token = i, sha256 = id, other_date = (\<lambda>_. None),
     now_seconds = t, iso_of = (\<lambda>_. ''t'')\<rparr>"

definition ship_gate :: question_opts where
  "ship_gate = \<lparr>qo_checkpoint = Some approve_to_ship, qo_content_ref = None, qo_ref_content = False,
     qo_ttl_seconds = None, qo_report = False\<rparr>"

text \<open>A ship gate asked and answered.\<close>

definition gate_calls :: "(comm_env \<times> comm_call) list" where
  "gate_calls = [(at_second 0 ''q'', Ask ''e'' ''lead'' ''ship?'' ship_gate),
     (at_second 5 ''r'', Approve_with_source ''p'' ''src'' ''q'' ''lead'' ''yes'' ''e'' (JObj [])),
     (at_second 6 ''x'', Grant ''i'' ''e'' ''design'' 1 (Some (''p'', ''g''))),
     (at_second 7 ''x'', Grant ''i'' ''f'' ''implement'' 2 (Some (''p'', ''h'')))]"

definition gate_db :: comm_db where
  "gate_db = played_db gate_calls empty_comm_db"

lemma gate_db_steps: "comm_steps empty_comm_db (map snd gate_calls) gate_db"
  unfolding gate_db_def by (rule played_db_steps) code_simp

lemma gate_db_reach: "comm_reach gate_db"
  using gate_db_steps unfolding comm_reach_def by blast


text \<open>The source event id of the approval is taken, so a second gate's approval is refused whole.\<close>

definition second_gate :: comm_db where
  "second_gate = played_db [(at_second 8 ''q2'', Ask ''e'' ''lead'' ''ship?'' ship_gate)] gate_db"

theorem founder_approval_is_atomic_witness:
  "insertFounderApprovalResponseWithSource (at_second 9 ''r2'') ''p'' ''src'' ''q2'' ''lead'' ''yes'' ''e'' JNull second_gate
     = Inl Constraint_unique \<and> find_source second_gate ''p'' ''src'' \<noteq> None"
proof -
  have "\<not> played_ok (insertFounderApprovalResponseWithSource (at_second 9 ''r2'') ''p'' ''src'' ''q2'' ''lead'' ''yes'' ''e'' JNull second_gate)"
    by code_simp
  then obtain x where x: "insertFounderApprovalResponseWithSource (at_second 9 ''r2'') ''p'' ''src'' ''q2'' ''lead'' ''yes'' ''e'' JNull second_gate = Inl x"
    by (cases "insertFounderApprovalResponseWithSource (at_second 9 ''r2'') ''p'' ''src'' ''q2'' ''lead'' ''yes'' ''e'' JNull second_gate") auto
  have "map_option m_id (find_message second_gate ''r2'') = None" by code_simp
  then show ?thesis
    using founder_approval_is_atomic [where env = "at_second 9 ''r2''" and project = "''p''" and i = "''src''" and q = "''q2''"
        and sender = "''lead''" and content = "''yes''" and owner = "''e''" and payload = JNull and s = second_gate]
    unfolding x by (simp add: at_second_def)
qed

definition later_calls :: "(comm_env \<times> comm_call) list" where
  "later_calls = [(at_second 8 ''y'', Resolve ''q'' 24), (at_second 9 ''y'', Mark_read ''r''),
     (at_second 10 ''y'', Grant ''i'' ''k'' ''qa'' 3 (Some (''p'', ''k'')))]"

definition later_db :: comm_db where
  "later_db = played_db later_calls gate_db"

lemma later_steps: "comm_steps gate_db (map snd later_calls) later_db"
  unfolding later_db_def by (rule played_db_steps) code_simp

theorem answer_is_final_witness:
  "(\<exists>r. getResponse later_db ''q'' = Some r \<and> m_content r = ''yes'')
    \<and> insertResponseIfGateOpen (at_second 20 ''z'') ''q'' ''m'' ''no'' ''e'' approve_to_ship later_db = Inr (False, later_db)"
proof -
  have "map_option m_content (getResponse gate_db ''q'') = Some ''yes''" by code_simp
  then obtain r where r: "getResponse gate_db ''q'' = Some r" "m_content r = ''yes''" by auto
  have "\<not> list_ex removes (map snd later_calls)" by code_simp
  from answer_is_final [OF later_steps r(1) this, of "at_second 20 ''z''" "''m''" "''no''" "''e''" approve_to_ship None "''p''" "''x''" JNull]
  show ?thesis using r(2) by auto
qed

theorem turn_grant_replay_witness:
  "grantTurn (at_second 30 ''z'') ''i'' ''f'' ''implement'' 99 (Some (''p'', ''h'')) later_db = Inr later_db
   \<and> grantTurn (at_second 30 ''z'') ''i'' ''x'' ''implement'' 99 (Some (''p'', ''h'')) later_db = Inl Source_poison"
proof -
  have ok: "played_ok (grantTurn (at_second 7 ''x'') ''i'' ''f'' ''implement'' 2 (Some (''p'', ''h'')) (played_db (take 3 gate_calls) empty_comm_db))"
    by code_simp
  have "gate_db = (case grantTurn (at_second 7 ''x'') ''i'' ''f'' ''implement'' 2 (Some (''p'', ''h''))
      (played_db (take 3 gate_calls) empty_comm_db) of Inr x \<Rightarrow> x | Inl _ \<Rightarrow> empty_comm_db)" by code_simp
  with ok have "grantTurn (at_second 7 ''x'') ''i'' ''f'' ''implement'' 2 (Some (''p'', ''h''))
      (played_db (take 3 gate_calls) empty_comm_db) = Inr gate_db"
    by (cases "grantTurn (at_second 7 ''x'') ''i'' ''f'' ''implement'' 2 (Some (''p'', ''h''))
      (played_db (take 3 gate_calls) empty_comm_db)") simp_all
  from turn_grant_replay [OF this later_steps] show ?thesis by simp
qed

theorem turn_epochs_grow_witness:
  "map th_epoch (filter (\<lambda>h. th_issue h = ''i'') (turn_log gate_db)) = [1, 2]
   \<and> sorted_wrt (<) (map th_epoch (filter (\<lambda>h. th_issue h = ''i'') (turn_log gate_db)))"
proof
  show "map th_epoch (filter (\<lambda>h. th_issue h = ''i'') (turn_log gate_db)) = [1, 2]" by code_simp
  have "Delete_turn ''i'' \<notin> set (map snd gate_calls)" by (simp add: gate_calls_def)
  from turn_epochs_grow [OF gate_db_steps this]
  show "sorted_wrt (<) (map th_epoch (filter (\<lambda>h. th_issue h = ''i'') (turn_log gate_db)))" by blast
qed

definition wake_now :: wake_input where
  "wake_now = \<lparr>wi_id = ''w'', wi_content = ''go'', wi_metadata = None\<rparr>"

definition wake_calls :: "(comm_env \<times> comm_call) list" where
  "wake_calls = [(at_second 1 ''z'', Start_wake ''e'' ''w'' 5), (at_second 2 ''z'', Finish_wake ''e'' ''w'' 6)]"

definition woken :: comm_db where
  "woken = (case enqueueRunnerPhaseWake (at_second 0 ''z'') ''e'' wake_now 4 empty_comm_db of
     Inr (_, s) \<Rightarrow> s | Inl _ \<Rightarrow> empty_comm_db)"

theorem wake_queued_once_witness:
  "\<exists>w. enqueueRunnerPhaseWake (at_second 3 ''z'') ''e'' wake_now 7 (played_db wake_calls woken)
       = Inr ((False, w), played_db wake_calls woken) \<and> pw_queued_at w = 4"
proof -
  have "enqueueRunnerPhaseWake (at_second 0 ''z'') ''e'' wake_now 4 empty_comm_db
      = Inr ((True, new_wake ''e'' wake_now 4 1), woken)" unfolding woken_def by code_simp
  moreover have "comm_steps woken (map snd wake_calls) (played_db wake_calls woken)" by (rule played_db_steps) code_simp
  moreover have "\<not> list_ex (ends_lifecycle ''e'') (map snd wake_calls)" by code_simp
  ultimately have "\<exists>w. enqueueRunnerPhaseWake (at_second 3 ''z'') ''e'' wake_now 7 (played_db wake_calls woken)
       = Inr ((False, w), played_db wake_calls woken) \<and> pw_queued_at w = pw_queued_at (new_wake ''e'' wake_now 4 1)"
    using wake_queued_once by blast
  then show ?thesis by (simp add: new_wake_def)
qed

subsection \<open>Answers that outlive their questions, and questions that outlive their answers\<close>

text \<open>\<open>resolveGate\<close> gives the question the TTL of its caller, the answer keeps the default of 72 hours. With
  a longer TTL a purge after those 72 hours removes the answer alone, and the resolved question counts as
  pending again.\<close>

definition long_resolve :: comm_db where
  "long_resolve = played_db [(at_second 0 ''q'', Ask ''e'' ''lead'' ''ok?'' ship_gate), (at_second 5 ''r'', Respond ''q'' ''lead'' ''yes''),
     (at_second 6 ''y'', Resolve ''q'' 100), (at_second (73 * 3600) ''y'', Purge)] empty_comm_db"

lemma answer_purged_before_question:
  "getResponse long_resolve ''q'' = None \<and> isQuestionPending (at_second (74 * 3600) ''z'') long_resolve ''q''
   \<and> map m_resolved_at (messages long_resolve) = [Some 6]"
  by code_simp

end
