(* ===== verification/Ship.thy ===== *)
theory Ship
  imports Reviews CommTurns LedgerClaims
begin

section \<open>The ship gate (verify-approval.ts, ship-eligibility.ts, founder-attribution.ts, merge-ship-gate.ts)\<close>

text \<open>
  The check a runner makes before it merges and the Bridge before it completes a session: the founder's
  approval of the bound review question, its writer, the head, the code review and the QA verdict, each
  behind a switch read live from \<open>~/.flywheel/.env\<close>. The checks read files, so what they read is one
  record: texts and databases by path, the environment of the process, the clock, git and the Bridge.
  A path is its components joined by a slash. A database whose \<open>sessions\<close> table lacks a column counts as
  unreadable; the review, QA and ledger tables may be missing.
\<close>

record state_file =
  sf_sessions :: session_store
  sf_codex :: "review_row list option"
  sf_qa :: "qa_row list option"
  sf_ledger :: "ledger option"

datatype db_file = No_file | Unreadable | State_db state_file

text \<open>\<open>None\<close> stands for a throw: of \<open>readFileSync\<close>, \<open>CommDB.openReadonly\<close>, \<open>JSON.parse\<close>, git, \<open>fetch\<close>
  (or an answer that is not \<open>ok\<close>).\<close>

record ship_world =
  sw_home :: string
  sw_process_env :: env_vars
  sw_text :: "string \<Rightarrow> string option"
  sw_state :: "string \<Rightarrow> db_file"
  sw_comm :: "string \<Rightarrow> comm_db option"
  sw_json :: "string \<Rightarrow> json option"
  sw_now_ms :: int
  sw_run :: run_env
  sw_git_head :: "string \<Rightarrow> string option"
  sw_head_answer :: "string \<Rightarrow> string \<Rightarrow> json option"

subsection \<open>Switches in the dotenv file\<close>

fun split_on :: "char \<Rightarrow> string \<Rightarrow> string list" where
  "split_on d [] = [[]]"
| "split_on d (c # cs) = (if c = d then [] # split_on d cs
     else (case split_on d cs of [] \<Rightarrow> [[c]] | l # ls \<Rightarrow> (c # l) # ls))"

fun contains :: "string \<Rightarrow> string \<Rightarrow> bool" where
  "contains w [] = (w = [])"
| "contains w (c # cs) = (begins_with w (c # cs) \<or> contains w cs)"

text \<open>The characters \<open>.\<close> does not match, in UTF-8.\<close>

definition LINE_ENDS :: "string list" where
  "LINE_ENDS = map (map char_of) [[10 :: nat], [13], [0xE2, 0x80, 0xA8], [0xE2, 0x80, 0xA9]]"

definition one_line :: "string \<Rightarrow> bool" where
  "one_line s = list_all (\<lambda>e. \<not> contains e s) LINE_ENDS"

definition after_key :: "string \<Rightarrow> string \<Rightarrow> string option" where
  "after_key key l = (let v = drop (length key + 1) l in
     if begins_with (key @ ''='') l \<and> one_line v then Some v else None)"

definition export_word :: string where "export_word = ''export''"

text \<open>\<open>/^\s*(?:export\s+)?KEY=(.*)$/\<close>; a key is no white space and not \<open>export\<close>.\<close>

definition line_value :: "string \<Rightarrow> string \<Rightarrow> string option" where
  "line_value key line =
     (let l = strip WHITE_SPACE line; rest = drop (length export_word) l in
      if begins_with export_word l \<and> strip WHITE_SPACE rest \<noteq> rest then after_key key (strip WHITE_SPACE rest)
      else after_key key l)"

definition comment_line :: "string \<Rightarrow> bool" where
  "comment_line line = begins_with ''#'' (strip WHITE_SPACE line)"

definition newline :: char where "newline = char_of (10 :: nat)"

definition read_line :: "string \<Rightarrow> string \<Rightarrow> string option \<Rightarrow> string option" where
  "read_line key line v = (if comment_line line then v else coalesce (line_value key line) v)"

definition readEnvValueFromContent :: "string \<Rightarrow> string \<Rightarrow> string option" where
  "readEnvValueFromContent content key = fold (read_line key) (split_on newline content) None"

definition dotenv_path :: "ship_world \<Rightarrow> string option \<Rightarrow> string" where
  "dotenv_path w override = or_else override (sw_home w @ ''/.flywheel/.env'')"

text \<open>\<open>key in argsEnv\<close>.\<close>

definition injected :: "env_vars option \<Rightarrow> string \<Rightarrow> string option" where
  "injected argsEnv key = (case argsEnv of None \<Rightarrow> None | Some vars \<Rightarrow> vars key)"

definition resolveDefaultOnGate :: "ship_world \<Rightarrow> string \<Rightarrow> env_vars option \<Rightarrow> env_vars \<Rightarrow> string option \<Rightarrow> bool" where
  "resolveDefaultOnGate w key argsEnv processEnv dotenvPath =
     (case injected argsEnv key of
        Some v \<Rightarrow> v \<noteq> zero_text
      | None \<Rightarrow> (case sw_text w (dotenv_path w dotenvPath) of
            Some content \<Rightarrow> readEnvValueFromContent content key \<noteq> Some zero_text
          | None \<Rightarrow> processEnv key \<noteq> Some zero_text))"

definition resolveDefaultOffGate :: "ship_world \<Rightarrow> string \<Rightarrow> env_vars option \<Rightarrow> env_vars \<Rightarrow> string option \<Rightarrow> bool" where
  "resolveDefaultOffGate w key argsEnv processEnv dotenvPath =
     (case injected argsEnv key of
        Some v \<Rightarrow> v = one_text
      | None \<Rightarrow> (case sw_text w (dotenv_path w dotenvPath) of
            Some content \<Rightarrow> readEnvValueFromContent content key = Some one_text
          | None \<Rightarrow> processEnv key = Some one_text))"

definition MERGE_APPROVAL_GATE :: string where "MERGE_APPROVAL_GATE = ''FLYWHEEL_MERGE_APPROVAL_GATE''"
definition QA_DONE_GATE :: string where "QA_DONE_GATE = ''FLYWHEEL_QA_DONE_GATE''"
definition WORKFLOW_CLAIMS_READ :: string where "WORKFLOW_CLAIMS_READ = ''FLYWHEEL_WORKFLOW_CLAIMS_READ''"
definition WORKFLOW_FORCE_LEGACY :: string where "WORKFLOW_FORCE_LEGACY = ''FLYWHEEL_WORKFLOW_FORCE_LEGACY''"
definition ATTRIBUTION_GATE :: string where "ATTRIBUTION_GATE = ''FLYWHEEL_FOUNDER_ATTRIBUTION_GATE''"
definition FOUNDER_ID_KEY :: string where "FOUNDER_ID_KEY = ''DISCORD_OWNER_USER_ID''"
definition STATE_DB_PATH :: string where "STATE_DB_PATH = ''FLYWHEEL_STATE_DB_PATH''"
definition TEAMLEAD_DB_PATH :: string where "TEAMLEAD_DB_PATH = ''TEAMLEAD_DB_PATH''"
definition COMM_ROOT :: string where "COMM_ROOT = ''FLYWHEEL_COMM_ROOT''"
definition COMM_DIR :: string where "COMM_DIR = ''FLYWHEEL_COMM_DIR''"

definition resolveWorkflowClaimsReadEnabled :: "ship_world \<Rightarrow> env_vars option \<Rightarrow> string option \<Rightarrow> bool" where
  "resolveWorkflowClaimsReadEnabled w vars dotenvPath =
     resolveDefaultOffGate w WORKFLOW_CLAIMS_READ vars (or_else vars (sw_process_env w)) dotenvPath"

definition resolveCodexHardGateOn :: "ship_world \<Rightarrow> env_vars option \<Rightarrow> env_vars \<Rightarrow> string option \<Rightarrow> bool" where
  "resolveCodexHardGateOn w argsEnv processEnv dotenvPath =
     resolveDefaultOnGate w HARD_GATE_ENV argsEnv processEnv dotenvPath"

text \<open>\<open>a?.trim() || b\<close>.\<close>

definition trimmed :: "string option \<Rightarrow> string option" where
  "trimmed v = (case map_option trim v of None \<Rightarrow> None | Some t \<Rightarrow> if t = [] then None else Some t)"

definition resolveStateDbPath :: "ship_world \<Rightarrow> string option \<Rightarrow> env_vars \<Rightarrow> string" where
  "resolveStateDbPath w override vars =
     or_else (coalesce (trimmed override) (coalesce (trimmed (vars STATE_DB_PATH)) (trimmed (vars TEAMLEAD_DB_PATH))))
       (sw_home w @ ''/.flywheel/teamlead.db'')"

definition commDbRootDir :: "ship_world \<Rightarrow> string" where
  "commDbRootDir w = or_else (coalesce (trimmed (sw_process_env w COMM_ROOT)) (trimmed (sw_process_env w COMM_DIR)))
     (sw_home w @ ''/.flywheel/comm'')"

definition commDbPathForProject :: "ship_world \<Rightarrow> string \<Rightarrow> string" where
  "commDbPathForProject w project = commDbRootDir w @ ''/'' @ project @ ''/comm.db''"

subsection \<open>Who may approve\<close>

definition TRUSTED_BRIDGE_APPROVAL_WRITERS :: "string list" where
  "TRUSTED_BRIDGE_APPROVAL_WRITERS = [''bridge'', ''bridge-founder-consent'']"

definition isTrustedApprovalAttribution :: "string option \<Rightarrow> string option \<Rightarrow> bool" where
  "isTrustedApprovalAttribution writer founderId =
     (if \<not> truthy writer then False
      else if the writer \<in> set TRUSTED_BRIDGE_APPROVAL_WRITERS then True
      else truthy founderId \<and> writer = founderId)"

definition is_digit :: "char \<Rightarrow> bool" where
  "is_digit c = (let n = of_char c :: nat in 48 \<le> n \<and> n \<le> 57)"

text \<open>\<open>/^\d{17,20}$/\<close>.\<close>

definition snowflake :: "string \<Rightarrow> bool" where
  "snowflake s = (17 \<le> length s \<and> length s \<le> 20 \<and> list_all is_digit s)"

definition isReservedApprovalAttribution :: "string \<Rightarrow> bool" where
  "isReservedApprovalAttribution writer = (writer \<in> set TRUSTED_BRIDGE_APPROVAL_WRITERS \<or> snowflake writer)"

definition resolveFounderId :: "ship_world \<Rightarrow> env_vars option \<Rightarrow> env_vars \<Rightarrow> string option \<Rightarrow> string option" where
  "resolveFounderId w argsEnv processEnv dotenvPath =
     (case injected argsEnv FOUNDER_ID_KEY of
        Some v \<Rightarrow> trimmed (Some v)
      | None \<Rightarrow>
          coalesce (case sw_text w (dotenv_path w dotenvPath) of
                None \<Rightarrow> None | Some content \<Rightarrow> trimmed (readEnvValueFromContent content FOUNDER_ID_KEY))
            (trimmed (processEnv FOUNDER_ID_KEY)))"

definition resolveFounderAttributionGateOn :: "ship_world \<Rightarrow> env_vars option \<Rightarrow> env_vars \<Rightarrow> string option \<Rightarrow> bool" where
  "resolveFounderAttributionGateOn w argsEnv processEnv dotenvPath =
     (case injected argsEnv ATTRIBUTION_GATE of
        Some v \<Rightarrow> v \<noteq> zero_text
      | None \<Rightarrow> (case processEnv ATTRIBUTION_GATE of
            Some v \<Rightarrow> v \<noteq> zero_text
          | None \<Rightarrow> (case sw_text w (dotenv_path w dotenvPath) of
                Some content \<Rightarrow> readEnvValueFromContent content ATTRIBUTION_GATE \<noteq> Some zero_text
              | None \<Rightarrow> True)))"

subsection \<open>verify-approval\<close>

record verify_args =
  va_exec :: string
  va_head :: string
  va_db :: string
  va_state_db :: "string option"
  va_env :: "env_vars option"
  va_dotenv :: "string option"

datatype verify_reason = Approved | Invalid_pr_head_format | Head_authority_unavailable | Head_authority_mismatch
  | State_db_unreadable | Session_not_found | Review_question_unbound | Commdb_unreadable | Review_question_missing
  | Review_question_invalid | Gate_not_answered | Response_not_structured_approval | Response_not_approved
  | Response_not_founder_attributed | Status_not_approved_to_ship | Pr_head_sha_missing | Pr_head_sha_mismatch
  | Codex_review_not_approved

record verify_result =
  vr_approved :: bool
  vr_reason :: verify_reason
  vr_question :: "string option"
  vr_from :: "string option"
  vr_status :: "string option"
  vr_expected :: "string option"
  vr_exit :: int

definition notApproved :: "verify_reason \<Rightarrow> verify_result" where
  "notApproved reason = \<lparr>vr_approved = False, vr_reason = reason, vr_question = None, vr_from = None,
     vr_status = None, vr_expected = None, vr_exit = 1\<rparr>"

text \<open>The approved or skipped code-review row of a head, and the rule the Bridge applies to it.\<close>

definition codex_row :: "review_row list \<Rightarrow> string \<Rightarrow> string \<Rightarrow> review_row option" where
  "codex_row rows e prHead = find (\<lambda>r. cr_execution r = e \<and> ascii_lower (cr_head r) = prHead
     \<and> cr_status r \<in> {Rv_approved, Rv_skipped}) rows"

definition codexApprovedForHead :: "state_file \<Rightarrow> string \<Rightarrow> string \<Rightarrow> bool" where
  "codexApprovedForHead f e prHead = (case sf_codex f of None \<Rightarrow> False
     | Some rows \<Rightarrow> (case codex_row rows e prHead of None \<Rightarrow> False
         | Some r \<Rightarrow> crossFamilyReviewSatisfied (Some (cr_status r)) (er_author_family (cr_evidence r))
             (er_reviewer_family (cr_evidence r)) (adapter_of (sf_sessions f) e)))"

definition bound_response :: "ship_world \<Rightarrow> string \<Rightarrow> string \<Rightarrow> string \<Rightarrow> (verify_reason, message) result" where
  "bound_response w dbPath e questionId =
     (case sw_comm w dbPath of
        None \<Rightarrow> Inl Commdb_unreadable
      | Some db \<Rightarrow> (case getMessageById db questionId of
            None \<Rightarrow> Inl Review_question_missing
          | Some q \<Rightarrow>
              if m_type q \<noteq> Question \<or> m_checkpoint q \<noteq> Some approve_to_ship \<or> m_from q \<noteq> e
              then Inl Review_question_invalid
              else (case getResponse db questionId of None \<Rightarrow> Inl Gate_not_answered | Some r \<Rightarrow> Inr r)))"

definition approved_key :: string where "approved_key = ''approved''"

definition parsed_approval :: "ship_world \<Rightarrow> string \<Rightarrow> bool option" where
  "parsed_approval w content = (case sw_json w content of None \<Rightarrow> None
     | Some v \<Rightarrow> (case json_prop v approved_key of JBool b \<Rightarrow> Some b | _ \<Rightarrow> None))"

definition approved_to_ship :: string where "approved_to_ship = ''approved_to_ship''"

text \<open>The checks on the answer: its shape, its writer, the status, the head and the code review.\<close>

definition verify_answer :: "ship_world \<Rightarrow> verify_args \<Rightarrow> state_file \<Rightarrow> session_row \<Rightarrow> string \<Rightarrow> string \<Rightarrow> message \<Rightarrow> verify_result" where
  "verify_answer w args f row prHead questionId response =
     (let env = or_else (va_env args) (sw_process_env w); responseFrom = m_from response;
          no = (\<lambda>reason. (notApproved reason)\<lparr>vr_question := Some questionId, vr_from := Some responseFrom\<rparr>);
          no_status = (\<lambda>reason. (no reason)\<lparr>vr_status := Some (status row)\<rparr>);
          founderId = resolveFounderId w (va_env args) env (va_dotenv args);
          expected = map_option (\<lambda>h. ascii_lower (trim h)) (text_cell row ''pr_head_sha'')
      in case parsed_approval w (m_content response) of
           None \<Rightarrow> no Response_not_structured_approval
         | Some ok \<Rightarrow>
             if \<not> ok then no Response_not_approved
             else if resolveFounderAttributionGateOn w (va_env args) env (va_dotenv args)
               \<and> founderId \<noteq> None \<and> \<not> isTrustedApprovalAttribution (Some responseFrom) founderId
             then no Response_not_founder_attributed
             else if status row \<noteq> approved_to_ship then no_status Status_not_approved_to_ship
             else if \<not> truthy expected then no_status Pr_head_sha_missing
             else if expected \<noteq> Some prHead then (no_status Pr_head_sha_mismatch)\<lparr>vr_expected := expected\<rparr>
             else if resolveCodexHardGateOn w (va_env args) env (va_dotenv args)
               \<and> \<not> column_on (cells row ''codex_skip'') \<and> \<not> codexApprovedForHead f (va_exec args) prHead
             then (no_status Codex_review_not_approved)\<lparr>vr_expected := expected\<rparr>
             else \<lparr>vr_approved = True, vr_reason = Approved, vr_question = Some questionId, vr_from = Some responseFrom,
                vr_status = Some (status row), vr_expected = expected, vr_exit = 0\<rparr>)"

definition verifyApproval :: "ship_world \<Rightarrow> verify_args \<Rightarrow> verify_result" where
  "verifyApproval w args =
     (let env = or_else (va_env args) (sw_process_env w); prHead = ascii_lower (trim (va_head args)) in
      if \<not> full_sha prHead then notApproved Invalid_pr_head_format
      else (case sw_state w (resolveStateDbPath w (va_state_db args) env) of
          No_file \<Rightarrow> notApproved State_db_unreadable
        | Unreadable \<Rightarrow> notApproved State_db_unreadable
        | State_db f \<Rightarrow> (case getSession (sf_sessions f) (va_exec args) of
              None \<Rightarrow> notApproved Session_not_found
            | Some row \<Rightarrow> (case trimmed (review_question_id row) of
                  None \<Rightarrow> (notApproved Review_question_unbound)\<lparr>vr_status := Some (status row)\<rparr>
                | Some questionId \<Rightarrow>
                    if questionId = REVIEW_BINDING_UNBOUND
                    then (notApproved Review_question_unbound)\<lparr>vr_status := Some (status row)\<rparr>
                    else (case bound_response w (va_db args) (va_exec args) questionId of
                        Inl reason \<Rightarrow> (notApproved reason)\<lparr>vr_question := Some questionId\<rparr>
                      | Inr response \<Rightarrow> verify_answer w args f row prHead questionId response)))))"

text \<open>\<open>replace(/\/$/, "")\<close>.\<close>

definition drop_slash :: "string \<Rightarrow> string" where
  "drop_slash u = (if u \<noteq> [] \<and> last u = CHR ''/'' then butlast u else u)"

definition bridge_head :: "json \<Rightarrow> string option" where
  "bridge_head payload =
     (let head = (case json_prop payload ''prHeadSha'' of JStr h \<Rightarrow> ascii_lower (trim h) | _ \<Rightarrow> []) in
      if json_prop payload ''ok'' = JBool True \<and> full_sha head then Some head else None)"

definition claims_read_on :: "ship_world \<Rightarrow> env_vars option \<Rightarrow> string option \<Rightarrow> bool" where
  "claims_read_on w vars dotenvPath =
     (case injected vars WORKFLOW_CLAIMS_READ of
        Some v \<Rightarrow> v = one_text
      | None \<Rightarrow> (case sw_text w (dotenv_path w dotenvPath) of
            Some content \<Rightarrow> readEnvValueFromContent content WORKFLOW_CLAIMS_READ = Some one_text
          | None \<Rightarrow> or_else vars (sw_process_env w) WORKFLOW_CLAIMS_READ = Some one_text))"

definition verifyApprovalWithBridgeHead :: "ship_world \<Rightarrow> verify_args \<Rightarrow> string \<Rightarrow> string option \<Rightarrow> verify_result" where
  "verifyApprovalWithBridgeHead w args bridgeUrl workflowDotenv =
     (let callerHead = ascii_lower (trim (va_head args)); url = drop_slash (trim bridgeUrl) in
      if \<not> claims_read_on w (va_env args) workflowDotenv then verifyApproval w args
      else if \<not> full_sha callerHead then notApproved Invalid_pr_head_format
      else if url = [] then notApproved Head_authority_unavailable
      else (case (case sw_head_answer w url (va_exec args) of None \<Rightarrow> None | Some p \<Rightarrow> bridge_head p) of
          None \<Rightarrow> notApproved Head_authority_unavailable
        | Some head \<Rightarrow>
            if callerHead \<noteq> head then (notApproved Head_authority_mismatch)\<lparr>vr_expected := Some head\<rparr>
            else verifyApproval w (args\<lparr>va_head := head\<rparr>)))"

subsection \<open>The QA gate\<close>

datatype qa_reason = Qa_ok | Qa_gate_off | Qa_not_required | Qa_not_passed | Qa_claim_ok | Qa_claim_missing
  | Qa_claim_gate_unenrolled | Qa_head_unavailable | Qa_head_mismatch | Qa_snapshot_exempt | Qa_snapshot_failclosed
  | Qa_invalid_pr_head | Qa_state_db_unreadable | Qa_session_not_found

record qa_result =
  qr_passed :: bool
  qr_reason :: qa_reason
  qr_required :: "bool option"

definition qa_answer :: "bool \<Rightarrow> qa_reason \<Rightarrow> qa_result" where
  "qa_answer passed reason = \<lparr>qr_passed = passed, qr_reason = reason, qr_required = None\<rparr>"

definition qa_node :: string where "qa_node = ''qa''"

definition qa_binding :: "ledger \<Rightarrow> string \<Rightarrow> binding_row option" where
  "qa_binding db e = find (\<lambda>b. bind_execution_id b = e \<and> bind_node_id b = qa_node
     \<and> list_ex (\<lambda>n. rn_run_id n = bind_run_id b \<and> rn_node_id n = bind_node_id b \<and> rn_attempt n = bind_attempt b
          \<and> rn_execution_id n = Some e) (run_nodes db)
     \<and> list_ex (\<lambda>r. run_id r = bind_run_id b \<and> run_current_qa_attempt r = Some (bind_attempt b)
          \<and> run_claims_read_enrolled r) (runs db)) (bindings db)"

definition qa_claims :: "ledger \<Rightarrow> binding_row \<Rightarrow> string \<Rightarrow> string \<Rightarrow> claim_row list" where
  "qa_claims db b e prHead = sort_key (\<lambda>c. - cl_server_seq c) (filter (\<lambda>c. cl_run_id c = bind_run_id b
     \<and> cl_node_id c = Some (bind_node_id b) \<and> cl_decision_kind c = ''qa_verdict''
     \<and> cl_attempt c = Some (bind_attempt b) \<and> cl_issuer_execution_id c = Some e \<and> cl_subject_kind c = ''git_head''
     \<and> ascii_lower (cl_subject_digest c) = prHead) (claims db))"

definition claim_expired :: "ship_world \<Rightarrow> claim_row \<Rightarrow> bool" where
  "claim_expired w c = (\<not> cl_permanent c \<and> (\<not> truthy (cl_expires_at c)
     \<or> (case date_parse (sw_run w) (the (cl_expires_at c)) of None \<Rightarrow> True | Some t \<Rightarrow> t \<le> sw_now_ms w)))"

definition qa_passed_predicate :: string where "qa_passed_predicate = ''qa_passed''"

definition resolveEnrolledQaClaim :: "ship_world \<Rightarrow> ledger option \<Rightarrow> string \<Rightarrow> string \<Rightarrow> qa_result" where
  "resolveEnrolledQaClaim w tables e prHead =
     (case tables of
        None \<Rightarrow> qa_answer False Qa_claim_gate_unenrolled
      | Some db \<Rightarrow> (case qa_binding db e of
            None \<Rightarrow> qa_answer False Qa_claim_gate_unenrolled
          | Some b \<Rightarrow> (case qa_claims db b e prHead of
                [] \<Rightarrow> qa_answer False Qa_claim_missing
              | candidate # rest \<Rightarrow>
                  if list_ex (\<lambda>c. cl_predicate c \<noteq> cl_predicate candidate) rest
                    \<or> list_ex (\<lambda>x. rev_claim_id x = cl_id candidate) (revocations db)
                    \<or> claim_expired w candidate
                  then qa_answer False Qa_claim_missing
                  else if cl_predicate candidate = qa_passed_predicate then qa_answer True Qa_claim_ok
                  else qa_answer False Qa_claim_missing)))"

definition NO_QA_ROUTES :: "string list" where
  "NO_QA_ROUTES = [''no_code'', ''pr_handoff'']"

definition qa_role :: string where "qa_role = ''qa''"

definition qaPassedForHead :: "state_file \<Rightarrow> string \<Rightarrow> string \<Rightarrow> bool" where
  "qaPassedForHead f e prHead = (case sf_qa f of None \<Rightarrow> False
     | Some rows \<Rightarrow> list_ex (\<lambda>r. aq_parent r = e \<and> ascii_lower (aq_head r) = prHead \<and> aq_status r = Qa_passed) rows)"

text \<open>The snapshot: \<open>0\<close> exempts, \<open>1\<close> requires a pass, and without one only a route that merges no code
  is exempt.\<close>

definition qa_by_snapshot :: "state_file \<Rightarrow> session_row \<Rightarrow> string \<Rightarrow> string \<Rightarrow> qa_result" where
  "qa_by_snapshot f row e prHead =
     (if text_cell row ''qa_required'' = Some zero_text
      then (qa_answer True Qa_not_required)\<lparr>qr_required := Some False\<rparr>
      else if text_cell row ''qa_required'' = Some one_text
      then (if qaPassedForHead f e prHead then (qa_answer True Qa_ok)\<lparr>qr_required := Some True\<rparr>
            else (qa_answer False Qa_not_passed)\<lparr>qr_required := Some True\<rparr>)
      else if sql_in (text_cell row ''decision_route'') NO_QA_ROUTES \<or> cells row ''pr_number'' = None
      then qa_answer True Qa_snapshot_exempt
      else qa_answer False Qa_snapshot_failclosed)"

record qa_args =
  qg_exec :: string
  qg_head :: string
  qg_state_db :: "string option"
  qg_env :: "env_vars option"
  qg_dotenv :: "string option"

definition evaluateQaShipGate :: "ship_world \<Rightarrow> qa_args \<Rightarrow> qa_result" where
  "evaluateQaShipGate w args =
     (let env = or_else (qg_env args) (sw_process_env w); prHead = ascii_lower (trim (qg_head args));
          forceLegacy = resolveDefaultOffGate w WORKFLOW_FORCE_LEGACY (qg_env args) env (qg_dotenv args)
      in if \<not> resolveDefaultOnGate w QA_DONE_GATE (qg_env args) env (qg_dotenv args) then qa_answer True Qa_gate_off
         else if \<not> full_sha prHead then qa_answer False Qa_invalid_pr_head
         else (case sw_state w (resolveStateDbPath w (qg_state_db args) env) of
             No_file \<Rightarrow> qa_answer False Qa_state_db_unreadable
           | Unreadable \<Rightarrow> qa_answer False Qa_state_db_unreadable
           | State_db f \<Rightarrow> (case getSession (sf_sessions f) (qg_exec args) of
                 None \<Rightarrow> qa_answer False Qa_session_not_found
               | Some row \<Rightarrow>
                   if text_cell row ''session_role'' = Some qa_role \<and> text_cell row ''chat_thread_role'' = Some qa_role
                     \<and> \<not> forceLegacy
                   then (if \<not> resolveWorkflowClaimsReadEnabled w (qg_env args) (qg_dotenv args)
                         then qa_answer False Qa_claim_gate_unenrolled
                         else resolveEnrolledQaClaim w (sf_ledger f) (qg_exec args) prHead)
                   else qa_by_snapshot f row (qg_exec args) prHead)))"

subsection \<open>Ship eligibility\<close>

datatype merge_reason = Merge_gate_off | Verified verify_reason

record ship_decision =
  sh_eligible :: bool
  sh_merge_ok :: bool
  sh_qa_ok :: bool
  sh_merge_reason :: merge_reason
  sh_qa_reason :: qa_reason

record ship_args =
  sa_exec :: string
  sa_head :: string
  sa_comm_db :: string
  sa_state_db :: "string option"
  sa_env :: "env_vars option"
  sa_codex_dotenv :: "string option"
  sa_qa_dotenv :: "string option"

definition verify_args_of :: "ship_args \<Rightarrow> verify_args" where
  "verify_args_of a = \<lparr>va_exec = sa_exec a, va_head = sa_head a, va_db = sa_comm_db a, va_state_db = sa_state_db a,
     va_env = sa_env a, va_dotenv = sa_codex_dotenv a\<rparr>"

definition qa_args_of :: "ship_args \<Rightarrow> qa_args" where
  "qa_args_of a = \<lparr>qg_exec = sa_exec a, qg_head = sa_head a, qg_state_db = sa_state_db a, qg_env = sa_env a,
     qg_dotenv = sa_qa_dotenv a\<rparr>"

definition evaluateShipEligibility :: "ship_world \<Rightarrow> ship_args \<Rightarrow> ship_decision" where
  "evaluateShipEligibility w a =
     (let env = or_else (sa_env a) (sw_process_env w);
          mergeGateOn = resolveDefaultOnGate w MERGE_APPROVAL_GATE (sa_env a) env (sa_codex_dotenv a);
          approval = verifyApproval w (verify_args_of a);
          (ok, reason) = (if \<not> mergeGateOn then (True, Merge_gate_off)
            else (vr_approved approval, Verified (vr_reason approval)));
          qa = evaluateQaShipGate w (qa_args_of a)
      in \<lparr>sh_eligible = (ok \<and> qr_passed qa), sh_merge_ok = ok, sh_qa_ok = qr_passed qa, sh_merge_reason = reason,
          sh_qa_reason = qr_reason qa\<rparr>)"

subsection \<open>The Bridge's side (merge-ship-gate.ts, head-authority.ts)\<close>

datatype head_error = Execution_not_found | Worktree_not_found | Git_head_unavailable | Invalid_git_head

definition resolveWorkflowHeadAuthority :: "ship_world \<Rightarrow> session_store \<Rightarrow> string \<Rightarrow> (head_error, string) result" where
  "resolveWorkflowHeadAuthority w ss e =
     (case getSession ss e of
        None \<Rightarrow> Inl Execution_not_found
      | Some row \<Rightarrow> (case trimmed (text_cell row ''worktree_path'') of
            None \<Rightarrow> Inl Worktree_not_found
          | Some path \<Rightarrow> (case sw_git_head w path of
                None \<Rightarrow> Inl Git_head_unavailable
              | Some out \<Rightarrow> (let head = ascii_lower (trim out) in
                  if full_sha head then Inr head else Inl Invalid_git_head))))"

text \<open>The path of the Bridge's own database is an argument.\<close>

definition computeShipDecision :: "ship_world \<Rightarrow> string \<Rightarrow> string \<Rightarrow> session_row \<Rightarrow> string \<Rightarrow> env_vars \<Rightarrow> ship_decision" where
  "computeShipDecision w dbPath e row prHead vars = evaluateShipEligibility w
     \<lparr>sa_exec = e, sa_head = prHead,
      sa_comm_db = (if truthy (text_cell row ''project_name'')
        then commDbPathForProject w (the (text_cell row ''project_name'')) else []),
      sa_state_db = Some dbPath, sa_env = Some vars, sa_codex_dotenv = None, sa_qa_dotenv = None\<rparr>"

definition refused :: "verify_reason \<Rightarrow> qa_reason \<Rightarrow> ship_decision" where
  "refused merge qa = \<lparr>sh_eligible = False, sh_merge_ok = False, sh_qa_ok = False, sh_merge_reason = Verified merge,
     sh_qa_reason = qa\<rparr>"

definition computeAuthoritativeShipDecision :: "ship_world \<Rightarrow> string \<Rightarrow> session_store \<Rightarrow> string \<Rightarrow> session_row
    \<Rightarrow> string option \<Rightarrow> env_vars \<Rightarrow> ship_decision \<times> string" where
  "computeAuthoritativeShipDecision w dbPath ss e row observedHead vars =
     (if \<not> resolveWorkflowClaimsReadEnabled w (Some vars) None
      then (computeShipDecision w dbPath e row (or_else observedHead []) vars,
            or_else (map_option (\<lambda>h. ascii_lower (trim h)) observedHead) [])
      else (case resolveWorkflowHeadAuthority w ss e of
          Inl _ \<Rightarrow> (refused Head_authority_unavailable Qa_head_unavailable, [])
        | Inr head \<Rightarrow>
            (let compared = map_option (\<lambda>h. ascii_lower (trim h)) observedHead in
             if truthy compared \<and> compared \<noteq> Some head then (refused Head_authority_mismatch Qa_head_mismatch, head)
             else (computeShipDecision w dbPath e row head vars, head))))"

definition isMergeBlocked :: "session_row option \<Rightarrow> bool" where
  "isMergeBlocked row = (case row of None \<Rightarrow> False | Some r \<Rightarrow> column_on (cells r ''merge_block_reason''))"

fun verify_reason_text :: "verify_reason \<Rightarrow> string" where
  "verify_reason_text Approved = ''approved''"
| "verify_reason_text Invalid_pr_head_format = ''invalid_pr_head_format''"
| "verify_reason_text Head_authority_unavailable = ''head_authority_unavailable''"
| "verify_reason_text Head_authority_mismatch = ''head_authority_mismatch''"
| "verify_reason_text State_db_unreadable = ''state_db_unreadable''"
| "verify_reason_text Session_not_found = ''session_not_found''"
| "verify_reason_text Review_question_unbound = ''review_question_unbound''"
| "verify_reason_text Commdb_unreadable = ''commdb_unreadable''"
| "verify_reason_text Review_question_missing = ''review_question_missing''"
| "verify_reason_text Review_question_invalid = ''review_question_invalid''"
| "verify_reason_text Gate_not_answered = ''gate_not_answered''"
| "verify_reason_text Response_not_structured_approval = ''response_not_structured_approval''"
| "verify_reason_text Response_not_approved = ''response_not_approved''"
| "verify_reason_text Response_not_founder_attributed = ''response_not_founder_attributed''"
| "verify_reason_text Status_not_approved_to_ship = ''status_not_approved_to_ship''"
| "verify_reason_text Pr_head_sha_missing = ''pr_head_sha_missing''"
| "verify_reason_text Pr_head_sha_mismatch = ''pr_head_sha_mismatch''"
| "verify_reason_text Codex_review_not_approved = ''codex_review_not_approved''"

fun merge_reason_text :: "merge_reason \<Rightarrow> string" where
  "merge_reason_text Merge_gate_off = ''merge_gate_off''"
| "merge_reason_text (Verified r) = verify_reason_text r"

fun qa_reason_text :: "qa_reason \<Rightarrow> string" where
  "qa_reason_text Qa_ok = ''qa_ok''"
| "qa_reason_text Qa_gate_off = ''qa_gate_off''"
| "qa_reason_text Qa_not_required = ''qa_not_required''"
| "qa_reason_text Qa_not_passed = ''qa_not_passed''"
| "qa_reason_text Qa_claim_ok = ''qa_claim_ok''"
| "qa_reason_text Qa_claim_missing = ''qa_claim_missing_failclosed''"
| "qa_reason_text Qa_claim_gate_unenrolled = ''qa_claim_gate_unenrolled_failclosed''"
| "qa_reason_text Qa_head_unavailable = ''head_authority_unavailable_failclosed''"
| "qa_reason_text Qa_head_mismatch = ''head_authority_mismatch_failclosed''"
| "qa_reason_text Qa_snapshot_exempt = ''qa_snapshot_missing_exempt''"
| "qa_reason_text Qa_snapshot_failclosed = ''qa_snapshot_missing_failclosed''"
| "qa_reason_text Qa_invalid_pr_head = ''invalid_pr_head_format''"
| "qa_reason_text Qa_state_db_unreadable = ''state_db_unreadable''"
| "qa_reason_text Qa_session_not_found = ''session_not_found''"

definition parkMergeBlock :: "string \<Rightarrow> string \<Rightarrow> string \<Rightarrow> ship_decision \<Rightarrow> session_store \<Rightarrow> bool \<times> session_store" where
  "parkMergeBlock now e prHead d ss = setMergeBlock now e
     (''merge_without_approval:'' @ merge_reason_text (sh_merge_reason d) @ ''/'' @ qa_reason_text (sh_qa_reason d)) prHead ss"

definition clearMergeBlockOnApproval :: "string \<Rightarrow> session_store \<Rightarrow> bool \<times> session_store" where
  "clearMergeBlockOnApproval e ss =
     (case getSession ss e of
        None \<Rightarrow> (False, ss)
      | Some r \<Rightarrow>
          (let head = map_option (\<lambda>h. ascii_lower (trim h)) (text_cell r ''pr_head_sha'');
               markerHead = map_option (\<lambda>h. ascii_lower (trim h)) (text_cell r ''merge_block_head'')
           in if isMergeBlocked (Some r) \<and> truthy head \<and> truthy markerHead \<and> head = markerHead
              then (True, clearMergeBlock e ss) else (False, ss)))"

text \<open>The fields \<open>finalizeRecoveredMerge\<close> writes with \<open>completed\<close>: those of the row it read, and the time.\<close>

definition recovered_fields :: "string \<Rightarrow> session_row \<Rightarrow> session_fields" where
  "recovered_fields now r c =
     (if c \<in> set [''issue_id'', ''issue_identifier'', ''issue_title'', ''project_name'']
      then (case cells r c of None \<Rightarrow> Undefined | Some v \<Rightarrow> Value v)
      else if c = ''last_activity_at'' then Value (Txt now) else Undefined)"

definition completed_status :: string where "completed_status = ''completed''"

text \<open>The recovery up to the status write; the finalization after it (worktree, Linear, chat) is best
  effort and does not change the answer.\<close>

definition finalizeRecoveredMerge :: "ship_world \<Rightarrow> string \<Rightarrow> string \<Rightarrow> string \<Rightarrow> env_vars \<Rightarrow> session_store
    \<Rightarrow> (session_error, bool \<times> session_store) result" where
  "finalizeRecoveredMerge w dbPath now e vars ss =
     (case getSession ss e of
        None \<Rightarrow> Inr (False, ss)
      | Some s \<Rightarrow>
          if \<not> isMergeBlocked (Some s) then Inr (False, ss)
          else (case trimmed (text_cell s ''merge_block_head'') of
              None \<Rightarrow> Inr (False, ss)
            | Some markerHead \<Rightarrow>
                (let (d, authoritativeHead) = computeAuthoritativeShipDecision w dbPath ss e s
                       (map_option trim (text_cell s ''pr_head_sha'')) vars
                 in if authoritativeHead = [] \<or> ascii_lower markerHead \<noteq> authoritativeHead then Inr (False, ss)
                    else if \<not> sh_eligible d then Inr (False, ss)
                    else and_then (upsertSession now e completed_status (recovered_fields now s)
                        (snd (clearMergeBlockOnApproval e ss))) (\<lambda>ss'. Inr (True, ss')))))"

subsection \<open>The QA policy (auto-qa-policy.ts)\<close>

datatype qa_config = Config_absent | Config_malformed string | Qa_config "bool option" "string list option"

datatype qa_policy = Qa_enabled | Off_kill_switch | Off_no_qa_label | Off_malformed string | Off_opt_out | Off_skip_label string

definition AUTO_QA :: string where "AUTO_QA = ''FLYWHEEL_AUTO_QA''"
definition NO_QA_LABEL :: string where "NO_QA_LABEL = ''no-qa''"

definition resolveAutoQaPolicy :: "env_vars \<Rightarrow> string list \<Rightarrow> qa_config option \<Rightarrow> qa_policy" where
  "resolveAutoQaPolicy vars issueLabels cfg =
     (let ls = map ascii_lower issueLabels in
      if vars AUTO_QA = Some zero_text then Off_kill_switch
      else if NO_QA_LABEL \<in> set ls then Off_no_qa_label
      else (case cfg of
          Some (Config_malformed reason) \<Rightarrow> Off_malformed reason
        | Some (Qa_config auto skip_labels) \<Rightarrow>
            if auto = Some False then Off_opt_out
            else (case find (\<lambda>l. l \<in> set (map ascii_lower (or_else skip_labels []))) ls of
                Some hit \<Rightarrow> Off_skip_label hit | None \<Rightarrow> Qa_enabled)
        | _ \<Rightarrow> Qa_enabled))"

end
