(* ===== verification/ShipProps.thy ===== *)
theory ShipProps
  imports Ship SessionRun ReviewProps CommProps
begin

section \<open>What the ship gate guarantees\<close>

text \<open>
  What an approval rests on: the founder's answer, the head, the review behind it and the QA verdict; that
  the runner's reading of the review record is the Bridge's; that switches are read live; that a writer
  whose name a caller may choose cannot approve; and that a parked merge completes only when eligible.
\<close>

subsection \<open>Live switches\<close>

text \<open>The last line that assigns a key, and what a fold over the lines keeps.\<close>

definition assigned :: "string \<Rightarrow> string \<Rightarrow> string option" where
  "assigned key line = (if comment_line line then None else line_value key line)"

definition last_of :: "('a \<Rightarrow> 'b option) \<Rightarrow> 'a list \<Rightarrow> 'b option \<Rightarrow> 'b option" where
  "last_of f = fold (\<lambda>l v. coalesce (f l) v)"

lemma last_of_simps [simp]: "last_of f [] v = v" "last_of f (l # ls) v = last_of f ls (coalesce (f l) v)"
  by (simp_all add: last_of_def)

lemma last_of_start: "last_of f ls v = coalesce (last_of f ls None) v"
proof (induction ls arbitrary: v)
  case (Cons l ls)
  show ?case
    unfolding last_of_simps by (subst Cons.IH, subst (2) Cons.IH) (cases "f l"; cases "last_of f ls None"; simp)
qed simp

lemma last_of_None: "last_of f ls None = None \<longleftrightarrow> list_all (\<lambda>x. f x = None) ls"
proof (induction ls)
  case (Cons l ls)
  then show ?case using last_of_start [of f ls "f l"] by (cases "last_of f ls None"; cases "f l") simp_all
qed simp

definition last_gives :: "('a \<Rightarrow> 'b option) \<Rightarrow> 'a list \<Rightarrow> 'b \<Rightarrow> bool" where
  "last_gives f ls v = (\<exists>pre l post. ls = pre @ l # post \<and> f l = Some v \<and> list_all (\<lambda>x. f x = None) post)"

lemma last_gives_Cons: "last_gives f (l # ls) v \<longleftrightarrow> f l = Some v \<and> list_all (\<lambda>x. f x = None) ls \<or> last_gives f ls v"
  by (simp add: last_gives_def Cons_eq_append_conv) blast

lemma last_of_Some: "last_of f ls None = Some v \<longleftrightarrow> last_gives f ls v"
proof (induction ls)
  case Nil
  show ?case by (simp add: last_gives_def)
next
  case (Cons l ls)
  have step: "last_of f (l # ls) None = coalesce (last_of f ls None) (f l)" using last_of_start [of f ls "f l"] by simp
  show ?case
  proof (cases "last_of f ls None")
    case None
    then show ?thesis using Cons.IH last_of_None [of f ls] unfolding step last_gives_Cons by simp
  next
    case (Some u)
    then have "\<not> list_all (\<lambda>x. f x = None) ls" using last_of_None [of f ls] by simp
    then show ?thesis using Some Cons.IH unfolding step last_gives_Cons by simp
  qed
qed

lemma read_last: "readEnvValueFromContent content key = last_of (assigned key) (split_on newline content) None"
proof -
  have "read_line key = (\<lambda>l v. coalesce (assigned key l) v)"
    by (intro ext) (simp add: read_line_def assigned_def)
  then show ?thesis by (simp add: readEnvValueFromContent_def last_of_def)
qed


subsection \<open>The runner and the Bridge read the same verdict\<close>

text \<open>The state file the Bridge saves: its tables.\<close>

definition bridge_file :: "session_store \<Rightarrow> review_store \<Rightarrow> ledger option \<Rightarrow> state_file" where
  "bridge_file ss rs lg = \<lparr>sf_sessions = ss, sf_codex = Some (review_records rs), sf_qa = Some (qa_records rs), sf_ledger = lg\<rparr>"

lemma cli_review_match:
  assumes "review_run tr rs"
  shows "codexApprovedForHead (bridge_file ss rs lg) e (ascii_lower sha) \<longleftrightarrow> isCodexCodeReviewApproved ss rs e sha"
proof -
  have low: "ascii_lower (cr_head r) = cr_head r" if "r \<in> set (review_records rs)" for r
    using run_traced [OF assms] that by (auto simp: list_all_iff row_traced_def)
  note get = find_record [OF run_distinct [OF assms], of e "ascii_lower sha"]
  show ?thesis
  proof (cases "getCodexReviewRecord rs e (ascii_lower sha)")
    case None
    then have "\<not> (\<exists>r \<in> set (review_records rs). review_at e (ascii_lower sha) r)"
      by (simp add: getCodexReviewRecord_def find_None_iff)
    then have "codex_row (review_records rs) e (ascii_lower sha) = None"
      using low by (auto simp: codex_row_def find_None_iff review_at_def)
    then show ?thesis using None
      by (simp add: codexApprovedForHead_def bridge_file_def isCodexCodeReviewApproved_def)
  next
    case (Some r)
    then have r: "r \<in> set (review_records rs)" "review_key r = (e, ascii_lower sha)" using get by auto
    have one: "x = r" if "x \<in> set (review_records rs)" "cr_execution x = e" "ascii_lower (cr_head x) = ascii_lower sha" for x
      using key_unique [OF run_distinct [OF assms] that(1) r(1)] r(2) that low [OF that(1)] by (simp add: review_key_def)
    have "codex_row (review_records rs) e (ascii_lower sha)
        = (if cr_status r \<in> {Rv_approved, Rv_skipped} then Some r else None)"
    proof (cases "codex_row (review_records rs) e (ascii_lower sha)")
      case None
      then show ?thesis using r low [OF r(1)] by (auto simp: codex_row_def find_None_iff review_key_def)
    next
      case (Some x)
      then have "x \<in> set (review_records rs)" "cr_execution x = e" "ascii_lower (cr_head x) = ascii_lower sha"
        "cr_status x \<in> {Rv_approved, Rv_skipped}" by (auto simp: codex_row_def dest: find_Some_iff')
      then show ?thesis using Some one [of x] by auto
    qed
    then show ?thesis using Some
      by (cases "cr_status r")
        (auto simp: codexApprovedForHead_def bridge_file_def isCodexCodeReviewApproved_def crossFamilyReviewSatisfied_def)
  qed
qed

text \<open>C15: the runner's own check of the code review never differs from the Bridge's gate: for every
  review store the Bridge can reach, every session and every head, \<open>verify-approval\<close> finds an accepted
  review in the saved file just when \<open>isCodexCodeReviewApproved\<close> holds.\<close>

theorem cli_review_check_is_bridges:
  assumes "review_run tr rs"
  shows "codexApprovedForHead (bridge_file ss rs lg) e (ascii_lower sha) \<longleftrightarrow> isCodexCodeReviewApproved ss rs e sha"
  by (rule cli_review_match [OF assms])

subsection \<open>What an approval rests on\<close>

lemma verify_answer_ok:
  assumes "vr_approved (verify_answer w args f row prHead q r)"
  shows "parsed_approval w (m_content r) = Some True"
    and "resolveFounderAttributionGateOn w (va_env args) (or_else (va_env args) (sw_process_env w)) (va_dotenv args) \<Longrightarrow>
      resolveFounderId w (va_env args) (or_else (va_env args) (sw_process_env w)) (va_dotenv args) = Some founder \<Longrightarrow>
      isTrustedApprovalAttribution (Some (m_from r)) (Some founder)"
    and "status row = approved_to_ship"
    and "map_option (\<lambda>h. ascii_lower (trim h)) (text_cell row ''pr_head_sha'') = Some prHead"
    and "resolveCodexHardGateOn w (va_env args) (or_else (va_env args) (sw_process_env w)) (va_dotenv args) \<Longrightarrow>
      column_on (cells row ''codex_skip'') \<or> codexApprovedForHead f (va_exec args) prHead"
    and "vr_from (verify_answer w args f row prHead q r) = Some (m_from r)"
  using assms by (auto simp: verify_answer_def Let_def notApproved_def split: option.splits bool.splits if_splits)

lemma bound_response_ok:
  assumes "bound_response w dbPath e q = Inr r"
  obtains db m where "sw_comm w dbPath = Some db" "getMessageById db q = Some m" "m_type m = Question"
    "m_checkpoint m = Some approve_to_ship" "m_from m = e" "getResponse db q = Some r"
  using assms by (auto simp: bound_response_def split: option.splits if_splits)

lemma verify_ok:
  assumes "vr_approved (verifyApproval w args)"
  obtains f row q r where "full_sha (ascii_lower (trim (va_head args)))"
    "sw_state w (resolveStateDbPath w (va_state_db args) (or_else (va_env args) (sw_process_env w))) = State_db f"
    "getSession (sf_sessions f) (va_exec args) = Some row" "trimmed (review_question_id row) = Some q"
    "bound_response w (va_db args) (va_exec args) q = Inr r"
    "vr_approved (verify_answer w args f row (ascii_lower (trim (va_head args))) q r)"
    "verifyApproval w args = verify_answer w args f row (ascii_lower (trim (va_head args))) q r"
  using assms by (auto simp: verifyApproval_def Let_def notApproved_def split: db_file.splits option.splits sum.splits if_splits)


text \<open>The switches of the four checks, for the Bridge and for a runner alike.\<close>

definition all_gates_on :: "ship_world \<Rightarrow> ship_args \<Rightarrow> bool" where
  "all_gates_on w a = (let env = or_else (sa_env a) (sw_process_env w) in
     resolveDefaultOnGate w MERGE_APPROVAL_GATE (sa_env a) env (sa_codex_dotenv a)
     \<and> resolveDefaultOnGate w QA_DONE_GATE (sa_env a) env (sa_qa_dotenv a)
     \<and> resolveCodexHardGateOn w (sa_env a) env (sa_codex_dotenv a)
     \<and> resolveFounderAttributionGateOn w (sa_env a) env (sa_codex_dotenv a))"

definition ship_state_path :: "ship_world \<Rightarrow> ship_args \<Rightarrow> string" where
  "ship_state_path w a = resolveStateDbPath w (sa_state_db a) (or_else (sa_env a) (sw_process_env w))"

definition ship_founder :: "ship_world \<Rightarrow> ship_args \<Rightarrow> string option" where
  "ship_founder w a = resolveFounderId w (sa_env a) (or_else (sa_env a) (sw_process_env w)) (sa_codex_dotenv a)"

lemma eligible_parts:
  assumes "sh_eligible (evaluateShipEligibility w a)" and "all_gates_on w a"
  shows "vr_approved (verifyApproval w (verify_args_of a))" and "qr_passed (evaluateQaShipGate w (qa_args_of a))"
  using assms by (simp_all add: evaluateShipEligibility_def all_gates_on_def Let_def)

lemma qa_gate_snapshot:
  assumes "qr_passed (evaluateQaShipGate w (qa_args_of a))" and "all_gates_on w a"
    and "sw_state w (ship_state_path w a) = State_db (bridge_file ss rs lg)" and "getSession ss (sa_exec a) = Some row"
    and "text_cell row ''session_role'' \<noteq> Some qa_role" and "text_cell row ''qa_required'' = Some one_text"
  shows "list_ex (\<lambda>r. aq_parent r = sa_exec a \<and> ascii_lower (aq_head r) = ascii_lower (trim (sa_head a))
    \<and> aq_status r = Qa_passed) (qa_records rs)"
proof -
  have "evaluateQaShipGate w (qa_args_of a) = qa_by_snapshot (bridge_file ss rs lg) row (sa_exec a) (ascii_lower (trim (sa_head a)))
      \<or> \<not> qr_passed (evaluateQaShipGate w (qa_args_of a))"
    using assms(2-5) by (simp add: evaluateQaShipGate_def qa_args_of_def all_gates_on_def Let_def ship_state_path_def
        bridge_file_def qa_answer_def)
  then have "qr_passed (qa_by_snapshot (bridge_file ss rs lg) row (sa_exec a) (ascii_lower (trim (sa_head a))))"
    using assms(1) by metis
  moreover have "one_text \<noteq> zero_text" by (simp add: one_text_def zero_text_def)
  ultimately show ?thesis using assms(6)
    by (simp add: qa_by_snapshot_def qaPassedForHead_def bridge_file_def qa_answer_def split: if_splits)
qed


subsection \<open>Recovery of a parked merge\<close>

lemma hex_letter_bits: "is_hex (Char b0 b1 b2 b3 b4 b5 b6 b7) \<Longrightarrow> letter (Char b0 b1 b2 b3 b4 b5 b6 b7)"
  by (cases b4; cases b5; cases b6; cases b7) (auto simp: is_hex_def letter_def Let_def of_bool_def split: if_splits)

lemma hex_letter: "is_hex c \<Longrightarrow> letter c"
  by (cases c) (simp add: hex_letter_bits)

lemma full_sha_trim: "full_sha s \<Longrightarrow> trim s = s"
proof -
  assume "full_sha s"
  then have "s \<noteq> []" "\<forall>c \<in> set s. is_hex c" by (auto simp: full_sha_def list_all_iff)
  then have "s \<noteq> []" "letter (hd s)" "letter (last s)" by (simp_all add: hex_letter)
  then show ?thesis by (simp add: trim_code)
qed

lemma head_authority_full: "resolveWorkflowHeadAuthority w ss e = Inr h \<Longrightarrow> full_sha h \<and> ascii_lower h = h"
  by (auto simp: resolveWorkflowHeadAuthority_def Let_def split: option.splits if_splits)

lemma authoritative_decision:
  assumes "computeAuthoritativeShipDecision w dbPath ss e row observed vars = (d, head)" and "sh_eligible d"
  obtains h where "d = computeShipDecision w dbPath e row h vars" "ascii_lower (trim h) = head"
proof (cases "resolveWorkflowClaimsReadEnabled w (Some vars) None")
  case False
  have "trim [] = []" by (simp add: trim_def strip_none no_prefix_def begins_with_def)
  then show ?thesis using assms(1) False that [of "or_else observed []"]
    by (cases observed) (auto simp: computeAuthoritativeShipDecision_def ascii_lower_def)
next
  case True
  then obtain h where h: "resolveWorkflowHeadAuthority w ss e = Inr h"
    using assms by (auto simp: computeAuthoritativeShipDecision_def refused_def split: sum.splits)
  then have "d = computeShipDecision w dbPath e row h vars" "head = h"
    using True assms by (auto simp: computeAuthoritativeShipDecision_def refused_def Let_def split: if_splits)
  then show ?thesis using that [of h] head_authority_full [OF h] full_sha_trim [of h] by simp
qed

text \<open>C10: a merge that was parked for want of approval completes only on the head it was parked for, and
  only when that head is eligible while the park still stands. When the recovery answers yes, the session
  was blocked, the marker names the head the eligibility was decided for, the session is now completed and
  no other session changed; when it answers no, nothing changed.\<close>

theorem recovery_needs_eligible_marker_head:
  assumes "finalizeRecoveredMerge w dbPath now e vars ss = Inr (b, ss')"
  shows "if b then (\<exists>row marker h. getSession ss e = Some row \<and> isMergeBlocked (Some row)
      \<and> trimmed (text_cell row ''merge_block_head'') = Some marker \<and> ascii_lower (trim h) = ascii_lower marker
      \<and> sh_eligible (computeShipDecision w dbPath e row h vars)
      \<and> state_of ss' e = completed_status \<and> (\<forall>x. x = e \<or> getSession ss' x = getSession ss x))
    else ss' = ss"
proof (cases b)
  case False
  then show ?thesis using assms
    by (auto simp: finalizeRecoveredMerge_def Let_def and_then_ok split: option.splits prod.splits if_splits)
next
  case True
  obtain row where row: "getSession ss e = Some row" using assms True by (auto simp: finalizeRecoveredMerge_def split: option.splits)
  obtain marker where marker: "trimmed (text_cell row ''merge_block_head'') = Some marker" and blocked: "isMergeBlocked (Some row)"
    using assms True row by (auto simp: finalizeRecoveredMerge_def split: option.splits if_splits)
  obtain d head where d: "computeAuthoritativeShipDecision w dbPath ss e row (map_option trim (text_cell row ''pr_head_sha'')) vars = (d, head)"
    by fastforce
  have ok: "ascii_lower marker = head" "sh_eligible d"
    and up: "upsertSession now e completed_status (recovered_fields now row) (snd (clearMergeBlockOnApproval e ss)) = Inr ss'"
    using assms True row marker blocked d by (auto simp: finalizeRecoveredMerge_def and_then_ok split: if_splits)
  obtain h where h: "d = computeShipDecision w dbPath e row h vars" "ascii_lower (trim h) = head"
    using authoritative_decision [OF d ok(2)] .
  have "completed_status \<noteq> running_status" by (simp add: completed_status_def running_status_def)
  then have "persistTransition now e completed_status (recovered_fields now row) (snd (clearMergeBlockOnApproval e ss)) = Inr ss'"
    using up by (simp add: upsertSession_def persistTransition_def)
  note written = persist_row(2,3) [OF this]
  have "x \<noteq> e \<Longrightarrow> getSession (snd (clearMergeBlockOnApproval e ss)) x = getSession ss x" for x
    by (simp add: clearMergeBlockOnApproval_def clearMergeBlock_def Let_def split: option.split)
  then have "\<forall>x. x = e \<or> getSession ss' x = getSession ss x" using written(1) by metis
  then show ?thesis using True row blocked marker h ok written(2) by auto
qed

subsection \<open>A head that ships\<close>

text \<open>The session of the review example, approved to ship, its ship gate answered by the Bridge.\<close>

definition ship_cells :: "session_column \<Rightarrow> sql_value option" where
  "ship_cells c = (if c = ''qa_required'' then Some (Num one_text)
     else if c = ''merge_block_reason'' then Some (Txt ''merge_without_approval'')
     else if c = ''merge_block_head'' then Some (Txt play_head)
     else if c \<in> set [''issue_id'', ''project_name''] then Some (Txt ''p'') else play_cells c)"

definition ship_row :: session_row where
  "ship_row = play_row\<lparr>status := approved_to_ship, review_question_id := Some ''q'', cells := ship_cells\<rparr>"

definition ship_sessions :: session_store where
  "ship_sessions = \<lparr>sessions = [(''e'', ship_row)], session_events = [], retry_dispatch_intents = []\<rparr>"

definition ship_calls :: "review_call list" where
  "ship_calls = [play_approve ''q'', Claim_qa ''e'' play_head ''i'' ''p'', Set_qa_status ''e'' play_head Qa_passed None True]"

definition ship_reviews :: review_store where
  "ship_reviews = snd (review_play play_env ship_sessions ship_calls empty_review_store)"

definition ship_trace :: review_trace where
  "ship_trace = fst (review_play play_env ship_sessions ship_calls empty_review_store)"

lemma ship_run: "review_run ship_trace ship_reviews"
  unfolding ship_trace_def ship_reviews_def by (rule play_run)

definition ship_comm :: comm_db where
  "ship_comm = played_db [(at_second 0 ''q'', Ask ''e'' ''lead'' ''ship?'' ship_gate),
     (at_second 5 ''r'', Respond ''q'' ''bridge'' ''yes'')] empty_comm_db"

definition demo_founder :: string where "demo_founder = replicate 17 CHR ''7''"

definition demo_env :: env_vars where
  "demo_env k = (if k = FOUNDER_ID_KEY then Some demo_founder else None)"

definition demo_world :: ship_world where
  "demo_world = \<lparr>sw_home = ''/h'', sw_process_env = demo_env, sw_text = (\<lambda>_. None),
     sw_state = (\<lambda>_. State_db (bridge_file ship_sessions ship_reviews None)), sw_comm = (\<lambda>_. Some ship_comm),
     sw_json = (\<lambda>_. Some (JObj [(approved_key, JBool True)])), sw_now_ms = 0, sw_run = play_env,
     sw_git_head = (\<lambda>_. None), sw_head_answer = (\<lambda>_ _. None)\<rparr>"

definition demo_args :: ship_args where
  "demo_args = \<lparr>sa_exec = ''e'', sa_head = play_head, sa_comm_db = ''c'', sa_state_db = None, sa_env = None,
     sa_codex_dotenv = None, sa_qa_dotenv = None\<rparr>"

lemma demo_session: "getSession ship_sessions ''e'' = Some ship_row"
  by (simp add: getSession_def ship_sessions_def)


theorem cli_review_check_is_bridges_witness:
  "codexApprovedForHead (bridge_file ship_sessions ship_reviews None) ''e'' (ascii_lower play_head)
   \<and> isCodexCodeReviewApproved ship_sessions ship_reviews ''e'' play_head"
proof -
  have "codexApprovedForHead (bridge_file ship_sessions ship_reviews None) ''e'' (ascii_lower play_head)" by code_simp
  then show ?thesis using cli_review_check_is_bridges [OF ship_run] by blast
qed


text \<open>A runner that inherited the gate off: the file turned it off, then the line is deleted.\<close>

definition off_file :: string where
  "off_file = ''A=1'' @ [newline] @ HARD_GATE_ENV @ ''=0''"

definition with_file :: "string \<Rightarrow> ship_world" where
  "with_file content = demo_world\<lparr>sw_text := (\<lambda>_. Some content)\<rparr>"

lemma plain_line: "l \<noteq> [] \<Longrightarrow> letter (hd l) \<Longrightarrow> \<not> begins_with ''#'' l \<Longrightarrow> \<not> begins_with export_word l \<Longrightarrow>
    \<not> comment_line l \<and> line_value key l = after_key key l"
  by (simp add: comment_line_def line_value_def strip_none no_white_space)

definition off_line :: string where "off_line = HARD_GATE_ENV @ ''=0''"

lemma demo_lines:
  "\<not> comment_line off_line" "line_value HARD_GATE_ENV off_line = Some zero_text" "line_value HARD_GATE_ENV ''A=1'' = None"
proof -
  have "off_line \<noteq> [] \<and> letter (hd off_line) \<and> \<not> begins_with ''#'' off_line \<and> \<not> begins_with export_word off_line" by code_simp
  then have "\<not> comment_line off_line \<and> line_value HARD_GATE_ENV off_line = after_key HARD_GATE_ENV off_line"
    using plain_line by blast
  moreover have "after_key HARD_GATE_ENV off_line = Some zero_text" by code_simp
  ultimately show "\<not> comment_line off_line" "line_value HARD_GATE_ENV off_line = Some zero_text" by simp_all
  have "''A=1'' \<noteq> [] \<and> letter (hd ''A=1'') \<and> \<not> begins_with ''#'' ''A=1'' \<and> \<not> begins_with export_word ''A=1''" by code_simp
  then have "line_value HARD_GATE_ENV ''A=1'' = after_key HARD_GATE_ENV ''A=1''" using plain_line by blast
  also have "\<dots> = None" by code_simp
  finally show "line_value HARD_GATE_ENV ''A=1'' = None" .
qed


theorem recovery_needs_eligible_marker_head_witness:
  "\<exists>ss'. finalizeRecoveredMerge demo_world ''s'' ''now'' ''e'' demo_env ship_sessions = Inr (True, ss')
     \<and> state_of ss' ''e'' = completed_status"
proof -
  have "is_ok (finalizeRecoveredMerge demo_world ''s'' ''now'' ''e'' demo_env ship_sessions)" by code_simp
  then obtain b ss' where r: "finalizeRecoveredMerge demo_world ''s'' ''now'' ''e'' demo_env ship_sessions = Inr (b, ss')"
    by (cases "finalizeRecoveredMerge demo_world ''s'' ''now'' ''e'' demo_env ship_sessions") auto
  have "(case finalizeRecoveredMerge demo_world ''s'' ''now'' ''e'' demo_env ship_sessions of Inr (b, _) \<Rightarrow> b | Inl _ \<Rightarrow> False)"
    by code_simp
  then have b using r by simp
  then show ?thesis using recovery_needs_eligible_marker_head [OF r] r by auto
qed

text \<open>With the merge gate off and claims read on, the head comes from git and the session needs no
  \<open>pr_head_sha\<close>; the recovery then completes the session, but the marker is cleared only against that
  column and stays.\<close>

definition headless_sessions :: session_store where
  "headless_sessions = \<lparr>sessions = [(''e'', ship_row\<lparr>cells := ship_cells(''pr_head_sha'' := None, ''worktree_path'' := Some (Txt ''/w''))\<rparr>)],
     session_events = [], retry_dispatch_intents = []\<rparr>"

definition headless_env :: env_vars where
  "headless_env k = (if k = MERGE_APPROVAL_GATE then Some zero_text else if k = WORKFLOW_CLAIMS_READ then Some one_text else None)"

definition headless_world :: ship_world where
  "headless_world = demo_world\<lparr>sw_git_head := (\<lambda>_. Some play_head),
     sw_state := (\<lambda>_. State_db (bridge_file headless_sessions ship_reviews None))\<rparr>"

lemma marker_left_on_completed_session:
  "(case finalizeRecoveredMerge headless_world ''s'' ''now'' ''e'' headless_env headless_sessions of
     Inr (True, ss') \<Rightarrow> state_of ss' ''e'' = completed_status \<and> isMergeBlocked (getSession ss' ''e'') | _ \<Rightarrow> False)"
  by code_simp

end
