(* ===== verification/Spec2Isabelle.thy ===== *)
theory Spec2Isabelle
  imports SessionProps DispatcherProps LedgerLive JournalProps TemplateProps ReviewProps CommProps ShipProps
begin

text \<open>
  Flywheel turns issues into work for coding agents. This development models the parts of it that
  decide: which issue may start, what a workflow may look like, which session is in which status, which
  verdict counts, what a lead has been told, and when a merge may ship. Eight subsystems, each a group
  of theories.

  The program. \<open>LinearGraphBuilder\<close> turns issues into a dependency graph, \<open>DagResolver\<close> keeps which of
  its nodes are ready, and \<open>DagDispatcher\<close> runs the ready nodes under a \<open>Semaphore\<close>. Each run is a
  session of the bridge: \<open>WorkflowFSM\<close> holds the legal status changes, \<open>applyTransition\<close> checks and
  stores one, \<open>DirectiveExecutor\<close> logs it, and the \<open>sessions\<close> table of \<open>StateStore\<close> also takes the
  metadata, review and worktree writes of the bridge. The manifest of a workflow is validated by
  \<open>workflow-template\<close>, kept with its revisions and publications in the template tables, and copied into
  the run that materialises it. The workflow ledger of \<open>StateStore\<close> records runs, nodes, admissions,
  single-use authorities, claims (the verdicts that open gates), revocations and the outbox of side
  effects; the review tables beside it hold the code reviews, review jobs and QA verdicts per head.
  Runners and leads talk through the communication database of flywheel-comm: questions, answers, turns
  and wakes. A Codex lead takes its inputs through \<open>LeadJournal\<close> and \<open>LeadInputRouter\<close>, so that a crash
  neither loses nor repeats a model turn. The ship gate reads all three at the end: the founder's answer
  in the communication database, the session and its reviews in the store, the claims in the ledger.

  Theories and the code they model:

  \<^item> \<open>Prelude\<close>, \<open>Runtime\<close>, \<open>JsText\<close>: results, optional values, insertion-ordered maps, the clock, ISO
    dates, JSON text and \<open>canonicalJsonString\<close> (config/src/canonical-json.ts), \<open>trim\<close> and prefixes.
  \<^item> \<open>Dag\<close>: dag-resolver/src. \<open>DagKahn\<close> proves the cycle check right, \<open>DagRun\<close> relates the in-degree
    counters to an abstract notion of released blocker, \<open>DagProps\<close> states the interface of the
    dispatcher as the locale \<open>work_source\<close>, interprets it on the resolver and holds the properties.
  \<^item> \<open>Dispatcher\<close>: core/src/Semaphore.ts and edge-worker/src/DagDispatcher.ts as a state machine whose
    steps are the stretches between two awaits. \<open>DispatcherInv\<close> is its invariant; \<open>DispatcherProps\<close>
    has the bound on concurrency, dependency order, termination with deadlock freedom, completeness.
  \<^item> \<open>Fsm\<close>: core/src/workflow-fsm.ts and directive-types.ts. \<open>Sessions\<close>: the session tables of
    teamlead/src/StateStore.ts with applyTransition.ts and DirectiveExecutor.ts. \<open>SessionRun\<close> has one
    lemma on the row a call touches (\<open>session_do_row\<close>), \<open>SessionProps\<close> the properties over all
    sequences of calls.
  \<^item> \<open>Manifest\<close>: the validator, the graph checks and \<open>applyWorkflowOverride\<close> of
    teamlead/src/workflow-template.ts. \<open>ManifestGraph\<close> proves the two searches right, \<open>ManifestWf\<close> states
    what is accepted without the parser, \<open>ManifestRoute\<close> shows that an accepted graph is one line,
    \<open>ManifestOverride\<close> what each edit keeps, \<open>ManifestProps\<close> the properties. \<open>Templates\<close>: the template
    tables of StateStore.ts; \<open>TemplateInv\<close> its step relation and invariant, \<open>TemplateLogs\<close> the
    append-only tables and the seed import, \<open>TemplateProps\<close> the properties.
  \<^item> \<open>LedgerData\<close> (teamlead/src/workflow-claims.ts and one record per table), \<open>LedgerBase\<close> (inserts with
    the constraints of the schema, shared statements), \<open>LedgerClaims\<close>, \<open>LedgerSource\<close>,
    \<open>LedgerAdmission\<close>, \<open>LedgerShadow\<close>: the workflow ledger of StateStore.ts, an operation per
    definition. \<open>LedgerRun\<close> makes the calls a step relation; \<open>LedgerInv\<close>, \<open>LedgerClaimInv\<close>,
    \<open>LedgerOutbox\<close> are its invariants, \<open>LedgerEffects\<close> the exact effect of each call, \<open>LedgerHistory\<close>
    what a step does to the past; \<open>LedgerUse\<close>, \<open>LedgerProps\<close>, \<open>LedgerGate\<close>, \<open>LedgerResolve\<close>,
    \<open>LedgerSourceProps\<close>, \<open>LedgerLive\<close> hold the properties, \<open>LedgerDemo\<close> the run the witnesses use.
  \<^item> \<open>Reviews\<close>: the tables of reviews, review jobs and QA records of StateStore.ts, with
    config/src/review-family.ts, bridge/codex-gate.ts and bridge/auto-qa-held.ts. \<open>ReviewRun\<close> has the
    calls and their traces, \<open>ReviewInv\<close> traces every fact of a row to the call that wrote it,
    \<open>ReviewProps\<close> holds the properties.
  \<^item> \<open>CommDb\<close> (messages, gates, source events) and \<open>CommTurns\<close> (turns, wakes, shutdowns, registry):
    flywheel-comm/src/db.ts. \<open>CommRun\<close> has the calls and what each does to the messages, \<open>CommInv\<close> the
    integrity of questions and answers, epochs and wakes, \<open>CommProps\<close> the properties.
  \<^item> \<open>Journal\<close>: teamlead/src/lead-backends/codex/LeadJournal.ts and SqliteJournalStore.ts;
    \<open>JournalStores\<close> states what the journal needs of a store as the locale \<open>journal_contract\<close> and
    interprets it on both stores. \<open>LeadRouter\<close>: LeadInputRouter.ts, its asynchronous functions as
    trees of journal writes and external calls; \<open>LeadRouterRun\<close> and \<open>LeadRouterInv\<close> work inside the
    locale, \<open>LeadRouterSettle\<close> follows a program to its end; \<open>LeadProps\<close> and \<open>JournalProps\<close> hold the
    properties.
  \<^item> \<open>Ship\<close>: flywheel-comm/src/commands/verify-approval.ts, ship-eligibility.ts and
    founder-attribution.ts, teamlead/src/bridge/merge-ship-gate.ts, head-authority.ts, auto-qa-policy.ts
    and commdb-path.ts. \<open>ShipProps\<close> holds the properties and uses the runs of sessions, reviews and
    messages.

  What the lemmas show. Of the graph: the constructor accepts exactly acyclic graphs, \<open>getReady\<close> is
  exactly the set of released pending nodes in every reachable state, a run is never stuck and ends
  after at most \<open>4 n + 2\<close> dispatcher steps (each node is scheduled, granted, ended and removed once,
  plus the two ways out of the loop). Of sessions: statuses move along the map, the revision a
  founder's confirmation rests on changes with every status change, review deadlines and worktree
  bindings cannot be moved, and the audit trail replays to the status. Of manifests: an accepted one is a
  single line from its start to the terminal gate, is a fixed point of the validator, and keeps that line
  under an override; a materialised run pins the published revision. Of the ledger: one claim per
  capability, no same-vendor review, replay without effect, revocation for ever, and the exact
  condition under which a gate opens. Of reviews: an open gate has verdicts of different families
  behind it, a lead hears of a hold once, and no verdict leaves the outbox undelivered. Of the
  communication database: an answer is final, purges keep answers with their questions, a turn grant is
  replayed and not repeated. Of a lead: one turn per input over every crash, every taken input settled,
  no duplicate intake, and the same behaviour over both stores. Of the ship gate: what an approval that
  passes rests on, that the runner and the bridge read a review alike, that the switches are read
  live, and that a parked merge completes only when it is eligible.

  Modelling choices. Strings are read as UTF-8 byte sequences; lower-casing acts on ASCII letters;
  \<open>trim\<close> removes the white space of the language. Numbers are unbounded integers where
  the code checks them, and a number the code only stores is kept as the text it prints. A call of
  the ledger reads the clock once; the text of a date outside the ISO form, SHA-256 and the random
  tokens are parameters, as are the executor, sender, typing notifier and route hook of the router,
  the outcome of a blueprint, the guards and hooks of the state machine. JSON and YAML text that code
  parses is taken as the value it encodes; so are the manifest column of a revision and the payload of a
  source event. A column limited to a few strings is a datatype of them. A table is the list of its rows
  in rowid order, which is the order of a \<open>SELECT\<close> without \<open>ORDER BY\<close> and of rows an \<open>ORDER BY\<close> leaves
  equal; the constraints of the schema stand in the \<open>insert_\<close> definitions,
  uniqueness of the conflict target is tested before the primary key, NOT NULL before both; the
  append-only triggers never fire because no operation updates or deletes those rows. A call that
  throws leaves its store unchanged: its statements are one transaction. A lookup by key ignores the
  names an object inherits. Times of messages are whole seconds. The router is cut at every journal
  write and external call, so a restart may fall between any two. What the ship gate reads (files,
  databases, environment, git, the answer of the bridge) is one record \<open>ship_world\<close>; a database
  whose \<open>sessions\<close> table lacks a column counts as unreadable. No definition uses fuel: the loops are
  structural, terminate by a measure (Kahn's queue by counts plus queued ids, the searches of a manifest
  by what they have not visited), or are steps of a state machine whose runs are bounded.

  Findings. A blocker named twice makes an acyclic graph look cyclic (DagResolver.ts:48). The decision
  kind of a system claim is not checked against its predicate (StateStore.ts:11271). Two source
  events can share an uid (StateStore.ts:11486). The SQLite journal drops the output of an observation
  (SqliteJournalStore.ts:145). A session whose \<open>worktree_ready\<close> arrives first loses its phase role
  (event-route.ts:795). The monotonic guard of \<open>upsertSession\<close> has a way round (StateStore.ts:196),
  and two columns called immutable can be patched (StateStore.ts:2760). An unknown manifest key that is
  the empty string is accepted (workflow-template.ts:152). \<open>resolveGate\<close> can give a question a longer
  life than its answer, so that a purge takes the answer alone (db.ts:554). A recovery that decides on
  the git head leaves its park marker behind (merge-ship-gate.ts:250). The order in which the two
  directory variables apply is not the documented one (commdb-path.ts:14).

  Not modelled: the shadow writer, the delivery stores of a lead, account healing and the phase policy;
  the best-effort finalization after a recovered merge; SQLite, its migrations and the
  other tables of the store; the HTTP routes, pollers, reconcilers, consoles and notifications of the
  bridge; runners, git, worktrees, tmux, Discord, Linear, GitHub and Slack; the voice packages,
  command-line tools and static content. They are reads and writes of external systems around the
  decisions modelled here.
\<close>

end
